(* ===== verification/UB_Prelude.thy ===== *)
theory UB_Prelude
  imports Complex_Main "HOL-Library.Word" "HOL-Library.AList"
begin

text \<open>
  Shared vocabulary of the development: the Python exceptions the modelled code can raise and the
  result type that carries them, byte strings, Python slicing with its treatment of negative and
  out-of-range bounds, insertion-ordered dictionaries as association lists, and the lemmas on
  them that the components use. The collection \<open>py_slice_simps\<close> holds the slicing facts,
  \<open>result_simps\<close> the facts on results.
\<close>

named_theorems py_slice_simps
named_theorems result_simps

section \<open>Exceptions and results\<close>

text \<open>
  One constructor per exception class that the modelled code raises. \<open>Unmodelled\<close> marks the
  inputs on which the model stops without claiming what CPython does (text outside Latin-1,
  non-finite floats, metadata fields of a JSON type the SDK never sends).
\<close>

datatype py_error =
    StructError
  | ValueError string
  | KeyError string
  | TypeError
  | AttributeError
  | ZeroDivisionError
  | OverflowError
  | RecursionError
  | ConnectionError string
  | RuntimeError string
  | TimeoutError
  | AssertionError string
  | IndexError
  | OSError
  | Unmodelled string

type_synonym 'a result = "py_error + 'a"

definition rbind :: "'a result \<Rightarrow> ('a \<Rightarrow> 'b result) \<Rightarrow> 'b result" where
  "rbind r f = (case r of Inl e \<Rightarrow> Inl e | Inr x \<Rightarrow> f x)"

lemma rbind_simps [simp]:
  "rbind (Inl e) f = Inl e"
  "rbind (Inr x) f = f x"
  by (simp_all add: rbind_def)

lemma rbind_eq_Inr [result_simps]:
  "rbind r f = Inr y \<longleftrightarrow> (\<exists>x. r = Inr x \<and> f x = Inr y)"
  by (cases r) simp_all

lemma rbind_eq_Inl [result_simps]:
  "rbind r f = Inl e \<longleftrightarrow> r = Inl e \<or> (\<exists>x. r = Inr x \<and> f x = Inl e)"
  by (cases r) simp_all

section \<open>Byte strings\<close>

type_synonym byte = "8 word"
type_synonym bytes = "byte list"

text \<open>\<open>bytes(a ^ b for a, b in zip(xs, ys))\<close>: as long as the shorter argument.\<close>

definition xor_bytes :: "bytes \<Rightarrow> bytes \<Rightarrow> bytes" where
  "xor_bytes xs ys = map2 (\<lambda>a b. xor a b) xs ys"

lemma length_xor_bytes [simp]: "length (xor_bytes xs ys) = min (length xs) (length ys)"
  by (simp add: xor_bytes_def)

lemma nth_xor_bytes:
  "i < length xs \<Longrightarrow> i < length ys \<Longrightarrow> xor_bytes xs ys ! i = xor (xs ! i) (ys ! i)"
  by (simp add: xor_bytes_def)

lemma xor_bytes_cancel: "length xs \<le> length ks \<Longrightarrow> xor_bytes (xor_bytes xs ks) ks = xs"
  by (rule nth_equalityI) (simp_all add: nth_xor_bytes xor.assoc)

lemma xor_bytes_same_key:
  assumes "length xs = length ys" and "length xs \<le> length ks"
  shows "xor_bytes (xor_bytes xs ks) (xor_bytes ys ks) = xor_bytes xs ys"
proof (rule nth_equalityI)
  show "length (xor_bytes (xor_bytes xs ks) (xor_bytes ys ks)) = length (xor_bytes xs ys)"
    using assms by simp
next
  fix i
  assume "i < length (xor_bytes (xor_bytes xs ks) (xor_bytes ys ks))"
  then have i: "i < length xs" "i < length ys" "i < length ks"
    using assms by simp_all
  have "xor (xor a k) (xor b k) = xor a b" for a b k :: byte
    by (metis xor.assoc xor.commute xor_self_eq xor.right_neutral)
  then show "xor_bytes (xor_bytes xs ks) (xor_bytes ys ks) ! i = xor_bytes xs ys ! i"
    using i by (simp add: nth_xor_bytes)
qed

section \<open>Python slices\<close>

text \<open>
  \<open>xs[i:j]\<close> with step 1: a negative bound counts from the end, then each bound is clamped to
  \<open>0..len(xs)\<close>, and an empty range gives an empty slice. \<open>xs[i:j] = ys\<close> on a
  \<open>bytearray\<close> replaces the same range (at \<open>i\<close> when the range is empty), so the length
  changes when \<open>ys\<close> has another length than the range.
\<close>

definition py_clamp :: "nat \<Rightarrow> int \<Rightarrow> nat" where
  "py_clamp n i = (if i < 0 then nat (int n + i) else min n (nat i))"

definition py_slice :: "'a list \<Rightarrow> int \<Rightarrow> int \<Rightarrow> 'a list" where
  "py_slice xs i j =
     (let a = py_clamp (length xs) i; b = py_clamp (length xs) j in take (b - a) (drop a xs))"

definition py_slice_set :: "'a list \<Rightarrow> int \<Rightarrow> int \<Rightarrow> 'a list \<Rightarrow> 'a list" where
  "py_slice_set xs i j ys =
     (let a = py_clamp (length xs) i; b = py_clamp (length xs) j
      in take a xs @ ys @ drop (max a b) xs)"

text \<open>\<open>xs[i:]\<close> with the end left out.\<close>

definition py_slice_from :: "'a list \<Rightarrow> int \<Rightarrow> 'a list" where
  "py_slice_from xs i = drop (py_clamp (length xs) i) xs"

lemma py_clamp_le [simp]: "py_clamp n i \<le> n"
  by (simp add: py_clamp_def) linarith

lemma py_clamp_nonneg [py_slice_simps]: "0 \<le> i \<Longrightarrow> i \<le> int n \<Longrightarrow> py_clamp n i = nat i"
  by (simp add: py_clamp_def min_def) linarith

lemma py_slice_nonneg [py_slice_simps]:
  assumes "0 \<le> i" "0 \<le> l" "i + l \<le> int (length xs)"
  shows "py_slice xs i (i + l) = take (nat l) (drop (nat i) xs)"
  using assms by (simp add: py_slice_def py_clamp_nonneg nat_add_distrib)

lemma length_py_slice [py_slice_simps]:
  assumes "0 \<le> i" "0 \<le> l" "i + l \<le> int (length xs)"
  shows "length (py_slice xs i (i + l)) = nat l"
  using assms by (simp add: py_slice_nonneg min_def) linarith

lemma py_slice_set_nonneg [py_slice_simps]:
  assumes "0 \<le> i" "i + int (length ys) \<le> int (length xs)"
  shows "py_slice_set xs i (i + int (length ys)) ys
         = take (nat i) xs @ ys @ drop (nat i + length ys) xs"
  using assms by (simp add: py_slice_set_def py_clamp_nonneg nat_add_distrib Let_def)

lemma length_py_slice_set [py_slice_simps]:
  assumes "0 \<le> i" "i + int (length ys) \<le> int (length xs)"
  shows "length (py_slice_set xs i (i + int (length ys)) ys) = length xs"
  using assms by (simp add: py_slice_set_nonneg min_def) linarith

text \<open>Reading back a written range gives the written bytes; disjoint ranges are untouched.\<close>

lemma py_slice_of_set [py_slice_simps]:
  assumes "0 \<le> i" "i + int (length ys) \<le> int (length xs)"
  shows "py_slice (py_slice_set xs i (i + int (length ys)) ys) i (i + int (length ys)) = ys"
proof -
  have l: "nat i \<le> length xs" using assms by linarith
  have "length (py_slice_set xs i (i + int (length ys)) ys) = length xs"
    using assms by (rule length_py_slice_set)
  then have "py_slice (py_slice_set xs i (i + int (length ys)) ys) i (i + int (length ys))
      = take (length ys) (drop (nat i) (take (nat i) xs @ ys @ drop (nat i + length ys) xs))"
    using assms by (simp add: py_slice_nonneg py_slice_set_nonneg)
  also have "\<dots> = ys" using l by (simp add: min_def)
  finally show ?thesis .
qed

lemma py_slice_set_frame:
  assumes "0 \<le> i" "i + int (length ys) \<le> int (length xs)"
    and "0 \<le> k" "0 \<le> l" "k + l \<le> int (length xs)"
    and disj: "k + l \<le> i \<or> i + int (length ys) \<le> k"
  shows "py_slice (py_slice_set xs i (i + int (length ys)) ys) k (k + l) = py_slice xs k (k + l)"
proof (rule nth_equalityI)
  let ?xs' = "py_slice_set xs i (i + int (length ys)) ys"
  have len: "length ?xs' = length xs" using assms(1,2) by (rule length_py_slice_set)
  show "length (py_slice ?xs' k (k + l)) = length (py_slice xs k (k + l))"
    using assms(3,4,5) len by (simp add: length_py_slice)
  fix n assume "n < length (py_slice ?xs' k (k + l))"
  then have n: "n < nat l" using assms(3,4,5) len by (simp add: length_py_slice)
  have nth': "py_slice zs k (k + l) ! n = zs ! (nat k + n)" if "length zs = length xs" for zs :: "'a list"
    using assms(3,4,5) n that by (simp add: py_slice_nonneg)
  have "nat k + n < nat i \<or> nat i + length ys \<le> nat k + n" "nat i + length ys \<le> length xs"
    "nat k + n < length xs"
    using disj n assms(1-5) by linarith+
  then have "?xs' ! (nat k + n) = xs ! (nat k + n)"
    unfolding py_slice_set_nonneg [OF assms(1,2)] by (auto simp: nth_append min_def)
  then show "py_slice ?xs' k (k + l) ! n = py_slice xs k (k + l) ! n"
    using len by (simp add: nth')
qed

section \<open>Insertion-ordered dictionaries\<close>

text \<open>
  A Python \<open>dict\<close> keeps the order of first insertion, and iteration follows it (the topology
  reply and the emergency broadcast depend on it). The model is an association list with
  \<open>AList.update\<close> (replace in place, or append) and \<open>AList.delete\<close>.
\<close>

type_synonym ('k, 'v) dict = "('k \<times> 'v) list"

abbreviation dict_get :: "('k, 'v) dict \<Rightarrow> 'k \<Rightarrow> 'v option" where
  "dict_get d k \<equiv> map_of d k"

abbreviation dict_set :: "'k \<Rightarrow> 'v \<Rightarrow> ('k, 'v) dict \<Rightarrow> ('k, 'v) dict" where
  "dict_set \<equiv> AList.update"

abbreviation dict_del :: "'k \<Rightarrow> ('k, 'v) dict \<Rightarrow> ('k, 'v) dict" where
  "dict_del \<equiv> AList.delete"

abbreviation dict_ok :: "('k, 'v) dict \<Rightarrow> bool" where
  "dict_ok d \<equiv> distinct (map fst d)"

lemma dict_get_set [simp]: "dict_get (dict_set k v d) k' = (if k' = k then Some v else dict_get d k')"
  by (simp add: update_conv)

lemma dict_get_del [simp]: "dict_get (dict_del k d) k' = (if k' = k then None else dict_get d k')"
  by (simp add: delete_conv)

text \<open>The value-mapping update of one entry, \<open>d[k].field = ...\<close>, when the key is present.\<close>

definition dict_adjust :: "'k \<Rightarrow> ('v \<Rightarrow> 'v) \<Rightarrow> ('k, 'v) dict \<Rightarrow> ('k, 'v) dict" where
  "dict_adjust k f d = (case dict_get d k of None \<Rightarrow> d | Some v \<Rightarrow> dict_set k (f v) d)"

lemma dict_get_adjust [simp]:
  "dict_get (dict_adjust k f d) k' = (if k' = k then map_option f (dict_get d k) else dict_get d k')"
  by (auto simp: dict_adjust_def split: option.splits)

lemma keys_dict_adjust [simp]: "map fst (dict_adjust k f d) = map fst d"
  by (auto simp: dict_adjust_def update_keys map_of_eq_None_iff split: option.splits
      dest!: map_of_SomeD intro: rev_image_eqI)

lemma dict_adjust_absent: "dict_get d k = None \<Longrightarrow> dict_adjust k f d = d"
  by (simp add: dict_adjust_def)

end
