(* ===== verification/Opcodes.thy ===== *)
theory Opcodes
  imports UB_Prelude
begin

text \<open>
  The protocol's opcode table and flag bits (\<open>daemon/port.py\<close>). Each constant of the source is
  an input abbreviation of the same name, so a dispatch test reads as in the code;
  \<open>opcode_table\<close> lists them section by section with the range the source gives each
  section. No two opcodes collide, every opcode fits the one-byte header field, and every opcode
  lies in the range of its section.
\<close>

abbreviation (input) OP_LINK_TRAIN_REQ :: int where "OP_LINK_TRAIN_REQ \<equiv> 0x01"
abbreviation (input) OP_LINK_TRAIN_ACK :: int where "OP_LINK_TRAIN_ACK \<equiv> 0x02"
abbreviation (input) OP_LINK_CREDIT_UPDATE :: int where "OP_LINK_CREDIT_UPDATE \<equiv> 0x03"
abbreviation (input) OP_LINK_REPLAY_REQ :: int where "OP_LINK_REPLAY_REQ \<equiv> 0x04"
abbreviation (input) OP_LINK_RESET :: int where "OP_LINK_RESET \<equiv> 0x05"
abbreviation (input) OP_LINK_HEARTBEAT :: int where "OP_LINK_HEARTBEAT \<equiv> 0x06"
abbreviation (input) OP_TRANS_ACK :: int where "OP_TRANS_ACK \<equiv> 0x10"
abbreviation (input) OP_TRANS_NACK :: int where "OP_TRANS_NACK \<equiv> 0x11"
abbreviation (input) OP_TRANS_CNP :: int where "OP_TRANS_CNP \<equiv> 0x12"
abbreviation (input) OP_TRANS_PING :: int where "OP_TRANS_PING \<equiv> 0x13"
abbreviation (input) OP_TRANS_PONG :: int where "OP_TRANS_PONG \<equiv> 0x14"
abbreviation (input) OP_REG_NODE :: int where "OP_REG_NODE \<equiv> 0x20"
abbreviation (input) OP_UNREG_NODE :: int where "OP_UNREG_NODE \<equiv> 0x21"
abbreviation (input) OP_REG_SEG :: int where "OP_REG_SEG \<equiv> 0x22"
abbreviation (input) OP_UNREG_SEG :: int where "OP_UNREG_SEG \<equiv> 0x23"
abbreviation (input) OP_CREATE_JETTY :: int where "OP_CREATE_JETTY \<equiv> 0x24"
abbreviation (input) OP_DESTROY_JETTY :: int where "OP_DESTROY_JETTY \<equiv> 0x25"
abbreviation (input) OP_UBRT_QUERY :: int where "OP_UBRT_QUERY \<equiv> 0x26"
abbreviation (input) OP_MEM_READ :: int where "OP_MEM_READ \<equiv> 0x30"
abbreviation (input) OP_MEM_READ_RESP :: int where "OP_MEM_READ_RESP \<equiv> 0x31"
abbreviation (input) OP_MEM_WRITE :: int where "OP_MEM_WRITE \<equiv> 0x32"
abbreviation (input) OP_MEM_WRITE_RESP :: int where "OP_MEM_WRITE_RESP \<equiv> 0x33"
abbreviation (input) OP_MEM_ATOMIC_CAS :: int where "OP_MEM_ATOMIC_CAS \<equiv> 0x34"
abbreviation (input) OP_MEM_ATOMIC_ADD :: int where "OP_MEM_ATOMIC_ADD \<equiv> 0x35"
abbreviation (input) OP_MEM_ATOMIC_AND :: int where "OP_MEM_ATOMIC_AND \<equiv> 0x36"
abbreviation (input) OP_MEM_ATOMIC_OR :: int where "OP_MEM_ATOMIC_OR \<equiv> 0x37"
abbreviation (input) OP_MEM_ATOMIC_XOR :: int where "OP_MEM_ATOMIC_XOR \<equiv> 0x38"
abbreviation (input) OP_MEM_ATOMIC_SWAP :: int where "OP_MEM_ATOMIC_SWAP \<equiv> 0x39"
abbreviation (input) OP_MEM_ATOMIC_RESP :: int where "OP_MEM_ATOMIC_RESP \<equiv> 0x3A"
abbreviation (input) OP_MEM_FLUSH :: int where "OP_MEM_FLUSH \<equiv> 0x3B"
abbreviation (input) OP_MEM_INVAL :: int where "OP_MEM_INVAL \<equiv> 0x3C"
abbreviation (input) OP_SNOOP_REQ :: int where "OP_SNOOP_REQ \<equiv> 0x50"
abbreviation (input) OP_SNOOP_RESP :: int where "OP_SNOOP_RESP \<equiv> 0x51"
abbreviation (input) OP_CACHE_WB :: int where "OP_CACHE_WB \<equiv> 0x52"
abbreviation (input) OP_CACHE_EVICT :: int where "OP_CACHE_EVICT \<equiv> 0x53"
abbreviation (input) OP_URMA_WRITE :: int where "OP_URMA_WRITE \<equiv> 0x60"
abbreviation (input) OP_URMA_WRITE_IMM :: int where "OP_URMA_WRITE_IMM \<equiv> 0x61"
abbreviation (input) OP_URMA_READ :: int where "OP_URMA_READ \<equiv> 0x62"
abbreviation (input) OP_URMA_READ_RESP :: int where "OP_URMA_READ_RESP \<equiv> 0x63"
abbreviation (input) OP_URMA_SEND :: int where "OP_URMA_SEND \<equiv> 0x64"
abbreviation (input) OP_URMA_SEND_IMM :: int where "OP_URMA_SEND_IMM \<equiv> 0x65"
abbreviation (input) OP_URMA_RECV :: int where "OP_URMA_RECV \<equiv> 0x66"
abbreviation (input) OP_URMA_ATOMIC_CAS :: int where "OP_URMA_ATOMIC_CAS \<equiv> 0x67"
abbreviation (input) OP_URMA_ATOMIC_ADD :: int where "OP_URMA_ATOMIC_ADD \<equiv> 0x68"
abbreviation (input) OP_URMA_ATOMIC_RESP :: int where "OP_URMA_ATOMIC_RESP \<equiv> 0x69"
abbreviation (input) OP_CDMA_SUBMIT :: int where "OP_CDMA_SUBMIT \<equiv> 0x70"
abbreviation (input) OP_CDMA_COMPLETE :: int where "OP_CDMA_COMPLETE \<equiv> 0x71"
abbreviation (input) OP_CDMA_BARRIER :: int where "OP_CDMA_BARRIER \<equiv> 0x72"
abbreviation (input) OP_CDMA_FENCE :: int where "OP_CDMA_FENCE \<equiv> 0x73"
abbreviation (input) OP_UMS_SYN :: int where "OP_UMS_SYN \<equiv> 0x80"
abbreviation (input) OP_UMS_SYN_ACK :: int where "OP_UMS_SYN_ACK \<equiv> 0x81"
abbreviation (input) OP_UMS_DATA :: int where "OP_UMS_DATA \<equiv> 0x82"
abbreviation (input) OP_UMS_ACK :: int where "OP_UMS_ACK \<equiv> 0x83"
abbreviation (input) OP_UMS_FIN :: int where "OP_UMS_FIN \<equiv> 0x84"
abbreviation (input) OP_UMS_RST :: int where "OP_UMS_RST \<equiv> 0x85"
abbreviation (input) OP_URPC_CALL :: int where "OP_URPC_CALL \<equiv> 0x90"
abbreviation (input) OP_URPC_RETURN :: int where "OP_URPC_RETURN \<equiv> 0x91"
abbreviation (input) OP_UMQ_PUB :: int where "OP_UMQ_PUB \<equiv> 0x92"
abbreviation (input) OP_UMQ_SUB :: int where "OP_UMQ_SUB \<equiv> 0x93"
abbreviation (input) OP_UMQ_ACK :: int where "OP_UMQ_ACK \<equiv> 0x94"
abbreviation (input) OP_OBMM_EXPORT :: int where "OP_OBMM_EXPORT \<equiv> 0xA0"
abbreviation (input) OP_OBMM_IMPORT :: int where "OP_OBMM_IMPORT \<equiv> 0xA1"
abbreviation (input) OP_OBMM_RECLAIM :: int where "OP_OBMM_RECLAIM \<equiv> 0xA2"
abbreviation (input) OP_OBMM_MIGRATE :: int where "OP_OBMM_MIGRATE \<equiv> 0xA3"
abbreviation (input) OP_SENTRY_OOM_BLOCK :: int where "OP_SENTRY_OOM_BLOCK \<equiv> 0xB0"
abbreviation (input) OP_SENTRY_PANIC_BLOCK :: int where "OP_SENTRY_PANIC_BLOCK \<equiv> 0xB1"
abbreviation (input) OP_SENTRY_REBOOT_NOTIFY :: int where "OP_SENTRY_REBOOT_NOTIFY \<equiv> 0xB2"
abbreviation (input) OP_SENTRY_DISPATCH :: int where "OP_SENTRY_DISPATCH \<equiv> 0xB3"
abbreviation (input) OP_QUERY_TOPOLOGY :: int where "OP_QUERY_TOPOLOGY \<equiv> 0xC0"
abbreviation (input) OP_QUERY_STATS :: int where "OP_QUERY_STATS \<equiv> 0xC1"
abbreviation (input) OP_QUERY_DEVICE_CFG :: int where "OP_QUERY_DEVICE_CFG \<equiv> 0xC2"
abbreviation (input) OP_SET_CIP_CONFIG :: int where "OP_SET_CIP_CONFIG \<equiv> 0xC3"
abbreviation (input) OP_RESP_OK :: int where "OP_RESP_OK \<equiv> 0xF0"
abbreviation (input) OP_RESP_ERR :: int where "OP_RESP_ERR \<equiv> 0xF1"

text \<open>The sections of the table: first and last code of the section, and its opcodes.\<close>

definition opcode_table :: "((int \<times> int) \<times> int list) list" where
  "opcode_table =
     [((0x01, 0x0F),
        [OP_LINK_TRAIN_REQ, OP_LINK_TRAIN_ACK, OP_LINK_CREDIT_UPDATE, OP_LINK_REPLAY_REQ,
         OP_LINK_RESET, OP_LINK_HEARTBEAT]),
      ((0x10, 0x1F),
        [OP_TRANS_ACK, OP_TRANS_NACK, OP_TRANS_CNP, OP_TRANS_PING, OP_TRANS_PONG]),
      ((0x20, 0x2F),
        [OP_REG_NODE, OP_UNREG_NODE, OP_REG_SEG, OP_UNREG_SEG, OP_CREATE_JETTY,
         OP_DESTROY_JETTY, OP_UBRT_QUERY]),
      ((0x30, 0x4F),
        [OP_MEM_READ, OP_MEM_READ_RESP, OP_MEM_WRITE, OP_MEM_WRITE_RESP,
         OP_MEM_ATOMIC_CAS, OP_MEM_ATOMIC_ADD, OP_MEM_ATOMIC_AND, OP_MEM_ATOMIC_OR,
         OP_MEM_ATOMIC_XOR, OP_MEM_ATOMIC_SWAP, OP_MEM_ATOMIC_RESP, OP_MEM_FLUSH,
         OP_MEM_INVAL]),
      ((0x50, 0x5F),
        [OP_SNOOP_REQ, OP_SNOOP_RESP, OP_CACHE_WB, OP_CACHE_EVICT]),
      ((0x60, 0x6F),
        [OP_URMA_WRITE, OP_URMA_WRITE_IMM, OP_URMA_READ, OP_URMA_READ_RESP, OP_URMA_SEND,
         OP_URMA_SEND_IMM, OP_URMA_RECV, OP_URMA_ATOMIC_CAS, OP_URMA_ATOMIC_ADD,
         OP_URMA_ATOMIC_RESP]),
      ((0x70, 0x7F),
        [OP_CDMA_SUBMIT, OP_CDMA_COMPLETE, OP_CDMA_BARRIER, OP_CDMA_FENCE]),
      ((0x80, 0x8F),
        [OP_UMS_SYN, OP_UMS_SYN_ACK, OP_UMS_DATA, OP_UMS_ACK, OP_UMS_FIN, OP_UMS_RST]),
      ((0x90, 0x9F),
        [OP_URPC_CALL, OP_URPC_RETURN, OP_UMQ_PUB, OP_UMQ_SUB, OP_UMQ_ACK]),
      ((0xA0, 0xAF),
        [OP_OBMM_EXPORT, OP_OBMM_IMPORT, OP_OBMM_RECLAIM, OP_OBMM_MIGRATE]),
      ((0xB0, 0xBF),
        [OP_SENTRY_OOM_BLOCK, OP_SENTRY_PANIC_BLOCK, OP_SENTRY_REBOOT_NOTIFY,
         OP_SENTRY_DISPATCH]),
      ((0xC0, 0xFF),
        [OP_QUERY_TOPOLOGY, OP_QUERY_STATS, OP_QUERY_DEVICE_CFG, OP_SET_CIP_CONFIG,
         OP_RESP_OK, OP_RESP_ERR])]"

definition all_opcodes :: "int list" where
  "all_opcodes = concat (map snd opcode_table)"

text \<open>Flag bits: the high nibble of the flags byte.\<close>

definition FLAG_NONE :: int where
  "FLAG_NONE = 0x00"

definition FLAG_CIP_ENCRYPTED :: int where
  "FLAG_CIP_ENCRYPTED = 0x80"

definition FLAG_URGENT :: int where
  "FLAG_URGENT = 0x40"

definition FLAG_COMPRESSED :: int where
  "FLAG_COMPRESSED = 0x20"

lemma opcodes_in_sections:
  "\<forall>((lo, hi), ops) \<in> set opcode_table. \<forall>x \<in> set ops. lo \<le> x \<and> x \<le> hi \<and> 0 < x \<and> x < 256"
  by (simp add: opcode_table_def)

lemma opcodes_sorted: "sorted_wrt (<) all_opcodes"
  by (simp add: all_opcodes_def opcode_table_def)

lemma opcodes_distinct: "distinct all_opcodes"
  using opcodes_sorted strict_sorted_iff by blast

lemma opcodes_count: "length all_opcodes = 74"
  by (simp add: all_opcodes_def opcode_table_def)

text \<open>
  The opcode table is sound: the 74 codes increase through the table, so no two coincide; each
  lies in the range its section declares, and each fits the one-byte opcode field of the header.
\<close>

theorem opcode_table_sound:
  "sorted_wrt (<) all_opcodes \<and> distinct all_opcodes \<and> length all_opcodes = 74
   \<and> list_all (\<lambda>((lo, hi), ops). list_all (\<lambda>x. lo \<le> x \<and> x \<le> hi \<and> 0 < x \<and> x < 256) ops) opcode_table"
  using opcodes_sorted opcodes_distinct opcodes_count opcodes_in_sections
  by (simp add: list_all_iff)

end
