(* ===== verification/Wire_Bytes.thy ===== *)
theory Wire_Bytes
  imports UB_Prelude
begin

text \<open>
  The byte-level primitives of the packet codec: \<open>struct.pack\<close> and \<open>struct.unpack\<close> of
  big-endian unsigned integers, UTF-8 of the model's text type, and \<open>zlib.crc32\<close>. The
  interface \<open>fixed_codec\<close> states what the header codec relies on for each field; it is
  interpreted for the 1-, 2-, 4- and 8-byte formats. The last section proves that the CRC
  changes whenever one byte of its input does.
\<close>

section \<open>Big-endian unsigned integers\<close>

fun be_bytes :: "nat \<Rightarrow> int \<Rightarrow> bytes" where
  "be_bytes 0 i = []"
| "be_bytes (Suc n) i = be_bytes n (i div 256) @ [word_of_int i]"

definition be_val :: "bytes \<Rightarrow> int" where
  "be_val bs = foldl (\<lambda>a b. 256 * a + uint b) 0 bs"

text \<open>\<open>struct.pack\<close> refuses a value outside the format's range.\<close>

definition pack_uint :: "nat \<Rightarrow> int \<Rightarrow> bytes result" where
  "pack_uint n i = (if 0 \<le> i \<and> i < 256 ^ n then Inr (be_bytes n i) else Inl StructError)"

lemma length_be_bytes [simp]: "length (be_bytes n i) = n"
  by (induction n arbitrary: i) simp_all

lemma be_val_snoc: "be_val (bs @ [b]) = 256 * be_val bs + uint b"
  by (simp add: be_val_def)

lemma be_val_be_bytes: "be_val (be_bytes n i) = i mod 256 ^ n"
proof (induction n arbitrary: i)
  case (Suc n)
  have "be_val (be_bytes (Suc n) i) = 256 * (i div 256 mod 256 ^ n) + i mod 256"
    by (simp add: be_val_snoc Suc uint_word_of_int)
  also have "\<dots> = i mod (256 * 256 ^ n)"
    by (simp add: zmod_zmult2_eq)
  finally show ?case by simp
qed (simp add: be_val_def)

lemma uint_byte: "0 \<le> uint (b :: byte)" "uint (b :: byte) < 256"
  using uint_lt2p [of b] by simp_all

lemma be_val_bounds: "0 \<le> be_val bs \<and> be_val bs < 256 ^ length bs"
proof (induction bs rule: rev_induct)
  case (snoc b bs)
  then show ?case using uint_byte [of b] by (simp add: be_val_snoc)
qed (simp add: be_val_def)

lemma be_bytes_be_val: "be_bytes (length bs) (be_val bs) = bs"
proof (induction bs rule: rev_induct)
  case (snoc b bs)
  have "(256 * be_val bs + uint b) div 256 = be_val bs" using uint_byte [of b] by simp
  moreover have "word_of_int (256 * be_val bs + uint b) = b"
  proof (rule word_uint_eqI)
    show "uint (word_of_int (256 * be_val bs + uint b) :: byte) = uint b"
      using uint_byte [of b] by (simp only: uint_word_of_int) simp
  qed
  ultimately show ?case by (simp add: be_val_snoc snoc)
qed simp

section \<open>Fields of fixed width\<close>

text \<open>
  What a header field needs from its format: every encoding has the width of the format and
  decodes to the encoded value, and decoding bytes of that width loses nothing.
\<close>

locale fixed_codec =
  fixes width :: nat
    and enc :: "'a \<Rightarrow> bytes result"
    and dec :: "bytes \<Rightarrow> 'a"
  assumes enc_width: "enc x = Inr bs \<Longrightarrow> length bs = width"
    and dec_enc: "enc x = Inr bs \<Longrightarrow> dec bs = x"
    and enc_dec: "length bs = width \<Longrightarrow> enc (dec bs) = Inr bs"
begin

lemma dec_prefix: "enc x = Inr bs \<Longrightarrow> dec (take width (bs @ rest)) = x"
  using enc_width dec_enc by simp

lemma enc_inj: "enc x = Inr bs \<Longrightarrow> enc y = Inr bs \<Longrightarrow> x = y"
  using dec_enc by metis

text \<open>A corrupted field of the right width is read as another value.\<close>

lemma dec_changed: "enc x = Inr bs \<Longrightarrow> length bs' = width \<Longrightarrow> bs' \<noteq> bs \<Longrightarrow> dec bs' \<noteq> x"
  using enc_dec by (metis sum.inject(2))

end

lemma pack_uint_Inr: "pack_uint n i = Inr bs \<longleftrightarrow> 0 \<le> i \<and> i < 256 ^ n \<and> bs = be_bytes n i"
  by (auto simp: pack_uint_def)

lemma pack_uint_codec: "fixed_codec n (pack_uint n) be_val"
proof
  show "length bs = n" if "pack_uint n x = Inr bs" for x bs
    using that by (auto simp: pack_uint_Inr)
  show "be_val bs = x" if "pack_uint n x = Inr bs" for x bs
    using that by (auto simp: pack_uint_Inr be_val_be_bytes)
  show "pack_uint n (be_val bs) = Inr bs" if "length bs = n" for bs
    using that be_val_bounds [of bs] be_bytes_be_val [of bs] by (auto simp: pack_uint_Inr)
qed

interpretation u8: fixed_codec 1 "pack_uint 1" be_val
  by (rule pack_uint_codec)

interpretation u16: fixed_codec 2 "pack_uint 2" be_val
  by (rule pack_uint_codec)

interpretation u32: fixed_codec 4 "pack_uint 4" be_val
  by (rule pack_uint_codec)

interpretation u64: fixed_codec 8 "pack_uint 8" be_val
  by (rule pack_uint_codec)

section \<open>UTF-8\<close>

text \<open>Code points below 256 take one or two bytes.\<close>

definition utf8_char :: "char \<Rightarrow> bytes" where
  "utf8_char c =
     (let n = of_char c :: int
      in if n < 128 then [word_of_int n]
         else [word_of_int (192 + n div 64), word_of_int (128 + n mod 64)])"

definition encode_utf8 :: "string \<Rightarrow> bytes" where
  "encode_utf8 s = concat (map utf8_char s)"

text \<open>
  A byte that starts no character, or a missing continuation byte, raises
  \<open>UnicodeDecodeError\<close>, which is a \<open>ValueError\<close>. A lead byte from \<open>C4\<close> on would start a
  code point above 255.
\<close>

fun decode_utf8 :: "bytes \<Rightarrow> string result" where
  "decode_utf8 [] = Inr []"
| "decode_utf8 (b # bs) =
     (if uint b < 128 then rbind (decode_utf8 bs) (\<lambda>s. Inr (char_of (uint b) # s))
      else if uint b < 194 then Inl (ValueError ''UnicodeDecodeError'')
      else if uint b < 196 then
        (case bs of
           [] \<Rightarrow> Inl (ValueError ''UnicodeDecodeError'')
         | c # bs' \<Rightarrow>
             if 128 \<le> uint c \<and> uint c < 192
             then rbind (decode_utf8 bs')
                    (\<lambda>s. Inr (char_of ((uint b - 192) * 64 + (uint c - 128)) # s))
             else Inl (ValueError ''UnicodeDecodeError''))
      else Inl (Unmodelled ''text outside Latin-1''))"

lemma of_char_bounds: "0 \<le> (of_char c :: int) \<and> (of_char c :: int) < 256"
proof -
  have "(of_char c :: int) mod 256 = of_char c" by simp
  then show ?thesis by (metis pos_mod_bound pos_mod_sign zero_less_numeral)
qed

lemma decode_utf8_char: "decode_utf8 (utf8_char c @ bs) = rbind (decode_utf8 bs) (\<lambda>s. Inr (c # s))"
proof -
  let ?n = "of_char c :: int"
  have b: "0 \<le> ?n" "?n < 256" using of_char_bounds by simp_all
  have u: "uint (word_of_int i :: byte) = i" if "0 \<le> i" "i < 256" for i
    using that by (simp add: uint_word_of_int)
  show ?thesis
  proof (cases "?n < 128")
    case True
    then show ?thesis using b by (simp add: utf8_char_def u)
  next
    case False
    define p q where "p = 192 + ?n div 64" and "q = 128 + ?n mod 64"
    have pq: "194 \<le> p" "p < 196" "128 \<le> q" "q < 192" using False b by (simp_all add: p_def q_def)
    have "utf8_char c = [word_of_int p, word_of_int q]"
      using False by (simp add: utf8_char_def Let_def p_def q_def)
    moreover have "(p - 192) * 64 + (q - 128) = ?n" by (simp add: p_def q_def)
    ultimately show ?thesis using pq by (simp add: u)
  qed
qed

lemma decode_encode_utf8: "decode_utf8 (encode_utf8 s) = Inr s"
  by (induction s) (simp_all add: encode_utf8_def decode_utf8_char)

section \<open>CRC-32\<close>

text \<open>
  \<open>zlib.crc32\<close>: the reflected polynomial \<open>EDB88320\<close>, register and result complemented.
\<close>

definition crc_poly :: "32 word" where
  "crc_poly = 0xEDB88320"

definition crc_shift :: "32 word \<Rightarrow> 32 word" where
  "crc_shift s = (if bit s 0 then xor (drop_bit 1 s) crc_poly else drop_bit 1 s)"

definition crc_byte :: "32 word \<Rightarrow> byte \<Rightarrow> 32 word" where
  "crc_byte s b = (crc_shift ^^ 8) (xor s (ucast b))"

definition crc32 :: "bytes \<Rightarrow> int" where
  "crc32 bs = uint (not (foldl crc_byte (not 0) bs))"

lemma crc32_test_vector: "crc32 [0x31] = 0x83DCEFB7"
  by code_simp

lemma crc32_bounds: "0 \<le> crc32 bs \<and> crc32 bs < 256 ^ 4"
  using uint_lt2p [of "not (foldl crc_byte (not 0) bs)"] by (simp add: crc32_def)

text \<open>The top bit of the shifted register is the bit shifted out, so the shift is injective.\<close>

lemma bit_crc_shift_top: "bit (crc_shift s) 31 \<longleftrightarrow> bit s 0"
proof -
  have "\<not> bit s 32" using bit_imp_le_length [of s 32] by auto
  moreover have "bit crc_poly 31" by (simp add: crc_poly_def)
  ultimately show ?thesis by (simp add: crc_shift_def bit_xor_iff bit_drop_bit_eq)
qed

lemma crc_shift_inj: "crc_shift s = crc_shift t \<Longrightarrow> s = t"
proof -
  assume eq: "crc_shift s = crc_shift t"
  then have b0: "bit s 0 = bit t 0" using bit_crc_shift_top by metis
  have "drop_bit 1 s = drop_bit 1 t"
  proof (cases "bit s 0")
    case True
    then have "xor (xor (drop_bit 1 s) crc_poly) crc_poly = xor (xor (drop_bit 1 t) crc_poly) crc_poly"
      using eq b0 by (simp add: crc_shift_def)
    then show ?thesis by (simp only: xor.assoc xor_self_eq xor.right_neutral)
  next
    case False
    then show ?thesis using eq b0 by (simp add: crc_shift_def)
  qed
  show "s = t"
  proof (rule bit_word_eqI)
    fix n
    show "bit s n = bit t n"
      using b0 arg_cong [OF \<open>drop_bit 1 s = drop_bit 1 t\<close>, of "\<lambda>w. bit w (n - 1)"]
      by (cases n) (simp_all add: bit_drop_bit_eq)
  qed
qed

lemma crc_shifts_inj: "(crc_shift ^^ n) s = (crc_shift ^^ n) t \<Longrightarrow> s = t"
  by (induction n) (auto dest: crc_shift_inj)

lemma crc_byte_inj_state: "crc_byte s b = crc_byte t b \<Longrightarrow> s = t"
proof -
  assume "crc_byte s b = crc_byte t b"
  then have "xor (xor s (ucast b)) (ucast b) = xor (xor t (ucast b)) (ucast b :: 32 word)"
    unfolding crc_byte_def by (metis crc_shifts_inj)
  then show "s = t" by (simp only: xor.assoc xor_self_eq xor.right_neutral)
qed

lemma crc_byte_inj_byte: "crc_byte s b = crc_byte s c \<Longrightarrow> b = c"
proof -
  assume "crc_byte s b = crc_byte s c"
  then have "xor s (xor s (ucast b)) = xor s (xor s (ucast c :: 32 word))"
    unfolding crc_byte_def by (metis crc_shifts_inj)
  then have eq: "(ucast b :: 32 word) = ucast c" by (simp only: xor.assoc [symmetric] xor_self_eq xor.left_neutral)
  show "b = c"
  proof (rule bit_word_eqI)
    fix n assume "n < LENGTH(8)"
    then show "bit b n = bit c n"
      using arg_cong [OF eq, of "\<lambda>w. bit w n"] by (simp add: bit_simps)
  qed
qed

lemma crc_run_inj: "foldl crc_byte s bs = foldl crc_byte t bs \<Longrightarrow> s = t"
  by (induction bs arbitrary: s t) (auto dest: crc_byte_inj_state)

text \<open>One changed byte changes the CRC.\<close>

lemma crc32_single_byte:
  assumes "i < length bs" "b \<noteq> bs ! i"
  shows "crc32 (bs[i := b]) \<noteq> crc32 bs"
proof
  assume "crc32 (bs[i := b]) = crc32 bs"
  then have eq: "foldl crc_byte (not 0) (bs[i := b]) = foldl crc_byte (not 0) bs"
    unfolding crc32_def by (metis word_uint_eqI bit.double_compl)
  have split: "bs = take i bs @ bs ! i # drop (Suc i) bs" using assms(1) by (rule id_take_nth_drop)
  have "bs[i := b] = take i bs @ b # drop (Suc i) bs" using assms(1) by (rule upd_conv_take_nth_drop)
  with eq split have "foldl crc_byte (crc_byte (foldl crc_byte (not 0) (take i bs)) b) (drop (Suc i) bs)
      = foldl crc_byte (crc_byte (foldl crc_byte (not 0) (take i bs)) (bs ! i)) (drop (Suc i) bs)"
    by (metis foldl_Cons foldl_append)
  then have "b = bs ! i" by (metis crc_run_inj crc_byte_inj_byte)
  with assms(2) show False ..
qed

end
