(* ===== verification/Py_Text.thy ===== *)
theory Py_Text
  imports UB_Prelude "HOL-Library.Log_Nat"
begin

text \<open>
  The number formatting that the f-strings and the JSON encoder of the code use: decimal
  \<open>str(n)\<close>, upper-case hexadecimal (\<open>{n:X}\<close>, \<open>{n:02X}\<close>), and reading decimal digits back.
  Text is a \<^typ>\<open>string\<close>: characters are the code points 0 to 255 of Python's \<open>str\<close>.
\<close>

section \<open>Digits in a base\<close>

definition digit_char :: "int \<Rightarrow> char" where
  "digit_char d = (if d < 10 then char_of (48 + d) else char_of (55 + d))"

definition digit_val :: "char \<Rightarrow> int" where
  "digit_val c = of_char c - 48"

definition is_digit :: "char \<Rightarrow> bool" where
  "is_digit c \<longleftrightarrow> 48 \<le> (of_char c :: int) \<and> (of_char c :: int) \<le> 57"

text \<open>The digits of a non-negative number, most significant first.\<close>

function show_base :: "int \<Rightarrow> int \<Rightarrow> string" where
  "show_base b n =
     (if b < 2 \<or> n < b then [digit_char n] else show_base b (n div b) @ [digit_char (n mod b)])"
  by pat_completeness auto
termination
  by (relation "measure (\<lambda>(b, n). nat n)") (auto intro: int_div_less_self)

declare show_base.simps [simp del]

definition show_int :: "int \<Rightarrow> string" where
  "show_int i = (if i < 0 then ''-'' @ show_base 10 (- i) else show_base 10 i)"

definition show_hex :: "int \<Rightarrow> string" where
  "show_hex i = (if i < 0 then ''-'' @ show_base 16 (- i) else show_base 16 i)"

text \<open>\<open>{n:02X}\<close> for the one-byte opcodes of the log lines.\<close>

definition show_hex2 :: "int \<Rightarrow> string" where
  "show_hex2 i = (if length (show_hex i) < 2 then ''0'' @ show_hex i else show_hex i)"

text \<open>\<open>str(b)\<close> of a boolean.\<close>

definition show_bool :: "bool \<Rightarrow> string" where
  "show_bool b = (if b then ''True'' else ''False'')"

definition read_dec :: "string \<Rightarrow> int" where
  "read_dec s = foldl (\<lambda>a c. 10 * a + digit_val c) 0 s"

section \<open>Decimal output is digits, without a leading zero, and reads back\<close>

lemma is_digit_digit_char: "0 \<le> d \<Longrightarrow> d < 10 \<Longrightarrow> is_digit (digit_char d)"
  by (simp add: is_digit_def digit_char_def)

lemma digit_val_digit_char: "0 \<le> d \<Longrightarrow> d < 10 \<Longrightarrow> digit_val (digit_char d) = d"
  by (simp add: digit_val_def digit_char_def)

lemma show_base_digits: "0 \<le> n \<Longrightarrow> c \<in> set (show_base 10 n) \<Longrightarrow> is_digit c"
proof (induction "10::int" n rule: show_base.induct)
  case (1 n)
  then show ?case
    by (subst (asm) (2) show_base.simps) (auto simp: is_digit_digit_char split: if_splits)
qed

lemma show_base_nonempty [simp]: "show_base b n \<noteq> []"
  by (subst show_base.simps) simp

lemma read_show_base [simp]: "0 \<le> n \<Longrightarrow> read_dec (show_base 10 n) = n"
proof (induction "10::int" n rule: show_base.induct)
  case (1 n)
  show ?case
  proof (cases "n < 10")
    case True
    with 1 show ?thesis
      by (subst show_base.simps) (simp add: read_dec_def digit_val_digit_char)
  next
    case False
    with 1 have "read_dec (show_base 10 (n div 10)) = n div 10" by simp
    with False show ?thesis
      by (subst show_base.simps) (simp add: read_dec_def digit_val_digit_char)
  qed
qed

lemma show_base_hd_zero: "0 \<le> n \<Longrightarrow> hd (show_base 10 n) = CHR ''0'' \<Longrightarrow> n = 0"
proof (induction "10::int" n rule: show_base.induct)
  case (1 n)
  show ?case
  proof (cases "n < 10")
    case True
    with 1(3) have "digit_val (digit_char n) = digit_val (CHR ''0'')"
      by (subst (asm) show_base.simps) simp
    with True 1(2) show ?thesis by (simp add: digit_val_digit_char) (simp add: digit_val_def)
  next
    case False
    with 1(3) have "hd (show_base 10 (n div 10)) = CHR ''0''"
      by (subst (asm) show_base.simps) simp
    moreover have "0 < n div 10" using False by (simp add: pos_imp_zdiv_pos_iff)
    ultimately show ?thesis using False 1(1) by simp
  qed
qed

lemma show_base_inj: "0 \<le> m \<Longrightarrow> 0 \<le> n \<Longrightarrow> show_base 10 m = show_base 10 n \<Longrightarrow> m = n"
  by (metis read_show_base)

lemma minus_not_digit [simp]: "\<not> is_digit CHR ''-''"
  by (simp add: is_digit_def)

lemma show_base_no_minus: "0 \<le> n \<Longrightarrow> show_base 10 n \<noteq> CHR ''-'' # s"
  using show_base_digits [of n "CHR ''-''"] by auto

lemma show_int_inj: "show_int i = show_int j \<Longrightarrow> i = j"
  using show_base_inj [of i j] show_base_inj [of "- i" "- j"]
    show_base_no_minus [of i] show_base_no_minus [of j]
  by (auto simp: show_int_def split: if_splits) metis+

end
