(* ===== verification/Py_Float.thy ===== *)
theory Py_Float
  imports Py_Text
begin

text \<open>
  Python's \<open>float\<close> as the code uses it: a finite binary64 value is modelled by the rational
  number it denotes, and every operation rounds its exact result to 53 significant bits, ties to
  even. The exponent range is left unbounded (no infinities, NaNs, subnormals or negative zero);
  an \<open>int\<close> too large for binary64 raises \<open>OverflowError\<close> and a division by zero
  \<open>ZeroDivisionError\<close>, as CPython does. \<open>float_repr\<close> is CPython's shortest
  round-tripping decimal (\<open>repr\<close>), which \<open>json.dumps\<close> prints.
\<close>

type_synonym pyfloat = rat

section \<open>Logarithms and rounding\<close>

function ndigits :: "int \<Rightarrow> int \<Rightarrow> nat" where
  "ndigits b n = (if b < 2 \<or> n < b then 1 else Suc (ndigits b (n div b)))"
  by pat_completeness auto
termination
  by (relation "measure (\<lambda>(b, n). nat n)") (auto intro: int_div_less_self)

declare ndigits.simps [simp del]

text \<open>The largest \<open>k\<close> with \<open>b\<^sup>k \<le> x\<close>, for positive \<open>x\<close>.\<close>

definition ilog :: "int \<Rightarrow> rat \<Rightarrow> int" where
  "ilog b x =
     (let (n, d) = quotient_of x;
          k = int (ndigits b n) - int (ndigits b d)
      in if of_int b powi k \<le> x then k else k - 1)"

text \<open>Round to the nearest integer, a tie to the even one.\<close>

definition round_half_even :: "rat \<Rightarrow> int" where
  "round_half_even x =
     (let f = \<lfloor>x\<rfloor>; r = x - of_int f
      in if r < 1 / 2 then f else if 1 / 2 < r then f + 1 else if even f then f else f + 1)"

definition fl :: "rat \<Rightarrow> pyfloat" where
  "fl x =
     (if x = 0 then 0
      else let e = ilog 2 \<bar>x\<bar> - 52
           in sgn x * (of_int (round_half_even (\<bar>x\<bar> / 2 powi e)) * 2 powi e))"

section \<open>Float operations\<close>

definition float_of_int :: "int \<Rightarrow> pyfloat result" where
  "float_of_int n =
     (if 2 ^ 1024 - 2 ^ 970 \<le> \<bar>n\<bar> then Inl OverflowError else Inr (fl (of_int n)))"

definition fadd :: "pyfloat \<Rightarrow> pyfloat \<Rightarrow> pyfloat" where
  "fadd x y = fl (x + y)"

definition fsub :: "pyfloat \<Rightarrow> pyfloat \<Rightarrow> pyfloat" where
  "fsub x y = fl (x - y)"

definition fmul :: "pyfloat \<Rightarrow> pyfloat \<Rightarrow> pyfloat" where
  "fmul x y = fl (x * y)"

definition fdiv :: "pyfloat \<Rightarrow> pyfloat \<Rightarrow> pyfloat result" where
  "fdiv x y = (if y = 0 then Inl ZeroDivisionError else Inr (fl (x / y)))"

text \<open>\<open>round(x, nd)\<close>: the decimal with \<open>nd\<close> places nearest to the exact value, as a float.\<close>

definition fround :: "nat \<Rightarrow> pyfloat \<Rightarrow> pyfloat" where
  "fround nd x = fl (of_int (round_half_even (x * 10 ^ nd)) / 10 ^ nd)"

section \<open>Shortest decimal representation\<close>

definition dec_candidate :: "pyfloat \<Rightarrow> nat \<Rightarrow> int \<times> int" where
  "dec_candidate x n =
     (let s = ilog 10 x - int n + 1 in (round_half_even (x / 10 powi s), s))"

definition dec_value :: "int \<times> int \<Rightarrow> rat" where
  "dec_value ms = of_int (fst ms) * 10 powi (snd ms)"

text \<open>At most 17 significant digits: the first count whose nearest decimal rounds back to \<open>x\<close>.\<close>

definition shortest_decimal :: "pyfloat \<Rightarrow> int \<times> int" where
  "shortest_decimal x =
     (case find (\<lambda>n. fl (dec_value (dec_candidate x n)) = x) [1..<17] of
        Some n \<Rightarrow> dec_candidate x n
      | None \<Rightarrow> dec_candidate x 17)"

definition strip_zeros :: "string \<Rightarrow> string" where
  "strip_zeros s = rev (dropWhile (\<lambda>c. c = CHR ''0'') (rev s))"

text \<open>\<open>ds\<close> are the significant digits and the value is \<open>0.ds\<close> times ten to the \<open>pt\<close>.\<close>

definition format_float :: "string \<Rightarrow> int \<Rightarrow> string" where
  "format_float ds pt =
     (if -4 < pt \<and> pt \<le> 16 then
        (if pt \<le> 0 then ''0.'' @ replicate (nat (- pt)) (CHR ''0'') @ ds
         else if int (length ds) \<le> pt
              then ds @ replicate (nat pt - length ds) (CHR ''0'') @ ''.0''
         else take (nat pt) ds @ ''.'' @ drop (nat pt) ds)
      else
        (let e = pt - 1;
             es = show_base 10 \<bar>e\<bar>
         in take 1 ds @ (if length ds = 1 then '''' else ''.'' @ drop 1 ds)
            @ ''e'' @ (if e < 0 then ''-'' else ''+'')
            @ (if length es < 2 then ''0'' @ es else es)))"

definition float_repr :: "pyfloat \<Rightarrow> string" where
  "float_repr x =
     (if x = 0 then ''0.0''
      else let (m, s) = shortest_decimal \<bar>x\<bar>; t = show_base 10 m
           in (if x < 0 then ''-'' else '''') @ format_float (strip_zeros t) (int (length t) + s))"

section \<open>Rounding is monotone and exact on the integers up to 2 to the 53\<close>

lemma ndigits_bounds:
  assumes "2 \<le> b" "0 < n"
  shows "b ^ (ndigits b n - 1) \<le> n \<and> n < b ^ ndigits b n \<and> 0 < ndigits b n"
  using assms
proof (induction b n rule: ndigits.induct)
  case (1 b n)
  show ?case
  proof (cases "n < b")
    case True
    with 1(2,3) show ?thesis by (subst (1 2 3) ndigits.simps) simp
  next
    case False
    let ?q = "n div b"
    have pos: "0 < ?q" using False 1(2) by (simp add: pos_imp_zdiv_pos_iff)
    with 1 False have IH: "b ^ (ndigits b ?q - 1) \<le> ?q" "?q < b ^ ndigits b ?q" "0 < ndigits b ?q"
      by auto
    have eq: "ndigits b n = Suc (ndigits b ?q)"
      using 1(2) False by (subst ndigits.simps) simp
    have "n = b * ?q + n mod b" "0 \<le> n mod b" "n mod b < b"
      using 1(2) by simp_all
    then have n: "b * ?q \<le> n" "n < b * (?q + 1)"
      unfolding distrib_left mult_1_right by linarith+
    have "b ^ ndigits b ?q = b * b ^ (ndigits b ?q - 1)"
      using IH(3) by (metis Suc_diff_1 power_Suc)
    also have "\<dots> \<le> b * ?q" using IH(1) 1(2) by simp
    finally have lo: "b ^ ndigits b ?q \<le> n" using n by linarith
    have "b * (?q + 1) \<le> b * b ^ ndigits b ?q" using IH(2) 1(2) by (intro mult_left_mono) auto
    with n lo eq show ?thesis by simp
  qed
qed

lemma ilog_bounds:
  assumes "2 \<le> b" "0 < x"
  shows "of_int b powi ilog b x \<le> x" and "x < of_int b powi (ilog b x + 1)"
proof -
  obtain n d where q: "quotient_of x = (n, d)" by force
  then have d: "0 < d" and x: "x = of_int n / of_int d"
    using quotient_of_denom_pos quotient_of_div by auto
  with assms(2) have n: "0 < n" by (simp add: zero_less_divide_iff)
  let ?N = "ndigits b n" and ?D = "ndigits b d"
  let ?B = "of_int b :: rat"
  have B: "0 < ?B" "1 < ?B" using assms(1) by simp_all
  note nb = ndigits_bounds [OF assms(1) n] and db = ndigits_bounds [OF assms(1) d]
  have n1: "?B ^ (?N - 1) \<le> of_int n" "of_int n < ?B ^ ?N"
    using nb by (metis of_int_le_iff of_int_less_iff of_int_power)+
  have d1: "?B ^ (?D - 1) \<le> of_int d" "of_int d < ?B ^ ?D"
    using db by (metis of_int_le_iff of_int_less_iff of_int_power)+
  have N: "0 < ?N" "0 < ?D" using nb db by simp_all
  let ?k = "int ?N - int ?D"
  have up: "x < ?B powi (?k + 1)"
  proof -
    have "x < ?B ^ ?N / of_int d" using n1(2) d x by (simp add: divide_strict_right_mono)
    also have "\<dots> \<le> ?B ^ ?N / ?B ^ (?D - 1)"
      using d1(1) B by (intro divide_left_mono) (auto intro!: mult_pos_pos simp: d)
    also have "\<dots> = ?B powi (?k + 1)"
      using B N by (simp add: power_int_diff power_int_add field_simps flip: power_int_of_nat)
    finally show ?thesis .
  qed
  have lo: "?B powi (?k - 1) \<le> x"
  proof -
    have "?B powi (?k - 1) = ?B ^ (?N - 1) / ?B ^ ?D"
      using B N by (simp add: power_int_diff power_int_add field_simps flip: power_int_of_nat)
    also have "\<dots> \<le> ?B ^ (?N - 1) / of_int d"
      using d1(2) B d by (intro divide_left_mono) auto
    also have "\<dots> \<le> x" using n1(1) d x by (simp add: divide_right_mono)
    finally show ?thesis .
  qed
  show "?B powi ilog b x \<le> x" using lo by (simp add: ilog_def q Let_def)
  show "x < ?B powi (ilog b x + 1)" using up by (simp add: ilog_def q Let_def)
qed

lemma ilog_unique:
  assumes "2 \<le> b" "of_int b powi k \<le> x" "x < of_int b powi (k + 1)"
  shows "ilog b x = k"
proof -
  let ?B = "of_int b :: rat"
  have B: "1 < ?B" using assms(1) by simp
  have x: "0 < x" using assms(2) B zero_less_power_int [of ?B k] by linarith
  note i = ilog_bounds [OF assms(1) x]
  have "?B powi ilog b x < ?B powi (k + 1)" "?B powi k < ?B powi (ilog b x + 1)"
    using i assms(2,3) by linarith+
  then have "ilog b x < k + 1" "k < ilog b x + 1"
    using B by (meson not_le power_int_increasing less_imp_le)+
  then show ?thesis by simp
qed

lemma round_half_even_of_int [simp]: "round_half_even (of_int n) = n"
  by (simp add: round_half_even_def)

lemma round_half_even_bounds:
  "of_int (round_half_even x) \<le> x + 1 / 2" "x - 1 / 2 \<le> of_int (round_half_even x)"
  unfolding round_half_even_def Let_def by (auto split: if_splits) linarith+

lemma round_half_even_mono: "x \<le> y \<Longrightarrow> round_half_even x \<le> round_half_even y"
proof -
  assume le: "x \<le> y"
  show ?thesis
  proof (cases "\<lfloor>x\<rfloor> = \<lfloor>y\<rfloor>")
    case True
    with le show ?thesis by (auto simp: round_half_even_def Let_def)
  next
    case False
    with le have "\<lfloor>x\<rfloor> + 1 \<le> \<lfloor>y\<rfloor>" using floor_mono [OF le] by linarith
    moreover have "round_half_even x \<le> \<lfloor>x\<rfloor> + 1" "\<lfloor>y\<rfloor> \<le> round_half_even y"
      by (auto simp: round_half_even_def Let_def)
    ultimately show ?thesis by linarith
  qed
qed

text \<open>The significand of a positive value rounds into \<open>2\<^sup>5\<^sup>2..2\<^sup>5\<^sup>3\<close>.\<close>

lemma fl_pos:
  assumes "0 < x"
  shows "fl x = of_int (round_half_even (x / 2 powi (ilog 2 x - 52))) * 2 powi (ilog 2 x - 52)"
  using assms by (simp add: fl_def Let_def)

lemma fl_0 [simp]: "fl 0 = 0"
  by (simp add: fl_def)

lemma fl_minus: "fl (- x) = - fl x"
  by (simp add: fl_def Let_def)

lemma fl_binade:
  assumes "0 < x"
  shows "2 powi ilog 2 x \<le> fl x" and "fl x \<le> 2 powi (ilog 2 x + 1)"
proof -
  let ?e = "ilog 2 x - 52"
  let ?s = "x / 2 powi ?e"
  have b: "2 powi ilog 2 x \<le> x" "x < 2 powi (ilog 2 x + 1)"
    using ilog_bounds [of 2 x] assms by simp_all
  have p: "(2::rat) powi ilog 2 x = 2 ^ 52 * 2 powi ?e" "(2::rat) powi (ilog 2 x + 1) = 2 ^ 53 * 2 powi ?e"
    by (simp_all add: power_int_diff power_int_add)
  have "of_int (2 ^ 52) \<le> ?s" "?s \<le> of_int (2 ^ 53)"
    using b p by (simp_all add: pos_le_divide_eq pos_divide_le_eq)
  then have "2 ^ 52 \<le> round_half_even ?s" "round_half_even ?s \<le> 2 ^ 53"
    using round_half_even_mono round_half_even_of_int by metis+
  then have "of_int (2 ^ 52) \<le> (of_int (round_half_even ?s) :: rat)"
      "(of_int (round_half_even ?s) :: rat) \<le> of_int (2 ^ 53)"
    by (simp_all only: of_int_le_iff)
  then show "2 powi ilog 2 x \<le> fl x" "fl x \<le> 2 powi (ilog 2 x + 1)"
    using assms by (simp_all add: fl_pos p)
qed

lemma fl_mono_pos:
  assumes "0 < x" "x \<le> y"
  shows "fl x \<le> fl y"
proof (cases "ilog 2 x = ilog 2 y")
  case True
  have "x / 2 powi (ilog 2 y - 52) \<le> y / 2 powi (ilog 2 y - 52)"
    using assms(2) by (simp add: divide_right_mono)
  then show ?thesis
    using assms True by (simp add: fl_pos round_half_even_mono)
next
  case False
  have y: "0 < y" using assms by simp
  have "(2::rat) powi ilog 2 x < 2 powi (ilog 2 y + 1)"
    using ilog_bounds(1) [of 2 x] ilog_bounds(2) [of 2 y] assms y by simp
  then have "ilog 2 x < ilog 2 y + 1"
    by (metis (no_types) not_le power_int_increasing one_le_numeral)
  with False have "ilog 2 x + 1 \<le> ilog 2 y" by linarith
  then have "(2::rat) powi (ilog 2 x + 1) \<le> 2 powi ilog 2 y"
    by (simp add: power_int_increasing)
  then show ?thesis using fl_binade(2) [OF assms(1)] fl_binade(1) [OF y] by linarith
qed

lemma fl_pos_pos: "0 < x \<Longrightarrow> 0 < fl x"
  using fl_binade(1) [of x] zero_less_power_int [of "2::rat" "ilog 2 x"] by linarith

theorem fl_mono: "x \<le> y \<Longrightarrow> fl x \<le> fl y"
proof -
  assume le: "x \<le> y"
  consider "0 < x" | "x \<le> 0" "0 \<le> y" | "y < 0" using le by linarith
  then show ?thesis
  proof cases
    case 1 with le show ?thesis by (rule fl_mono_pos [rotated])
  next
    case 2
    have "fl x \<le> 0" using 2(1) fl_pos_pos [of "- x"] by (cases "x = 0") (auto simp: fl_minus)
    moreover have "0 \<le> fl y" using 2(2) fl_pos_pos [of y] by (cases "y = 0") auto
    ultimately show ?thesis by linarith
  next
    case 3
    then have "fl (- y) \<le> fl (- x)" using le by (intro fl_mono_pos) auto
    then show ?thesis by (simp add: fl_minus)
  qed
qed

lemma fl_nonneg: "0 \<le> x \<Longrightarrow> 0 \<le> fl x"
  using fl_mono [of 0 x] by simp

text \<open>A value with at most 53 significant bits is a float already.\<close>

lemma fl_integral: "0 < x \<Longrightarrow> x / 2 powi (ilog 2 x - 52) = of_int j \<Longrightarrow> fl x = x"
  by (simp add: fl_pos) (simp add: field_simps)

lemma fl_exact:
  assumes "\<bar>m\<bar> \<le> 2 ^ 53"
  shows "fl (of_int m * 2 powi k) = of_int m * 2 powi k"
proof -
  have pos: "fl (of_int m * 2 powi k) = of_int m * 2 powi k" if m: "0 < m" "m \<le> 2 ^ 53" for m
  proof -
    let ?x = "of_int m * 2 powi k :: rat"
    let ?i = "ilog 2 ?x"
    have x: "0 < ?x" using m by simp
    have "?x \<le> of_int (2 ^ 53) * 2 powi k"
      using m(2) by (intro mult_right_mono) (simp_all only: of_int_le_iff, simp)
    then have "?x \<le> 2 powi (53 + k)" by (simp add: power_int_add)
    with ilog_bounds(1) [of 2 ?x] x have "(2::rat) powi ?i \<le> 2 powi (53 + k)" by simp
    then have "?i \<le> 53 + k"
      using power_int_strict_increasing [of "53 + k" ?i "2::rat"] by linarith
    then consider (le) "?i - 52 \<le> k" | (top) "?i = 53 + k" by linarith
    then show ?thesis
    proof cases
      case le
      then obtain d where d: "k = int d + (?i - 52)"
        by (metis diff_add_cancel diff_ge_0_iff_ge nonneg_int_cases)
      have "(2::rat) powi k = 2 powi (int d + (?i - 52))" using d by simp
      also have "\<dots> = 2 ^ d * 2 powi (?i - 52)" by (subst power_int_add) simp_all
      finally have "?x = of_int (m * 2 ^ d) * 2 powi (?i - 52)" by simp
      then have "?x / 2 powi (?i - 52) = of_int (m * 2 ^ d)"
        by (rule nonzero_divide_eq_eq [THEN iffD2, rotated]) simp
      with x show ?thesis by (rule fl_integral)
    next
      case top
      have "2 powi (53 + k) \<le> ?x" using ilog_bounds(1) [of 2 ?x] x top by simp
      with \<open>?x \<le> 2 powi (53 + k)\<close> have "?x = 2 powi (53 + k)" by linarith
      also have "\<dots> = 2 ^ 52 * 2 powi (?i - 52)" by (simp add: top power_int_add)
      finally have "?x = of_int (2 ^ 52) * 2 powi (?i - 52)" by simp
      then have "?x / 2 powi (?i - 52) = of_int (2 ^ 52)"
        by (rule nonzero_divide_eq_eq [THEN iffD2, rotated]) simp
      with x show ?thesis by (rule fl_integral)
    qed
  qed
  show ?thesis
    using pos [of m] pos [of "- m"] assms fl_minus [of "of_int m * 2 powi k"]
    by (cases m "0::int" rule: linorder_cases) auto
qed

lemma fl_of_int [simp]: "\<bar>n\<bar> \<le> 2 ^ 53 \<Longrightarrow> fl (of_int n) = of_int n"
  using fl_exact [of n 0] by simp

text \<open>Rounding a float gives the float itself.\<close>

lemma fl_fl [simp]: "fl (fl x) = fl x"
proof -
  have pos: "fl (fl y) = fl y" if "0 < y" for y
  proof -
    let ?e = "ilog 2 y - 52"
    let ?k = "round_half_even (y / 2 powi ?e)"
    have y: "fl y = of_int ?k * 2 powi ?e" using that by (rule fl_pos)
    have "of_int ?k * 2 powi ?e \<le> (2 :: rat) powi (53 + ?e)" using fl_binade(2) [OF that] y by (simp add: add.commute)
    then have "of_int ?k * 2 powi ?e \<le> of_int (2 ^ 53) * (2 :: rat) powi ?e" by (subst (asm) power_int_add) simp_all
    then have "?k \<le> 2 ^ 53" by (simp only: mult_le_cancel_right_pos zero_less_power_int zero_less_numeral of_int_le_iff)
    moreover have "0 < of_int ?k * (2 :: rat) powi ?e" using fl_pos_pos [OF that] y by simp
    then have "(0 :: rat) < of_int ?k" by (rule zero_less_mult_pos2) (rule zero_less_power_int, simp)
    then have "0 \<le> ?k" by simp
    ultimately show ?thesis unfolding y by (intro fl_exact) simp
  qed
  show ?thesis using pos [of x] pos [of "- x"] by (cases x "0 :: rat" rule: linorder_cases) (auto simp: fl_minus)
qed

end
