(* ===== verification/Json.thy ===== *)
theory Json
  imports Py_Float
begin

text \<open>
  JSON values and the part of Python's \<open>json\<close> module that the packet codec uses:
  \<open>json.dumps\<close> with its default separators and \<open>ensure_ascii\<close>, and \<open>json.loads\<close> on
  text. The decoder is written with fuel; \<open>loads\<close> supplies twice the length of the text, which
  \<open>Json_Roundtrip\<close> proves to be enough (\<open>loads_no_recursion_error\<close>), next to the round
  trip that the wire format rests on (\<open>loads_dumps_eq\<close>).
\<close>

datatype json =
    JNull
  | JBool bool
  | JInt int
  | JFloat pyfloat
  | JStr string
  | JList "json list"
  | JObj "(string \<times> json) list"

section \<open>The encoder\<close>

definition hex_digit :: "nat \<Rightarrow> char" where
  "hex_digit d = (if d < 10 then char_of (48 + d) else char_of (87 + d))"

text \<open>\<open>ESCAPE_ASCII\<close>: quote, backslash and everything outside the printable ASCII range.\<close>

definition escape_char :: "char \<Rightarrow> string" where
  "escape_char c =
     (if c = CHR 0x22 then [CHR 0x5C, CHR 0x22]
      else if c = CHR 0x5C then [CHR 0x5C, CHR 0x5C]
      else if c = CHR 0x0A then [CHR 0x5C, CHR ''n'']
      else if c = CHR 0x0D then [CHR 0x5C, CHR ''r'']
      else if c = CHR 0x09 then [CHR 0x5C, CHR ''t'']
      else if c = CHR 0x0C then [CHR 0x5C, CHR ''f'']
      else if c = CHR 0x08 then [CHR 0x5C, CHR ''b'']
      else if (of_char c :: nat) < 32 \<or> 126 < (of_char c :: nat)
           then [CHR 0x5C, CHR ''u'', CHR ''0'', CHR ''0'',
                 hex_digit (of_char c div 16), hex_digit (of_char c mod 16)]
      else [c])"

definition quote_str :: "string \<Rightarrow> string" where
  "quote_str s = CHR 0x22 # concat (map escape_char s) @ [CHR 0x22]"

definition dumps_bool :: "bool \<Rightarrow> string" where
  "dumps_bool b = (if b then ''true'' else ''false'')"

fun dumps :: "json \<Rightarrow> string"
  and dumps_elems :: "json list \<Rightarrow> string"
  and dumps_members :: "(string \<times> json) list \<Rightarrow> string"
where
  "dumps JNull = ''null''"
| "dumps (JBool b) = dumps_bool b"
| "dumps (JInt i) = show_int i"
| "dumps (JFloat x) = float_repr x"
| "dumps (JStr s) = quote_str s"
| "dumps (JList []) = ''[]''"
| "dumps (JList (v # vs)) = ''['' @ dumps v @ dumps_elems vs"
| "dumps (JObj []) = ''{}''"
| "dumps (JObj ((k, v) # ms)) = ''{'' @ quote_str k @ '': '' @ dumps v @ dumps_members ms"
| "dumps_elems [] = '']''"
| "dumps_elems (v # vs) = '', '' @ dumps v @ dumps_elems vs"
| "dumps_members [] = ''}''"
| "dumps_members ((k, v) # ms) = '', '' @ quote_str k @ '': '' @ dumps v @ dumps_members ms"

section \<open>The decoder\<close>

definition json_error :: "'a result" where
  "json_error = Inl (ValueError ''JSONDecodeError'')"

definition is_ws :: "char \<Rightarrow> bool" where
  "is_ws c \<longleftrightarrow> c = CHR '' '' \<or> c = CHR 0x09 \<or> c = CHR 0x0A \<or> c = CHR 0x0D"

definition skip_ws :: "string \<Rightarrow> string" where
  "skip_ws s = dropWhile is_ws s"

definition hex_val :: "char \<Rightarrow> nat option" where
  "hex_val c =
     (let n = of_char c :: nat
      in if 48 \<le> n \<and> n \<le> 57 then Some (n - 48)
         else if 97 \<le> n \<and> n \<le> 102 then Some (n - 87)
         else if 65 \<le> n \<and> n \<le> 70 then Some (n - 55)
         else None)"

text \<open>The code point of four hexadecimal digits.\<close>

definition hex4 :: "char \<Rightarrow> char \<Rightarrow> char \<Rightarrow> char \<Rightarrow> nat option" where
  "hex4 a b c d =
     (case (hex_val a, hex_val b, hex_val c, hex_val d) of
        (Some w, Some x, Some y, Some z) \<Rightarrow> Some (((w * 16 + x) * 16 + y) * 16 + z)
      | _ \<Rightarrow> None)"

definition unescape_char :: "char \<Rightarrow> char option" where
  "unescape_char c =
     (if c = CHR 0x22 \<or> c = CHR 0x5C \<or> c = CHR ''/'' then Some c
      else if c = CHR ''b'' then Some (CHR 0x08)
      else if c = CHR ''f'' then Some (CHR 0x0C)
      else if c = CHR ''n'' then Some (CHR 0x0A)
      else if c = CHR ''r'' then Some (CHR 0x0D)
      else if c = CHR ''t'' then Some (CHR 0x09)
      else None)"

text \<open>
  \<open>scanstring\<close>, strict, from the character after the opening quote. An escape of a code
  point above 255 is outside the model's text type.
\<close>

fun scan_string :: "string \<Rightarrow> (string \<times> string) result" where
  "scan_string [] = json_error"
| "scan_string (c # s) =
     (if c = CHR 0x22 then Inr ([], s)
      else if c = CHR 0x5C then
        (case s of
           [] \<Rightarrow> json_error
         | e # s' \<Rightarrow>
             (if e = CHR ''u'' then
                (case s' of
                   h1 # h2 # h3 # h4 # s'' \<Rightarrow>
                     (case hex4 h1 h2 h3 h4 of
                        None \<Rightarrow> json_error
                      | Some n \<Rightarrow>
                          if n < 256
                          then rbind (scan_string s'') (\<lambda>(t, r). Inr (char_of n # t, r))
                          else Inl (Unmodelled ''text outside Latin-1''))
                 | _ \<Rightarrow> json_error)
              else
                (case unescape_char e of
                   None \<Rightarrow> json_error
                 | Some d \<Rightarrow> rbind (scan_string s') (\<lambda>(t, r). Inr (d # t, r)))))
      else if (of_char c :: nat) < 32 then json_error
      else rbind (scan_string s) (\<lambda>(t, r). Inr (c # t, r)))"

text \<open>\<open>NUMBER_RE\<close>: \<open>(-?(?:0|[1-9]\d*))(\.\d+)?([eE][-+]?\d+)?\<close>, matched greedily.\<close>

definition scan_int_part :: "string \<Rightarrow> (string \<times> string) option" where
  "scan_int_part s =
     (case s of
        [] \<Rightarrow> None
      | c # r \<Rightarrow>
          if c = CHR ''0'' then Some ([c], r)
          else if is_digit c then Some (takeWhile is_digit s, dropWhile is_digit s)
          else None)"

definition scan_frac :: "string \<Rightarrow> string option \<times> string" where
  "scan_frac s =
     (case s of
        c # r \<Rightarrow>
          if c = CHR ''.'' \<and> takeWhile is_digit r \<noteq> []
          then (Some (takeWhile is_digit r), dropWhile is_digit r)
          else (None, s)
      | [] \<Rightarrow> (None, s))"

definition scan_exp_digits :: "bool \<Rightarrow> string \<Rightarrow> string \<Rightarrow> int option \<times> string" where
  "scan_exp_digits neg r s =
     (if takeWhile is_digit r = [] then (None, s)
      else (Some (if neg then - read_dec (takeWhile is_digit r) else read_dec (takeWhile is_digit r)),
            dropWhile is_digit r))"

definition scan_exp :: "string \<Rightarrow> int option \<times> string" where
  "scan_exp s =
     (case s of
        c # r \<Rightarrow>
          if c = CHR ''e'' \<or> c = CHR ''E'' then
            (case r of
               d # r' \<Rightarrow>
                 if d = CHR ''-'' then scan_exp_digits True r' s
                 else if d = CHR ''+'' then scan_exp_digits False r' s
                 else scan_exp_digits False r s
             | [] \<Rightarrow> (None, s))
          else (None, s)
      | [] \<Rightarrow> (None, s))"

text \<open>\<open>float(integer + frac + exp)\<close>: the decimal, correctly rounded.\<close>

definition float_of_decimal :: "bool \<Rightarrow> string \<Rightarrow> string \<Rightarrow> int \<Rightarrow> pyfloat result" where
  "float_of_decimal neg ip fp e =
     (let m = read_dec (ip @ fp);
          x = of_int m * 10 powi (e - int (length fp))
      in if neg \<and> m = 0 then Inl (Unmodelled ''negative zero'')
         else Inr (fl (if neg then - x else x)))"

definition scan_number :: "bool \<Rightarrow> string \<Rightarrow> (json \<times> string) result" where
  "scan_number neg s =
     (case scan_int_part s of
        None \<Rightarrow> json_error
      | Some (ip, s1) \<Rightarrow>
          (case scan_frac s1 of (fp, s2) \<Rightarrow>
          (case scan_exp s2 of (ep, s3) \<Rightarrow>
             if fp = None \<and> ep = None
             then Inr (JInt (if neg then - read_dec ip else read_dec ip), s3)
             else rbind (float_of_decimal neg ip (case fp of None \<Rightarrow> [] | Some f \<Rightarrow> f)
                           (case ep of None \<Rightarrow> 0 | Some e \<Rightarrow> e))
                    (\<lambda>x. Inr (JFloat x, s3)))))"

definition starts_with :: "string \<Rightarrow> string \<Rightarrow> bool" where
  "starts_with p s \<longleftrightarrow> take (length p) s = p"

text \<open>\<open>scan_once\<close> on the values that contain no other value.\<close>

definition scan_atom :: "string \<Rightarrow> (json \<times> string) result" where
  "scan_atom s =
     (if starts_with ''null'' s then Inr (JNull, drop 4 s)
      else if starts_with ''true'' s then Inr (JBool True, drop 4 s)
      else if starts_with ''false'' s then Inr (JBool False, drop 5 s)
      else if starts_with ''-'' s \<and> scan_int_part (drop 1 s) \<noteq> None then scan_number True (drop 1 s)
      else if scan_int_part s \<noteq> None then scan_number False s
      else if starts_with ''NaN'' s \<or> starts_with ''Infinity'' s \<or> starts_with ''-Infinity'' s
           then Inl (Unmodelled ''non-finite float'')
      else json_error)"

text \<open>One entry of \<open>dict(pairs)\<close>: a repeated key keeps its place and takes the new value.\<close>

definition obj_of_pairs :: "(string \<times> json) list \<Rightarrow> json" where
  "obj_of_pairs ps = JObj (foldl (\<lambda>d (k, v). dict_set k v d) [] ps)"

fun parse_value :: "nat \<Rightarrow> string \<Rightarrow> (json \<times> string) result"
  and parse_elems :: "nat \<Rightarrow> string \<Rightarrow> (json list \<times> string) result"
  and parse_members :: "nat \<Rightarrow> string \<Rightarrow> ((string \<times> json) list \<times> string) result"
where
  "parse_value 0 s = Inl RecursionError"
| "parse_value (Suc n) s =
     (case s of
        [] \<Rightarrow> json_error
      | c # s' \<Rightarrow>
          if c = CHR 0x22 then rbind (scan_string s') (\<lambda>(t, r). Inr (JStr t, r))
          else if c = CHR ''{'' then
            (case skip_ws s' of
               [] \<Rightarrow> json_error
             | d # r \<Rightarrow>
                 if d = CHR ''}'' then Inr (JObj [], r)
                 else rbind (parse_members n (d # r)) (\<lambda>(ms, r'). Inr (obj_of_pairs ms, r')))
          else if c = CHR ''['' then
            (case skip_ws s' of
               [] \<Rightarrow> json_error
             | d # r \<Rightarrow>
                 if d = CHR '']'' then Inr (JList [], r)
                 else rbind (parse_elems n (d # r)) (\<lambda>(vs, r'). Inr (JList vs, r')))
          else scan_atom s)"
| "parse_elems 0 s = Inl RecursionError"
| "parse_elems (Suc n) s =
     rbind (parse_value n s) (\<lambda>(v, r).
       (case skip_ws r of
          [] \<Rightarrow> json_error
        | c # r' \<Rightarrow>
            if c = CHR '']'' then Inr ([v], r')
            else if c = CHR '','' then
              rbind (parse_elems n (skip_ws r')) (\<lambda>(vs, r''). Inr (v # vs, r''))
            else json_error))"
| "parse_members 0 s = Inl RecursionError"
| "parse_members (Suc n) s =
     (case s of
        [] \<Rightarrow> json_error
      | q # s' \<Rightarrow>
          if q \<noteq> CHR 0x22 then json_error
          else rbind (scan_string s') (\<lambda>(k, r).
            (case skip_ws r of
               [] \<Rightarrow> json_error
             | c # r1 \<Rightarrow>
                 if c \<noteq> CHR '':'' then json_error
                 else rbind (parse_value n (skip_ws r1)) (\<lambda>(v, r2).
                   (case skip_ws r2 of
                      [] \<Rightarrow> json_error
                    | d # r3 \<Rightarrow>
                        if d = CHR ''}'' then Inr ([(k, v)], r3)
                        else if d = CHR '','' then
                          rbind (parse_members n (skip_ws r3)) (\<lambda>(ms, r4). Inr ((k, v) # ms, r4))
                        else json_error)))))"

text \<open>\<open>json.loads\<close>: one value, then nothing but white space.\<close>

definition loads :: "string \<Rightarrow> json result" where
  "loads s =
     rbind (parse_value (2 * length s + 2) (skip_ws s)) (\<lambda>(v, r).
       if skip_ws r = [] then Inr v else json_error)"

end
