(* ===== verification/Float_Roundtrip.thy ===== *)
theory Float_Roundtrip
  imports Json
begin

text \<open>
  The decimal text that \<open>float_repr\<close> prints for a float reads back as that float: the
  seventeen-digit candidate is closer to the float than half the gap to its neighbours
  (\<open>dec_candidate_17\<close>), so the search of \<open>shortest_decimal\<close> always ends with a decimal
  that rounds back, and each layout of \<open>format_float\<close> is scanned to that decimal.
\<close>

section \<open>Seventeen digits are enough\<close>

lemma round_half_even_near: "\<bar>y - of_int n\<bar> < 1 / 2 \<Longrightarrow> round_half_even y = n"
proof -
  assume "\<bar>y - of_int n\<bar> < 1 / 2"
  then have "of_int (round_half_even y) < (of_int (n + 1) :: rat)"
      "(of_int (n - 1) :: rat) < of_int (round_half_even y)"
    using round_half_even_bounds [of y] unfolding abs_less_iff of_int_add of_int_diff of_int_1
    by linarith+
  then show ?thesis by (simp only: of_int_less_iff)
qed

lemma fl_fixed_mantissa:
  assumes "0 < x" "fl x = x"
  obtains M where "x = of_int M * 2 powi (ilog 2 x - 52)" "2 ^ 52 \<le> M" "M < 2 ^ 53"
proof -
  let ?e = "ilog 2 x - 52"
  let ?M = "round_half_even (x / 2 powi ?e)"
  have x: "x = of_int ?M * 2 powi ?e" using assms fl_pos by metis
  have p: "(2::rat) powi ilog 2 x = of_int (2 ^ 52) * 2 powi ?e"
      "(2::rat) powi (ilog 2 x + 1) = of_int (2 ^ 53) * 2 powi ?e"
    by (simp_all add: power_int_diff power_int_add)
  have "of_int (2 ^ 52) * 2 powi ?e \<le> (of_int ?M * 2 powi ?e :: rat)"
      "(of_int ?M * 2 powi ?e :: rat) < of_int (2 ^ 53) * 2 powi ?e"
    using ilog_bounds [of 2 x] assms(1) unfolding p [symmetric] x [symmetric] by simp_all
  then have "(of_int (2 ^ 52) :: rat) \<le> of_int ?M" "(of_int ?M :: rat) < of_int (2 ^ 53)"
    by (simp_all only: mult_le_cancel_right_pos mult_less_cancel_right_pos zero_less_power_int
        zero_less_numeral)
  then have "2 ^ 52 \<le> ?M" "?M < 2 ^ 53" by (simp_all only: of_int_le_iff of_int_less_iff)
  with x that show ?thesis by blast
qed

lemma fl_near:
  assumes x: "0 < x" "fl x = x" and near: "\<bar>v - x\<bar> * (2 * 10 ^ 16) \<le> x"
  shows "fl v = x"
proof -
  define i where "i = ilog 2 x"
  define P where "P = (2::rat) powi (i - 52)"
  obtain M where M: "x = of_int M * P" "2 ^ 52 \<le> M" "M < 2 ^ 53"
    using fl_fixed_mantissa [OF x] unfolding P_def i_def by blast
  have P: "0 < P" by (simp add: P_def)
  define d where "d = (v - x) / P"
  have v: "v = (of_int M + d) * P" using P M(1) by (simp add: d_def field_simps)
  have d: "\<bar>d\<bar> * (2 * 10 ^ 16) \<le> of_int M"
  proof -
    have "\<bar>d\<bar> * (2 * 10 ^ 16) = \<bar>v - x\<bar> * (2 * 10 ^ 16) / P" using P by (simp add: d_def)
    also have "\<dots> \<le> x / P" using near P by (simp add: divide_right_mono)
    also have "\<dots> = of_int M" using P M(1) by simp
    finally show ?thesis .
  qed
  have M1: "(of_int M :: rat) \<le> 2 ^ 53 - 1" "(2 ^ 52 :: rat) \<le> of_int M"
  proof -
    have "(of_int M :: rat) \<le> of_int (2 ^ 53 - 1)" "(of_int (2 ^ 52) :: rat) \<le> of_int M"
      unfolding of_int_le_iff using M(2,3) by simp_all
    then show "(of_int M :: rat) \<le> 2 ^ 53 - 1" "(2 ^ 52 :: rat) \<le> of_int M" by simp_all
  qed
  have dh: "\<bar>d\<bar> < 1 / 2" using d M1(1) by simp
  have P52: "2 powi i = 2 ^ 52 * P" "2 powi (i + 1) = 2 ^ 53 * P" "2 powi (i - 1) = 2 ^ 51 * P"
    by (simp_all add: P_def power_int_diff power_int_add)
  have v0: "0 < v" using v P M1(2) dh by (simp add: zero_less_mult_iff abs_less_iff)
  have hi: "v < 2 powi (i + 1)"
    unfolding v P52 using P M1(1) dh by (intro mult_strict_right_mono) (auto simp: abs_less_iff)
  show ?thesis
  proof (cases "2 powi i \<le> v")
    case True
    then have "ilog 2 v = i" using hi by (intro ilog_unique) simp_all
    then have "fl v = of_int (round_half_even (v / P)) * P" using v0 by (simp add: fl_pos P_def)
    moreover have "round_half_even (v / P) = M"
      using dh P by (intro round_half_even_near) (simp add: v)
    ultimately show ?thesis using M(1) by simp
  next
    case False
    then have "of_int M + d < 2 ^ 52" unfolding v P52 using P by (simp add: mult_less_cancel_right_pos not_le)
    then have "(of_int M :: rat) < of_int (2 ^ 52 + 1)" using dh by (simp add: abs_less_iff)
    then have MM: "M = 2 ^ 52" using M(2) by (simp only: of_int_less_iff)
    have dq: "\<bar>d\<bar> < 1 / 4" using d by (simp add: MM)
    have "2 powi (i - 1) \<le> v"
      unfolding v P52 using P dq by (intro mult_right_mono) (auto simp: MM abs_less_iff)
    then have i: "ilog 2 v = i - 1" using False by (intro ilog_unique) simp_all
    have half: "(2::rat) powi (i - 53) = P / 2" by (simp add: P_def power_int_diff)
    have "round_half_even (v / (P / 2)) = 2 ^ 53"
      using dq P by (intro round_half_even_near) (simp add: v MM abs_less_iff)
    moreover have "ilog 2 v - 52 = i - 53" using i by simp
    ultimately have "fl v = 2 ^ 53 * (P / 2)" using fl_pos [OF v0] by (simp only: half) simp
    also have "\<dots> = x" using M(1) by (simp add: MM)
    finally show ?thesis .
  qed
qed

lemma dec_candidate_17:
  assumes "0 < x" "fl x = x"
  shows "fl (dec_value (dec_candidate x 17)) = x"
proof (rule fl_near [OF assms])
  let ?s = "ilog 10 x - 16"
  let ?P = "(10::rat) powi ?s" and ?m = "round_half_even (x / 10 powi ?s)"
  have P: "0 < ?P" by simp
  have v: "dec_value (dec_candidate x 17) = of_int ?m * ?P"
    by (simp add: dec_value_def dec_candidate_def Let_def)
  have "\<bar>of_int ?m - x / ?P\<bar> \<le> 1 / 2"
    using round_half_even_bounds [of "x / ?P"] unfolding abs_le_iff by linarith
  then have "\<bar>of_int ?m - x / ?P\<bar> * ?P \<le> 1 / 2 * ?P" by (intro mult_right_mono) simp_all
  moreover have "\<bar>of_int ?m - x / ?P\<bar> * ?P = \<bar>of_int ?m * ?P - x\<bar>"
  proof -
    have "(of_int ?m - x / ?P) * ?P = of_int ?m * ?P - x" by (simp add: left_diff_distrib)
    then show ?thesis using P by (metis abs_mult abs_of_pos)
  qed
  ultimately have "\<bar>of_int ?m * ?P - x\<bar> \<le> 1 / 2 * ?P" by (simp only:)
  then have "\<bar>of_int ?m * ?P - x\<bar> * (2 * 10 ^ 16) \<le> 1 / 2 * ?P * (2 * 10 ^ 16)"
    by (rule mult_right_mono) simp
  also have "1 / 2 * ?P * (2 * 10 ^ 16) = ?P * 10 ^ 16" by simp
  also have "?P * 10 ^ 16 = 10 powi ilog 10 x" by (simp add: power_int_diff)
  also have "\<dots> \<le> x" using ilog_bounds(1) [of 10 x] assms(1) by simp
  finally show "\<bar>dec_value (dec_candidate x 17) - x\<bar> * (2 * 10 ^ 16) \<le> x" by (simp add: v)
qed

lemma shortest_decimal_rounds:
  assumes "0 < x" "fl x = x"
  shows "fl (dec_value (shortest_decimal x)) = x"
  using dec_candidate_17 [OF assms]
  by (auto simp: shortest_decimal_def find_Some_iff split: option.splits)

section \<open>Scanning digits\<close>

text \<open>Text after a number that cannot continue it.\<close>

definition num_end :: "string \<Rightarrow> bool" where
  "num_end r \<longleftrightarrow>
     (case r of [] \<Rightarrow> True
      | c # _ \<Rightarrow> \<not> is_digit c \<and> c \<noteq> CHR ''.'' \<and> c \<noteq> CHR ''e'' \<and> c \<noteq> CHR ''E'')"

definition no_digit :: "string \<Rightarrow> bool" where
  "no_digit r \<longleftrightarrow> (case r of [] \<Rightarrow> True | c # _ \<Rightarrow> \<not> is_digit c)"

lemma num_end_no_digit: "num_end r \<Longrightarrow> no_digit r"
  by (auto simp: num_end_def no_digit_def split: list.splits)

lemma take_digits:
  assumes "\<forall>c\<in>set ds. is_digit c" "no_digit r"
  shows "takeWhile is_digit (ds @ r) = ds" "dropWhile is_digit (ds @ r) = r"
  using assms by (auto simp: no_digit_def takeWhile_append dropWhile_append takeWhile_eq_all_conv
      split: list.splits)

lemma read_dec_append: "read_dec (s @ t) = read_dec s * 10 ^ length t + read_dec t"
proof (induction t rule: rev_induct)
  case Nil
  then show ?case by (simp add: read_dec_def)
next
  case (snoc c t)
  have "read_dec (s @ t @ [c]) = 10 * read_dec (s @ t) + digit_val c" by (simp add: read_dec_def)
  moreover have "read_dec (t @ [c]) = 10 * read_dec t + digit_val c" by (simp add: read_dec_def)
  ultimately show ?case using snoc by (simp add: algebra_simps)
qed

lemma read_dec_zeros [simp]: "read_dec (replicate n (CHR ''0'')) = 0"
proof (induction n)
  case (Suc n)
  have "read_dec ([CHR ''0''] @ replicate n (CHR ''0'')) = 0"
    by (subst read_dec_append) (simp add: Suc, simp add: read_dec_def digit_val_def)
  then show ?case by simp
qed (simp add: read_dec_def)

lemma is_digit_zero [simp]: "is_digit CHR ''0''"
  by (simp add: is_digit_def)

lemma not_digit_marks [simp]: "\<not> is_digit CHR ''.''" "\<not> is_digit CHR ''e''" "\<not> is_digit CHR ''+''"
  by (simp_all add: is_digit_def)

lemma scan_int_part_digits:
  assumes "ip \<noteq> []" "\<forall>c\<in>set ip. is_digit c" "hd ip \<noteq> CHR ''0'' \<or> ip = ''0''" "no_digit r"
  shows "scan_int_part (ip @ r) = Some (ip, r)"
proof (cases "ip = ''0''")
  case False
  obtain c ds where ip: "ip = c # ds" using assms(1) by (cases ip) auto
  then have "is_digit c" "c \<noteq> CHR ''0''" using assms False by auto
  then show ?thesis using take_digits [OF assms(2,4)] ip by (simp add: scan_int_part_def)
qed (simp add: scan_int_part_def)

lemma scan_frac_digits:
  assumes "ds \<noteq> []" "\<forall>c\<in>set ds. is_digit c" "no_digit r"
  shows "scan_frac (CHR ''.'' # ds @ r) = (Some ds, r)"
  using assms take_digits [OF assms(2,3)] by (simp add: scan_frac_def)

lemma scan_frac_none: "num_end r \<Longrightarrow> scan_frac r = (None, r)"
  "scan_frac (CHR ''e'' # r) = (None, CHR ''e'' # r)"
  by (auto simp: scan_frac_def num_end_def split: list.splits)

lemma scan_exp_none: "num_end r \<Longrightarrow> scan_exp r = (None, r)"
  by (auto simp: scan_exp_def num_end_def split: list.splits)

lemma scan_exp_some:
  assumes "es \<noteq> []" "\<forall>c\<in>set es. is_digit c" "num_end r"
  shows "scan_exp (CHR ''e'' # (if neg then CHR ''-'' else CHR ''+'') # es @ r)
         = (Some (if neg then - read_dec es else read_dec es), r)"
  using assms take_digits [OF assms(2) num_end_no_digit [OF assms(3)]]
  by (simp add: scan_exp_def scan_exp_digits_def)

section \<open>The layouts of \<open>repr\<close>\<close>

definition decimal_value :: "bool \<Rightarrow> string \<Rightarrow> int \<Rightarrow> rat" where
  "decimal_value neg ds pt =
     (if neg then - (of_int (read_dec ds) * 10 powi (pt - int (length ds)))
      else of_int (read_dec ds) * 10 powi (pt - int (length ds)))"

lemma scan_fixed:
  assumes "ip \<noteq> []" "\<forall>c\<in>set ip. is_digit c" "hd ip \<noteq> CHR ''0'' \<or> ip = ''0''"
    and "fp \<noteq> []" "\<forall>c\<in>set fp. is_digit c" "num_end r" "read_dec (ip @ fp) \<noteq> 0"
  shows "scan_number neg (ip @ CHR ''.'' # fp @ r)
         = Inr (JFloat (fl (decimal_value neg (ip @ fp) (int (length ip)))), r)"
proof -
  have "no_digit (CHR ''.'' # fp @ r)" by (simp add: no_digit_def)
  with assms show ?thesis
    using scan_int_part_digits [of ip "CHR ''.'' # fp @ r"]
    by (simp add: scan_number_def scan_frac_digits num_end_no_digit scan_exp_none float_of_decimal_def
        decimal_value_def)
qed

lemma scan_exponent:
  assumes "ip \<noteq> []" "\<forall>c\<in>set ip. is_digit c" "hd ip \<noteq> CHR ''0''"
    and "\<forall>c\<in>set fp. is_digit c" "es \<noteq> []" "\<forall>c\<in>set es. is_digit c" "num_end r"
    and "read_dec (ip @ fp) \<noteq> 0" "e = (if en then - read_dec es else read_dec es)"
  shows "scan_number neg (ip @ (if fp = [] then [] else CHR ''.'' # fp)
           @ CHR ''e'' # (if en then CHR ''-'' else CHR ''+'') # es @ r)
         = Inr (JFloat (fl (decimal_value neg (ip @ fp) (int (length ip) + e))), r)"
proof -
  let ?x = "CHR ''e'' # (if en then CHR ''-'' else CHR ''+'') # es @ r"
  have nd: "no_digit ?x" "no_digit ((if fp = [] then [] else CHR ''.'' # fp) @ ?x)"
    by (auto simp: no_digit_def)
  have ip: "scan_int_part (ip @ (if fp = [] then [] else CHR ''.'' # fp) @ ?x)
      = Some (ip, (if fp = [] then [] else CHR ''.'' # fp) @ ?x)"
    using assms(1-3) nd(2) by (intro scan_int_part_digits) auto
  have fp: "scan_frac ((if fp = [] then [] else CHR ''.'' # fp) @ ?x)
      = (if fp = [] then None else Some fp, ?x)"
    using assms(4) nd(1) by (simp add: scan_frac_digits scan_frac_none)
  have "scan_exp ?x = (Some e, r)" using assms scan_exp_some [of es r en] by simp
  with ip fp assms(8) show ?thesis
    by (cases "fp = []")
      (simp_all add: scan_number_def float_of_decimal_def decimal_value_def Let_def algebra_simps)
qed

lemma digit_val_bounds: "is_digit c \<Longrightarrow> 0 \<le> digit_val c \<and> digit_val c \<le> 9"
  by (simp add: is_digit_def digit_val_def)

lemma digit_val_pos: "is_digit c \<Longrightarrow> c \<noteq> CHR ''0'' \<Longrightarrow> 0 < digit_val c"
proof -
  assume "is_digit c" "c \<noteq> CHR ''0''"
  moreover have "c = CHR ''0''" if "(of_char c :: int) = 48"
  proof -
    have "(of_char c :: int) = of_char (CHR ''0'')" using that by simp
    then show ?thesis by (simp only: of_char_eq_iff)
  qed
  ultimately show ?thesis by (auto simp: is_digit_def digit_val_def order_le_less)
qed

lemma read_dec_nonneg: "\<forall>c\<in>set s. is_digit c \<Longrightarrow> 0 \<le> read_dec s"
proof (induction s rule: rev_induct)
  case (snoc c s)
  then show ?case using digit_val_bounds [of c] by (simp add: read_dec_append read_dec_def)
qed (simp add: read_dec_def)

lemma read_dec_pos:
  assumes "ds \<noteq> []" "\<forall>c\<in>set ds. is_digit c" "hd ds \<noteq> CHR ''0''"
  shows "0 < read_dec ds"
proof -
  obtain c cs where ds: "ds = [c] @ cs" using assms(1) by (cases ds) auto
  then have "0 < digit_val c" "0 \<le> read_dec cs"
    using assms digit_val_pos read_dec_nonneg by auto
  then show ?thesis unfolding ds by (subst read_dec_append) (simp add: read_dec_def add_pos_nonneg)
qed

text \<open>The four layouts of a number: a leading zero, digits and zeros, a point within the digits, an exponent.\<close>

lemma scan_format_small:
  assumes ds: "ds \<noteq> []" "\<forall>c\<in>set ds. is_digit c" "hd ds \<noteq> CHR ''0''" and r: "num_end r"
    and small: "-4 < pt" "pt \<le> 0"
  shows "scan_number neg (format_float ds pt @ r) = Inr (JFloat (fl (decimal_value neg ds pt)), r)"
proof -
  note pos = read_dec_pos [OF ds]
  let ?fp = "replicate (nat (- pt)) (CHR ''0'') @ ds"
  have "read_dec (''0'' @ ?fp) = read_dec ds"
    by (simp only: read_dec_append read_dec_zeros) (simp add: read_dec_def digit_val_def)
  then have "decimal_value neg (''0'' @ ?fp) 1 = decimal_value neg ds pt" "read_dec (''0'' @ ?fp) \<noteq> 0"
    using small pos by (simp_all add: decimal_value_def)
  then show ?thesis
    using small ds r scan_fixed [of "''0''" ?fp r neg]
    by (simp add: format_float_def set_replicate_conv_if split: if_splits)
qed

lemma scan_format_whole:
  assumes ds: "ds \<noteq> []" "\<forall>c\<in>set ds. is_digit c" "hd ds \<noteq> CHR ''0''" and r: "num_end r"
    and whole: "0 < pt" "pt \<le> 16" "int (length ds) \<le> pt"
  shows "scan_number neg (format_float ds pt @ r) = Inr (JFloat (fl (decimal_value neg ds pt)), r)"
proof -
  note pos = read_dec_pos [OF ds]
  let ?k = "nat pt - length ds" and ?ip = "ds @ replicate (nat pt - length ds) (CHR ''0'')"
  have k: "pt - int (length ds) = int ?k" "int (length ?ip) = pt"
    "pt - int (length (?ip @ ''0'')) = - 1" using whole by simp_all
  have rd: "read_dec (?ip @ ''0'') = read_dec ds * 10 ^ ?k * 10"
    by (simp only: read_dec_append read_dec_zeros) (simp add: read_dec_def digit_val_def)
  then have "decimal_value neg (?ip @ ''0'') (int (length ?ip)) = decimal_value neg ds pt"
      "read_dec (?ip @ ''0'') \<noteq> 0"
    unfolding decimal_value_def k using pos by (simp_all only: rd k(3)) (simp_all add: power_int_minus)
  then show ?thesis
    using whole ds r k(2) scan_fixed [of ?ip "''0''" r neg]
    by (simp add: format_float_def set_replicate_conv_if split: if_splits)
qed

lemma scan_format_point:
  assumes ds: "ds \<noteq> []" "\<forall>c\<in>set ds. is_digit c" "hd ds \<noteq> CHR ''0''" and r: "num_end r"
    and point: "0 < pt" "pt \<le> 16" "pt < int (length ds)"
  shows "scan_number neg (format_float ds pt @ r) = Inr (JFloat (fl (decimal_value neg ds pt)), r)"
proof -
  note pos = read_dec_pos [OF ds]
  let ?n = "nat pt"
  have "take ?n ds \<noteq> []" "drop ?n ds \<noteq> []" "hd (take ?n ds) = hd ds" "int (length (take ?n ds)) = pt"
    using point ds(1) by (simp_all add: hd_take min_def)
  then show ?thesis
    using point ds r pos scan_fixed [of "take ?n ds" "drop ?n ds" r neg]
    by (simp add: format_float_def) (meson in_set_takeD in_set_dropD)
qed

lemma scan_format_exponent:
  assumes ds: "ds \<noteq> []" "\<forall>c\<in>set ds. is_digit c" "hd ds \<noteq> CHR ''0''" and r: "num_end r"
    and exp: "\<not> (-4 < pt \<and> pt \<le> 16)"
  shows "scan_number neg (format_float ds pt @ r) = Inr (JFloat (fl (decimal_value neg ds pt)), r)"
proof -
  note pos = read_dec_pos [OF ds]
  let ?es = "(if length (show_base 10 \<bar>pt - 1\<bar>) < 2 then ''0'' @ show_base 10 \<bar>pt - 1\<bar>
              else show_base 10 \<bar>pt - 1\<bar>)"
  have es: "?es \<noteq> []" "\<forall>c\<in>set ?es. is_digit c" "read_dec ?es = \<bar>pt - 1\<bar>"
    using show_base_digits [of "\<bar>pt - 1\<bar>"] read_dec_append [of "''0''" "show_base 10 \<bar>pt - 1\<bar>"]
    by (auto simp: read_dec_def [of "''0''"] digit_val_def)
  have tk: "take 1 ds \<noteq> []" "hd (take 1 ds) = hd ds" "length (take 1 ds) = 1"
    "length ds = 1 \<longleftrightarrow> drop 1 ds = []"
    using ds(1) by (cases ds; simp)+
  have "scan_number neg (take 1 ds @ (if drop 1 ds = [] then [] else CHR ''.'' # drop 1 ds)
           @ CHR ''e'' # (if pt - 1 < 0 then CHR ''-'' else CHR ''+'') # ?es @ r)
       = Inr (JFloat (fl (decimal_value neg (take 1 ds @ drop 1 ds)
            (int (length (take 1 ds)) + (pt - 1)))), r)"
  proof (rule scan_exponent)
    show "\<forall>c\<in>set (take 1 ds). is_digit c" "\<forall>c\<in>set (drop 1 ds). is_digit c"
      using ds(2) by (meson in_set_takeD in_set_dropD)+
  qed (use es tk ds r pos in \<open>simp_all only:, simp_all\<close>)
  moreover have "format_float ds pt @ r
      = take 1 ds @ (if drop 1 ds = [] then [] else CHR ''.'' # drop 1 ds)
           @ CHR ''e'' # (if pt - 1 < 0 then CHR ''-'' else CHR ''+'') # ?es @ r"
    using exp tk(4) unfolding format_float_def Let_def by (simp only: if_False) simp
  ultimately show ?thesis unfolding append_take_drop_id tk(3) by simp
qed

lemma scan_format_float:
  assumes "ds \<noteq> []" "\<forall>c\<in>set ds. is_digit c" "hd ds \<noteq> CHR ''0''" "num_end r"
  shows "scan_number neg (format_float ds pt @ r) = Inr (JFloat (fl (decimal_value neg ds pt)), r)"
proof -
  consider "-4 < pt" "pt \<le> 0" | "0 < pt" "pt \<le> 16" "int (length ds) \<le> pt" | "0 < pt" "pt \<le> 16" "pt < int (length ds)"
    | "\<not> (-4 < pt \<and> pt \<le> 16)" by linarith
  then show ?thesis
    using scan_format_small [OF assms] scan_format_whole [OF assms] scan_format_point [OF assms] scan_format_exponent [OF assms]
    by cases blast+
qed

section \<open>The round trip\<close>

lemma scan_atom_digit:
  assumes "is_digit c"
  shows "scan_atom (c # s) = scan_number False (c # s)"
    and "scan_atom (CHR ''-'' # c # s) = scan_number True (c # s)"
proof -
  have "c \<noteq> CHR ''n''" "c \<noteq> CHR ''t''" "c \<noteq> CHR ''f''" "c \<noteq> CHR ''-''"
    using assms by (auto simp: is_digit_def)
  moreover have "scan_int_part (c # s) \<noteq> None" using assms by (simp add: scan_int_part_def)
  ultimately show "scan_atom (c # s) = scan_number False (c # s)"
    and "scan_atom (CHR ''-'' # c # s) = scan_number True (c # s)"
    by (simp_all add: scan_atom_def starts_with_def)
qed

lemma strip_zeros_split:
  obtains z where "s = strip_zeros s @ replicate z (CHR ''0'')"
proof -
  have "rev s = takeWhile (\<lambda>c. c = CHR ''0'') (rev s) @ dropWhile (\<lambda>c. c = CHR ''0'') (rev s)"
    by simp
  then have "s = strip_zeros s @ rev (takeWhile (\<lambda>c. c = CHR ''0'') (rev s))"
    unfolding strip_zeros_def by (metis rev_append rev_rev_ident)
  moreover have "takeWhile (\<lambda>c. c = CHR ''0'') (rev s)
      = replicate (length (takeWhile (\<lambda>c. c = CHR ''0'') (rev s))) (CHR ''0'')"
    by (rule replicate_length_same [symmetric]) (auto dest: set_takeWhileD)
  ultimately show ?thesis using that by (metis rev_replicate)
qed

lemma shortest_decimal_pos:
  assumes "0 < x"
  shows "0 < fst (shortest_decimal x)"
proof -
  have "0 < fst (dec_candidate x n)" if "0 < n" for n
  proof -
    let ?s = "ilog 10 x - int n + 1"
    have "(10::rat) powi ?s \<le> 10 powi ilog 10 x" using that by (intro power_int_increasing) simp_all
    then have "(10::rat) powi ?s \<le> x" using ilog_bounds(1) [of 10 x] assms by simp
    then have "(of_int 1 :: rat) \<le> x / 10 powi ?s" by (simp add: pos_le_divide_eq)
    then have "1 \<le> round_half_even (x / 10 powi ?s)"
      using round_half_even_mono round_half_even_of_int by metis
    then show ?thesis by (simp add: dec_candidate_def Let_def)
  qed
  then show ?thesis
    by (auto simp: shortest_decimal_def find_Some_iff split: option.splits)
qed

lemma show_base_hd_pos: "0 < n \<Longrightarrow> hd (show_base 10 n) \<noteq> CHR ''0''"
  using show_base_hd_zero [of n] by auto

theorem scan_float_repr:
  assumes x: "fl x = x" and r: "num_end r"
  shows "scan_atom (float_repr x @ r) = Inr (JFloat x, r)"
proof (cases "x = 0")
  case True
  have "scan_number False (''0'' @ CHR ''.'' # ''0'' @ r) = Inr (JFloat 0, r)"
    using r by (simp add: scan_number_def scan_int_part_def scan_frac_def scan_exp_none
        num_end_no_digit take_digits [of "''0''", simplified] float_of_decimal_def read_dec_def digit_val_def)
  then show ?thesis using True scan_atom_digit(1) [of "CHR ''0''"] by (simp add: float_repr_def)
next
  case False
  obtain m s where ms: "shortest_decimal \<bar>x\<bar> = (m, s)" by force
  define t ds pt where "t = show_base 10 m" and "ds = strip_zeros t" and "pt = int (length t) + s"
  have ax: "fl \<bar>x\<bar> = \<bar>x\<bar>" using x fl_minus [of x] by (simp add: abs_if)
  have m: "0 < m" using shortest_decimal_pos [of "\<bar>x\<bar>"] False ms by simp
  obtain z where z: "t = ds @ replicate z (CHR ''0'')" using strip_zeros_split [of t] unfolding ds_def by blast
  have "set ds \<subseteq> set t" by (subst z) simp
  then have dg: "\<forall>c\<in>set ds. is_digit c" using show_base_digits [of m] m unfolding t_def by auto
  have ne: "ds \<noteq> []"
  proof
    assume "ds = []"
    then have "read_dec t = 0" by (subst z) simp
    then show False using m read_show_base [of m] by (simp add: t_def)
  qed
  then have hd: "hd ds \<noteq> CHR ''0''" using show_base_hd_pos [OF m] z unfolding t_def by (metis hd_append2)
  have rd: "m = read_dec ds * 10 ^ z"
  proof -
    have "m = read_dec (ds @ replicate z (CHR ''0''))" using z m unfolding t_def by (metis read_show_base order_less_imp_le)
    then show ?thesis by (simp only: read_dec_append read_dec_zeros) simp
  qed
  have "int (length t) = int (length ds) + int z" by (subst z) simp
  then have e: "pt - int (length ds) = int z + s" by (simp add: pt_def)
  have "dec_value (m, s) = of_int (read_dec ds) * 10 powi (pt - int (length ds))"
    unfolding e by (simp add: dec_value_def power_int_add) (simp add: rd)
  moreover have "fl (dec_value (m, s)) = \<bar>x\<bar>" using shortest_decimal_rounds [of "\<bar>x\<bar>"] False ax ms by simp
  ultimately have val: "fl (decimal_value (x < 0) ds pt) = x"
    by (auto simp: decimal_value_def fl_minus)
  have "is_digit (hd (format_float ds pt))" "format_float ds pt \<noteq> []"
    using ne dg by (auto simp: format_float_def hd_append Let_def take_Suc hd_take)
  then obtain c f where cf: "format_float ds pt = c # f" "is_digit c"
    by (cases "format_float ds pt") auto
  have "scan_number (x < 0) (format_float ds pt @ r) = Inr (JFloat x, r)"
    using scan_format_float [OF ne dg hd r, of "x < 0" pt] val by simp
  then show ?thesis
    using False ms cf scan_atom_digit [of c "f @ r"] by (cases "x < 0") (simp_all add: float_repr_def Let_def flip: t_def ds_def pt_def)
qed

lemma show_int_scan:
  assumes "num_end r"
  shows "scan_atom (show_int i @ r) = Inr (JInt i, r)"
proof -
  have pos: "scan_number neg (show_base 10 n @ r) = Inr (JInt (if neg then - n else n), r)"
      "is_digit (hd (show_base 10 n))" if "0 \<le> n" for n neg
  proof -
    have dg: "\<forall>c\<in>set (show_base 10 n). is_digit c" using that show_base_digits by blast
    then show "is_digit (hd (show_base 10 n))" by simp
    have "show_base 10 0 = ''0''" by code_simp
    then have "hd (show_base 10 n) \<noteq> CHR ''0'' \<or> show_base 10 n = ''0''"
      using show_base_hd_zero that by metis
    then have "scan_int_part (show_base 10 n @ r) = Some (show_base 10 n, r)"
      using dg num_end_no_digit [OF assms] by (intro scan_int_part_digits) simp_all
    then show "scan_number neg (show_base 10 n @ r) = Inr (JInt (if neg then - n else n), r)"
      using assms that by (simp add: scan_number_def scan_frac_none scan_exp_none)
  qed
  obtain c f where cf: "show_base 10 \<bar>i\<bar> = c # f"
    using show_base_nonempty by (metis list.exhaust)
  have "scan_number (i < 0) (c # f @ r) = Inr (JInt i, r)" "is_digit c"
    using pos(1) [of "\<bar>i\<bar>" "i < 0"] pos(2) [of "\<bar>i\<bar>"] by (auto simp: cf)
  then show ?thesis
    using cf scan_atom_digit [of c "f @ r"] by (cases "i < 0") (simp_all add: show_int_def)
qed

end
