(* ===== verification/Json_Roundtrip.thy ===== *)
theory Json_Roundtrip
  imports Float_Roundtrip
begin

text \<open>
  \<open>json.loads (json.dumps v)\<close> gives back \<open>v\<close>, for every value whose floats are binary64
  values and whose objects have distinct keys (\<open>loads_dumps_eq\<close>); and the fuel that
  \<open>loads\<close> passes is enough on every text (\<open>loads_no_recursion_error\<close>).
\<close>

fun json_ok :: "json \<Rightarrow> bool" where
  "json_ok (JFloat x) \<longleftrightarrow> fl x = x"
| "json_ok (JList vs) \<longleftrightarrow> (\<forall>v \<in> set vs. json_ok v)"
| "json_ok (JObj ms) \<longleftrightarrow> distinct (map fst ms) \<and> (\<forall>m \<in> set ms. json_ok (snd m))"
| "json_ok _ \<longleftrightarrow> True"

section \<open>Strings\<close>

lemma hex_val_digit: "d < 16 \<Longrightarrow> hex_val (hex_digit d) = Some d"
  by (auto simp: hex_val_def hex_digit_def Let_def)

lemma scan_escape_char:
  "scan_string (escape_char c @ s) = rbind (scan_string s) (\<lambda>(t, r). Inr (c # t, r))"
proof -
  have lt: "of_char c < (256 :: nat)" by simp
  have sp: "(0 * 16 + 0) * 16 + of_char c div 16 = (of_char c div 16 :: nat)"
    "(of_char c div 16 * 16 + of_char c mod 16 :: nat) = of_char c" by simp_all
  have "hex_val (CHR ''0'') = Some 0" by (simp add: hex_val_def)
  then have h4: "hex4 (CHR ''0'') (CHR ''0'') (hex_digit (of_char c div 16)) (hex_digit (of_char c mod 16))
      = Some (of_char c)"
    using lt by (simp add: hex4_def hex_val_digit less_mult_imp_div_less sp)
  show ?thesis
    using lt h4 by (simp add: escape_char_def unescape_char_def)
qed

lemma scan_quoted: "scan_string (concat (map escape_char s) @ CHR 0x22 # r) = Inr (s, r)"
  by (induction s) (simp_all add: scan_escape_char)

text \<open>A scanner's result is fine for input length \<open>n\<close>: it consumed something, or failed properly.\<close>

definition scan_fine :: "nat \<Rightarrow> ('a \<times> string) result \<Rightarrow> bool" where
  "scan_fine n res \<longleftrightarrow> (case res of Inl e \<Rightarrow> e \<noteq> RecursionError | Inr (_, r) \<Rightarrow> length r < n)"

lemma scan_fine_error [simp]: "scan_fine n json_error" "scan_fine n (Inl (Unmodelled m))"
  by (simp_all add: scan_fine_def json_error_def)

lemma scan_fine_Inr [simp]: "scan_fine n (Inr (x, r)) \<longleftrightarrow> length r < n"
  by (simp add: scan_fine_def)

lemma scan_fine_bind:
  assumes "scan_fine m res" "\<And>x r. length r < m \<Longrightarrow> scan_fine n (f (x, r))"
  shows "scan_fine n (rbind res f)"
proof (cases res)
  case (Inl e)
  then show ?thesis using assms(1) by (simp add: scan_fine_def)
next
  case (Inr xr)
  then show ?thesis using assms by (cases xr) simp
qed

lemma scan_fine_mono: "scan_fine m res \<Longrightarrow> m \<le> n \<Longrightarrow> scan_fine n res"
  by (auto simp: scan_fine_def split: sum.splits)

lemma scan_string_fine: "scan_fine (length s) (scan_string s)"
proof (induction s rule: length_induct)
  case (1 s)
  have step: "scan_fine N (rbind (scan_string s') (\<lambda>(t, r). Inr (d # t, r)))"
    if "N = length s" "length s' < length s" for N s' d
    using that 1 by (auto intro!: scan_fine_bind [of "length s'"])
  show ?case
  proof (cases s)
    case (Cons c s1)
    consider (quote) "c = CHR 0x22" | (esc) "c = CHR 0x5C" | (plain) "c \<noteq> CHR 0x22" "c \<noteq> CHR 0x5C"
      by blast
    then show ?thesis
    proof cases
      case esc
      show ?thesis
      proof (cases s1)
        case (Cons e s2)
        have "scan_fine (length s) (case s2 of
                   h1 # h2 # h3 # h4 # s3 \<Rightarrow>
                     (case hex4 h1 h2 h3 h4 of
                        None \<Rightarrow> json_error
                      | Some n \<Rightarrow>
                          if n < 256
                          then rbind (scan_string s3) (\<lambda>(t, r). Inr (char_of n # t, r))
                          else Inl (Unmodelled ''text outside Latin-1''))
                 | _ \<Rightarrow> json_error)"
          by (auto intro!: step simp: \<open>s = c # s1\<close> Cons split: list.split option.split)
        then show ?thesis
          using esc \<open>s = c # s1\<close> Cons step by (simp split: option.split)
      qed (use esc Cons in simp)
    qed (use Cons step in simp_all)
  qed simp
qed

section \<open>Structure\<close>

definition value_start :: "char \<Rightarrow> bool" where
  "value_start c \<longleftrightarrow> \<not> is_ws c \<and> c \<noteq> CHR '']'' \<and> c \<noteq> CHR ''}''"

lemma is_digit_value_start: "is_digit c \<Longrightarrow> value_start c"
  by (auto simp: is_digit_def value_start_def is_ws_def)

lemma skip_ws_start: "value_start c \<Longrightarrow> skip_ws (c # s) = c # s"
  by (simp add: skip_ws_def value_start_def)

lemma skip_ws_marks [simp]:
  "skip_ws (CHR '','' # s) = CHR '','' # s" "skip_ws (CHR '':'' # s) = CHR '':'' # s"
  "skip_ws (CHR '']'' # s) = CHR '']'' # s" "skip_ws (CHR ''}'' # s) = CHR ''}'' # s"
  "skip_ws (CHR 0x22 # s) = CHR 0x22 # s" "skip_ws (CHR '' '' # s) = skip_ws s"
  by (simp_all add: skip_ws_def is_ws_def)

lemma number_start:
  "value_start (hd (show_int i)) \<and> show_int i \<noteq> [] \<and> hd (show_int i) \<notin> {CHR 0x22, CHR ''{'', CHR ''[''}"
proof -
  have "is_digit (hd (show_base 10 n))" if "0 \<le> n" for n
    using show_base_digits [OF that, of "hd (show_base 10 n)"] by simp
  moreover have "\<not> is_digit CHR 0x22" "\<not> is_digit CHR ''{''" "\<not> is_digit CHR ''[''"
    by (simp_all add: is_digit_def)
  ultimately show ?thesis
    using is_digit_value_start
    by (cases "i < 0") (auto simp: show_int_def value_start_def is_ws_def, (metis linorder_not_le)+)
qed

text \<open>A text that scans as a number begins like one.\<close>

lemma scan_atom_start:
  assumes "scan_atom (s @ r) = Inr (v, r)" "s \<noteq> []"
  shows "value_start (hd s) \<and> hd s \<notin> {CHR 0x22, CHR ''{'', CHR ''[''}"
proof -
  obtain c s' where s: "s = c # s'" using assms(2) by (cases s) auto
  have "c \<in> {CHR ''n'', CHR ''t'', CHR ''f'', CHR ''-''} \<or> is_digit c"
    using assms(1) by (auto simp: s scan_atom_def starts_with_def scan_int_part_def json_error_def split: if_splits)
  then show ?thesis
    using is_digit_value_start [of c] by (auto simp: s value_start_def is_ws_def is_digit_def)
qed

lemma float_repr_nonempty: "float_repr x \<noteq> []"
  by (auto simp: float_repr_def format_float_def Let_def split: prod.splits if_splits)

lemma float_start:
  "fl x = x \<Longrightarrow> value_start (hd (float_repr x)) \<and> hd (float_repr x) \<notin> {CHR 0x22, CHR ''{'', CHR ''[''}"
  using scan_atom_start [OF _ float_repr_nonempty, of x "[]" "JFloat x"] scan_float_repr [of x "[]"]
  by (simp add: num_end_def)

lemma dumps_nonempty [simp]: "dumps v \<noteq> []"
  using number_start float_repr_nonempty
  by (cases v rule: dumps.cases) (auto simp: dumps_bool_def quote_str_def)

lemma dumps_start: "json_ok v \<Longrightarrow> value_start (hd (dumps v))"
  using number_start float_start
  by (cases v rule: dumps.cases) (auto simp: dumps_bool_def quote_str_def value_start_def is_ws_def)

lemma skip_ws_dumps [simp]: "json_ok v \<Longrightarrow> skip_ws (dumps v @ s) = dumps v @ s"
  using dumps_start [of v] skip_ws_start by (cases "dumps v") auto

lemma num_end_tails [simp]: "num_end (dumps_elems vs @ r)" "num_end (dumps_members ms @ r)"
  by (cases vs; simp add: num_end_def is_digit_def) (cases ms; auto simp: num_end_def is_digit_def)

lemma obj_of_pairs_distinct: "distinct (map fst ms) \<Longrightarrow> obj_of_pairs ms = JObj ms"
proof -
  have app: "dict_set k v d = d @ [(k, v)]" if "k \<notin> fst ` set d" for k and v :: json and d
    using that by (induction d) auto
  have "distinct (map fst (d @ ms)) \<Longrightarrow> foldl (\<lambda>d (k, v). dict_set k v d) d ms = d @ ms" for d
  proof (induction ms arbitrary: d)
    case (Cons m ms)
    then show ?case using Cons.IH [of "d @ [m]"] by (cases m) (auto simp: app)
  qed simp
  from this [of "[]"] show "distinct (map fst ms) \<Longrightarrow> ?thesis" by (simp add: obj_of_pairs_def)
qed

lemma parse_atom:
  assumes "s \<noteq> []" "hd s \<notin> {CHR 0x22, CHR ''{'', CHR ''[''}" "scan_atom (s @ r) = Inr (v, r)" "0 < n"
  shows "parse_value n (s @ r) = Inr (v, r)"
  using assms by (cases s; cases n) auto

lemma dumps_tails_nonempty [simp]: "dumps_elems vs \<noteq> []" "dumps_members ms \<noteq> []"
  by (cases vs; simp) (cases ms; auto)

lemma length_tails: "0 < length (dumps_elems vs)" "0 < length (dumps_members ms)" "0 < length (dumps v)"
  by simp_all

section \<open>The round trip\<close>

lemma parse_dumps_all:
  "json_ok v \<Longrightarrow> num_end r \<Longrightarrow> 2 * length (dumps v) \<le> n \<Longrightarrow>
     parse_value n (dumps v @ r) = Inr (v, r)"
  "\<forall>u \<in> set vs. json_ok u \<Longrightarrow> json_ok v \<Longrightarrow> parse_value n (dumps v @ dumps_elems vs @ r) = Inr (v, dumps_elems vs @ r) \<Longrightarrow>
     2 * length (dumps_elems vs) \<le> n \<Longrightarrow>
     parse_elems (Suc n) (dumps v @ dumps_elems vs @ r) = Inr (v # vs, r)"
  "\<forall>m \<in> set ms. json_ok (snd m) \<Longrightarrow> json_ok v \<Longrightarrow> parse_value n (dumps v @ dumps_members ms @ r) = Inr (v, dumps_members ms @ r) \<Longrightarrow>
     2 * length (dumps_members ms) \<le> n \<Longrightarrow>
     parse_members (Suc n) (quote_str k @ '': '' @ dumps v @ dumps_members ms @ r) = Inr ((k, v) # ms, r)"
proof (induction v and vs and ms arbitrary: n r and n r v and n r k v
    rule: dumps_dumps_elems_dumps_members.induct)
  case 1
  show ?case using 1 by (cases n) (simp_all add: scan_atom_def starts_with_def)
next
  case (2 b)
  then show ?case by (cases n; cases b) (simp_all add: scan_atom_def starts_with_def dumps_bool_def)
next
  case (3 i)
  moreover from 3 have "0 < n" using number_start [of i] by (cases n) auto
  ultimately show ?case using number_start [of i] show_int_scan [of r i] by (simp add: parse_atom)
next
  case (4 x)
  moreover from 4 have "0 < n" using float_repr_nonempty [of x] by (cases n) auto
  ultimately show ?case
    using float_start [of x] scan_float_repr [of x r] float_repr_nonempty [of x]
    by (simp add: parse_atom)
next
  case (5 s)
  then show ?case by (cases n) (simp_all add: quote_str_def scan_quoted)
next
  case 6
  then show ?case by (cases n) simp_all
next
  case (7 v vs)
  then obtain n' where n: "n = Suc (Suc n')" "2 * length (dumps v) \<le> n'" "2 * length (dumps_elems vs) \<le> n'"
    using length_tails(3) [of v] length_tails(1) [of vs] by (cases n; cases "n - 1") auto
  have ok: "json_ok v" "\<forall>u\<in>set vs. json_ok u" using "7.prems"(1) by auto
  have "parse_elems (Suc n') (dumps v @ dumps_elems vs @ r) = Inr (v # vs, r)"
    using 7 n ok by (intro "7.IH"(2)) simp_all
  moreover obtain c s where "dumps v = c # s" "value_start c"
    using dumps_start [OF ok(1)] by (cases "dumps v") auto
  ultimately show ?case using n by (simp add: skip_ws_start) (simp add: value_start_def)
next
  case 8
  then show ?case by (cases n) simp_all
next
  case (9 k v ms)
  then obtain n' where n: "n = Suc (Suc n')" "2 * length (dumps v) \<le> n'" "2 * length (dumps_members ms) \<le> n'"
    using length_tails(3) [of v] length_tails(2) [of ms] by (cases n; cases "n - 1") auto
  have ok: "json_ok v" "\<forall>m\<in>set ms. json_ok (snd m)" "distinct (map fst ((k, v) # ms))"
    using "9.prems"(1) by auto
  have "parse_members (Suc n') (quote_str k @ '': '' @ dumps v @ dumps_members ms @ r) = Inr ((k, v) # ms, r)"
    using 9 n ok by (intro "9.IH"(2)) simp_all
  then show ?case
    using n obj_of_pairs_distinct [OF ok(3)] by (simp add: quote_str_def)
next
  case 10
  then show ?case by simp
next
  case (11 u us n r v)
  then obtain n' where n: "n = Suc n'" "2 * length (dumps u) \<le> n'" "2 * length (dumps_elems us) \<le> n'"
    by (cases n) auto
  have "parse_elems n (dumps u @ dumps_elems us @ r) = Inr (u # us, r)"
    unfolding n(1) using 11 n by (intro "11.IH"(2)) simp_all
  then show ?case using "11.prems" by simp
next
  case (12 n r k v)
  then show ?case by (simp add: quote_str_def scan_quoted)
next
  case (13 k' u us n r k v)
  then obtain n' where n: "n = Suc n'" "2 * length (dumps u) \<le> n'" "2 * length (dumps_members us) \<le> n'"
    by (cases n) auto
  have "parse_members n (quote_str k' @ '': '' @ dumps u @ dumps_members us @ r) = Inr ((k', u) # us, r)"
    unfolding n(1) using 13 n by (intro "13.IH"(2)) simp_all
  then show ?case using "13.prems" by (simp add: quote_str_def scan_quoted)
qed

lemma loads_dumps_eq: "json_ok v \<Longrightarrow> loads (dumps v) = Inr v"
  using parse_dumps_all(1) [of v "[]" "2 * length (dumps v) + 2"] skip_ws_dumps [of v "[]"]
  by (simp add: loads_def num_end_def skip_ws_def)

section \<open>The decoder always has enough fuel\<close>

lemma skip_ws_length: "length (skip_ws s) \<le> length s"
  by (simp add: skip_ws_def length_dropWhile_le)

lemma scan_number_fine: "scan_fine (length s) (scan_number neg s)"
proof -
  have dw: "length (dropWhile is_digit r) \<le> length r" for r by (rule length_dropWhile_le)
  have e: "length (snd (scan_exp r)) \<le> length r" for r
    using dw by (auto simp: scan_exp_def scan_exp_digits_def le_SucI split: list.splits)
  have f: "length (snd (scan_frac r)) \<le> length r" for r
    using dw by (auto simp: scan_frac_def le_SucI split: list.splits)
  show ?thesis
  proof (cases "scan_int_part s")
    case (Some p)
    obtain ip s1 fp s2 ep s3 where p: "p = (ip, s1)" "scan_frac s1 = (fp, s2)" "scan_exp s2 = (ep, s3)"
      by (metis surj_pair)
    have "length s1 < length s"
      using Some p(1) dw by (auto simp: scan_int_part_def less_Suc_eq_le split: list.splits if_splits)
    then have "length s3 < length s" using e [of s2] f [of s1] p by simp
    then show ?thesis
      using Some p by (auto simp: scan_number_def float_of_decimal_def Let_def)
  qed (simp add: scan_number_def)
qed

lemma scan_atom_fine: "scan_fine (length s) (scan_atom s)"
proof -
  have st: "starts_with p s \<Longrightarrow> length p \<le> length s" for p
    unfolding starts_with_def by (metis length_take min.cobounded1)
  have "scan_fine (length s) (scan_number True (drop 1 s))"
    using scan_number_fine scan_fine_mono by (metis diff_le_self length_drop)
  then show ?thesis
    using st [of "''null''"] st [of "''true''"] st [of "''false''"] scan_number_fine [of s False]
    by (auto simp: scan_atom_def)
qed

lemma scan_fine_skip:
  assumes "\<And>c r. Suc (length r) \<le> length s \<Longrightarrow> scan_fine n (f c r)"
  shows "scan_fine n (case skip_ws s of [] \<Rightarrow> json_error | c # r \<Rightarrow> f c r)"
proof (cases "skip_ws s")
  case (Cons c r)
  then show ?thesis using assms [of r c] skip_ws_length [of s] by simp
qed simp

lemma value_fine:
  assumes "\<And>s. 2 * length s + 2 \<le> n \<Longrightarrow> scan_fine (length s) (parse_elems n s)"
    and "\<And>s. 2 * length s + 2 \<le> n \<Longrightarrow> scan_fine (length s) (parse_members n s)" "2 * length s + 1 \<le> Suc n"
  shows "scan_fine (length s) (parse_value (Suc n) s)"
proof (cases s)
  case (Cons c s')
  have str: "scan_fine (length s) (rbind (scan_string s') (\<lambda>(t, r). Inr (JStr t, r)))"
    using Cons by (auto intro!: scan_fine_bind [OF scan_string_fine])
  have obj: "scan_fine (length s) (if d = CHR ''}'' then Inr (JObj [], r) else rbind (parse_members n (d # r)) (\<lambda>(ms, r'). Inr (obj_of_pairs ms, r')))"
    and arr: "scan_fine (length s) (if d = CHR '']'' then Inr (JList [], r) else rbind (parse_elems n (d # r)) (\<lambda>(vs, r'). Inr (JList vs, r')))"
    if "Suc (length r) \<le> length s'" for d r
    using Cons that assms(1,2) [of "d # r"] assms(3) by (auto intro!: scan_fine_bind [of "length (d # r)"])
  show ?thesis
    using scan_fine_skip [OF obj] scan_fine_skip [OF arr] str scan_atom_fine [of s] unfolding Cons by simp
qed simp

lemma elems_fine:
  assumes "\<And>s. 2 * length s + 1 \<le> n \<Longrightarrow> scan_fine (length s) (parse_value n s)"
    and "\<And>s. 2 * length s + 2 \<le> n \<Longrightarrow> scan_fine (length s) (parse_elems n s)" "2 * length s + 2 \<le> Suc n"
  shows "scan_fine (length s) (parse_elems (Suc n) s)"
proof -
  have "scan_fine (length s) (if c = CHR '']'' then Inr ([v], r')
      else if c = CHR '','' then rbind (parse_elems n (skip_ws r')) (\<lambda>(vs, r''). Inr (v # vs, r'')) else json_error)"
    if "length r < length s" "Suc (length r') \<le> length r" for c v r r'
  proof -
    have "length (skip_ws r') < length s" using that skip_ws_length [of r'] by linarith
    then show ?thesis using that assms(2) [of "skip_ws r'"] assms(3) by (auto intro!: scan_fine_bind [of "length (skip_ws r')"])
  qed
  then have "scan_fine (length s) (case skip_ws r of [] \<Rightarrow> json_error
      | c # r' \<Rightarrow> if c = CHR '']'' then Inr ([v], r')
          else if c = CHR '','' then rbind (parse_elems n (skip_ws r')) (\<lambda>(vs, r''). Inr (v # vs, r'')) else json_error)"
    if "length r < length s" for v r
    using that by (intro scan_fine_skip) blast
  moreover have "scan_fine (length s) (parse_value n s)" using assms(1,3) by simp
  ultimately show ?thesis by (auto intro!: scan_fine_bind)
qed

lemma members_fine:
  assumes "\<And>s. 2 * length s + 1 \<le> n \<Longrightarrow> scan_fine (length s) (parse_value n s)"
    and "\<And>s. 2 * length s + 2 \<le> n \<Longrightarrow> scan_fine (length s) (parse_members n s)" "2 * length s + 2 \<le> Suc n"
  shows "scan_fine (length s) (parse_members (Suc n) s)"
proof (cases s)
  case (Cons q s')
  have pair: "scan_fine (length s) (if d = CHR ''}'' then Inr ([(k, v)], r)
      else if d = CHR '','' then rbind (parse_members n (skip_ws r)) (\<lambda>(ms, r'). Inr ((k, v) # ms, r')) else json_error)"
    if "length r < length s'" for d k v r
  proof -
    have "length (skip_ws r) < length s'" using that skip_ws_length [of r] by linarith
    then show ?thesis using that Cons assms(2) [of "skip_ws r"] assms(3) by (auto intro!: scan_fine_bind [of "length (skip_ws r)"])
  qed
  have colon: "scan_fine (length s) (if c \<noteq> CHR '':'' then json_error
      else rbind (parse_value n (skip_ws r1)) (\<lambda>(v, r2).
        (case skip_ws r2 of
           [] \<Rightarrow> json_error
         | d # r3 \<Rightarrow>
             if d = CHR ''}'' then Inr ([(k, v)], r3)
             else if d = CHR '','' then rbind (parse_members n (skip_ws r3)) (\<lambda>(ms, r4). Inr ((k, v) # ms, r4))
             else json_error)))"
    if "length r1 < length s'" for c k r1
  proof -
    have l: "length (skip_ws r1) < length s'" using that skip_ws_length [of r1] by linarith
    then have "scan_fine (length (skip_ws r1)) (parse_value n (skip_ws r1))" using assms(1,3) Cons by simp
    then show ?thesis using l by (auto intro!: scan_fine_bind scan_fine_skip pair)
  qed
  show ?thesis
    unfolding Cons using colon [unfolded Cons] by (auto intro!: scan_fine_bind [OF scan_string_fine] scan_fine_skip simp del: scan_fine_Inr)
qed simp

lemma parse_fine:
  "2 * length s + 1 \<le> n \<Longrightarrow> scan_fine (length s) (parse_value n s)"
  "2 * length s + 2 \<le> n \<Longrightarrow> scan_fine (length s) (parse_elems n s)"
  "2 * length s + 2 \<le> n \<Longrightarrow> scan_fine (length s) (parse_members n s)"
proof -
  have "\<forall>s. (2 * length s + 1 \<le> n \<longrightarrow> scan_fine (length s) (parse_value n s)) \<and> (2 * length s + 2 \<le> n \<longrightarrow> scan_fine (length s) (parse_elems n s))
      \<and> (2 * length s + 2 \<le> n \<longrightarrow> scan_fine (length s) (parse_members n s))"
  proof (induction n)
    case (Suc n)
    then show ?case using value_fine [of n] elems_fine [of n] members_fine [of n] by blast
  qed simp
  then show "2 * length s + 1 \<le> n \<Longrightarrow> scan_fine (length s) (parse_value n s)" "2 * length s + 2 \<le> n \<Longrightarrow> scan_fine (length s) (parse_elems n s)"
    "2 * length s + 2 \<le> n \<Longrightarrow> scan_fine (length s) (parse_members n s)"
    by blast+
qed

lemma loads_no_recursion_error: "loads s \<noteq> Inl RecursionError"
proof -
  have "scan_fine (length (skip_ws s)) (parse_value (2 * length s + 2) (skip_ws s))"
    using skip_ws_length [of s] by (intro parse_fine(1)) simp
  then show ?thesis
    by (auto simp: loads_def scan_fine_def rbind_def json_error_def split: sum.splits if_splits)
qed

end
