(* ===== verification/Port.thy ===== *)
theory Port
  imports Opcodes Wire_Bytes Json_Roundtrip
begin

unbundle bit_operations_syntax

text \<open>
  The packet of \<open>daemon/port.py\<close>: the class \<open>UBPacket\<close> as a record, its constructor,
  its size properties, and the codec \<open>serialize\<close> / \<open>deserialize_from_buffer\<close>. The
  44-byte header is a record of its own, so that packing and unpacking are one definition each.
  The lemmas give the round trip, the behaviour on an incomplete buffer, and what the checksum
  covers.
\<close>

section \<open>Packets\<close>

record packet =
  opcode :: int
  src_node :: int
  dst_node :: int
  token_id :: int
  virtual_lane :: int
  flags :: int
  seq_num :: int
  auth_tag :: bytes
  metadata :: json
  payload :: bytes

text \<open>Python's truth value of a decoded JSON value, for \<open>metadata or {}\<close>.\<close>

fun json_falsy :: "json \<Rightarrow> bool" where
  "json_falsy JNull \<longleftrightarrow> True"
| "json_falsy (JBool b) \<longleftrightarrow> \<not> b"
| "json_falsy (JInt i) \<longleftrightarrow> i = 0"
| "json_falsy (JFloat x) \<longleftrightarrow> x = 0"
| "json_falsy (JStr s) \<longleftrightarrow> s = []"
| "json_falsy (JList vs) \<longleftrightarrow> vs = []"
| "json_falsy (JObj ms) \<longleftrightarrow> ms = []"

definition zero_tag :: bytes where
  "zero_tag = replicate 16 0"

definition ub_packet ::
  "int \<Rightarrow> int \<Rightarrow> int \<Rightarrow> int \<Rightarrow> int \<Rightarrow> int \<Rightarrow> int \<Rightarrow> bytes \<Rightarrow> json \<Rightarrow> bytes \<Rightarrow> packet"
where
  "ub_packet op src dst token vl fls seq tag meta pay =
     \<lparr>opcode = op, src_node = src, dst_node = dst, token_id = token,
      virtual_lane = vl AND 0x0F, flags = fls, seq_num = seq,
      auth_tag = (if length tag = 16 then tag else take 16 (tag @ replicate 16 0)),
      metadata = (if json_falsy meta then JObj [] else meta),
      payload = pay\<rparr>"

text \<open>The constructor calls of the fabric leave token, lane, flags, tag and payload at their defaults.\<close>

definition reply_packet :: "int \<Rightarrow> int \<Rightarrow> int \<Rightarrow> int \<Rightarrow> (string \<times> json) list \<Rightarrow> packet" where
  "reply_packet op src dst seq meta = ub_packet op src dst 0 0 FLAG_NONE seq zero_tag (JObj meta) []"

definition is_cip_encrypted :: "packet \<Rightarrow> bool" where
  "is_cip_encrypted p \<longleftrightarrow> flags p AND FLAG_CIP_ENCRYPTED \<noteq> 0"

definition meta_bytes :: "packet \<Rightarrow> bytes" where
  "meta_bytes p = encode_utf8 (dumps (metadata p))"

definition FLIT_SIZE :: int where
  "FLIT_SIZE = 64"

definition total_bytes :: "packet \<Rightarrow> int" where
  "total_bytes p = 44 + int (length (meta_bytes p)) + int (length (payload p))"

definition flit_count :: "packet \<Rightarrow> int" where
  "flit_count p = (total_bytes p + FLIT_SIZE - 1) div FLIT_SIZE"

section \<open>The frame header\<close>

definition FRAME_MAGIC :: bytes where
  "FRAME_MAGIC = [0x55, 0x42]"

record header =
  h_magic :: bytes
  h_opcode :: int
  h_flags_vl :: int
  h_seq :: int
  h_src :: int
  h_dst :: int
  h_token :: int
  h_meta_len :: int
  h_payload_len :: int
  h_crc :: int
  h_tag :: bytes

text \<open>
  \<open>struct.pack("!2sBBIHHIIII16s", ...)\<close>. A byte-string field is cut or zero-padded to its
  width; an integer outside its field's range raises.
\<close>

definition pack_bytes :: "nat \<Rightarrow> bytes \<Rightarrow> bytes" where
  "pack_bytes n bs = take n (bs @ replicate n 0)"

definition pack_header :: "header \<Rightarrow> bytes result" where
  "pack_header h =
     rbind (pack_uint 1 (h_opcode h)) (\<lambda>b1.
     rbind (pack_uint 1 (h_flags_vl h)) (\<lambda>b2.
     rbind (pack_uint 4 (h_seq h)) (\<lambda>b3.
     rbind (pack_uint 2 (h_src h)) (\<lambda>b4.
     rbind (pack_uint 2 (h_dst h)) (\<lambda>b5.
     rbind (pack_uint 4 (h_token h)) (\<lambda>b6.
     rbind (pack_uint 4 (h_meta_len h)) (\<lambda>b7.
     rbind (pack_uint 4 (h_payload_len h)) (\<lambda>b8.
     rbind (pack_uint 4 (h_crc h)) (\<lambda>b9.
       Inr (pack_bytes 2 (h_magic h) @ b1 @ b2 @ b3 @ b4 @ b5 @ b6 @ b7 @ b8 @ b9
            @ pack_bytes 16 (h_tag h)))))))))))"

definition field :: "bytes \<Rightarrow> nat \<Rightarrow> nat \<Rightarrow> bytes" where
  "field bs i n = take n (drop i bs)"

definition unpack_header :: "bytes \<Rightarrow> header" where
  "unpack_header bs =
     \<lparr>h_magic = field bs 0 2, h_opcode = be_val (field bs 2 1), h_flags_vl = be_val (field bs 3 1),
      h_seq = be_val (field bs 4 4), h_src = be_val (field bs 8 2), h_dst = be_val (field bs 10 2),
      h_token = be_val (field bs 12 4), h_meta_len = be_val (field bs 16 4),
      h_payload_len = be_val (field bs 20 4), h_crc = be_val (field bs 24 4),
      h_tag = field bs 28 16\<rparr>"

section \<open>The codec\<close>

definition packet_header :: "packet \<Rightarrow> header" where
  "packet_header p =
     \<lparr>h_magic = FRAME_MAGIC, h_opcode = opcode p,
      h_flags_vl = (flags p AND 0xF0) OR (virtual_lane p AND 0x0F),
      h_seq = seq_num p, h_src = src_node p, h_dst = dst_node p, h_token = token_id p,
      h_meta_len = int (length (meta_bytes p)), h_payload_len = int (length (payload p)),
      h_crc = crc32 (meta_bytes p @ payload p) AND 0xFFFFFFFF, h_tag = auth_tag p\<rparr>"

definition serialize :: "packet \<Rightarrow> bytes result" where
  "serialize p =
     rbind (pack_header (packet_header p)) (\<lambda>h. Inr (h @ meta_bytes p @ payload p))"

definition deserialize_from_buffer :: "bytes \<Rightarrow> (packet option \<times> nat) result" where
  "deserialize_from_buffer buf =
     (if length buf < 44 then Inr (None, 0)
      else
        let h = unpack_header (take 44 buf) in
        if h_magic h \<noteq> FRAME_MAGIC then Inl (ValueError ''Invalid UnifiedBus magic'')
        else
          let meta_len = nat (h_meta_len h);
              total_len = 44 + meta_len + nat (h_payload_len h)
          in
          if length buf < total_len then Inr (None, 0)
          else
            let meta = take meta_len (drop 44 buf);
                pay = take (nat (h_payload_len h)) (drop (44 + meta_len) buf)
            in
            if crc32 (meta @ pay) AND 0xFFFFFFFF \<noteq> h_crc h
            then Inl (ValueError ''UnifiedBus CRC error'')
            else
              rbind (if 0 < meta_len then rbind (decode_utf8 meta) loads else Inr (JObj []))
                (\<lambda>m. Inr (Some (ub_packet (h_opcode h) (h_src h) (h_dst h) (h_token h)
                                  (h_flags_vl h AND 0x0F) (h_flags_vl h AND 0xF0) (h_seq h)
                                  (h_tag h) m pay), total_len)))"

section \<open>The header round trip\<close>

lemma pack_bytes_exact: "length bs = n \<Longrightarrow> pack_bytes n bs = bs"
  by (simp add: pack_bytes_def)

lemma length_pack_bytes [simp]: "length (pack_bytes n bs) = n"
  by (simp add: pack_bytes_def)

definition header_in_range :: "header \<Rightarrow> bool" where
  "header_in_range h \<longleftrightarrow>
     h_opcode h \<in> {0..<256} \<and> h_flags_vl h \<in> {0..<256} \<and> h_seq h \<in> {0..<256 ^ 4} \<and>
     h_src h \<in> {0..<256 ^ 2} \<and> h_dst h \<in> {0..<256 ^ 2} \<and> h_token h \<in> {0..<256 ^ 4} \<and>
     h_meta_len h \<in> {0..<256 ^ 4} \<and> h_payload_len h \<in> {0..<256 ^ 4} \<and> h_crc h \<in> {0..<256 ^ 4}"

definition header_bytes :: "header \<Rightarrow> bytes" where
  "header_bytes h =
     pack_bytes 2 (h_magic h) @ be_bytes 1 (h_opcode h) @ be_bytes 1 (h_flags_vl h)
     @ be_bytes 4 (h_seq h) @ be_bytes 2 (h_src h) @ be_bytes 2 (h_dst h)
     @ be_bytes 4 (h_token h) @ be_bytes 4 (h_meta_len h) @ be_bytes 4 (h_payload_len h)
     @ be_bytes 4 (h_crc h) @ pack_bytes 16 (h_tag h)"

lemma pack_header_in_range: "header_in_range h \<Longrightarrow> pack_header h = Inr (header_bytes h)"
  unfolding pack_header_def header_in_range_def header_bytes_def pack_uint_def
  by (simp only: atLeastLessThan_iff power_one_right simp_thms if_True rbind_simps)

lemma pack_header_out_of_range: "\<not> header_in_range h \<Longrightarrow> pack_header h = Inl StructError"
  unfolding pack_header_def header_in_range_def pack_uint_def
  by (simp only: atLeastLessThan_iff rbind_simps split: if_split) auto

lemma pack_header_Inr: "pack_header h = Inr bs \<longleftrightarrow> header_in_range h \<and> bs = header_bytes h"
  by (cases "header_in_range h") (auto simp: pack_header_in_range pack_header_out_of_range)

lemma pack_header_Inl: "pack_header h = Inl e \<longleftrightarrow> \<not> header_in_range h \<and> e = StructError"
  by (cases "header_in_range h") (auto simp: pack_header_in_range pack_header_out_of_range)

lemma length_header_bytes [simp]: "length (header_bytes h) = 44"
  by (simp add: header_bytes_def)

lemma be_val_be_bytes_id: "i \<in> {0..<256 ^ n} \<Longrightarrow> be_val (be_bytes n i) = i"
  by (simp add: be_val_be_bytes)

lemma unpack_header_bytes:
  assumes "header_in_range h" "length (h_magic h) = 2" "length (h_tag h) = 16"
  shows "unpack_header (header_bytes h) = h"
proof -
  have be: "be_val (be_bytes 1 (h_opcode h)) = h_opcode h" "be_val (be_bytes 1 (h_flags_vl h)) = h_flags_vl h"
    "be_val (be_bytes 4 (h_seq h)) = h_seq h" "be_val (be_bytes 2 (h_src h)) = h_src h"
    "be_val (be_bytes 2 (h_dst h)) = h_dst h" "be_val (be_bytes 4 (h_token h)) = h_token h"
    "be_val (be_bytes 4 (h_meta_len h)) = h_meta_len h"
    "be_val (be_bytes 4 (h_payload_len h)) = h_payload_len h" "be_val (be_bytes 4 (h_crc h)) = h_crc h"
    by (rule be_val_be_bytes_id, use assms(1) in \<open>simp add: header_in_range_def\<close>)+
  show ?thesis
    using assms(2,3) be
    by (simp add: unpack_header_def field_def header_bytes_def pack_bytes_exact del: be_bytes.simps)
qed

section \<open>The packet round trip\<close>

lemma and_u32: "0 \<le> x \<Longrightarrow> x < 256 ^ 4 \<Longrightarrow> x AND 0xFFFFFFFF = (x :: int)"
proof -
  assume x: "0 \<le> x" "x < 256 ^ 4"
  have "x AND 0xFFFFFFFF = take_bit 32 x" by (simp add: take_bit_eq_mask mask_eq_exp_minus_1)
  also have "\<dots> = x" using x by (simp add: take_bit_int_eq_self)
  finally show ?thesis .
qed

lemma flags_vl_parts:
  "((f AND 0xF0) OR (v AND 0x0F)) AND 0x0F = (v AND 0x0F :: int)"
  "((f AND 0xF0) OR (v AND 0x0F)) AND 0xF0 = (f AND 0xF0 :: int)"
  by (simp_all add: bit.conj_disj_distrib2 and.assoc)

lemma flags_vl_range: "0 \<le> (f AND 0xF0) OR (v AND 0x0F) \<and> (f AND 0xF0) OR (v AND 0x0F) < (256 :: int)"
proof -
  have f: "0 \<le> f AND 0xF0" "f AND 0xF0 \<le> 0xF0" and v: "0 \<le> v AND 0x0F" "v AND 0x0F \<le> 0x0F"
    by (simp_all add: AND_upper2)
  have "(f AND 0xF0) OR (v AND 0x0F) < 2 ^ 8"
    using f v by (intro OR_upper) simp_all
  then show ?thesis using f v by simp
qed

lemma serialize_Inr:
  "serialize p = Inr bs \<longleftrightarrow>
     header_in_range (packet_header p)
     \<and> bs = header_bytes (packet_header p) @ meta_bytes p @ payload p"
  by (auto simp: serialize_def result_simps pack_header_Inr)

lemma serialize_Inl: "serialize p = Inl e \<longleftrightarrow> \<not> header_in_range (packet_header p) \<and> e = StructError"
  by (auto simp: serialize_def result_simps pack_header_Inl)

lemma serialize_length: "serialize p = Inr bs \<Longrightarrow> int (length bs) = total_bytes p"
  by (auto simp: serialize_Inr total_bytes_def)

text \<open>What the constructor and the wire format keep: normal metadata, a four-bit lane, high flag bits.\<close>

definition wf_packet :: "packet \<Rightarrow> bool" where
  "wf_packet p \<longleftrightarrow>
     flags p AND 0xF0 = flags p \<and> virtual_lane p AND 0x0F = virtual_lane p \<and>
     length (auth_tag p) = 16 \<and> json_ok (metadata p) \<and>
     (metadata p = JObj [] \<or> \<not> json_falsy (metadata p))"

lemma wf_ub_packet:
  "json_ok meta \<Longrightarrow> fls AND 0xF0 = fls \<Longrightarrow> wf_packet (ub_packet op src dst token vl fls seq tag meta pay)"
  by (auto simp: wf_packet_def ub_packet_def and.assoc)

lemma meta_bytes_nonempty: "meta_bytes p \<noteq> []"
proof -
  have "utf8_char c \<noteq> []" for c by (simp add: utf8_char_def Let_def)
  then show ?thesis
    using dumps_nonempty [of "metadata p"]
    by (cases "dumps (metadata p)") (simp_all add: meta_bytes_def encode_utf8_def)
qed

lemma loads_meta_bytes:
  "json_ok (metadata p) \<Longrightarrow> rbind (decode_utf8 (meta_bytes p)) loads = Inr (metadata p)"
  by (simp add: meta_bytes_def decode_encode_utf8 loads_dumps_eq)

lemma unpack_packet_header:
  assumes "header_in_range (packet_header p)" "length (auth_tag p) = 16"
  shows "unpack_header (header_bytes (packet_header p)) = packet_header p"
  using assms by (intro unpack_header_bytes) (simp_all add: packet_header_def FRAME_MAGIC_def)

lemma deserialize_serialize_rest:
  assumes "wf_packet p" "serialize p = Inr bs"
  shows "deserialize_from_buffer (bs @ rest) = Inr (Some p, length bs)"
proof -
  let ?h = "packet_header p"
  from assms(2) have r: "header_in_range ?h" and bs: "bs = header_bytes ?h @ meta_bytes p @ payload p"
    by (simp_all add: serialize_Inr)
  from assms(1) have w: "flags p AND 0xF0 = flags p" "virtual_lane p AND 0x0F = virtual_lane p"
      "length (auth_tag p) = 16" "json_ok (metadata p)"
      "metadata p = JObj [] \<or> \<not> json_falsy (metadata p)"
    by (simp_all add: wf_packet_def)
  have u: "unpack_header (take 44 (bs @ rest)) = ?h"
    using unpack_packet_header [OF r w(3)] by (simp add: bs)
  have "ub_packet (h_opcode ?h) (h_src ?h) (h_dst ?h) (h_token ?h) (h_flags_vl ?h AND 0x0F)
      (h_flags_vl ?h AND 0xF0) (h_seq ?h) (h_tag ?h) (metadata p) (payload p) = p"
  proof -
    have fv: "h_flags_vl ?h = (flags p AND 0xF0) OR (virtual_lane p AND 0x0F)"
      by (simp add: packet_header_def)
    have "h_flags_vl ?h AND 0x0F = virtual_lane p" by (subst fv, subst flags_vl_parts, rule w(2))
    moreover have "h_flags_vl ?h AND 0xF0 = flags p" by (subst fv, subst flags_vl_parts, rule w(1))
    ultimately show ?thesis
      using w by (auto simp: ub_packet_def packet_header_def)
  qed
  moreover have "0 < length (meta_bytes p)" using meta_bytes_nonempty by simp
  moreover have "h_magic ?h = FRAME_MAGIC" "h_meta_len ?h = int (length (meta_bytes p))"
      "h_payload_len ?h = int (length (payload p))"
      "h_crc ?h = crc32 (meta_bytes p @ payload p) AND 0xFFFFFFFF"
    by (simp_all add: packet_header_def)
  ultimately show ?thesis
    unfolding deserialize_from_buffer_def Let_def u
    by (simp add: bs loads_meta_bytes [OF w(4)])
qed

lemma deserialize_partial:
  assumes "length (auth_tag p) = 16" "serialize p = Inr bs" "k < length bs"
  shows "deserialize_from_buffer (take k bs) = Inr (None, 0)"
proof (cases "k < 44")
  case True
  then have "length (take k bs) < 44" by simp
  then show ?thesis by (simp only: deserialize_from_buffer_def if_True)
next
  case False
  let ?h = "packet_header p"
  from assms(2) have r: "header_in_range ?h" and bs: "bs = header_bytes ?h @ meta_bytes p @ payload p"
    by (simp_all add: serialize_Inr)
  have u: "unpack_header (take 44 (take k bs)) = ?h"
    using unpack_packet_header [OF r assms(1)] False by (simp add: bs min_def)
  have "\<not> length (take k bs) < 44" using False assms(3) by simp
  moreover have "h_magic ?h = FRAME_MAGIC" by (simp add: packet_header_def)
  moreover have "length (take k bs) < 44 + nat (h_meta_len ?h) + nat (h_payload_len ?h)"
    using assms(3) by (simp add: bs packet_header_def)
  ultimately show ?thesis
    unfolding deserialize_from_buffer_def Let_def u by (simp only: if_True if_False simp_thms)
qed

lemma deserialize_consumed:
  assumes "deserialize_from_buffer buf = Inr (Some p, n)"
  shows "44 \<le> n \<and> n \<le> length buf"
proof -
  define h where "h = unpack_header (take 44 buf)"
  define total where "total = 44 + nat (h_meta_len h) + nat (h_payload_len h)"
  have "\<not> length buf < total \<and> n = total"
    using assms unfolding deserialize_from_buffer_def Let_def h_def [symmetric] total_def [symmetric]
    by (auto simp: result_simps split: if_split_asm)
  then show ?thesis by (simp add: total_def)
qed

lemma deserialize_crc_mismatch:
  assumes "\<not> length buf < 44" "h_magic h = FRAME_MAGIC" "h = unpack_header (take 44 buf)"
    and "length buf = 44 + nat (h_meta_len h) + nat (h_payload_len h)"
    and "crc32 (drop 44 buf) AND 0xFFFFFFFF \<noteq> h_crc h"
  shows "deserialize_from_buffer buf = Inl (ValueError ''UnifiedBus CRC error'')"
proof -
  have "take (nat (h_meta_len h)) (drop 44 buf) @
      take (nat (h_payload_len h)) (drop (44 + nat (h_meta_len h)) buf) = drop 44 buf"
    using assms(4) by (simp add: take_add [symmetric] add.commute flip: drop_drop)
  then show ?thesis
    using assms unfolding deserialize_from_buffer_def Let_def assms(3) [symmetric] by simp
qed

section \<open>What the checksum covers\<close>

lemma field_update:
  "field (bs[i := b]) k n = (if k \<le> i \<and> i < k + n then (field bs k n)[i - k := b] else field bs k n)"
  unfolding field_def
  by (cases "i < length bs"; rule nth_equalityI; auto simp: nth_list_update list_update_beyond)

lemma corrupt_body_detected:
  assumes "length (auth_tag p) = 16" "serialize p = Inr bs" "44 \<le> i" "i < length bs" "b \<noteq> bs ! i"
  shows "deserialize_from_buffer (bs[i := b]) = Inl (ValueError ''UnifiedBus CRC error'')"
proof (rule deserialize_crc_mismatch)
  let ?h = "packet_header p" and ?body = "meta_bytes p @ payload p"
  from assms(2) have r: "header_in_range ?h" and bs: "bs = header_bytes ?h @ ?body"
    by (simp_all add: serialize_Inr)
  have "take 44 (bs[i := b]) = header_bytes ?h"
    using assms(3) by (simp add: bs take_update_cancel)
  then show "?h = unpack_header (take 44 (bs[i := b]))"
    using unpack_packet_header [OF r assms(1)] by simp
  show "\<not> length (bs[i := b]) < 44" using assms(3,4) by simp
  show "h_magic ?h = FRAME_MAGIC" by (simp add: packet_header_def)
  show "length (bs[i := b]) = 44 + nat (h_meta_len ?h) + nat (h_payload_len ?h)"
    by (simp add: bs packet_header_def)
  have body: "drop 44 (bs[i := b]) = ?body[i - 44 := b]"
    using assms(3) by (simp add: bs list_update_append)
  have "i - 44 < length ?body" "b \<noteq> ?body ! (i - 44)"
    using assms(3-5) by (auto simp: bs nth_append)
  then have "crc32 (?body[i - 44 := b]) \<noteq> crc32 ?body" by (rule crc32_single_byte)
  then show "crc32 (drop 44 (bs[i := b])) AND 0xFFFFFFFF \<noteq> h_crc ?h"
    using crc32_bounds and_u32 by (simp only: body) (simp add: packet_header_def)
qed

lemma corrupt_crc_detected:
  assumes "length (auth_tag p) = 16" "serialize p = Inr bs" "24 \<le> i" "i < 28" "b \<noteq> bs ! i"
  shows "deserialize_from_buffer (bs[i := b]) = Inl (ValueError ''UnifiedBus CRC error'')"
proof (rule deserialize_crc_mismatch)
  let ?h = "packet_header p" and ?body = "meta_bytes p @ payload p"
  let ?c = "field (header_bytes ?h) 24 4"
  from assms(2) have r: "header_in_range ?h" and bs: "bs = header_bytes ?h @ ?body"
    by (simp_all add: serialize_Inr)
  have u: "unpack_header (header_bytes ?h) = ?h" using r assms(1) by (rule unpack_packet_header)
  have "take 44 (bs[i := b]) = (header_bytes ?h)[i := b]"
    using assms(4) by (simp add: bs take_update_swap)
  then have t: "unpack_header (take 44 (bs[i := b])) = ?h\<lparr>h_crc := be_val (?c[i - 24 := b])\<rparr>"
    using assms(3,4) by (subst u [symmetric]) (simp add: unpack_header_def field_update)
  then show "?h\<lparr>h_crc := be_val (?c[i - 24 := b])\<rparr> = unpack_header (take 44 (bs[i := b]))" by simp
  show "\<not> length (bs[i := b]) < 44" by (simp add: bs)
  show "h_magic (?h\<lparr>h_crc := be_val (?c[i - 24 := b])\<rparr>) = FRAME_MAGIC" by (simp add: packet_header_def)
  show "length (bs[i := b]) = 44 + nat (h_meta_len (?h\<lparr>h_crc := be_val (?c[i - 24 := b])\<rparr>))
      + nat (h_payload_len (?h\<lparr>h_crc := be_val (?c[i - 24 := b])\<rparr>))"
    by (simp add: bs packet_header_def)
  have len: "length ?c = 4" by (simp add: field_def)
  have "?c ! (i - 24) = bs ! i" using assms(3,4) by (simp add: bs field_def nth_append)
  then have "?c[i - 24 := b] \<noteq> ?c" using assms(3-5) len by (metis nth_list_update_eq add.commute
      less_diff_conv2 numeral_plus_numeral semiring_norm(2) add_num_simps)
  moreover have "pack_uint 4 (be_val ?c) = Inr ?c" using len by (rule u32.enc_dec)
  ultimately have "be_val (?c[i - 24 := b]) \<noteq> be_val ?c"
    using len by (intro u32.dec_changed) simp_all
  moreover have "be_val ?c = h_crc ?h" using u by (metis unpack_header_def header.select_convs(10))
  moreover have "drop 44 (bs[i := b]) = ?body" using assms(4) by (simp add: bs)
  ultimately show "crc32 (drop 44 (bs[i := b])) AND 0xFFFFFFFF
      \<noteq> h_crc (?h\<lparr>h_crc := be_val (?c[i - 24 := b])\<rparr>)"
    by (simp add: packet_header_def)
qed

lemma opcode_swap_accepted:
  assumes "wf_packet p" "serialize p = Inr bs" "0 \<le> op" "op < 256"
  shows "deserialize_from_buffer (bs[2 := word_of_int op]) = Inr (Some (p\<lparr>opcode := op\<rparr>), length bs)"
proof -
  let ?q = "p\<lparr>opcode := op\<rparr>"
  from assms(2) have r: "header_in_range (packet_header p)"
    and bs: "bs = header_bytes (packet_header p) @ meta_bytes p @ payload p"
    by (simp_all add: serialize_Inr)
  have m: "meta_bytes ?q = meta_bytes p" by (simp add: meta_bytes_def)
  have h: "packet_header ?q = (packet_header p)\<lparr>h_opcode := op\<rparr>" by (simp add: packet_header_def m)
  have "header_in_range (packet_header ?q)"
    using r assms(3,4) unfolding h header_in_range_def by simp
  moreover have "header_bytes (packet_header ?q) = (header_bytes (packet_header p))[2 := word_of_int op]"
    unfolding h header_bytes_def by (simp add: packet_header_def FRAME_MAGIC_def pack_bytes_def)
  ultimately have "serialize ?q = Inr (bs[2 := word_of_int op])"
    by (simp add: serialize_Inr m bs list_update_append)
  moreover have "wf_packet ?q" using assms(1) by (simp add: wf_packet_def)
  ultimately show ?thesis using deserialize_serialize_rest [of ?q _ "[]"] by simp
qed

section \<open>Properties of the codec\<close>

text \<open>A frame of one payload byte, for the concrete instances.\<close>

definition sample_packet :: packet where
  "sample_packet = ub_packet 0x60 1 2 5 3 0x10 9 zero_tag (JObj []) [7]"

definition sample_frame :: bytes where
  "sample_frame = header_bytes (packet_header sample_packet) @ meta_bytes sample_packet @ payload sample_packet"

lemma sample_meta: "meta_bytes sample_packet = [0x7B, 0x7D]" "payload sample_packet = [7]"
  by code_simp+

lemma sample_wf: "wf_packet sample_packet"
  by code_simp

lemma sample_serialize: "serialize sample_packet = Inr sample_frame"
proof -
  have "crc32 [0x7B, 0x7D, 7] AND 0xFFFFFFFF < 256 ^ 4" "0 \<le> crc32 [0x7B, 0x7D, 7] AND 0xFFFFFFFF"
    using crc32_bounds and_u32 by simp_all
  then have "header_in_range (packet_header sample_packet)"
    unfolding header_in_range_def packet_header_def sample_meta by (simp add: sample_packet_def ub_packet_def)
  then show ?thesis by (simp add: serialize_Inr sample_frame_def)
qed

lemmas sample_facts = sample_wf sample_serialize

lemma sample_tag: "length (auth_tag sample_packet) = 16" "length sample_frame = 47"
  "sample_frame ! 46 = 7"
  by (simp_all add: sample_frame_def sample_meta nth_append)
    (simp add: sample_packet_def ub_packet_def zero_tag_def)

text \<open>
  C21. Frame round trip: what \<open>serialize\<close> writes for a well-formed packet,
  \<open>deserialize_from_buffer\<close> reads back field by field (header, metadata through JSON and UTF-8,
  payload), consuming exactly the frame and leaving whatever follows it in the buffer.
\<close>

theorem frame_roundtrip:
  assumes "wf_packet p" "serialize p = Inr bs"
  shows "deserialize_from_buffer (bs @ rest) = Inr (Some p, length bs)"
  using assms by (rule deserialize_serialize_rest)

theorem frame_roundtrip_witness:
  "deserialize_from_buffer (sample_frame @ [0x55]) = Inr (Some sample_packet, 47)"
  using frame_roundtrip [OF sample_facts, of "[0x55]"] by (simp add: sample_tag)

text \<open>
  A frame that is not complete yet is neither delivered nor an error: on every proper prefix
  of a serialized frame \<open>deserialize_from_buffer\<close> returns \<open>(None, 0)\<close>.
\<close>

theorem incomplete_frame_waits:
  assumes "length (auth_tag p) = 16" "serialize p = Inr bs" "k < length bs"
  shows "deserialize_from_buffer (take k bs) = Inr (None, 0)"
  using assms by (rule deserialize_partial)

theorem incomplete_frame_waits_witness:
  "deserialize_from_buffer (take 46 sample_frame) = Inr (None, 0)"
  by (rule incomplete_frame_waits [OF sample_tag(1) sample_facts(2)]) (simp add: sample_tag)

text \<open>
  Corruption is detected: changing any one byte of a frame's metadata, payload or CRC field
  makes \<open>deserialize_from_buffer\<close> raise the CRC \<open>ValueError\<close>.
\<close>

theorem corrupted_frame_rejected:
  assumes "length (auth_tag p) = 16" "serialize p = Inr bs"
    and "i < length bs" "44 \<le> i \<or> 24 \<le> i \<and> i < 28" "b \<noteq> bs ! i"
  shows "deserialize_from_buffer (bs[i := b]) = Inl (ValueError ''UnifiedBus CRC error'')"
  using assms corrupt_body_detected corrupt_crc_detected by metis

theorem corrupted_frame_rejected_witness:
  "deserialize_from_buffer (sample_frame[46 := 8]) = Inl (ValueError ''UnifiedBus CRC error'')"
  by (rule corrupted_frame_rejected [OF sample_tag(1) sample_facts(2)]) (simp_all add: sample_tag)

text \<open>
  The checksum does not cover the header: a frame whose opcode byte is replaced is accepted as
  the same packet with the other opcode.
\<close>

theorem opcode_not_covered_by_crc:
  assumes "wf_packet p" "serialize p = Inr bs" "0 \<le> op" "op < 256"
  shows "deserialize_from_buffer (bs[2 := word_of_int op]) = Inr (Some (p\<lparr>opcode := op\<rparr>), length bs)"
  using assms by (rule opcode_swap_accepted)

theorem opcode_not_covered_by_crc_witness:
  "deserialize_from_buffer (sample_frame[2 := word_of_int 0x62])
   = Inr (Some (sample_packet\<lparr>opcode := 0x62\<rparr>), 47)"
  using opcode_not_covered_by_crc [OF sample_facts, of "0x62"] by (simp add: sample_tag)

end
