(* ===== verification/Framing.thy ===== *)
theory Framing
  imports Port
begin

text \<open>
  Packets out of a byte stream. Both ends of a connection (\<open>_handle_client\<close> in
  \<open>daemon/fabric.py\<close>, \<open>_rx_loop\<close> in \<open>unifiedbus/device.py\<close>) append what they
  receive to a buffer and take frames off its front until \<open>deserialize_from_buffer\<close> returns
  \<open>None\<close>. \<open>read_frames\<close> is that inner loop and \<open>feed_chunks\<close> the loop around
  it. The interface \<open>frame_codec\<close> states what a reader needs of a codec; inside it the
  reassembly theorem is proved once, and the packet codec of \<open>Port\<close> is its instance.
\<close>

section \<open>The reader\<close>

function read_frames :: "bytes \<Rightarrow> packet list \<times> bytes \<times> py_error option" where
  "read_frames buf =
     (case deserialize_from_buffer buf of
        Inl e \<Rightarrow> ([], buf, Some e)
      | Inr (None, n) \<Rightarrow> ([], buf, None)
      | Inr (Some p, n) \<Rightarrow> (case read_frames (drop n buf) of (ps, rest, err) \<Rightarrow> (p # ps, rest, err)))"
  by pat_completeness auto
termination
proof (relation "measure length")
  fix buf ans q p n
  assume "deserialize_from_buffer buf = Inr ans" "(q, n) = ans" "q = Some p"
  then have "44 \<le> n \<and> n \<le> length buf" using deserialize_consumed by blast
  then show "(drop n buf, buf) \<in> measure length" by auto
qed simp

declare read_frames.simps [simp del]

text \<open>A raised error ends the loop; the chunks after it are never read.\<close>

fun feed_chunks :: "bytes \<Rightarrow> bytes list \<Rightarrow> packet list \<times> bytes \<times> py_error option" where
  "feed_chunks buf [] = ([], buf, None)"
| "feed_chunks buf (c # cs) =
     (case read_frames (buf @ c) of
        (ps, rest, Some e) \<Rightarrow> (ps, rest, Some e)
      | (ps, rest, None) \<Rightarrow> (case feed_chunks rest cs of (qs, rest', err) \<Rightarrow> (ps @ qs, rest', err)))"

section \<open>Readers of an arbitrary codec\<close>

inductive drains :: "(bytes \<Rightarrow> ('p option \<times> nat) result) \<Rightarrow> bytes \<Rightarrow> 'p list \<Rightarrow> bytes \<Rightarrow> bool"
  for decode
where
  drains_stop: "decode buf = Inr (None, n) \<Longrightarrow> drains decode buf [] buf"
| drains_frame: "decode buf = Inr (Some p, n) \<Longrightarrow> drains decode (drop n buf) ps rest
    \<Longrightarrow> drains decode buf (p # ps) rest"

inductive feeds :: "(bytes \<Rightarrow> ('p option \<times> nat) result) \<Rightarrow> bytes \<Rightarrow> bytes list \<Rightarrow> 'p list \<Rightarrow> bytes \<Rightarrow> bool"
  for decode
where
  feeds_end: "feeds decode buf [] [] buf"
| feeds_chunk: "drains decode (buf @ c) ps buf' \<Longrightarrow> feeds decode buf' cs qs rest
    \<Longrightarrow> feeds decode buf (c # cs) (ps @ qs) rest"

inductive_cases feeds_ConsE: "feeds decode buf (c # cs) ps rest"

lemma read_frames_drains: "drains deserialize_from_buffer buf ps rest \<Longrightarrow> read_frames buf = (ps, rest, None)"
  by (induction rule: drains.induct) (subst read_frames.simps, simp)+

lemma feed_chunks_feeds: "feeds deserialize_from_buffer buf cs ps rest \<Longrightarrow> feed_chunks buf cs = (ps, rest, None)"
  by (induction rule: feeds.induct) (simp_all add: read_frames_drains)

text \<open>
  What the reader needs: a complete frame decodes to its packet whatever follows it, a proper
  prefix of a frame is left alone, and frames are not empty.
\<close>

locale frame_codec =
  fixes encode :: "'p \<Rightarrow> bytes result"
    and decode :: "bytes \<Rightarrow> ('p option \<times> nat) result"
    and good :: "'p \<Rightarrow> bool"
  assumes decode_frame: "good p \<Longrightarrow> encode p = Inr f \<Longrightarrow> decode (f @ rest) = Inr (Some p, length f)"
    and decode_prefix: "good p \<Longrightarrow> encode p = Inr f \<Longrightarrow> k < length f \<Longrightarrow> decode (take k f) = Inr (None, 0)"
    and decode_empty: "decode [] = Inr (None, 0)"
    and frame_nonempty: "encode p = Inr f \<Longrightarrow> f \<noteq> []"
begin

definition stream :: "'p list \<Rightarrow> bytes list \<Rightarrow> bool" where
  "stream = list_all2 (\<lambda>p f. good p \<and> encode p = Inr f)"

text \<open>The buffer holds less than the next frame.\<close>

definition residue :: "bytes \<Rightarrow> bytes list \<Rightarrow> bool" where
  "residue buf fs \<longleftrightarrow> (case fs of [] \<Rightarrow> buf = [] | f # _ \<Rightarrow> length buf < length f)"

lemma drain_stream:
  assumes "stream ps fs" "buf @ tail = concat fs"
  shows "\<exists>ps1 ps2 fs2 rest. ps = ps1 @ ps2 \<and> drains decode buf ps1 rest \<and> stream ps2 fs2
           \<and> rest @ tail = concat fs2 \<and> residue rest fs2"
  using assms unfolding stream_def
proof (induction arbitrary: buf rule: list_all2_induct)
  case Nil
  then show ?case using decode_empty by (auto simp: residue_def intro!: drains_stop)
next
  case (Cons p ps f fs)
  show ?case
  proof (cases "length f \<le> length buf")
    case True
    then obtain buf' where buf: "buf = f @ buf'"
      using Cons.prems by (metis append_eq_append_conv_if append_take_drop_id concat.simps(2))
    then have "buf' @ tail = concat fs" using Cons.prems by simp
    then obtain ps1 ps2 fs2 rest where IH: "ps = ps1 @ ps2" "drains decode buf' ps1 rest"
        "list_all2 (\<lambda>p f. good p \<and> encode p = Inr f) ps2 fs2" "rest @ tail = concat fs2" "residue rest fs2"
      using Cons.IH by blast
    have "drains decode buf (p # ps1) rest"
    proof (rule drains_frame)
      show "decode buf = Inr (Some p, length f)" using decode_frame [of p f buf'] Cons.hyps by (simp add: buf)
      show "drains decode (drop (length f) buf) ps1 rest" using IH(2) by (simp add: buf)
    qed
    then have "p # ps = (p # ps1) @ ps2 \<and> drains decode buf (p # ps1) rest
        \<and> list_all2 (\<lambda>p f. good p \<and> encode p = Inr f) ps2 fs2 \<and> rest @ tail = concat fs2 \<and> residue rest fs2"
      using IH by simp
    then show ?thesis by blast
  next
    case False
    then have buf: "buf = take (length buf) f"
      using Cons.prems by (metis append_eq_append_conv_if concat.simps(2) linear)
    have "decode (take (length buf) f) = Inr (None, 0)"
      using decode_prefix [of p f "length buf"] Cons.hyps False by simp
    then have "drains decode buf [] buf" using buf by (intro drains_stop) simp
    moreover have "list_all2 (\<lambda>p f. good p \<and> encode p = Inr f) (p # ps) (f # fs)"
      using Cons.hyps by simp
    moreover have "residue buf (f # fs)" using False by (simp add: residue_def)
    ultimately have "p # ps = [] @ (p # ps) \<and> drains decode buf [] buf
        \<and> list_all2 (\<lambda>p f. good p \<and> encode p = Inr f) (p # ps) (f # fs)
        \<and> buf @ tail = concat (f # fs) \<and> residue buf (f # fs)"
      using Cons.prems by simp
    then show ?thesis by blast
  qed
qed

lemma residue_complete:
  assumes "stream ps fs" "residue buf fs" "buf = concat fs"
  shows "ps = [] \<and> buf = []"
  using assms by (cases fs) (auto simp: residue_def stream_def)

text \<open>However the concatenated frames are cut into chunks, exactly the packets arrive.\<close>

lemma feeds_stream:
  assumes "stream ps fs" "residue buf fs" "buf @ concat cs = concat fs"
  shows "feeds decode buf cs ps []"
  using assms
proof (induction cs arbitrary: buf ps fs)
  case Nil
  then have "ps = [] \<and> buf = []" using residue_complete [of ps fs buf] by simp
  then show ?case by (simp add: feeds_end)
next
  case (Cons c cs)
  obtain ps1 ps2 fs2 rest where "ps = ps1 @ ps2" "drains decode (buf @ c) ps1 rest" "stream ps2 fs2"
      "rest @ concat cs = concat fs2" "residue rest fs2"
    using drain_stream [OF Cons.prems(1), of "buf @ c" "concat cs"] Cons.prems(3) by auto
  then show ?case using Cons.IH [of ps2 fs2 rest] by (auto intro: feeds_chunk)
qed

lemma stream_residue: "stream ps fs \<Longrightarrow> residue [] fs"
  using frame_nonempty by (cases fs) (auto simp: residue_def stream_def list_all2_Cons2)

end

lemma serialize_nonempty: "serialize p = Inr f \<Longrightarrow> f \<noteq> []"
  by (auto simp: serialize_Inr meta_bytes_nonempty)

interpretation ub_codec: frame_codec serialize deserialize_from_buffer wf_packet
proof
  show "deserialize_from_buffer (f @ rest) = Inr (Some p, length f)"
    if "wf_packet p" "serialize p = Inr f" for p f rest
    using that by (rule deserialize_serialize_rest)
  show "deserialize_from_buffer (take k f) = Inr (None, 0)"
    if "wf_packet p" "serialize p = Inr f" "k < length f" for p f k
    using that by (intro deserialize_partial) (simp_all add: wf_packet_def)
  show "deserialize_from_buffer [] = Inr (None, 0)" by (simp add: deserialize_from_buffer_def)
  show "f \<noteq> []" if "serialize p = Inr f" for p f using that by (rule serialize_nonempty)
qed

section \<open>Reassembly of the packet stream\<close>

text \<open>
  C22. Stream reassembly: if the bytes received on a connection are the serialized frames of
  well-formed packets one after the other, the reader delivers exactly these packets, in order,
  without error and with an empty buffer, however the bytes were cut into chunks.
\<close>

theorem stream_reassembly:
  assumes "list_all2 (\<lambda>p f. wf_packet p \<and> serialize p = Inr f) ps fs"
    and "concat chunks = concat fs"
  shows "feed_chunks [] chunks = (ps, [], None)"
proof (rule feed_chunks_feeds, rule ub_codec.feeds_stream)
  show s: "ub_codec.stream ps fs" using assms(1) by (simp add: ub_codec.stream_def)
  then show "ub_codec.residue [] fs" by (rule ub_codec.stream_residue)
  show "[] @ concat chunks = concat fs" using assms(2) by simp
qed

theorem stream_reassembly_witness:
  "feed_chunks [] [take 20 sample_frame, drop 20 sample_frame @ take 5 sample_frame, drop 5 sample_frame]
   = ([sample_packet, sample_packet], [], None)"
proof (rule stream_reassembly)
  show "list_all2 (\<lambda>p f. wf_packet p \<and> serialize p = Inr f)
      [sample_packet, sample_packet] [sample_frame, sample_frame]"
    by (simp add: sample_facts)
  have "take 20 sample_frame @ drop 20 sample_frame @ x = sample_frame @ x" for x
    by (metis append.assoc append_take_drop_id)
  then show "concat [take 20 sample_frame, drop 20 sample_frame @ take 5 sample_frame, drop 5 sample_frame]
      = concat [sample_frame, sample_frame]"
    by simp
qed

end
