(* ===== verification/Sha256.thy ===== *)
theory Sha256
  imports Wire_Bytes
begin

unbundle bit_operations_syntax

text \<open>
  SHA-256 and HMAC-SHA-256, the two functions of \<open>hashlib\<close> and \<open>hmac\<close> that
  \<open>daemon/cip.py\<close> calls, as executable functions on byte strings (FIPS 180-4, RFC 2104).
  The rest of the development uses only that they are functions with a 32-byte result.
\<close>

section \<open>SHA-256\<close>

type_synonym w32 = "32 word"

definition rotr :: "nat \<Rightarrow> w32 \<Rightarrow> w32" where
  "rotr n x = word_rotr n x"

definition sha_Sigma0 :: "w32 \<Rightarrow> w32" where
  "sha_Sigma0 x = rotr 2 x XOR rotr 13 x XOR rotr 22 x"

definition sha_Sigma1 :: "w32 \<Rightarrow> w32" where
  "sha_Sigma1 x = rotr 6 x XOR rotr 11 x XOR rotr 25 x"

definition sha_sigma0 :: "w32 \<Rightarrow> w32" where
  "sha_sigma0 x = rotr 7 x XOR rotr 18 x XOR drop_bit 3 x"

definition sha_sigma1 :: "w32 \<Rightarrow> w32" where
  "sha_sigma1 x = rotr 17 x XOR rotr 19 x XOR drop_bit 10 x"

definition sha_ch :: "w32 \<Rightarrow> w32 \<Rightarrow> w32 \<Rightarrow> w32" where
  "sha_ch x y z = (x AND y) XOR (NOT x AND z)"

definition sha_maj :: "w32 \<Rightarrow> w32 \<Rightarrow> w32 \<Rightarrow> w32" where
  "sha_maj x y z = (x AND y) XOR (x AND z) XOR (y AND z)"

definition sha_k :: "w32 list" where
  "sha_k =
    [0x428A2F98, 0x71374491, 0xB5C0FBCF, 0xE9B5DBA5, 0x3956C25B, 0x59F111F1, 0x923F82A4, 0xAB1C5ED5,
     0xD807AA98, 0x12835B01, 0x243185BE, 0x550C7DC3, 0x72BE5D74, 0x80DEB1FE, 0x9BDC06A7, 0xC19BF174,
     0xE49B69C1, 0xEFBE4786, 0x0FC19DC6, 0x240CA1CC, 0x2DE92C6F, 0x4A7484AA, 0x5CB0A9DC, 0x76F988DA,
     0x983E5152, 0xA831C66D, 0xB00327C8, 0xBF597FC7, 0xC6E00BF3, 0xD5A79147, 0x06CA6351, 0x14292967,
     0x27B70A85, 0x2E1B2138, 0x4D2C6DFC, 0x53380D13, 0x650A7354, 0x766A0ABB, 0x81C2C92E, 0x92722C85,
     0xA2BFE8A1, 0xA81A664B, 0xC24B8B70, 0xC76C51A3, 0xD192E819, 0xD6990624, 0xF40E3585, 0x106AA070,
     0x19A4C116, 0x1E376C08, 0x2748774C, 0x34B0BCB5, 0x391C0CB3, 0x4ED8AA4A, 0x5B9CCA4F, 0x682E6FF3,
     0x748F82EE, 0x78A5636F, 0x84C87814, 0x8CC70208, 0x90BEFFFA, 0xA4506CEB, 0xBEF9A3F7, 0xC67178F2]"

definition sha_init :: "w32 list" where
  "sha_init =
    [0x6A09E667, 0xBB67AE85, 0x3C6EF372, 0xA54FF53A, 0x510E527F, 0x9B05688C, 0x1F83D9AB, 0x5BE0CD19]"

text \<open>The message schedule: sixteen words of the block, then forty-eight derived ones.\<close>

fun sha_extend :: "nat \<Rightarrow> w32 list \<Rightarrow> w32 list" where
  "sha_extend 0 ws = ws"
| "sha_extend (Suc n) ws =
     (let t = length ws
      in sha_extend n (ws @ [sha_sigma1 (ws ! (t - 2)) + ws ! (t - 7)
                             + sha_sigma0 (ws ! (t - 15)) + ws ! (t - 16)]))"

fun be_words :: "bytes \<Rightarrow> w32 list" where
  "be_words (a # b # c # d # bs) = word_of_int (be_val [a, b, c, d]) # be_words bs"
| "be_words _ = []"

fun sha_round :: "w32 list \<Rightarrow> w32 \<times> w32 \<Rightarrow> w32 list" where
  "sha_round [a, b, c, d, e, f, g, h] (k, w) =
     (let t1 = h + sha_Sigma1 e + sha_ch e f g + k + w;
          t2 = sha_Sigma0 a + sha_maj a b c
      in [t1 + t2, a, b, c, d + t1, e, f, g])"
| "sha_round s kw = s"

definition sha_compress :: "w32 list \<Rightarrow> bytes \<Rightarrow> w32 list" where
  "sha_compress s block =
     map2 (+) s (foldl sha_round s (zip sha_k (sha_extend 48 (be_words block))))"

text \<open>Padding: a one bit, zeros up to 56 modulo 64, and the bit length as 64-bit integer.\<close>

definition sha_pad :: "bytes \<Rightarrow> bytes" where
  "sha_pad m =
     m @ [0x80] @ replicate ((119 - length m mod 64) mod 64) 0 @ be_bytes 8 (8 * int (length m))"

function sha_blocks :: "w32 list \<Rightarrow> bytes \<Rightarrow> w32 list" where
  "sha_blocks s m = (if m = [] then s else sha_blocks (sha_compress s (take 64 m)) (drop 64 m))"
  by pat_completeness auto
termination by (relation "measure (\<lambda>(s, m). length m)") auto

declare sha_blocks.simps [simp del]

definition sha256 :: "bytes \<Rightarrow> bytes" where
  "sha256 m = concat (map (\<lambda>w. be_bytes 4 (uint w)) (sha_blocks sha_init (sha_pad m)))"

section \<open>HMAC\<close>

definition hmac_sha256 :: "bytes \<Rightarrow> bytes \<Rightarrow> bytes" where
  "hmac_sha256 key m =
     (let k0 = (if 64 < length key then sha256 key else key);
          k = k0 @ replicate (64 - length k0) 0;
          ipad = map (\<lambda>b. b XOR 0x36) k;
          opad = map (\<lambda>b. b XOR 0x5C) k
      in sha256 (opad @ sha256 (ipad @ m)))"

section \<open>Lengths\<close>

lemma length_sha_round [simp]: "length (sha_round s kw) = length s"
  by (cases "(s, kw)" rule: sha_round.cases) (simp_all add: Let_def)

lemma length_sha_rounds [simp]: "length (foldl sha_round s kws) = length s"
  by (induction kws arbitrary: s) simp_all

lemma length_sha_compress [simp]: "length (sha_compress s b) = length s"
  by (simp add: sha_compress_def)

lemma length_sha_blocks [simp]: "length (sha_blocks s m) = length s"
  by (induction s m rule: sha_blocks.induct) (subst sha_blocks.simps, simp)

lemma length_concat_be_bytes: "length (concat (map (\<lambda>w. be_bytes n (g w)) ws)) = n * length ws"
  by (induction ws) simp_all

lemma length_sha256 [simp]: "length (sha256 m) = 32"
  by (simp add: sha256_def length_concat_be_bytes sha_init_def)

lemma length_hmac_sha256 [simp]: "length (hmac_sha256 key m) = 32"
  by (simp add: hmac_sha256_def Let_def)

text \<open>The padded message is a whole number of blocks.\<close>

lemma length_sha_pad: "length (sha_pad m) mod 64 = 0"
proof -
  have "(n + (9 + (119 - n mod 64) mod 64)) mod 64 = 0" for n :: nat
  proof -
    define m q where "m = n mod 64" and "q = n div 64"
    have n: "n = 64 * q + m" and m: "m < 64" by (simp_all add: m_def q_def)
    have "(119 - m) mod 64 = (if m \<le> 55 then 55 - m else 119 - m)" using m by (simp add: mod_if)
    then have "n + (9 + (119 - m) mod 64) = 64 * (if m \<le> 55 then q + 1 else q + 2)"
      using n m by (simp split: if_split)
    then show ?thesis by (simp add: m_def [symmetric])
  qed
  from this [of "length m"] show ?thesis by (simp add: sha_pad_def ac_simps)
qed

end
