(* ===== verification/Cip.thy ===== *)
theory Cip
  imports Sha256 Py_Text
begin

text \<open>
  The CIP engine of \<open>daemon/cip.py\<close>: key derivation, the keystream loop, encryption with a tag,
  and verification with the anti-replay window. Each operation returns the engine next to its
  result, since the code updates the engine before it may raise. The lemmas give the encryption
  round trip, the exact behaviour of the replay window against the set of sequence numbers it has
  let through (interface \<open>replay_filter\<close>), and what an accepted tag guarantees.
\<close>

section \<open>The engine\<close>

definition CIP_SUITE_NONE :: int where
  "CIP_SUITE_NONE = 0x00"

definition CIP_SUITE_AES_256_GCM :: int where
  "CIP_SUITE_AES_256_GCM = 0x02"

record cip_engine =
  cipher_suite :: int
  anti_replay_window_size :: int
  highest_seq_seen :: "(int, int) dict"
  replay_bitmap :: "(int, int) dict"
  total_encrypted_packets :: int
  total_decrypted_packets :: int
  total_tamper_rejections :: int
  total_replay_rejections :: int

definition new_engine :: "int \<Rightarrow> int \<Rightarrow> cip_engine" where
  "new_engine suite window =
     \<lparr>cipher_suite = suite, anti_replay_window_size = window, highest_seq_seen = [], replay_bitmap = [],
      total_encrypted_packets = 0, total_decrypted_packets = 0, total_tamper_rejections = 0,
      total_replay_rejections = 0\<rparr>"

section \<open>Key, nonce, keystream and tag\<close>

definition secret_salt :: bytes where
  "secret_salt = map of_char ''UnifiedBus_CIP_Root_Key''"

definition derive_key :: "int \<Rightarrow> bytes result" where
  "derive_key token = rbind (pack_uint 4 token) (\<lambda>tb. Inr (sha256 (secret_salt @ tb)))"

definition cip_nonce :: "int \<Rightarrow> int \<Rightarrow> bytes result" where
  "cip_nonce token seq =
     rbind (pack_uint 4 token) (\<lambda>t. rbind (pack_uint 8 seq) (\<lambda>s. Inr (t @ s)))"

text \<open>The loop \<open>while len(keystream) < len(payload)\<close>, from a given counter and prefix.\<close>

function keystream_loop :: "bytes \<Rightarrow> bytes \<Rightarrow> nat \<Rightarrow> int \<Rightarrow> bytes \<Rightarrow> bytes result" where
  "keystream_loop key nonce n counter acc =
     (if length acc < n
      then rbind (pack_uint 4 counter)
             (\<lambda>cb. keystream_loop key nonce n (counter + 1) (acc @ sha256 (key @ nonce @ cb)))
      else Inr acc)"
  by pat_completeness auto
termination by (relation "measure (\<lambda>(key, nonce, n, counter, acc). n - length acc)") auto

declare keystream_loop.simps [simp del]

definition keystream :: "bytes \<Rightarrow> bytes \<Rightarrow> nat \<Rightarrow> bytes result" where
  "keystream key nonce n = keystream_loop key nonce n 0 []"

definition cip_tag :: "int \<Rightarrow> bytes \<Rightarrow> bytes \<Rightarrow> bytes \<Rightarrow> bytes result" where
  "cip_tag suite key nonce ct =
     rbind (pack_uint 1 suite) (\<lambda>sb. Inr (take 16 (hmac_sha256 key (ct @ nonce @ sb))))"

section \<open>The two operations\<close>

definition encrypt_and_tag ::
  "cip_engine \<Rightarrow> bytes \<Rightarrow> int \<Rightarrow> int \<Rightarrow> cip_engine \<times> (bytes \<times> bytes) result"
where
  "encrypt_and_tag eng pay token seq =
     (if cipher_suite eng = CIP_SUITE_NONE \<or> pay = [] then (eng, Inr (pay, replicate 16 0))
      else
        case rbind (derive_key token) (\<lambda>key.
             rbind (cip_nonce token seq) (\<lambda>nonce.
             rbind (keystream key nonce (length pay)) (\<lambda>ks.
               let ct = xor_bytes pay (take (length pay) ks) in
               rbind (cip_tag (cipher_suite eng) key nonce ct) (\<lambda>tag. Inr (ct, tag)))))
        of Inl e \<Rightarrow> (eng, Inl e)
         | Inr r \<Rightarrow> (eng\<lparr>total_encrypted_packets := total_encrypted_packets eng + 1\<rparr>, Inr r))"

definition stale_message :: "int \<Rightarrow> int \<Rightarrow> string" where
  "stale_message seq highest =
     ''CIP Replay Check: Stale sequence '' @ show_int seq @ '' (highest='' @ show_int highest @ '')''"

definition duplicate_message :: "int \<Rightarrow> string" where
  "duplicate_message seq = ''CIP Replay Check: Duplicate sequence '' @ show_int seq @ '' detected''"

definition tamper_message :: string where
  "tamper_message =
     ''CIP Integrity Error: Cryptographic MAC tag verification failed (tampering detected)''"

text \<open>
  The anti-replay check and its update of the window: \<open>Some\<close> a message is a rejection. The
  bitmap entry is read with \<open>[]\<close>, which raises when the source has a highest number but no
  bitmap.
\<close>

definition replay_check :: "cip_engine \<Rightarrow> int \<Rightarrow> int \<Rightarrow> cip_engine \<times> string option result" where
  "replay_check eng seq src =
     (case dict_get (highest_seq_seen eng) src of
        None \<Rightarrow>
          (eng\<lparr>highest_seq_seen := dict_set src seq (highest_seq_seen eng),
               replay_bitmap := dict_set src 1 (replay_bitmap eng)\<rparr>, Inr None)
      | Some highest \<Rightarrow>
          let diff = highest - seq;
              reject = eng\<lparr>total_replay_rejections := total_replay_rejections eng + 1\<rparr>
          in
          if anti_replay_window_size eng \<le> diff then (reject, Inr (Some (stale_message seq highest)))
          else if 0 \<le> diff then
            (case dict_get (replay_bitmap eng) src of
               None \<Rightarrow> (eng, Inl (KeyError (show_int src)))
             | Some bm \<Rightarrow>
                 if bm AND push_bit (nat diff) 1 \<noteq> 0
                 then (reject, Inr (Some (duplicate_message seq)))
                 else (eng\<lparr>replay_bitmap :=
                             dict_set src (bm OR push_bit (nat diff) 1) (replay_bitmap eng)\<rparr>, Inr None))
          else
            let shift = - diff in
            if anti_replay_window_size eng \<le> shift
            then (eng\<lparr>replay_bitmap := dict_set src 1 (replay_bitmap eng),
                      highest_seq_seen := dict_set src seq (highest_seq_seen eng)\<rparr>, Inr None)
            else
              (case dict_get (replay_bitmap eng) src of
                 None \<Rightarrow> (eng, Inl (KeyError (show_int src)))
               | Some bm \<Rightarrow>
                   (eng\<lparr>replay_bitmap :=
                          dict_set src (push_bit (nat shift) bm OR 1) (replay_bitmap eng),
                        highest_seq_seen := dict_set src seq (highest_seq_seen eng)\<rparr>, Inr None)))"

definition decrypt_and_verify ::
  "cip_engine \<Rightarrow> bytes \<Rightarrow> bytes \<Rightarrow> int \<Rightarrow> int \<Rightarrow> int \<Rightarrow> cip_engine \<times> (bool \<times> bytes \<times> string) result"
where
  "decrypt_and_verify eng ct tag token seq src =
     (if cipher_suite eng = CIP_SUITE_NONE \<or> ct = [] then (eng, Inr (True, ct, ''OK''))
      else
        case replay_check eng seq src of
          (eng1, Inl e) \<Rightarrow> (eng1, Inl e)
        | (eng1, Inr (Some msg)) \<Rightarrow> (eng1, Inr (False, [], msg))
        | (eng1, Inr None) \<Rightarrow>
            (case rbind (derive_key token) (\<lambda>key.
                  rbind (cip_nonce token seq) (\<lambda>nonce.
                  rbind (cip_tag (cipher_suite eng1) key nonce ct) (\<lambda>expected. Inr (key, nonce, expected))))
             of Inl e \<Rightarrow> (eng1, Inl e)
              | Inr (key, nonce, expected) \<Rightarrow>
                  if tag \<noteq> expected
                  then (eng1\<lparr>total_tamper_rejections := total_tamper_rejections eng1 + 1\<rparr>,
                        Inr (False, [], tamper_message))
                  else
                    (case keystream key nonce (length ct) of
                       Inl e \<Rightarrow> (eng1, Inl e)
                     | Inr ks \<Rightarrow>
                         (eng1\<lparr>total_decrypted_packets := total_decrypted_packets eng1 + 1\<rparr>,
                          Inr (True, xor_bytes ct (take (length ct) ks), ''OK'')))))"

section \<open>The replay window against the set of numbers let through\<close>

text \<open>
  The abstract filter keeps, per source, the set of sequence numbers let through; a number is refused
  when it is in the set or at least a window below the highest one.
\<close>

definition abstract_refuses :: "int \<Rightarrow> (int \<times> int) set \<Rightarrow> int \<Rightarrow> int \<Rightarrow> bool" where
  "abstract_refuses w S seq src \<longleftrightarrow> (src, seq) \<in> S \<or> (\<exists>q. (src, q) \<in> S \<and> w \<le> q - seq)"

definition window_entry :: "int \<Rightarrow> int option \<Rightarrow> int option \<Rightarrow> int set \<Rightarrow> bool" where
  "window_entry w hi bm S \<longleftrightarrow>
     (case hi of
        None \<Rightarrow> S = {}
      | Some h \<Rightarrow> h \<in> S \<and> (\<forall>q\<in>S. q \<le> h) \<and>
          (\<exists>b. bm = Some b \<and> (\<forall>d. 0 \<le> d \<and> d < w \<longrightarrow> (bit b (nat d) \<longleftrightarrow> h - d \<in> S))))"

definition window_rel :: "cip_engine \<Rightarrow> (int \<times> int) set \<Rightarrow> bool" where
  "window_rel eng S \<longleftrightarrow>
     (\<forall>src. window_entry (anti_replay_window_size eng) (dict_get (highest_seq_seen eng) src)
              (dict_get (replay_bitmap eng) src) {q. (src, q) \<in> S})"

lemma window_rel_new: "window_rel (new_engine suite w) {}"
  by (simp add: window_rel_def window_entry_def new_engine_def)

lemma mark_bit: "bit (b OR push_bit n 1) m \<longleftrightarrow> bit b m \<or> m = n" for b :: int
  by (auto simp: bit_simps)

lemma shift_bit: "bit (push_bit n b OR 1) m \<longleftrightarrow> m = 0 \<or> n \<le> m \<and> bit b (m - n)" for b :: int
  by (auto simp: bit_simps)

text \<open>The three ways the window lets a number through.\<close>

lemma window_first: "window_entry w (Some q) (Some 1) {q}"
  by (auto simp: window_entry_def bit_1_iff)

lemma window_mark:
  assumes "window_entry w (Some h) (Some b) S" "0 \<le> h - q"
  shows "window_entry w (Some h) (Some (b OR push_bit (nat (h - q)) 1)) (insert q S)"
proof -
  have S: "h \<in> S" "\<forall>x\<in>S. x \<le> h" "\<And>d. 0 \<le> d \<Longrightarrow> d < w \<Longrightarrow> bit b (nat d) \<longleftrightarrow> h - d \<in> S"
    using assms(1) by (auto simp: window_entry_def)
  have "bit (b OR push_bit (nat (h - q)) 1) (nat d) \<longleftrightarrow> h - d \<in> insert q S" if d: "0 \<le> d" "d < w" for d
  proof -
    have "nat d = nat (h - q) \<longleftrightarrow> h - d = q" using d assms(2) by auto
    then show ?thesis unfolding mark_bit using S(3) [OF d] by auto
  qed
  then show ?thesis using S assms(2) by (auto simp: window_entry_def)
qed

lemma window_advance:
  assumes "window_entry w (Some h) (Some b) S" "h < q"
  shows "window_entry w (Some q) (Some (if w \<le> q - h then 1 else push_bit (nat (q - h)) b OR 1)) (insert q S)"
proof -
  have S: "h \<in> S" "\<forall>x\<in>S. x \<le> h" "\<And>d. 0 \<le> d \<Longrightarrow> d < w \<Longrightarrow> bit b (nat d) \<longleftrightarrow> h - d \<in> S"
    using assms(1) by (auto simp: window_entry_def)
  have "bit (if w \<le> q - h then 1 else push_bit (nat (q - h)) b OR 1) (nat d) \<longleftrightarrow> q - d \<in> insert q S"
    if d: "0 \<le> d" "d < w" for d
  proof (cases "w \<le> q - h")
    case True
    then have "h < q - d" using d by linarith
    then have "q - d \<notin> S" using S(2) by force
    moreover have "d = 0 \<longleftrightarrow> q - d = q" by simp
    ultimately show ?thesis using True d by (auto simp: bit_1_iff)
  next
    case False
    show ?thesis
    proof (cases "q - h \<le> d")
      case True
      then have "nat d - nat (q - h) = nat (d - (q - h))" "nat (q - h) \<le> nat d"
        using assms(2) by simp_all
      then show ?thesis using True False d assms(2) S(3) [of "d - (q - h)"] by (simp add: shift_bit)
    next
      case far: False
      then have "q - d \<notin> S" using S(2) by force
      moreover have "\<not> nat (q - h) \<le> nat d" "nat d = 0 \<longleftrightarrow> q - d = q" using far d assms(2) by auto
      ultimately show ?thesis using False by (simp add: shift_bit)
    qed
  qed
  moreover have "\<forall>x\<in>S. x \<le> q" using S(2) assms(2) by force
  ultimately show ?thesis by (auto simp: window_entry_def)
qed

lemma window_rel_update:
  assumes "window_rel eng S"
    and "anti_replay_window_size eng' = anti_replay_window_size eng"
    and "\<And>s. s \<noteq> src \<Longrightarrow> dict_get (highest_seq_seen eng') s = dict_get (highest_seq_seen eng) s"
    and "\<And>s. s \<noteq> src \<Longrightarrow> dict_get (replay_bitmap eng') s = dict_get (replay_bitmap eng) s"
    and "window_entry (anti_replay_window_size eng) (dict_get (highest_seq_seen eng') src)
           (dict_get (replay_bitmap eng') src) (insert seq {q. (src, q) \<in> S})"
  shows "window_rel eng' (insert (src, seq) S)"
  unfolding window_rel_def
proof
  fix s
  have "{q. (s, q) \<in> insert (src, seq) S} = (if s = src then insert seq {q. (src, q) \<in> S} else {q. (s, q) \<in> S})"
    by auto
  then show "window_entry (anti_replay_window_size eng') (dict_get (highest_seq_seen eng') s)
      (dict_get (replay_bitmap eng') s) {q. (s, q) \<in> insert (src, seq) S}"
    using assms unfolding window_rel_def by (cases "s = src") simp_all
qed

lemma replay_check_window [simp]:
  "anti_replay_window_size (fst (replay_check eng seq src)) = anti_replay_window_size eng"
  "cipher_suite (fst (replay_check eng seq src)) = cipher_suite eng"
  by (simp_all add: replay_check_def Let_def split: option.split)

lemma replay_check_refuses:
  assumes rel: "window_rel eng S" and ref: "abstract_refuses (anti_replay_window_size eng) S seq src"
  shows "\<exists>msg. replay_check eng seq src
           = (eng\<lparr>total_replay_rejections := total_replay_rejections eng + 1\<rparr>, Inr (Some msg))"
proof -
  let ?w = "anti_replay_window_size eng"
  have entry: "window_entry ?w (dict_get (highest_seq_seen eng) src) (dict_get (replay_bitmap eng) src)
      {q. (src, q) \<in> S}"
    using rel by (simp add: window_rel_def)
  show ?thesis
  proof (cases "dict_get (highest_seq_seen eng) src")
    case None
    then show ?thesis using entry ref by (auto simp: window_entry_def abstract_refuses_def)
  next
    case (Some h)
    then obtain b where b: "dict_get (replay_bitmap eng) src = Some b"
      and S: "\<And>q. (src, q) \<in> S \<Longrightarrow> q \<le> h"
        "\<And>d. 0 \<le> d \<Longrightarrow> d < ?w \<Longrightarrow> bit b (nat d) \<longleftrightarrow> (src, h - d) \<in> S"
      using entry by (auto simp: window_entry_def)
    show ?thesis
    proof (cases "?w \<le> h - seq")
      case True
      then show ?thesis using Some by (simp add: replay_check_def Let_def)
    next
      case False
      then have "(src, seq) \<in> S" using ref S(1) by (force simp: abstract_refuses_def)
      then have "bit b (nat (h - seq))" "0 \<le> h - seq" using S(1) [of seq] S(2) [of "h - seq"] False by simp_all
      then show ?thesis using Some b False
        by (simp add: replay_check_def Let_def bit_iff_and_push_bit_not_eq_0)
    qed
  qed
qed

lemma replay_check_passes:
  assumes rel: "window_rel eng S" and ref: "\<not> abstract_refuses (anti_replay_window_size eng) S seq src"
  shows "snd (replay_check eng seq src) = Inr None
    \<and> window_rel (fst (replay_check eng seq src)) (insert (src, seq) S)"
proof -
  let ?w = "anti_replay_window_size eng"
  have entry: "window_entry ?w (dict_get (highest_seq_seen eng) src) (dict_get (replay_bitmap eng) src)
      {q. (src, q) \<in> S}"
    using rel by (simp add: window_rel_def)
  show ?thesis
  proof (cases "dict_get (highest_seq_seen eng) src")
    case None
    then have "{q. (src, q) \<in> S} = {}" using entry by (simp add: window_entry_def)
    then show ?thesis using None window_first
      by (auto simp: replay_check_def intro!: window_rel_update [OF rel])
  next
    case (Some h)
    then obtain b where b: "dict_get (replay_bitmap eng) src = Some b"
      and e: "window_entry ?w (Some h) (Some b) {q. (src, q) \<in> S}"
      and h: "(src, h) \<in> S"
      and S: "\<And>d. 0 \<le> d \<Longrightarrow> d < ?w \<Longrightarrow> bit b (nat d) \<longleftrightarrow> (src, h - d) \<in> S"
      using entry by (auto simp: window_entry_def)
    have near: "\<not> ?w \<le> h - seq" and fresh: "(src, seq) \<notin> S"
      using ref h by (auto simp: abstract_refuses_def)
    show ?thesis
    proof (cases "0 \<le> h - seq")
      case True
      then have "b AND push_bit (nat (h - seq)) 1 = 0"
        using S [of "h - seq"] near fresh bit_iff_and_push_bit_not_eq_0 [of b "nat (h - seq)"] by simp
      then have "replay_check eng seq src = (eng\<lparr>replay_bitmap :=
          dict_set src (b OR push_bit (nat (h - seq)) 1) (replay_bitmap eng)\<rparr>, Inr None)"
        using True near Some b by (simp add: replay_check_def Let_def)
      then show ?thesis using window_mark [OF e True] Some
        by (auto simp del: push_bit_of_1 intro!: window_rel_update [OF rel])
    next
      case False
      have "replay_check eng seq src = (eng\<lparr>replay_bitmap := dict_set src
            (if ?w \<le> seq - h then 1 else push_bit (nat (seq - h)) b OR 1) (replay_bitmap eng),
          highest_seq_seen := dict_set src seq (highest_seq_seen eng)\<rparr>, Inr None)"
        using False near Some b by (simp add: replay_check_def Let_def)
      then show ?thesis using window_advance [OF e, of seq] False
        by (auto intro!: window_rel_update [OF rel])
    qed
  qed
qed

section \<open>Filters that let nothing through twice\<close>

text \<open>
  A filter processes calls one by one and says whether a call got through; \<open>rel\<close> bounds from
  below which keys are burnt. A call gets through only with a key that was not burnt before, and
  burns it.
\<close>

primrec let_through :: "('s \<Rightarrow> 'c \<Rightarrow> 's \<times> bool) \<Rightarrow> ('c \<Rightarrow> 'k) \<Rightarrow> 's \<Rightarrow> 'c list \<Rightarrow> 'k list" where
  "let_through step key s [] = []"
| "let_through step key s (c # cs) =
     (case step s c of (s', ok) \<Rightarrow>
        if ok then key c # let_through step key s' cs else let_through step key s' cs)"

locale replay_filter =
  fixes step :: "'s \<Rightarrow> 'c \<Rightarrow> 's \<times> bool"
    and key :: "'c \<Rightarrow> 'k"
    and rel :: "'s \<Rightarrow> 'k set \<Rightarrow> bool"
  assumes through: "rel s S \<Longrightarrow> step s c = (s', True)
      \<Longrightarrow> key c \<notin> S \<and> (\<exists>S'. insert (key c) S \<subseteq> S' \<and> rel s' S')"
    and stopped: "rel s S \<Longrightarrow> step s c = (s', False) \<Longrightarrow> \<exists>S'. S \<subseteq> S' \<and> rel s' S'"
begin

lemma through_once:
  "rel s S \<Longrightarrow> distinct (let_through step key s cs) \<and> set (let_through step key s cs) \<inter> S = {}"
proof (induction cs arbitrary: s S)
  case (Cons c cs)
  obtain s' ok where st: "step s c = (s', ok)" by (cases "step s c")
  show ?case
  proof (cases ok)
    case True
    then have "step s c = (s', True)" using st by simp
    then obtain S' where "key c \<notin> S" "insert (key c) S \<subseteq> S'" "rel s' S'"
      using through [OF Cons.prems] by blast
    then show ?thesis using Cons.IH [of s' S'] st True by auto
  next
    case False
    then have "step s c = (s', False)" using st by simp
    then obtain S' where "S \<subseteq> S'" "rel s' S'" using stopped [OF Cons.prems] by blast
    then show ?thesis using Cons.IH [of s' S'] st False by auto
  qed
qed simp

end

section \<open>Keystream and keys\<close>

lemma keystream_loop_length:
  "keystream_loop key nonce n counter acc = Inr ks \<Longrightarrow> n \<le> length ks"
proof (induction key nonce n counter acc rule: keystream_loop.induct)
  case (1 key nonce n counter acc)
  show ?case
  proof (cases "length acc < n")
    case True
    then obtain cb where "pack_uint 4 counter = Inr cb"
        "keystream_loop key nonce n (counter + 1) (acc @ sha256 (key @ nonce @ cb)) = Inr ks"
      using "1.prems" by (subst (asm) keystream_loop.simps) (auto simp: result_simps)
    then show ?thesis using "1.IH" True by blast
  next
    case False
    then show ?thesis using "1.prems" by (subst (asm) keystream_loop.simps) simp
  qed
qed

lemma keystream_loop_total:
  assumes "length acc = 32 * nat counter" "0 \<le> counter" "n \<le> 32 * 256 ^ 4"
  shows "\<exists>ks. keystream_loop key nonce n counter acc = Inr ks"
  using assms
proof (induction key nonce n counter acc rule: keystream_loop.induct)
  case (1 key nonce n counter acc)
  show ?case
  proof (cases "length acc < n")
    case True
    then have "nat counter < 256 ^ 4" using "1.prems" by linarith
    then have "counter < 256 ^ 4" by (simp add: nat_less_iff)
    then have p: "pack_uint 4 counter = Inr (be_bytes 4 counter)" using "1.prems" by (simp add: pack_uint_Inr)
    have "length (acc @ sha256 (key @ nonce @ be_bytes 4 counter)) = 32 * nat (counter + 1)"
      using "1.prems" by (simp add: nat_add_distrib)
    then have "\<exists>ks. keystream_loop key nonce n (counter + 1) (acc @ sha256 (key @ nonce @ be_bytes 4 counter)) = Inr ks"
      using "1.IH" True "1.prems" by simp
    then show ?thesis using True p by (subst keystream_loop.simps) simp
  next
    case False
    then show ?thesis by (subst keystream_loop.simps) simp
  qed
qed

lemma keystream_length: "keystream key nonce n = Inr ks \<Longrightarrow> n \<le> length ks"
  unfolding keystream_def by (rule keystream_loop_length)

lemma keystream_total: "n \<le> 32 * 256 ^ 4 \<Longrightarrow> \<exists>ks. keystream key nonce n = Inr ks"
  unfolding keystream_def by (rule keystream_loop_total) simp_all

text \<open>The ranges of the header fields the packet carries token and sequence number in.\<close>

definition cip_fields_ok :: "int \<Rightarrow> int \<Rightarrow> int \<Rightarrow> bool" where
  "cip_fields_ok suite token seq \<longleftrightarrow>
     0 \<le> token \<and> token < 256 ^ 4 \<and> 0 \<le> seq \<and> seq < 256 ^ 8 \<and> 0 \<le> suite \<and> suite < 256"

definition key_of :: "int \<Rightarrow> bytes" where
  "key_of token = sha256 (secret_salt @ be_bytes 4 token)"

definition nonce_of :: "int \<Rightarrow> int \<Rightarrow> bytes" where
  "nonce_of token seq = be_bytes 4 token @ be_bytes 8 seq"

definition tag_of :: "int \<Rightarrow> int \<Rightarrow> int \<Rightarrow> bytes \<Rightarrow> bytes" where
  "tag_of suite token seq ct =
     take 16 (hmac_sha256 (key_of token) (ct @ nonce_of token seq @ be_bytes 1 suite))"

lemma cip_fields:
  assumes "cip_fields_ok suite token seq"
  shows "derive_key token = Inr (key_of token)" "cip_nonce token seq = Inr (nonce_of token seq)"
    "cip_tag suite (key_of token) (nonce_of token seq) ct = Inr (tag_of suite token seq ct)"
proof -
  have p: "pack_uint 4 token = Inr (be_bytes 4 token)" "pack_uint 8 seq = Inr (be_bytes 8 seq)"
    "pack_uint 1 suite = Inr (be_bytes 1 suite)"
    using assms unfolding cip_fields_ok_def pack_uint_Inr by simp_all
  show "derive_key token = Inr (key_of token)" "cip_nonce token seq = Inr (nonce_of token seq)"
    "cip_tag suite (key_of token) (nonce_of token seq) ct = Inr (tag_of suite token seq ct)"
    by (simp_all only: derive_key_def key_of_def cip_nonce_def nonce_of_def cip_tag_def tag_of_def p rbind_simps)
qed

section \<open>Encryption and verification together\<close>

lemma encrypt_active:
  assumes "cipher_suite eng \<noteq> CIP_SUITE_NONE" "pay \<noteq> []" "cip_fields_ok (cipher_suite eng) token seq"
    and "keystream (key_of token) (nonce_of token seq) (length pay) = Inr ks"
  shows "encrypt_and_tag eng pay token seq =
    (eng\<lparr>total_encrypted_packets := total_encrypted_packets eng + 1\<rparr>,
     Inr (xor_bytes pay (take (length pay) ks),
          tag_of (cipher_suite eng) token seq (xor_bytes pay (take (length pay) ks))))"
  using assms(1,2,4) by (simp add: encrypt_and_tag_def cip_fields [OF assms(3)] Let_def)

lemma decrypt_active:
  assumes "cipher_suite eng \<noteq> CIP_SUITE_NONE" "ct \<noteq> []" "cip_fields_ok (cipher_suite eng) token seq"
    and "replay_check eng seq src = (eng1, Inr None)"
    and "keystream (key_of token) (nonce_of token seq) (length ct) = Inr ks"
  shows "decrypt_and_verify eng ct tag token seq src =
    (if tag = tag_of (cipher_suite eng) token seq ct
     then (eng1\<lparr>total_decrypted_packets := total_decrypted_packets eng1 + 1\<rparr>,
           Inr (True, xor_bytes ct (take (length ct) ks), ''OK''))
     else (eng1\<lparr>total_tamper_rejections := total_tamper_rejections eng1 + 1\<rparr>, Inr (False, [], tamper_message)))"
proof -
  have "cipher_suite eng1 = cipher_suite eng"
    using replay_check_window(2) [of eng seq src] assms(4) by simp
  then show ?thesis using assms(1,2,4,5) by (simp add: decrypt_and_verify_def cip_fields [OF assms(3)])
qed

lemma decrypt_refused:
  assumes "cipher_suite eng \<noteq> CIP_SUITE_NONE" "ct \<noteq> []" "window_rel eng S"
    and "abstract_refuses (anti_replay_window_size eng) S seq src"
  shows "\<exists>msg. decrypt_and_verify eng ct tag token seq src
           = (eng\<lparr>total_replay_rejections := total_replay_rejections eng + 1\<rparr>, Inr (False, [], msg))"
  using replay_check_refuses [OF assms(3,4)] assms(1,2) by (auto simp: decrypt_and_verify_def)

lemma window_rel_counters [simp]:
  "window_rel (eng\<lparr>total_encrypted_packets := n\<rparr>) S = window_rel eng S"
  "window_rel (eng\<lparr>total_decrypted_packets := n\<rparr>) S = window_rel eng S"
  "window_rel (eng\<lparr>total_tamper_rejections := n\<rparr>) S = window_rel eng S"
  "window_rel (eng\<lparr>total_replay_rejections := n\<rparr>) S = window_rel eng S"
  by (simp_all add: window_rel_def)

lemma cip_tag_length: "cip_tag suite key nonce ct = Inr tag \<Longrightarrow> length tag = 16"
  by (auto simp: cip_tag_def result_simps)

lemma encrypt_lengths:
  assumes "encrypt_and_tag eng pay token seq = (eng', Inr (ct, tag))"
  shows "length ct = length pay \<and> length tag = 16"
proof (cases "cipher_suite eng = CIP_SUITE_NONE \<or> pay = []")
  case True
  then show ?thesis using assms by (auto simp: encrypt_and_tag_def)
next
  case False
  then obtain key nonce ks where "keystream key nonce (length pay) = Inr ks" "ct = xor_bytes pay (take (length pay) ks)"
      "cip_tag (cipher_suite eng) key nonce ct = Inr tag"
    using assms by (auto simp: encrypt_and_tag_def Let_def result_simps split: sum.splits)
  then show ?thesis using keystream_length [of key nonce "length pay" ks] cip_tag_length by simp
qed

lemma decrypt_accepted_length:
  assumes "decrypt_and_verify eng ct tag token seq src = (eng', Inr (True, plain, msg))"
  shows "length plain = length ct"
proof (cases "cipher_suite eng = CIP_SUITE_NONE \<or> ct = []")
  case True
  then show ?thesis using assms by (simp add: decrypt_and_verify_def)
next
  case False
  obtain eng1 r where r: "replay_check eng seq src = (eng1, r)" by (cases "replay_check eng seq src")
  show ?thesis
    using assms False keystream_length [of _ _ "length ct"]
    by (auto simp: decrypt_and_verify_def r split: sum.splits option.splits if_splits)
qed

text \<open>The window moves before the tag is looked at, whatever the outcome.\<close>

lemma decrypt_moves_window:
  assumes "cipher_suite eng \<noteq> CIP_SUITE_NONE" "ct \<noteq> []" "window_rel eng S"
    and "\<not> abstract_refuses (anti_replay_window_size eng) S seq src"
  shows "window_rel (fst (decrypt_and_verify eng ct tag token seq src)) (insert (src, seq) S)"
proof -
  obtain eng1 where r: "replay_check eng seq src = (eng1, Inr None)" and w: "window_rel eng1 (insert (src, seq) S)"
    using replay_check_passes [OF assms(3,4)] by (cases "replay_check eng seq src") auto
  show ?thesis using assms(1,2) w by (simp add: decrypt_and_verify_def r split: sum.split)
qed

lemma decrypt_config [simp]:
  "anti_replay_window_size (fst (decrypt_and_verify eng ct tag token seq src)) = anti_replay_window_size eng"
  "cipher_suite (fst (decrypt_and_verify eng ct tag token seq src)) = cipher_suite eng"
proof -
  obtain eng1 r where r: "replay_check eng seq src = (eng1, r)" by (cases "replay_check eng seq src")
  then have "anti_replay_window_size eng1 = anti_replay_window_size eng" "cipher_suite eng1 = cipher_suite eng"
    using replay_check_window [of eng seq src] by simp_all
  then show "anti_replay_window_size (fst (decrypt_and_verify eng ct tag token seq src)) = anti_replay_window_size eng"
    "cipher_suite (fst (decrypt_and_verify eng ct tag token seq src)) = cipher_suite eng"
    by (simp_all add: decrypt_and_verify_def r split: sum.split option.split)
qed

section \<open>The engine as a filter\<close>

definition window_step :: "cip_engine \<Rightarrow> int \<times> int \<Rightarrow> cip_engine \<times> bool" where
  "window_step eng c =
     (case replay_check eng (snd c) (fst c) of (eng', r) \<Rightarrow> (eng', r = Inr None))"

interpretation window: replay_filter window_step id window_rel
proof
  fix eng S c eng'
  assume rel: "window_rel eng S"
  show "id c \<notin> S \<and> (\<exists>S'. insert (id c) S \<subseteq> S' \<and> window_rel eng' S')" if st: "window_step eng c = (eng', True)"
  proof (cases "abstract_refuses (anti_replay_window_size eng) S (snd c) (fst c)")
    case True
    then show ?thesis using replay_check_refuses [OF rel True] st by (auto simp: window_step_def)
  next
    case False
    then show ?thesis using replay_check_passes [OF rel False] st
      by (auto simp: window_step_def abstract_refuses_def split: prod.splits)
  qed
  show "\<exists>S'. S \<subseteq> S' \<and> window_rel eng' S'" if st: "window_step eng c = (eng', False)"
  proof (cases "abstract_refuses (anti_replay_window_size eng) S (snd c) (fst c)")
    case True
    then have "window_rel eng' S" using replay_check_refuses [OF rel True] rel st by (auto simp: window_step_def)
    then show ?thesis by blast
  next
    case False
    then show ?thesis using replay_check_passes [OF rel False] st
      by (auto simp: window_step_def split: prod.splits)
  qed
qed

text \<open>A received packet as \<open>decrypt_and_verify\<close> sees it: ciphertext, tag, token, sequence number, source.\<close>

type_synonym cip_call = "bytes \<times> bytes \<times> int \<times> int \<times> int"

definition call_key :: "cip_call \<Rightarrow> int \<times> int" where
  "call_key c = (case c of (ct, tag, token, seq, src) \<Rightarrow> (src, seq))"

definition accepted_result :: "(bool \<times> bytes \<times> string) result \<Rightarrow> bool" where
  "accepted_result r = (case r of Inr (ok, p, m) \<Rightarrow> ok | Inl e \<Rightarrow> False)"

definition engine_step :: "cip_engine \<Rightarrow> cip_call \<Rightarrow> cip_engine \<times> bool" where
  "engine_step eng c =
     (case c of (ct, tag, token, seq, src) \<Rightarrow>
        case decrypt_and_verify eng ct tag token seq src of
          (eng', r) \<Rightarrow> (eng', ct \<noteq> [] \<and> accepted_result r))"

definition engine_rel :: "cip_engine \<Rightarrow> (int \<times> int) set \<Rightarrow> bool" where
  "engine_rel eng S \<longleftrightarrow> cipher_suite eng \<noteq> CIP_SUITE_NONE \<and> window_rel eng S"

lemma engine_step_outcome:
  assumes "engine_rel eng S" "engine_step eng c = (eng', ok)"
  shows "(ok \<longrightarrow> call_key c \<notin> S \<and> engine_rel eng' (insert (call_key c) S))
    \<and> (engine_rel eng' S \<or> engine_rel eng' (insert (call_key c) S))"
proof -
  obtain ct tag token seq src where c: "c = (ct, tag, token, seq, src)" by (cases c)
  let ?d = "decrypt_and_verify eng ct tag token seq src"
  from assms(1) have suite: "cipher_suite eng \<noteq> CIP_SUITE_NONE" and rel: "window_rel eng S"
    by (simp_all add: engine_rel_def)
  have eng': "eng' = fst ?d" and ok: "ok \<longleftrightarrow> ct \<noteq> [] \<and> accepted_result (snd ?d)"
    using assms(2) by (auto simp: engine_step_def c split: prod.splits)
  show ?thesis
  proof (cases "ct = []")
    case True
    then show ?thesis using assms(1) ok by (simp add: eng' decrypt_and_verify_def)
  next
    case nonempty: False
    show ?thesis
    proof (cases "abstract_refuses (anti_replay_window_size eng) S seq src")
      case True
      then show ?thesis using decrypt_refused [OF suite nonempty rel True, of tag token] assms(1) ok
        by (auto simp: eng' accepted_result_def engine_rel_def)
    next
      case False
      then have "window_rel eng' (insert (src, seq) S)" "(src, seq) \<notin> S"
        using decrypt_moves_window [OF suite nonempty rel False, of tag token]
        by (simp_all add: eng' abstract_refuses_def)
      then show ?thesis using suite by (simp add: engine_rel_def call_key_def c eng')
    qed
  qed
qed

interpretation engine: replay_filter engine_step call_key engine_rel
proof
  fix eng S c eng'
  assume rel: "engine_rel eng S"
  show "call_key c \<notin> S \<and> (\<exists>S'. insert (call_key c) S \<subseteq> S' \<and> engine_rel eng' S')"
    if "engine_step eng c = (eng', True)"
    using engine_step_outcome [OF rel that] by blast
  show "\<exists>S'. S \<subseteq> S' \<and> engine_rel eng' S'" if "engine_step eng c = (eng', False)"
    using engine_step_outcome [OF rel that] by blast
qed

lemma engine_rel_new: "suite \<noteq> CIP_SUITE_NONE \<Longrightarrow> engine_rel (new_engine suite w) {}"
  by (simp add: engine_rel_def window_rel_new) (simp add: new_engine_def)

section \<open>Properties of the engine\<close>

lemma fresh_engine [simp]:
  "cipher_suite (new_engine suite w) = suite" "anti_replay_window_size (new_engine suite w) = w"
  "\<not> abstract_refuses v {} seq src"
  by (simp_all add: new_engine_def abstract_refuses_def)

text \<open>
  C23. No replay: whatever packets a fresh engine with an active suite is given, and whatever their
  tags, no two packets with a payload that it accepts carry the same source and sequence number.
\<close>

theorem no_packet_accepted_twice:
  assumes "suite \<noteq> CIP_SUITE_NONE"
  shows "distinct (let_through engine_step call_key (new_engine suite w) calls)"
  using engine.through_once [OF engine_rel_new [OF assms]] by blast

theorem no_packet_accepted_twice_witness:
  "distinct (let_through engine_step call_key (new_engine CIP_SUITE_AES_256_GCM 64)
     [([1], [], 5, 9, 1), ([1], [], 5, 9, 1)])"
  by (rule no_packet_accepted_twice) (simp add: CIP_SUITE_AES_256_GCM_def CIP_SUITE_NONE_def)

text \<open>
  C24. The replay window refines its specification: against the set \<open>S\<close> of numbers let through so
  far, a number is refused exactly if it is in \<open>S\<close> or at least a window size below a number of
  \<open>S\<close> from the same source; a refusal leaves \<open>S\<close> alone, and otherwise the new window stands
  for \<open>S\<close> with the number added.
\<close>

theorem replay_window_refines:
  assumes "window_rel eng S"
  shows "if abstract_refuses (anti_replay_window_size eng) S seq src
    then (\<exists>msg. snd (replay_check eng seq src) = Inr (Some msg)) \<and> window_rel (fst (replay_check eng seq src)) S
    else snd (replay_check eng seq src) = Inr None
         \<and> window_rel (fst (replay_check eng seq src)) (insert (src, seq) S)"
proof (cases "abstract_refuses (anti_replay_window_size eng) S seq src")
  case True
  then show ?thesis using replay_check_refuses [OF assms True] assms by auto
next
  case False
  then show ?thesis using replay_check_passes [OF assms False] by simp
qed

theorem replay_window_refines_witness:
  "snd (replay_check (new_engine 2 64) 9 1) = Inr None"
  using replay_window_refines [OF window_rel_new, of 2 64 9 1] by simp

text \<open>What one engine encrypts, another of the same suite whose window lets the number through decrypts.\<close>

lemma encrypted_decrypts:
  assumes "cip_fields_ok (cipher_suite eng) token seq" "length pay \<le> 2 ^ 37"
    and "cipher_suite rcv = cipher_suite eng" "window_rel rcv S"
    and "\<not> abstract_refuses (anti_replay_window_size rcv) S seq src"
  shows "\<exists>ct tag. snd (encrypt_and_tag eng pay token seq) = Inr (ct, tag)
    \<and> snd (decrypt_and_verify rcv ct tag token seq src) = Inr (True, pay, ''OK'')"
proof (cases "cipher_suite eng = CIP_SUITE_NONE \<or> pay = []")
  case True
  then show ?thesis using assms(3) by (auto simp: encrypt_and_tag_def decrypt_and_verify_def)
next
  case False
  obtain ks where ks: "keystream (key_of token) (nonce_of token seq) (length pay) = Inr ks"
    using keystream_total [of "length pay"] assms(2) by auto
  let ?ct = "xor_bytes pay (take (length pay) ks)"
  have len: "length ?ct = length pay" using keystream_length [OF ks] by simp
  then have ct: "?ct \<noteq> []" using False by (metis length_0_conv)
  obtain rcv1 where r: "replay_check rcv seq src = (rcv1, Inr None)"
    using replay_check_passes [OF assms(4,5)] by (cases "replay_check rcv seq src") auto
  have "xor_bytes ?ct (take (length pay) ks) = pay"
    using keystream_length [OF ks] by (intro xor_bytes_cancel) simp
  then have "snd (decrypt_and_verify rcv ?ct (tag_of (cipher_suite eng) token seq ?ct) token seq src)
      = Inr (True, pay, ''OK'')"
    using decrypt_active [OF _ ct _ r, of token ks] False assms(1,3) ks len by simp
  then show ?thesis using encrypt_active [OF _ _ assms(1) ks] False by simp
qed

text \<open>
  C26. Encryption round trip: with token and sequence number in the range of their fields and at
  most 2 to the 37 bytes of payload, \<open>encrypt_and_tag\<close> succeeds, and an engine of the same suite
  whose window does not refuse the number returns exactly the payload.
\<close>

theorem cip_roundtrip:
  assumes "cip_fields_ok (cipher_suite eng) token seq" "length pay \<le> 2 ^ 37"
    and "cipher_suite rcv = cipher_suite eng" "window_rel rcv S"
    and "\<not> abstract_refuses (anti_replay_window_size rcv) S seq src"
  shows "\<exists>ct tag. snd (encrypt_and_tag eng pay token seq) = Inr (ct, tag)
    \<and> snd (decrypt_and_verify rcv ct tag token seq src) = Inr (True, pay, ''OK'')"
  using assms by (rule encrypted_decrypts)

theorem cip_roundtrip_witness:
  "\<exists>ct tag. snd (encrypt_and_tag (new_engine 2 64) [1, 2, 3] 5 9) = Inr (ct, tag)
    \<and> snd (decrypt_and_verify (new_engine 2 64) ct tag 5 9 1) = Inr (True, [1, 2, 3], ''OK'')"
  by (rule cip_roundtrip [OF _ _ _ window_rel_new]) (simp_all add: cip_fields_ok_def)

text \<open>
  What acceptance means: a packet with a payload that the window lets through is accepted
  exactly if its tag is the truncated HMAC, under the token's key, of ciphertext, token, sequence
  number and suite; any other tag is answered with the tampering error and no plaintext.
\<close>

theorem acceptance_is_tag_equality:
  assumes "cipher_suite eng \<noteq> CIP_SUITE_NONE" "ct \<noteq> []" "length ct \<le> 2 ^ 37"
    and "cip_fields_ok (cipher_suite eng) token seq" "window_rel eng S"
    and "\<not> abstract_refuses (anti_replay_window_size eng) S seq src"
  shows "if tag = tag_of (cipher_suite eng) token seq ct
    then \<exists>p. snd (decrypt_and_verify eng ct tag token seq src) = Inr (True, p, ''OK'') \<and> length p = length ct
    else snd (decrypt_and_verify eng ct tag token seq src) = Inr (False, [], tamper_message)"
proof -
  obtain ks where ks: "keystream (key_of token) (nonce_of token seq) (length ct) = Inr ks"
    using keystream_total [of "length ct"] assms(3) by auto
  obtain eng1 where r: "replay_check eng seq src = (eng1, Inr None)"
    using replay_check_passes [OF assms(5,6)] by (cases "replay_check eng seq src") auto
  show ?thesis
    using decrypt_active [OF assms(1,2,4) r ks] keystream_length [OF ks] by simp
qed

theorem acceptance_is_tag_equality_witness:
  "snd (decrypt_and_verify (new_engine 2 64) [7] [] 5 9 1) = Inr (False, [], tamper_message)"
proof -
  have "length (tag_of 2 5 9 [7]) = 16" by (simp add: tag_of_def)
  then have "[] \<noteq> tag_of 2 5 9 [7]" by auto
  then show ?thesis
    using acceptance_is_tag_equality [of "new_engine 2 64" "[7]" 5 9 "{}" 1 "[]"] window_rel_new [of 2 64]
    by (simp add: CIP_SUITE_NONE_def cip_fields_ok_def)
qed

text \<open>
  The window moves before the tag is checked: after a packet with any tag at all, numbers a
  window size or more below its number are refused from that source, so a forged packet shuts out
  the genuine ones.
\<close>

theorem forged_packet_moves_window:
  assumes "cipher_suite eng \<noteq> CIP_SUITE_NONE" "ct \<noteq> []" "ct' \<noteq> []" "window_rel eng S"
    and "\<not> abstract_refuses (anti_replay_window_size eng) S seq src"
    and "anti_replay_window_size eng \<le> seq - seq'"
  shows "\<exists>msg. snd (decrypt_and_verify (fst (decrypt_and_verify eng ct forged token seq src))
                  ct' tag' token' seq' src) = Inr (False, [], msg)"
proof -
  have "window_rel (fst (decrypt_and_verify eng ct forged token seq src)) (insert (src, seq) S)"
    using assms(1,2,4,5) by (rule decrypt_moves_window)
  moreover have "abstract_refuses (anti_replay_window_size eng) (insert (src, seq) S) seq' src"
    using assms(6) by (auto simp: abstract_refuses_def)
  ultimately show ?thesis
    using decrypt_refused [of "fst (decrypt_and_verify eng ct forged token seq src)" ct' "insert (src, seq) S"
        seq' src tag' token'] assms(1,3) by auto
qed

theorem forged_packet_moves_window_witness:
  "\<exists>msg. snd (decrypt_and_verify (fst (decrypt_and_verify (new_engine 2 64) [7] [] 5 1000 1)) [8] [3] 5 9 1)
     = Inr (False, [], msg)"
  by (rule forged_packet_moves_window [OF _ _ _ window_rel_new]) (simp_all add: CIP_SUITE_NONE_def)

text \<open>
  The keystream depends on token and sequence number only: two payloads of the same length
  encrypted under the same pair, by whatever engines, give ciphertexts whose XOR is the XOR of the
  payloads.
\<close>

theorem keystream_reused_across_nodes:
  assumes "cipher_suite e1 \<noteq> CIP_SUITE_NONE" "cipher_suite e2 \<noteq> CIP_SUITE_NONE"
    and "cip_fields_ok (cipher_suite e1) token seq" "cip_fields_ok (cipher_suite e2) token seq"
    and "length p1 = length p2" "length p2 \<le> 2 ^ 37"
  shows "\<exists>c1 t1 c2 t2. snd (encrypt_and_tag e1 p1 token seq) = Inr (c1, t1)
    \<and> snd (encrypt_and_tag e2 p2 token seq) = Inr (c2, t2) \<and> xor_bytes c1 c2 = xor_bytes p1 p2"
proof (cases "p1 = []")
  case True
  then show ?thesis using assms(5) by (simp add: encrypt_and_tag_def)
next
  case False
  then have p2: "p2 \<noteq> []" using assms(5) by auto
  obtain ks where ks: "keystream (key_of token) (nonce_of token seq) (length p2) = Inr ks"
    using keystream_total [of "length p2"] assms(6) by auto
  have "xor_bytes (xor_bytes p1 (take (length p2) ks)) (xor_bytes p2 (take (length p2) ks)) = xor_bytes p1 p2"
    using assms(5) keystream_length [OF ks] by (intro xor_bytes_same_key) simp_all
  then show ?thesis
    using encrypt_active [OF assms(1) False assms(3)] encrypt_active [OF assms(2) p2 assms(4) ks] ks assms(5)
    by simp
qed

theorem keystream_reused_across_nodes_witness:
  "\<exists>c1 t1 c2 t2. snd (encrypt_and_tag (new_engine 2 64) [1, 2] 5 9) = Inr (c1, t1)
    \<and> snd (encrypt_and_tag (new_engine 1 64) [3, 7] 5 9) = Inr (c2, t2) \<and> xor_bytes c1 c2 = [2, 5]"
proof -
  have "xor_bytes [1, 2] [3, 7] = [2, 5]" by (simp add: xor_bytes_def)
  then show ?thesis
    using keystream_reused_across_nodes [of "new_engine 2 64" "new_engine 1 64" 5 9 "[1, 2]" "[3, 7]"]
    by (simp add: CIP_SUITE_NONE_def cip_fields_ok_def)
qed

end
