(* ===== verification/Allocator.thy ===== *)
theory Allocator
  imports UB_Prelude
begin

text \<open>
  The counter idiom of the code, \<open>x = self._next; self._next += 1\<close>, as an interface: pool ids
  in \<open>daemon/router.py\<close>, sequence numbers in \<open>unifiedbus/device.py\<close>, segment and jetty ids in
  \<open>unifiedbus/urma.py\<close>, descriptor ids in \<open>unifiedbus/cdma.py\<close>. Any run of operations of such a
  component hands out strictly increasing numbers, hence no number twice.
\<close>

text \<open>The numbers handed out along a run; an operation may hand out none.\<close>

primrec handed_out :: "('s \<Rightarrow> 'c \<Rightarrow> 's \<times> int option) \<Rightarrow> 's \<Rightarrow> 'c list \<Rightarrow> int list" where
  "handed_out step s [] = []"
| "handed_out step s (c # cs) =
     (case step s c of (s', r) \<Rightarrow>
        (case r of None \<Rightarrow> [] | Some i \<Rightarrow> [i]) @ handed_out step s' cs)"

locale id_allocator =
  fixes step :: "'s \<Rightarrow> 'c \<Rightarrow> 's \<times> int option"
    and next_id :: "'s \<Rightarrow> int"
  assumes hands_out: "step s c = (s', Some i) \<Longrightarrow> i = next_id s \<and> next_id s' = i + 1"
    and keeps: "step s c = (s', None) \<Longrightarrow> next_id s \<le> next_id s'"
begin

lemma ids_increase:
  "sorted_wrt (<) (handed_out step s cs) \<and> (\<forall>i\<in>set (handed_out step s cs). next_id s \<le> i)"
proof (induction cs arbitrary: s)
  case (Cons c cs)
  obtain s' r where st: "step s c = (s', r)" by (cases "step s c")
  show ?case
  proof (cases r)
    case None
    then have "next_id s \<le> next_id s'" using keeps st by simp
    then show ?thesis using Cons.IH [of s'] st None by force
  next
    case (Some i)
    then have "i = next_id s" "next_id s' = i + 1" using hands_out st by simp_all
    then show ?thesis using Cons.IH [of s'] st Some by force
  qed
qed simp

lemma ids_distinct: "distinct (handed_out step s cs)"
  using ids_increase [of s cs] by (auto simp: strict_sorted_iff)

end

end
