(* ===== verification/Router.thy ===== *)
theory Router
  imports Allocator Py_Text Py_Float
begin

text \<open>
  The UMMU of \<open>daemon/router.py\<close>: segments per node, jetties, exported memory pools, and the
  access check of the fabric. Each class is a record and each method a definition of the same name;
  the lock makes every method atomic, so a method is one state change. \<open>apply_switch\<close> collects
  the state-changing methods into one step, over which the invariant and the pool properties are
  proved.
\<close>

section \<open>Segments and jetties\<close>

record ub_segment =
  segment_id :: int
  seg_node :: int
  base_addr :: int
  seg_size :: int
  seg_token :: int
  permissions :: string
  created_at :: pyfloat

text \<open>
  \<open>str.upper\<close> on Latin-1 text. The capitals of the micro sign and of y with diaeresis are outside
  Latin-1.
\<close>

definition upper_char :: "char \<Rightarrow> string result" where
  "upper_char c =
     (let n = of_char c :: int in
      if 97 \<le> n \<and> n \<le> 122 then Inr [char_of (n - 32)]
      else if n = 223 then Inr ''SS''
      else if n = 181 \<or> n = 255 then Inl (Unmodelled ''text outside Latin-1'')
      else if 224 \<le> n \<and> n \<noteq> 247 then Inr [char_of (n - 32)]
      else Inr [c])"

primrec py_upper :: "string \<Rightarrow> string result" where
  "py_upper [] = Inr []"
| "py_upper (c # s) = rbind (upper_char c) (\<lambda>u. rbind (py_upper s) (\<lambda>t. Inr (u @ t)))"

definition ub_segment_init :: "int \<Rightarrow> int \<Rightarrow> int \<Rightarrow> int \<Rightarrow> int \<Rightarrow> string \<Rightarrow> pyfloat \<Rightarrow> ub_segment result" where
  "ub_segment_init sid node base sz token perm now =
     rbind (py_upper perm) (\<lambda>up.
       Inr \<lparr>segment_id = sid, seg_node = node, base_addr = base, seg_size = sz, seg_token = token,
            permissions = up, created_at = now\<rparr>)"

text \<open>\<open>contains\<close> bounds the offset from below and the end from above, and nothing else.\<close>

definition contains :: "ub_segment \<Rightarrow> int \<Rightarrow> int \<Rightarrow> bool" where
  "contains seg off len \<longleftrightarrow> 0 \<le> off \<and> off + len \<le> seg_size seg"

definition check_permission :: "ub_segment \<Rightarrow> bool \<Rightarrow> int \<Rightarrow> bool" where
  "check_permission seg is_write token =
     (if seg_token seg \<noteq> 0 \<and> seg_token seg \<noteq> token then False
      else if is_write \<and> CHR ''W'' \<notin> set (permissions seg) then False
      else if \<not> is_write \<and> CHR ''R'' \<notin> set (permissions seg) then False
      else True)"

record ub_jetty =
  local_node :: int
  local_jetty_id :: int
  remote_node :: int
  remote_jetty_id :: int
  jetty_token :: int
  jetty_state :: string
  jetty_tx_bytes :: int
  jetty_rx_bytes :: int
  jetty_tx_packets :: int
  jetty_rx_packets :: int

definition ub_jetty_init :: "int \<Rightarrow> int \<Rightarrow> int \<Rightarrow> int \<Rightarrow> int \<Rightarrow> ub_jetty" where
  "ub_jetty_init lnode lid rn rid token =
     \<lparr>local_node = lnode, local_jetty_id = lid, remote_node = rn, remote_jetty_id = rid, jetty_token = token,
      jetty_state = ''CONNECTED'', jetty_tx_bytes = 0, jetty_rx_bytes = 0, jetty_tx_packets = 0,
      jetty_rx_packets = 0\<rparr>"

section \<open>The switch table\<close>

record ub_switch =
  segments :: "(int, (int, ub_segment) dict) dict"
  jetties :: "(int \<times> int, ub_jetty) dict"
  memory_pools :: "(int, ub_segment) dict"
  next_pool_id :: int

definition new_switch :: ub_switch where
  "new_switch = \<lparr>segments = [], jetties = [], memory_pools = [], next_pool_id = 1\<rparr>"

definition register_node :: "int \<Rightarrow> ub_switch \<Rightarrow> ub_switch" where
  "register_node n sw =
     (if dict_get (segments sw) n = None then sw\<lparr>segments := dict_set n [] (segments sw)\<rparr> else sw)"

definition unregister_node :: "int \<Rightarrow> ub_switch \<Rightarrow> ub_switch" where
  "unregister_node n sw =
     sw\<lparr>segments := dict_del n (segments sw),
        jetties := filter (\<lambda>(k, j). \<not> (fst k = n \<or> remote_node j = n)) (jetties sw)\<rparr>"

text \<open>The node is registered before the segment is built, which may raise.\<close>

definition register_segment ::
  "int \<Rightarrow> int \<Rightarrow> int \<Rightarrow> int \<Rightarrow> int \<Rightarrow> string \<Rightarrow> pyfloat \<Rightarrow> ub_switch \<Rightarrow> ub_switch \<times> ub_segment result"
where
  "register_segment n sid base sz token perm now sw =
     (let sw1 = register_node n sw in
      case ub_segment_init sid n base sz token perm now of
        Inl e \<Rightarrow> (sw1, Inl e)
      | Inr seg \<Rightarrow> (sw1\<lparr>segments := dict_adjust n (dict_set sid seg) (segments sw1)\<rparr>, Inr seg))"

definition unregister_segment :: "int \<Rightarrow> int \<Rightarrow> ub_switch \<Rightarrow> ub_switch" where
  "unregister_segment n sid sw =
     (case dict_get (segments sw) n of
        None \<Rightarrow> sw
      | Some segs \<Rightarrow>
          if dict_get segs sid = None then sw
          else sw\<lparr>segments := dict_adjust n (dict_del sid) (segments sw)\<rparr>)"

definition create_jetty :: "int \<Rightarrow> int \<Rightarrow> int \<Rightarrow> int \<Rightarrow> int \<Rightarrow> ub_switch \<Rightarrow> ub_switch" where
  "create_jetty lnode lid rn rid token sw =
     sw\<lparr>jetties := dict_set (lnode, lid) (ub_jetty_init lnode lid rn rid token) (jetties sw)\<rparr>"

definition get_jetty :: "int \<Rightarrow> int \<Rightarrow> ub_switch \<Rightarrow> ub_jetty option" where
  "get_jetty lnode lid sw = dict_get (jetties sw) (lnode, lid)"

definition export_memory_pool ::
  "int \<Rightarrow> int \<Rightarrow> int \<Rightarrow> string \<Rightarrow> pyfloat \<Rightarrow> ub_switch \<Rightarrow> ub_switch \<times> int result"
where
  "export_memory_pool n sz token perm now sw =
     (let pid = next_pool_id sw in
      case register_segment n pid 0 sz token perm now (sw\<lparr>next_pool_id := pid + 1\<rparr>) of
        (sw1, Inl e) \<Rightarrow> (sw1, Inl e)
      | (sw1, Inr seg) \<Rightarrow> (sw1\<lparr>memory_pools := dict_set pid seg (memory_pools sw1)\<rparr>, Inr pid))"

definition import_memory_pool :: "int \<Rightarrow> int \<Rightarrow> int \<Rightarrow> ub_switch \<Rightarrow> ub_segment option" where
  "import_memory_pool borrower pid token sw =
     (case dict_get (memory_pools sw) pid of
        None \<Rightarrow> None
      | Some seg \<Rightarrow> if seg_token seg \<noteq> 0 \<and> seg_token seg \<noteq> token then None else Some seg)"

definition validate_access ::
  "int \<Rightarrow> int \<Rightarrow> int \<Rightarrow> int \<Rightarrow> bool \<Rightarrow> int \<Rightarrow> ub_switch \<Rightarrow> bool \<times> string"
where
  "validate_access target sid off len is_write token sw =
     (case dict_get (segments sw) target of
        None \<Rightarrow> (False, ''Target node '' @ show_int target @ '' not found on UB fabric'')
      | Some segs \<Rightarrow>
          (case dict_get segs sid of
             None \<Rightarrow> (False, ''Segment '' @ show_int sid @ '' not registered on node '' @ show_int target)
           | Some seg \<Rightarrow>
               if \<not> contains seg off len
               then (False, ''Address out of bounds: offset='' @ show_int off @ '', length='' @ show_int len
                            @ '', segment_size='' @ show_int (seg_size seg))
               else if \<not> check_permission seg is_write token
               then (False, ''Permission denied for TokenID=0x'' @ show_hex token @ '', Write=''
                            @ show_bool is_write @ '', Permissions='' @ permissions seg)
               else (True, ''OK'')))"

section \<open>Operations as steps\<close>

datatype switch_op =
    RegisterNode int
  | UnregisterNode int
  | RegisterSegment int int int int int string pyfloat
  | UnregisterSegment int int
  | CreateJetty int int int int int
  | ExportPool int int int string pyfloat

text \<open>The new table, and the pool id when the operation returned one.\<close>

fun apply_switch :: "ub_switch \<Rightarrow> switch_op \<Rightarrow> ub_switch \<times> int option" where
  "apply_switch sw (RegisterNode n) = (register_node n sw, None)"
| "apply_switch sw (UnregisterNode n) = (unregister_node n sw, None)"
| "apply_switch sw (RegisterSegment n sid base sz token perm now) =
     (fst (register_segment n sid base sz token perm now sw), None)"
| "apply_switch sw (UnregisterSegment n sid) = (unregister_segment n sid sw, None)"
| "apply_switch sw (CreateJetty lnode lid rn rid token) = (create_jetty lnode lid rn rid token sw, None)"
| "apply_switch sw (ExportPool n sz token perm now) =
     (case export_memory_pool n sz token perm now sw of
        (sw', Inl e) \<Rightarrow> (sw', None)
      | (sw', Inr pid) \<Rightarrow> (sw', Some pid))"

definition run_switch :: "ub_switch \<Rightarrow> switch_op list \<Rightarrow> ub_switch" where
  "run_switch = foldl (\<lambda>sw c. fst (apply_switch sw c))"

section \<open>The invariant\<close>

text \<open>
  Dictionaries have unique keys; a segment, a jetty and a pool sit under the key their own fields
  name; pool ids lie below the counter.
\<close>

definition node_segs_ok :: "int \<Rightarrow> (int, ub_segment) dict \<Rightarrow> bool" where
  "node_segs_ok n segs \<longleftrightarrow>
     dict_ok segs \<and> (\<forall>sid seg. dict_get segs sid = Some seg \<longrightarrow> segment_id seg = sid \<and> seg_node seg = n)"

definition switch_ok :: "ub_switch \<Rightarrow> bool" where
  "switch_ok sw \<longleftrightarrow>
     dict_ok (segments sw) \<and> dict_ok (jetties sw) \<and> dict_ok (memory_pools sw) \<and>
     (\<forall>n segs. dict_get (segments sw) n = Some segs \<longrightarrow> node_segs_ok n segs) \<and>
     (\<forall>k j. dict_get (jetties sw) k = Some j \<longrightarrow> k = (local_node j, local_jetty_id j)) \<and>
     (\<forall>p seg. dict_get (memory_pools sw) p = Some seg \<longrightarrow> segment_id seg = p \<and> 1 \<le> p \<and> p < next_pool_id sw) \<and>
     1 \<le> next_pool_id sw"

lemma dict_ok_set [intro]: "dict_ok d \<Longrightarrow> dict_ok (dict_set k v d)"
  by (rule distinct_update)

lemma dict_ok_del [intro]: "dict_ok d \<Longrightarrow> dict_ok (dict_del k d)"
  by (rule distinct_delete)

lemma dict_get_filter:
  "dict_ok d \<Longrightarrow> dict_get (filter P d) k = (case dict_get d k of None \<Rightarrow> None | Some v \<Rightarrow> if P (k, v) then Some v else None)"
  by (induction d) (auto split: option.splits simp: map_of_eq_None_iff rev_image_eqI)

lemma dict_ok_filter [intro]: "dict_ok d \<Longrightarrow> dict_ok (filter P d)"
  by (induction d) auto

lemma new_switch_ok: "switch_ok new_switch"
  by (simp add: switch_ok_def new_switch_def)

lemma register_node_ok: "switch_ok sw \<Longrightarrow> switch_ok (register_node n sw)"
  by (auto simp: switch_ok_def register_node_def node_segs_ok_def split: if_splits)

lemma unregister_node_ok: "switch_ok sw \<Longrightarrow> switch_ok (unregister_node n sw)"
  by (auto simp: switch_ok_def unregister_node_def dict_get_filter split: option.splits if_splits)

lemma register_node_get:
  "dict_get (segments (register_node n sw)) m =
     (if m = n \<and> dict_get (segments sw) n = None then Some [] else dict_get (segments sw) m)"
  by (simp add: register_node_def)

lemma register_node_rest [simp]:
  "jetties (register_node n sw) = jetties sw" "memory_pools (register_node n sw) = memory_pools sw"
  "next_pool_id (register_node n sw) = next_pool_id sw"
  by (simp_all add: register_node_def)

lemma ub_segment_init_fields:
  "ub_segment_init sid n base sz token perm now = Inr seg \<Longrightarrow>
     segment_id seg = sid \<and> seg_node seg = n \<and> base_addr seg = base \<and> seg_size seg = sz \<and> seg_token seg = token
     \<and> py_upper perm = Inr (permissions seg)"
  by (auto simp: ub_segment_init_def result_simps)

lemma adjust_segments_ok:
  assumes "switch_ok sw" "\<And>segs. node_segs_ok n segs \<Longrightarrow> node_segs_ok n (f segs)"
  shows "switch_ok (sw\<lparr>segments := dict_adjust n f (segments sw)\<rparr>)"
  using assms by (auto simp: switch_ok_def split: if_splits)

lemma register_segment_ok:
  assumes "switch_ok sw"
  shows "switch_ok (fst (register_segment n sid base sz token perm now sw))"
proof -
  have "node_segs_ok n (dict_set sid seg segs)"
    if "ub_segment_init sid n base sz token perm now = Inr seg" "node_segs_ok n segs" for seg segs
    using that ub_segment_init_fields [OF that(1)] by (auto simp: node_segs_ok_def)
  then show ?thesis
    using register_node_ok [OF assms]
    by (auto simp: register_segment_def Let_def intro!: adjust_segments_ok split: sum.split)
qed

lemma unregister_segment_ok: "switch_ok sw \<Longrightarrow> switch_ok (unregister_segment n sid sw)"
  by (auto simp: unregister_segment_def node_segs_ok_def intro!: adjust_segments_ok split: option.split)

lemma create_jetty_ok: "switch_ok sw \<Longrightarrow> switch_ok (create_jetty lnode lid rn rid token sw)"
  by (auto simp: switch_ok_def create_jetty_def ub_jetty_init_def split: if_splits)

lemma register_segment_rest [simp]:
  "jetties (fst (register_segment n sid base sz token perm now sw)) = jetties sw"
  "memory_pools (fst (register_segment n sid base sz token perm now sw)) = memory_pools sw"
  "next_pool_id (fst (register_segment n sid base sz token perm now sw)) = next_pool_id sw"
  by (simp_all add: register_segment_def Let_def split: sum.split)

text \<open>The result of a registration is the segment now found under its node and id.\<close>

lemma register_segment_get:
  assumes "register_segment n sid base sz token perm now sw = (sw', Inr seg)"
  shows "\<exists>segs. dict_get (segments sw') n = Some segs \<and> dict_get segs sid = Some seg"
    "ub_segment_init sid n base sz token perm now = Inr seg"
  using assms by (auto simp: register_segment_def Let_def register_node_get split: sum.splits)

lemma export_memory_pool_ok:
  assumes ok: "switch_ok sw"
  shows "switch_ok (fst (export_memory_pool n sz token perm now sw))"
proof -
  let ?sw0 = "sw\<lparr>next_pool_id := next_pool_id sw + 1\<rparr>"
  obtain sw1 q where q: "register_segment n (next_pool_id sw) 0 sz token perm now ?sw0 = (sw1, q)"
    by (cases "register_segment n (next_pool_id sw) 0 sz token perm now ?sw0")
  have "switch_ok ?sw0" using ok by (fastforce simp: switch_ok_def)
  then have ok1: "switch_ok sw1" using register_segment_ok [of ?sw0] q by (metis fst_conv)
  have n1: "next_pool_id sw1 = next_pool_id sw + 1"
    using register_segment_rest(3) [of n "next_pool_id sw" 0 sz token perm now ?sw0] q by simp
  show ?thesis
  proof (cases q)
    case (Inl e)
    then show ?thesis using ok1 by (simp add: export_memory_pool_def Let_def q)
  next
    case (Inr seg)
    then have "segment_id seg = next_pool_id sw"
      using q ub_segment_init_fields [OF register_segment_get(2)] by blast
    moreover have "1 \<le> next_pool_id sw" using ok by (simp add: switch_ok_def)
    ultimately have "switch_ok (sw1\<lparr>memory_pools := dict_set (next_pool_id sw) seg (memory_pools sw1)\<rparr>)"
      using ok1 n1 by (auto simp: switch_ok_def split: if_splits)
    then show ?thesis using Inr by (simp add: export_memory_pool_def Let_def q)
  qed
qed

lemma apply_switch_ok: "switch_ok sw \<Longrightarrow> switch_ok (fst (apply_switch sw c))"
proof (cases c)
  case (ExportPool n sz token perm now)
  then show "switch_ok sw \<Longrightarrow> switch_ok (fst (apply_switch sw c))"
    using export_memory_pool_ok [of sw n sz token perm now] by (auto split: prod.splits sum.splits)
qed (simp_all add: register_node_ok unregister_node_ok register_segment_ok unregister_segment_ok create_jetty_ok)

lemma run_switch_simps [simp]:
  "run_switch sw [] = sw"
  "run_switch sw (c # cs) = run_switch (fst (apply_switch sw c)) cs"
  by (simp_all add: run_switch_def)

lemma run_switch_ok: "switch_ok sw \<Longrightarrow> switch_ok (run_switch sw cs)"
  by (induction cs arbitrary: sw) (simp_all add: apply_switch_ok)

section \<open>Pools\<close>

lemma register_segment_state:
  "register_segment n sid base sz token perm now sw = (sw', r) \<Longrightarrow>
     jetties sw' = jetties sw \<and> memory_pools sw' = memory_pools sw \<and> next_pool_id sw' = next_pool_id sw"
  using register_segment_rest [of n sid base sz token perm now sw] by simp

lemma export_memory_pool_result:
  assumes "export_memory_pool n sz token perm now sw = (sw', r)"
  shows "next_pool_id sw' = next_pool_id sw + 1"
    "case r of Inl e \<Rightarrow> memory_pools sw' = memory_pools sw
     | Inr pid \<Rightarrow> pid = next_pool_id sw \<and>
         (\<exists>seg. memory_pools sw' = dict_set pid seg (memory_pools sw)
                \<and> segment_id seg = pid \<and> seg_node seg = n \<and> seg_size seg = sz \<and> seg_token seg = token
                \<and> py_upper perm = Inr (permissions seg)
                \<and> (\<exists>segs. dict_get (segments sw') n = Some segs \<and> dict_get segs pid = Some seg))"
proof -
  let ?sw0 = "sw\<lparr>next_pool_id := next_pool_id sw + 1\<rparr>"
  obtain sw1 q where q: "register_segment n (next_pool_id sw) 0 sz token perm now ?sw0 = (sw1, q)"
    by (cases "register_segment n (next_pool_id sw) 0 sz token perm now ?sw0")
  note st = register_segment_state [OF q]
  show "next_pool_id sw' = next_pool_id sw + 1"
    using assms st by (auto simp: export_memory_pool_def Let_def q split: sum.splits)
  show "case r of Inl e \<Rightarrow> memory_pools sw' = memory_pools sw
     | Inr pid \<Rightarrow> pid = next_pool_id sw \<and>
         (\<exists>seg. memory_pools sw' = dict_set pid seg (memory_pools sw)
                \<and> segment_id seg = pid \<and> seg_node seg = n \<and> seg_size seg = sz \<and> seg_token seg = token
                \<and> py_upper perm = Inr (permissions seg)
                \<and> (\<exists>segs. dict_get (segments sw') n = Some segs \<and> dict_get segs pid = Some seg))"
  proof (cases q)
    case (Inl e)
    then show ?thesis using assms st by (auto simp: export_memory_pool_def Let_def q)
  next
    case (Inr seg)
    then have g: "register_segment n (next_pool_id sw) 0 sz token perm now ?sw0 = (sw1, Inr seg)" using q by simp
    have "sw' = sw1\<lparr>memory_pools := dict_set (next_pool_id sw) seg (memory_pools sw1)\<rparr>" "r = Inr (next_pool_id sw)"
      using assms by (auto simp: export_memory_pool_def Let_def g)
    then show ?thesis
      using st register_segment_get(1) [OF g] ub_segment_init_fields [OF register_segment_get(2) [OF g]] by auto
  qed
qed

lemma apply_export: "apply_switch sw (ExportPool n sz token perm now) = (sw', r) \<Longrightarrow>
    next_pool_id sw' = next_pool_id sw + 1 \<and> (r = None \<or> r = Some (next_pool_id sw))"
  using export_memory_pool_result [of n sz token perm now sw]
  by (cases "export_memory_pool n sz token perm now sw") (auto split: sum.splits)

interpretation pools: id_allocator apply_switch next_pool_id
proof
  show "i = next_pool_id sw \<and> next_pool_id sw' = i + 1" if "apply_switch sw c = (sw', Some i)" for sw c sw' i
    using that by (cases c) (auto dest: apply_export simp del: apply_switch.simps(6))
  show "next_pool_id sw \<le> next_pool_id sw'" if "apply_switch sw c = (sw', None)" for sw c sw'
    using that by (cases c)
      (auto simp: register_node_def unregister_node_def unregister_segment_def create_jetty_def
        dest: apply_export register_segment_state simp del: apply_switch.simps(6)
        split: prod.splits sum.splits option.splits)
qed

text \<open>No operation removes or changes an exported pool.\<close>

lemma pool_persists_step:
  assumes "switch_ok sw" "dict_get (memory_pools sw) p = Some seg"
  shows "dict_get (memory_pools (fst (apply_switch sw c))) p = Some seg"
proof (cases c)
  case (ExportPool n sz token perm now)
  have "p < next_pool_id sw" using assms unfolding switch_ok_def by blast
  then show ?thesis using ExportPool assms(2)
    by (auto dest!: export_memory_pool_result(2) split: prod.split sum.splits)
qed (use assms(2) in \<open>simp_all add: register_node_def unregister_node_def unregister_segment_def create_jetty_def split: option.split\<close>)

lemma pool_persists:
  "switch_ok sw \<Longrightarrow> dict_get (memory_pools sw) p = Some seg \<Longrightarrow>
     dict_get (memory_pools (run_switch sw cs)) p = Some seg"
  by (induction cs arbitrary: sw) (simp_all add: pool_persists_step apply_switch_ok)

lemma import_of_pool:
  "dict_get (memory_pools sw) p = Some seg \<Longrightarrow>
     import_memory_pool b p tok sw = (if seg_token seg = 0 \<or> seg_token seg = tok then Some seg else None)"
  by (auto simp: import_memory_pool_def)

section \<open>The access check\<close>

lemma check_permission_iff:
  "check_permission seg w token \<longleftrightarrow>
     (seg_token seg = 0 \<or> seg_token seg = token) \<and> (if w then CHR ''W'' else CHR ''R'') \<in> set (permissions seg)"
  by (auto simp: check_permission_def)

lemma validate_access_granted:
  "fst (validate_access target sid off len w token sw) \<longleftrightarrow>
     (\<exists>segs seg. dict_get (segments sw) target = Some segs \<and> dict_get segs sid = Some seg
        \<and> contains seg off len \<and> check_permission seg w token)"
  by (auto simp: validate_access_def split: option.splits)

lemma validate_access_unknown_node:
  "dict_get (segments sw) target = None \<Longrightarrow> validate_access target sid off len w token sw =
     (False, ''Target node '' @ show_int target @ '' not found on UB fabric'')"
  by (simp add: validate_access_def)

section \<open>Properties of the switch table\<close>

text \<open>
  C25. The table stays well-formed: after any sequence of operations on a fresh table, keys are
  unique, every segment lies under its own node and id, every jetty under its own endpoint, and
  every pool under its own id, which is below the next pool id.
\<close>

theorem switch_table_well_formed: "switch_ok (run_switch new_switch ops)"
  by (rule run_switch_ok [OF new_switch_ok])

text \<open>
  Pool ids are never reused: the ids \<open>export_memory_pool\<close> returns along any sequence of
  operations are pairwise different and increase.
\<close>

theorem pool_ids_never_reused: "sorted_wrt (<) (handed_out apply_switch sw ops)"
  using pools.ids_increase by blast

text \<open>
  The access check is exact: \<open>validate_access\<close> grants an access exactly if the target node has
  the segment, the range starts at a non-negative offset and ends within the segment, the token is
  the segment's or the segment is open, and the permissions have the letter for the direction.
\<close>

theorem access_granted_exactly:
  "fst (validate_access target sid off len is_write token sw) \<longleftrightarrow>
     (\<exists>segs seg. dict_get (segments sw) target = Some segs \<and> dict_get segs sid = Some seg
        \<and> 0 \<le> off \<and> off + len \<le> seg_size seg \<and> seg_token seg \<in> {0, token}
        \<and> (if is_write then CHR ''W'' else CHR ''R'') \<in> set (permissions seg))"
  by (auto simp: validate_access_granted check_permission_iff contains_def)

text \<open>
  Export and import: after a successful export, importing the pool at any later time, whatever
  operations came in between, yields the exported segment (owner, size and token as given) exactly
  for the exporter's token or an open pool. This includes the time after the owner was unregistered.
\<close>

theorem exported_pool_importable:
  assumes "switch_ok sw" "export_memory_pool n sz token perm now sw = (sw', Inr pid)"
  shows "\<exists>seg. segment_id seg = pid \<and> seg_node seg = n \<and> seg_size seg = sz \<and> seg_token seg = token
    \<and> (\<forall>ops b tok. import_memory_pool b pid tok (run_switch sw' ops)
         = (if token = 0 \<or> token = tok then Some seg else None))"
proof -
  have ok: "switch_ok sw'" using export_memory_pool_ok [OF assms(1), of n sz token perm now] assms(2) by simp
  obtain seg where "memory_pools sw' = dict_set pid seg (memory_pools sw)" and
    f: "segment_id seg = pid" "seg_node seg = n" "seg_size seg = sz" "seg_token seg = token"
    using export_memory_pool_result(2) [OF assms(2)] by auto
  then have "dict_get (memory_pools (run_switch sw' ops)) pid = Some seg" for ops
    by (intro pool_persists [OF ok]) simp
  then show ?thesis using f by (auto simp: import_of_pool)
qed

theorem exported_pool_importable_witness:
  "\<exists>seg. seg_node seg = 4 \<and> import_memory_pool 9 1 7
     (run_switch (fst (export_memory_pool 4 100 7 ''rw'' 0 new_switch)) [UnregisterNode 4]) = Some seg"
proof -
  have "export_memory_pool 4 100 7 ''rw'' 0 new_switch
      = (fst (export_memory_pool 4 100 7 ''rw'' 0 new_switch), Inr 1)"
    by code_simp
  from exported_pool_importable [OF new_switch_ok this] obtain seg where "seg_node seg = 4"
      "import_memory_pool 9 1 7 (run_switch (fst (export_memory_pool 4 100 7 ''rw'' 0 new_switch)) [UnregisterNode 4]) = Some seg"
    by (metis (full_types))
  then show ?thesis by blast
qed

text \<open>
  Detaching a node leaves nothing of it behind but its pools: every access to it is refused as
  an unknown node, and no jetty from it or to it remains, while the segments and pools of others
  are as before.
\<close>

theorem unregistered_node_unreachable:
  "validate_access n sid off len w token (unregister_node n sw)
     = (False, ''Target node '' @ show_int n @ '' not found on UB fabric'')
   \<and> (\<forall>k j. (k, j) \<in> set (jetties (unregister_node n sw)) \<longleftrightarrow>
         (k, j) \<in> set (jetties sw) \<and> fst k \<noteq> n \<and> remote_node j \<noteq> n)
   \<and> (\<forall>m. m = n \<or> dict_get (segments (unregister_node n sw)) m = dict_get (segments sw) m)
   \<and> memory_pools (unregister_node n sw) = memory_pools sw"
  by (auto simp: unregister_node_def validate_access_def)

text \<open>
  Segment registration is visible at once and local: the new segment is found under its node
  and id with the given bounds, token and upper-cased permissions, replacing an older segment of
  that id, and every other segment is untouched.
\<close>

theorem registered_segment_found:
  assumes "register_segment n sid base sz token perm now sw = (sw', Inr seg)"
  shows "(\<exists>segs. dict_get (segments sw') n = Some segs \<and> dict_get segs sid = Some seg)
    \<and> segment_id seg = sid \<and> seg_node seg = n \<and> seg_size seg = sz \<and> seg_token seg = token
    \<and> py_upper perm = Inr (permissions seg)
    \<and> (\<forall>m i. (m, i) = (n, sid) \<or>
          Option.bind (dict_get (segments sw') m) (\<lambda>d. dict_get d i)
          = Option.bind (dict_get (segments sw) m) (\<lambda>d. dict_get d i))"
proof -
  have "Option.bind (dict_get (segments sw') m) (\<lambda>d. dict_get d i)
      = Option.bind (dict_get (segments sw) m) (\<lambda>d. dict_get d i)" if "(m, i) \<noteq> (n, sid)" for m i
    using assms that
    by (auto simp: register_segment_def Let_def register_node_get bind_eq_None_conv split: sum.splits option.split)
  then show ?thesis using register_segment_get [OF assms] ub_segment_init_fields by blast
qed

theorem registered_segment_found_witness:
  "\<exists>segs seg. dict_get (segments (fst (register_segment 1 5 0 64 7 ''ro'' 0 new_switch))) 1 = Some segs
     \<and> dict_get segs 5 = Some seg \<and> permissions seg = ''RO''"
proof -
  have "register_segment 1 5 0 64 7 ''ro'' 0 new_switch
      = (fst (register_segment 1 5 0 64 7 ''ro'' 0 new_switch),
         Inr \<lparr>segment_id = 5, seg_node = 1, base_addr = 0, seg_size = 64, seg_token = 7,
              permissions = ''RO'', created_at = 0\<rparr>)"
    by code_simp
  from registered_segment_found [OF this] show ?thesis by auto
qed

text \<open>
  A negative length defeats the bound check: on a segment a client may access at all, every
  non-negative offset is granted for some length.
\<close>

theorem negative_length_escapes_segment:
  assumes "fst (validate_access target sid off0 len0 is_write token sw)" "0 \<le> off"
  shows "\<exists>len. fst (validate_access target sid off len is_write token sw)"
proof -
  obtain segs seg where "dict_get (segments sw) target = Some segs" "dict_get segs sid = Some seg"
      "check_permission seg is_write token"
    using assms(1) by (auto simp: validate_access_granted)
  then have "fst (validate_access target sid off (seg_size seg - off) is_write token sw)"
    using assms(2) by (simp add: validate_access_granted contains_def)
  then show ?thesis by blast
qed

theorem negative_length_escapes_segment_witness:
  "\<exists>len. fst (validate_access 1 5 100000 len False 7 (fst (register_segment 1 5 0 64 7 ''ro'' 0 new_switch)))"
  by (rule negative_length_escapes_segment [of _ _ 0 1]) code_simp+

text \<open>
  Pool ids share the name space of segment ids: an export replaces the segment its owner had
  registered under the number that happens to be the next pool id.
\<close>

theorem export_replaces_segment:
  assumes "export_memory_pool n sz token perm now sw = (sw', Inr pid)"
  shows "pid = next_pool_id sw \<and>
    (\<exists>segs seg. dict_get (segments sw') n = Some segs \<and> dict_get segs pid = Some seg
       \<and> seg_size seg = sz \<and> seg_token seg = token)"
  using export_memory_pool_result(2) [OF assms] by auto

theorem export_replaces_segment_witness:
  "\<exists>segs seg. dict_get (segments (fst (export_memory_pool 1 8 9 ''RW'' 0
      (fst (register_segment 1 1 0 64 7 ''RW'' 0 new_switch))))) 1 = Some segs
    \<and> dict_get segs 1 = Some seg \<and> seg_size seg = 8 \<and> seg_token seg = 9"
proof -
  have "export_memory_pool 1 8 9 ''RW'' 0 (fst (register_segment 1 1 0 64 7 ''RW'' 0 new_switch))
     = (fst (export_memory_pool 1 8 9 ''RW'' 0 (fst (register_segment 1 1 0 64 7 ''RW'' 0 new_switch))), Inr 1)"
    by code_simp
  from export_replaces_segment [OF this] show ?thesis by blast
qed

end
