(* ===== verification/Memory.thy ===== *)
theory Memory
  imports Wire_Bytes
begin

text \<open>
  Byte memories. A node's RAM is a \<open>bytearray\<close> that the handlers read and write by slices; the
  interface \<open>byte_memory\<close> states what they rely on (a write keeps the size, is read back, and leaves
  disjoint ranges alone), and derives the laws of the 64-bit cells the atomics work on. The instance
  is Python's slice read and slice assignment.
\<close>

definition mem_read :: "bytes \<Rightarrow> int \<Rightarrow> int \<Rightarrow> bytes" where
  "mem_read m off len = py_slice m off (off + len)"

definition mem_write :: "bytes \<Rightarrow> int \<Rightarrow> bytes \<Rightarrow> bytes" where
  "mem_write m off bs = py_slice_set m off (off + int (length bs)) bs"

definition in_range :: "int \<Rightarrow> int \<Rightarrow> int \<Rightarrow> bool" where
  "in_range n off len \<longleftrightarrow> 0 \<le> off \<and> 0 \<le> len \<and> off + len \<le> n"

locale byte_memory =
  fixes msize :: "'m \<Rightarrow> int"
    and rd :: "'m \<Rightarrow> int \<Rightarrow> int \<Rightarrow> bytes"
    and wr :: "'m \<Rightarrow> int \<Rightarrow> bytes \<Rightarrow> 'm"
  assumes wr_size: "in_range (msize m) off (int (length bs)) \<Longrightarrow> msize (wr m off bs) = msize m"
    and rd_len: "in_range (msize m) off len \<Longrightarrow> length (rd m off len) = nat len"
    and rd_wr: "in_range (msize m) off (int (length bs)) \<Longrightarrow> rd (wr m off bs) off (int (length bs)) = bs"
    and rd_wr_other: "in_range (msize m) off (int (length bs)) \<Longrightarrow> in_range (msize m) k l
      \<Longrightarrow> k + l \<le> off \<or> off + int (length bs) \<le> k \<Longrightarrow> rd (wr m off bs) k l = rd m k l"
begin

text \<open>The cell at an offset: eight bytes, big-endian.\<close>

definition cell :: "'m \<Rightarrow> int \<Rightarrow> int" where
  "cell m off = be_val (rd m off 8)"

definition set_cell :: "'m \<Rightarrow> int \<Rightarrow> int \<Rightarrow> 'm" where
  "set_cell m off v = wr m off (be_bytes 8 v)"

lemma cell_range: "in_range (msize m) off 8 \<Longrightarrow> 0 \<le> cell m off \<and> cell m off < 256 ^ 8"
  using be_val_bounds [of "rd m off 8"] rd_len [of m off 8] by (simp add: cell_def)

lemma set_cell_size: "in_range (msize m) off 8 \<Longrightarrow> msize (set_cell m off v) = msize m"
  by (simp add: set_cell_def wr_size)

lemma cell_set_cell: "in_range (msize m) off 8 \<Longrightarrow> cell (set_cell m off v) off = v mod 256 ^ 8"
proof -
  assume r: "in_range (msize m) off 8"
  then have "rd (wr m off (be_bytes 8 v)) off 8 = be_bytes 8 v"
    using rd_wr [of m off "be_bytes 8 v"] by simp
  then show ?thesis by (simp only: cell_def set_cell_def be_val_be_bytes)
qed

lemma cell_set_cell_other:
  "in_range (msize m) off 8 \<Longrightarrow> in_range (msize m) k 8 \<Longrightarrow> k + 8 \<le> off \<or> off + 8 \<le> k
     \<Longrightarrow> cell (set_cell m off v) k = cell m k"
  using rd_wr_other [of m off "be_bytes 8 v" k 8] by (simp add: cell_def set_cell_def)

text \<open>A run of additions to one cell, whatever their order: the cell holds the sum, wrapped.\<close>

lemma cell_additions:
  "in_range (msize m) off 8 \<Longrightarrow>
     cell (foldl (\<lambda>m v. set_cell m off (cell m off + v)) m vs) off = (cell m off + sum_list vs) mod 256 ^ 8
     \<and> msize (foldl (\<lambda>m v. set_cell m off (cell m off + v)) m vs) = msize m"
proof (induction vs arbitrary: m)
  case Nil
  then show ?case using cell_range [of m off] by simp
next
  case (Cons v vs)
  let ?m = "set_cell m off (cell m off + v)"
  have s: "msize ?m = msize m" using Cons.prems by (rule set_cell_size)
  have "cell (foldl (\<lambda>m v. set_cell m off (cell m off + v)) ?m vs) off = (cell ?m off + sum_list vs) mod 256 ^ 8"
    using Cons.IH [of ?m] Cons.prems s by simp
  also have "\<dots> = (cell m off + sum_list (v # vs)) mod 256 ^ 8"
    unfolding cell_set_cell [OF Cons.prems] by (simp only: mod_add_left_eq sum_list.Cons add.assoc)
  finally show ?case using Cons.IH [of ?m] Cons.prems s by simp
qed

end

interpretation ram: byte_memory "\<lambda>m. int (length m)" mem_read mem_write
proof
  fix m bs :: bytes and off len k l :: int
  show "int (length (mem_write m off bs)) = int (length m)" if "in_range (int (length m)) off (int (length bs))"
    using that by (simp add: mem_write_def in_range_def length_py_slice_set)
  show "length (mem_read m off len) = nat len" if "in_range (int (length m)) off len"
    using that by (simp add: mem_read_def in_range_def length_py_slice)
  show "mem_read (mem_write m off bs) off (int (length bs)) = bs" if "in_range (int (length m)) off (int (length bs))"
    using that by (simp add: mem_read_def mem_write_def in_range_def py_slice_of_set)
  show "mem_read (mem_write m off bs) k l = mem_read m k l"
    if "in_range (int (length m)) off (int (length bs))" "in_range (int (length m)) k l"
      "k + l \<le> off \<or> off + int (length bs) \<le> k"
    using that by (simp add: mem_read_def mem_write_def in_range_def py_slice_set_frame)
qed

end
