(* ===== verification/Fabric_State.thy ===== *)
theory Fabric_State
  imports Framing Cip Router Memory
begin

text \<open>
  The state of the switch daemon (\<open>daemon/fabric.py\<close>): one record per attached node, the switch
  with its table, CIP engine, counters and logs, the latency model, the event log, and the reading
  of fields from a packet's metadata. A connection (reader and writer of a client) is a number; what
  the daemon writes to connections is a list of pairs of connection and bytes. \<open>env\<close> is what one
  packet's handling observes from outside: the clock, the connection it came from, and the
  connections whose peer has gone.
\<close>

section \<open>State\<close>

definition LOCAL_MEMORY_SIZE :: nat where
  "LOCAL_MEMORY_SIZE = 64 * 1024 * 1024"

record ub_conn =
  conn_node :: int
  node_type :: json
  conn_id :: nat
  connected_at :: pyfloat
  tx_flits :: int
  rx_flits :: int
  tx_bytes :: int
  rx_bytes :: int
  credits :: int
  last_active :: pyfloat
  local_memory :: bytes
  cache_directory :: "(int, string) dict"
  ums_listeners :: "(int, json) dict"

definition new_conn :: "int \<Rightarrow> json \<Rightarrow> nat \<Rightarrow> pyfloat \<Rightarrow> ub_conn" where
  "new_conn n ty cid now =
     \<lparr>conn_node = n, node_type = ty, conn_id = cid, connected_at = now, tx_flits = 0, rx_flits = 0,
      tx_bytes = 0, rx_bytes = 0, credits = 1024, last_active = now,
      local_memory = replicate LOCAL_MEMORY_SIZE 0, cache_directory = [], ums_listeners = []\<rparr>"

record fabric =
  link_bw_gbps :: pyfloat
  hop_latency_ns :: pyfloat
  switch_table :: ub_switch
  cip :: cip_engine
  nodes :: "(int, ub_conn) dict"
  running :: bool
  total_packets_routed :: int
  total_flits_routed :: int
  total_bytes_transferred :: int
  sentry_events :: "json list"
  recent_events :: "json list"

definition new_fabric :: "pyfloat \<Rightarrow> pyfloat \<Rightarrow> fabric" where
  "new_fabric bw hop =
     \<lparr>link_bw_gbps = bw, hop_latency_ns = hop, switch_table = new_switch,
      cip = new_engine CIP_SUITE_AES_256_GCM 64, nodes = [], running = False,
      total_packets_routed = 0, total_flits_routed = 0, total_bytes_transferred = 0,
      sentry_events = [], recent_events = []\<rparr>"

record env =
  now :: pyfloat
  me :: nat
  lost :: "nat \<Rightarrow> bool"

type_synonym sent = "nat \<times> bytes"

text \<open>The new state, what was written, and the reply with the connection's node, or what was raised.\<close>

type_synonym outcome = "fabric \<times> sent list \<times> (packet option \<times> int option) result"

section \<open>Metadata fields\<close>

text \<open>
  \<open>metadata.get(k, d)\<close> and \<open>metadata[k]\<close>: only an object has them. A numeric field that is no JSON
  integer, and a text field that is no string, is outside the model.
\<close>

definition meta_get :: "string \<Rightarrow> json \<Rightarrow> packet \<Rightarrow> json result" where
  "meta_get k d p =
     (case metadata p of
        JObj ms \<Rightarrow> Inr (case dict_get ms k of None \<Rightarrow> d | Some v \<Rightarrow> v)
      | _ \<Rightarrow> Inl AttributeError)"

definition meta_index :: "string \<Rightarrow> packet \<Rightarrow> json result" where
  "meta_index k p =
     (case metadata p of
        JObj ms \<Rightarrow> (case dict_get ms k of None \<Rightarrow> Inl (KeyError k) | Some v \<Rightarrow> Inr v)
      | _ \<Rightarrow> Inl TypeError)"

fun as_int :: "json \<Rightarrow> int result" where
  "as_int (JInt i) = Inr i"
| "as_int _ = Inl (Unmodelled ''field is no integer'')"

fun as_str :: "json \<Rightarrow> string result" where
  "as_str (JStr s) = Inr s"
| "as_str _ = Inl (Unmodelled ''field is no string'')"

definition int_get :: "string \<Rightarrow> int \<Rightarrow> packet \<Rightarrow> int result" where
  "int_get k d p = rbind (meta_get k (JInt d) p) as_int"

definition int_index :: "string \<Rightarrow> packet \<Rightarrow> int result" where
  "int_index k p = rbind (meta_index k p) as_int"

definition str_get :: "string \<Rightarrow> string \<Rightarrow> packet \<Rightarrow> string result" where
  "str_get k d p = rbind (meta_get k (JStr d) p) as_str"

text \<open>\<open>str(v)\<close> of a decoded value in an f-string, containers apart.\<close>

fun py_str :: "json \<Rightarrow> string result" where
  "py_str JNull = Inr ''None''"
| "py_str (JBool b) = Inr (show_bool b)"
| "py_str (JInt i) = Inr (show_int i)"
| "py_str (JFloat x) = Inr (float_repr x)"
| "py_str (JStr s) = Inr s"
| "py_str (JList vs) = Inl (Unmodelled ''str of a container'')"
| "py_str (JObj ms) = Inl (Unmodelled ''str of a container'')"

section \<open>Latency and the event log\<close>

definition calculate_transfer_time_ns :: "int \<Rightarrow> int \<Rightarrow> string \<Rightarrow> fabric \<Rightarrow> pyfloat result" where
  "calculate_transfer_time_ns byte_count num_hops mem_type fab =
     rbind (float_of_int byte_count) (\<lambda>b.
     rbind (fdiv (fmul b 8) (link_bw_gbps fab)) (\<lambda>wire_ns.
     rbind (float_of_int num_hops) (\<lambda>h.
       let hop_ns = fmul h (hop_latency_ns fab);
           mem_ns = (if mem_type = ''HBM3'' then 35 else 75)
       in Inr (fadd (fadd wire_ns hop_ns) mem_ns))))"

text \<open>The call with the default hop count and memory type, which is the only one in the code.\<close>

definition transfer_time :: "int \<Rightarrow> fabric \<Rightarrow> pyfloat result" where
  "transfer_time n fab = calculate_transfer_time_ns n 1 ''HBM3'' fab"

definition event_json :: "pyfloat \<Rightarrow> string \<Rightarrow> int \<Rightarrow> int \<Rightarrow> int \<Rightarrow> pyfloat \<Rightarrow> string \<Rightarrow> json" where
  "event_json tm ty src dst n lat desc =
     JObj [(''time'', JFloat tm), (''type'', JStr ty), (''src'', JInt src), (''dst'', JInt dst),
           (''size'', JInt n), (''latency_ns'', JFloat (fround 2 lat)), (''desc'', JStr desc)]"

definition push_event :: "json \<Rightarrow> json list \<Rightarrow> json list" where
  "push_event ev evs = (let evs' = evs @ [ev] in if 200 < length evs' then tl evs' else evs')"

definition record_event ::
  "env \<Rightarrow> string \<Rightarrow> int \<Rightarrow> int \<Rightarrow> int \<Rightarrow> pyfloat \<Rightarrow> string \<Rightarrow> fabric \<Rightarrow> fabric"
where
  "record_event en ty src dst n lat desc fab =
     fab\<lparr>recent_events := push_event (event_json (now en) ty src dst n lat desc) (recent_events fab)\<rparr>"

section \<open>Writing to a connection\<close>

text \<open>
  \<open>writer.write(pkt.serialize()); await writer.drain()\<close>: serializing may raise; bytes written to a
  connection whose peer is gone are dropped and \<open>drain\<close> raises.
\<close>

definition send_raising :: "env \<Rightarrow> nat \<Rightarrow> packet \<Rightarrow> sent list result" where
  "send_raising en cid p =
     rbind (serialize p) (\<lambda>bs.
       if lost en cid then Inl (ConnectionError ''Connection lost'') else Inr [(cid, bs)])"

text \<open>The same inside \<open>try: ... except Exception: pass\<close>.\<close>

definition send_quiet :: "env \<Rightarrow> nat \<Rightarrow> packet \<Rightarrow> sent list" where
  "send_quiet en cid p = (case send_raising en cid p of Inl e \<Rightarrow> [] | Inr out \<Rightarrow> out)"

section \<open>Replies\<close>

text \<open>An answer of the switch itself carries source 0; one on behalf of a node, that node.\<close>

definition switch_reply :: "packet \<Rightarrow> int \<Rightarrow> (string \<times> json) list \<Rightarrow> packet" where
  "switch_reply p op meta = reply_packet op 0 (src_node p) (seq_num p) meta"

definition node_reply :: "packet \<Rightarrow> int \<Rightarrow> (string \<times> json) list \<Rightarrow> packet" where
  "node_reply p op meta = reply_packet op (dst_node p) (src_node p) (seq_num p) meta"

definition error_reply :: "packet \<Rightarrow> string \<Rightarrow> packet" where
  "error_reply p msg = switch_reply p OP_RESP_ERR [(''error'', JStr msg)]"

end
