(* ===== verification/Device.thy ===== *)
theory Device
  imports Fabric_State Allocator
begin

text \<open>
  The guest-side device of \<open>unifiedbus/device.py\<close>: sequence numbers, the table of pending replies,
  the receive loop that fills it and applies relayed writes to the local memory, and the synchronous
  request \<open>send_sync\<close>. The receive thread and the waiting caller exclude each other through the
  device's lock, so a received packet is one state change; the chunks that arrive while a caller waits
  are an argument of the request.
\<close>

section \<open>State\<close>

definition RESPONSE_OPCODES :: "int set" where
  "RESPONSE_OPCODES =
     {OP_RESP_OK, OP_RESP_ERR, OP_LINK_TRAIN_ACK, OP_TRANS_PONG,
      OP_MEM_READ_RESP, OP_MEM_WRITE_RESP, OP_MEM_ATOMIC_RESP, OP_SNOOP_RESP,
      OP_URMA_READ_RESP, OP_URMA_ATOMIC_RESP, OP_CDMA_COMPLETE,
      OP_UMS_SYN_ACK, OP_UMS_ACK, OP_URPC_RETURN, OP_UMQ_ACK}"

text \<open>
  \<open>rx_alive\<close>: the receive thread is running; it ends on an exception. \<open>rx_buffer\<close> is its local buffer.
  \<open>sock_open\<close>: \<open>sendall\<close> succeeds, which it does until the socket is closed here or the peer hangs up.
\<close>

record ub_device =
  dev_node :: int
  dev_type :: string
  dev_seq :: int
  pending_replies :: "(int, packet option) dict"
  dev_running :: bool
  rx_alive :: bool
  sock_open :: bool
  rx_buffer :: bytes
  dev_memory :: bytes

definition new_device :: "int \<Rightarrow> string \<Rightarrow> ub_device" where
  "new_device n ty =
     \<lparr>dev_node = n, dev_type = ty, dev_seq = 1, pending_replies = [], dev_running = False, rx_alive = False,
      sock_open = False, rx_buffer = [], dev_memory = replicate LOCAL_MEMORY_SIZE 0\<rparr>"

definition get_seq :: "ub_device \<Rightarrow> ub_device \<times> int" where
  "get_seq dev = (dev\<lparr>dev_seq := dev_seq dev + 1\<rparr>, dev_seq dev)"

section \<open>Receiving\<close>

text \<open>One packet of the receive loop; the slice assignment is Python's, for any offset.\<close>

definition rx_packet :: "packet \<Rightarrow> ub_device \<Rightarrow> ub_device result" where
  "rx_packet p dev =
     (if opcode p \<in> RESPONSE_OPCODES \<and> dict_get (pending_replies dev) (seq_num p) \<noteq> None
      then Inr (dev\<lparr>pending_replies := dict_set (seq_num p) (Some p) (pending_replies dev)\<rparr>)
      else if opcode p = OP_URMA_WRITE \<or> opcode p = OP_CDMA_SUBMIT then
        rbind (int_get ''offset'' 0 p) (\<lambda>off.
          let len = int (length (payload p)) in
          if off + len \<le> int (length (dev_memory dev))
          then Inr (dev\<lparr>dev_memory := py_slice_set (dev_memory dev) off (off + len) (payload p)\<rparr>)
          else Inr dev)
      else Inr dev)"

text \<open>
  The inner loop over the buffer. A frame is removed from the buffer before it is handled; any
  exception ends the thread.
\<close>

function rx_loop :: "ub_device \<Rightarrow> ub_device" where
  "rx_loop dev =
     (case deserialize_from_buffer (rx_buffer dev) of
        Inl e \<Rightarrow> dev\<lparr>rx_alive := False\<rparr>
      | Inr (None, n) \<Rightarrow> dev
      | Inr (Some p, n) \<Rightarrow>
          (case rx_packet p dev of
             Inl e \<Rightarrow> dev\<lparr>rx_buffer := drop n (rx_buffer dev), rx_alive := False\<rparr>
           | Inr dev1 \<Rightarrow> rx_loop (dev1\<lparr>rx_buffer := drop n (rx_buffer dev)\<rparr>)))"
  by pat_completeness auto
termination
proof (relation "measure (\<lambda>dev. length (rx_buffer dev))")
  fix dev :: ub_device and r q p n and dev1 :: ub_device
  assume "deserialize_from_buffer (rx_buffer dev) = Inr r" "(q, n) = r" "q = Some p"
  then have "44 \<le> n \<and> n \<le> length (rx_buffer dev)" using deserialize_consumed by blast
  then show "(dev1\<lparr>rx_buffer := drop n (rx_buffer dev)\<rparr>, dev) \<in> measure (\<lambda>dev. length (rx_buffer dev))"
    by auto
qed simp

declare rx_loop.simps [simp del]

text \<open>A \<open>recv\<close>: an empty chunk is the peer's hang-up and ends the thread.\<close>

definition rx_chunk :: "bytes \<Rightarrow> ub_device \<Rightarrow> ub_device" where
  "rx_chunk chunk dev =
     (if \<not> rx_alive dev then dev
      else if chunk = [] then dev\<lparr>rx_alive := False, sock_open := False\<rparr>
      else rx_loop (dev\<lparr>rx_buffer := rx_buffer dev @ chunk\<rparr>))"

section \<open>Requests\<close>

text \<open>The wait of \<open>send_sync\<close>: the chunks are those received before the deadline.\<close>

fun await_reply :: "int \<Rightarrow> bytes list \<Rightarrow> ub_device \<Rightarrow> ub_device \<times> packet result" where
  "await_reply seq cs dev =
     (case dict_get (pending_replies dev) seq of
        Some (Some resp) \<Rightarrow> (dev\<lparr>pending_replies := dict_del seq (pending_replies dev)\<rparr>, Inr resp)
      | _ \<Rightarrow>
          (case cs of
             [] \<Rightarrow> (dev\<lparr>pending_replies := dict_del seq (pending_replies dev)\<rparr>, Inl TimeoutError)
           | c # cs' \<Rightarrow> await_reply seq cs' (rx_chunk c dev)))"

declare await_reply.simps [simp del]

text \<open>The device, the bytes put on the socket, and the reply.\<close>

definition send_sync :: "packet \<Rightarrow> bytes list \<Rightarrow> ub_device \<Rightarrow> ub_device \<times> bytes \<times> packet result" where
  "send_sync p cs dev =
     (let dev1 = dev\<lparr>pending_replies := dict_set (seq_num p) None (pending_replies dev)\<rparr> in
      case serialize p of
        Inl e \<Rightarrow> (dev1\<lparr>pending_replies := dict_del (seq_num p) (pending_replies dev1)\<rparr>, [], Inl e)
      | Inr bs \<Rightarrow>
          if \<not> sock_open dev1
          then (dev1\<lparr>pending_replies := dict_del (seq_num p) (pending_replies dev1)\<rparr>, [], Inl (ConnectionError ''Broken pipe''))
          else (case await_reply (seq_num p) cs dev1 of (dev2, r) \<Rightarrow> (dev2, bs, r)))"

text \<open>
  Connecting: at most twenty attempts, each of which succeeds (\<open>None\<close>) or fails with an error text; then
  the receive thread starts and the node registers.
\<close>

definition register_packet :: "ub_device \<Rightarrow> int \<Rightarrow> packet" where
  "register_packet dev seq = reply_packet OP_REG_NODE (dev_node dev) 0 seq [(''node_type'', JStr (dev_type dev))]"

definition connect_failed :: "string \<Rightarrow> string option list \<Rightarrow> py_error" where
  "connect_failed path attempts =
     ConnectionError (''Failed to connect to UnifiedBus Fabric at '' @ path @ '': ''
       @ (case rev (take 20 attempts) of Some err # _ \<Rightarrow> err | _ \<Rightarrow> ''None'')
       @ ''. Ensure ub-fabric-daemon is running.'')"

definition connect_and_register ::
  "string option list \<Rightarrow> string \<Rightarrow> bytes list \<Rightarrow> ub_device \<Rightarrow> ub_device \<times> bytes \<times> unit result"
where
  "connect_and_register attempts path cs dev =
     (if None \<notin> set (take 20 attempts) then (dev, [], Inl (connect_failed path attempts))
      else
        let dev1 = dev\<lparr>dev_running := True, rx_alive := True, sock_open := True\<rparr>;
            (dev2, seq) = get_seq dev1
        in
        (case send_sync (register_packet dev2 seq) cs dev2 of
           (dev3, bs, Inl e) \<Rightarrow> (dev3, bs, Inl e)
         | (dev3, bs, Inr resp) \<Rightarrow>
             if opcode resp \<noteq> OP_RESP_OK
             then (dev3, bs, Inl (RuntimeError (''Failed to register Node '' @ show_int (dev_node dev) @ '' on UB Fabric'')))
             else (dev3, bs, Inr ())))"

definition close_device :: "ub_device \<Rightarrow> ub_device" where
  "close_device dev = dev\<lparr>dev_running := False, rx_alive := False, sock_open := False\<rparr>"

section \<open>Sequence numbers\<close>

text \<open>The operations of a device that touch its counter or run while a caller waits.\<close>

datatype device_call =
    Take_Seq
  | Receive_Chunk bytes
  | Request packet "bytes list"
  | Close

fun device_step :: "ub_device \<Rightarrow> device_call \<Rightarrow> ub_device \<times> int option" where
  "device_step dev Take_Seq = (case get_seq dev of (dev1, s) \<Rightarrow> (dev1, Some s))"
| "device_step dev (Receive_Chunk c) = (rx_chunk c dev, None)"
| "device_step dev (Request p cs) = (fst (send_sync p cs dev), None)"
| "device_step dev Close = (close_device dev, None)"

lemma rx_packet_fields:
  "rx_packet p dev = Inr dev' \<Longrightarrow> dev_seq dev' = dev_seq dev \<and> rx_alive dev' = rx_alive dev
     \<and> rx_buffer dev' = rx_buffer dev \<and> dev_node dev' = dev_node dev \<and> dev_running dev' = dev_running dev"
  by (auto simp: rx_packet_def Let_def result_simps split: if_splits)

lemma rx_loop_seq [simp]: "dev_seq (rx_loop dev) = dev_seq dev"
proof (induction dev rule: rx_loop.induct)
  case (1 dev)
  show ?case
  proof (cases "deserialize_from_buffer (rx_buffer dev)")
    case (Inl e)
    then show ?thesis by (subst rx_loop.simps) simp
  next
    case (Inr r)
    show ?thesis
    proof (cases r)
      case (Pair q n)
      show ?thesis
      proof (cases q)
        case None
        then show ?thesis using Inr Pair by (subst rx_loop.simps) simp
      next
        case (Some p)
        show ?thesis
        proof (cases "rx_packet p dev")
          case (Inr dev1)
          then show ?thesis
            using 1 [OF \<open>deserialize_from_buffer (rx_buffer dev) = Inr r\<close> Pair [symmetric] Some Inr]
              rx_packet_fields [OF Inr] \<open>deserialize_from_buffer (rx_buffer dev) = Inr r\<close> Pair Some
            by (subst rx_loop.simps) simp
        qed (use Inr Pair Some in \<open>subst rx_loop.simps, simp\<close>)
      qed
    qed
  qed
qed

lemma rx_chunk_seq [simp]: "dev_seq (rx_chunk c dev) = dev_seq dev"
  by (simp add: rx_chunk_def)

lemma await_reply_Nil:
  "await_reply s [] dev =
     (dev\<lparr>pending_replies := dict_del s (pending_replies dev)\<rparr>,
      case dict_get (pending_replies dev) s of Some (Some resp) \<Rightarrow> Inr resp | _ \<Rightarrow> Inl TimeoutError)"
  by (subst await_reply.simps) (simp split: option.split)

lemma await_reply_answered:
  "dict_get (pending_replies dev) s = Some (Some resp) \<Longrightarrow>
     await_reply s cs dev = (dev\<lparr>pending_replies := dict_del s (pending_replies dev)\<rparr>, Inr resp)"
  by (subst await_reply.simps) simp

lemma await_reply_waits:
  "\<nexists>resp. dict_get (pending_replies dev) s = Some (Some resp) \<Longrightarrow>
     await_reply s (c # cs) dev = await_reply s cs (rx_chunk c dev)"
  by (subst await_reply.simps) (simp split: option.split)

lemma await_reply_seq [simp]: "dev_seq (fst (await_reply s cs dev)) = dev_seq dev"
proof (induction cs arbitrary: dev)
  case Nil
  then show ?case by (simp add: await_reply_Nil)
next
  case (Cons c cs)
  show ?case
  proof (cases "\<exists>resp. dict_get (pending_replies dev) s = Some (Some resp)")
    case True
    then show ?thesis using await_reply_answered by fastforce
  next
    case False
    then show ?thesis by (simp add: await_reply_waits Cons.IH)
  qed
qed

lemma send_sync_seq [simp]: "dev_seq (fst (send_sync p cs dev)) = dev_seq dev"
proof -
  let ?dev = "dev\<lparr>pending_replies := dict_set (seq_num p) None (pending_replies dev)\<rparr>"
  have "dev_seq (fst (await_reply (seq_num p) cs ?dev)) = dev_seq dev" by simp
  then show ?thesis
    by (cases "await_reply (seq_num p) cs ?dev") (simp add: send_sync_def Let_def split: sum.split)
qed

interpretation seqs: id_allocator device_step dev_seq
proof
  fix dev dev' :: ub_device and c i
  show "i = dev_seq dev \<and> dev_seq dev' = i + 1" if "device_step dev c = (dev', Some i)"
    using that by (cases c) (auto simp: get_seq_def)
  show "dev_seq dev \<le> dev_seq dev'" if "device_step dev c = (dev', None)"
    using that by (cases c) (auto simp: get_seq_def close_device_def)
qed

section \<open>The receive loop as the sequence of its packets\<close>

primrec rx_all :: "packet list \<Rightarrow> ub_device \<Rightarrow> ub_device result" where
  "rx_all [] dev = Inr dev"
| "rx_all (p # ps) dev = rbind (rx_packet p dev) (rx_all ps)"

definition on_result :: "('a \<Rightarrow> 'b) \<Rightarrow> 'a result \<Rightarrow> 'b result" where
  "on_result f r = rbind r (\<lambda>x. Inr (f x))"

lemma rx_packet_buffer:
  "rx_packet p (dev\<lparr>rx_buffer := b\<rparr>) = on_result (\<lambda>d. d\<lparr>rx_buffer := b\<rparr>) (rx_packet p dev)"
  by (cases "int_get ''offset'' 0 p") (auto simp: rx_packet_def on_result_def Let_def)

lemma rx_all_append: "rx_all (ps @ qs) dev = rbind (rx_all ps dev) (rx_all qs)"
  by (induction ps arbitrary: dev) (auto simp: rbind_def split: sum.split)

lemma rx_all_buffer:
  "rx_all ps (dev\<lparr>rx_buffer := b\<rparr>) = on_result (\<lambda>d. d\<lparr>rx_buffer := b\<rparr>) (rx_all ps dev)"
  by (induction ps arbitrary: dev)
    (auto simp: rx_packet_buffer on_result_def rbind_def split: sum.split)

lemma rx_all_fields:
  "rx_all ps dev = Inr dev' \<Longrightarrow> rx_alive dev' = rx_alive dev \<and> rx_buffer dev' = rx_buffer dev"
  by (induction ps arbitrary: dev) (auto simp: result_simps dest: rx_packet_fields)

lemma rx_loop_drains:
  assumes "drains deserialize_from_buffer buf ps rest" "rx_all ps dev = Inr dev'"
  shows "rx_loop (dev\<lparr>rx_buffer := buf\<rparr>) = dev'\<lparr>rx_buffer := rest\<rparr>"
  using assms
proof (induction arbitrary: dev rule: drains.induct)
  case (drains_stop buf n)
  then show ?case by (subst rx_loop.simps) simp
next
  case (drains_frame buf p n ps rest)
  then obtain dev1 where d: "rx_packet p dev = Inr dev1" "rx_all ps dev1 = Inr dev'"
    by (auto simp: result_simps)
  then have "rx_packet p (dev\<lparr>rx_buffer := buf\<rparr>) = Inr (dev1\<lparr>rx_buffer := buf\<rparr>)"
    by (simp add: rx_packet_buffer on_result_def)
  then show ?case
    using drains_frame.hyps(1) drains_frame.IH [OF d(2)] by (subst rx_loop.simps) simp
qed

text \<open>A packet that the waiter for sequence number \<open>s\<close> takes as its reply.\<close>

definition answers :: "int \<Rightarrow> packet \<Rightarrow> bool" where
  "answers s q \<longleftrightarrow> opcode q \<in> RESPONSE_OPCODES \<and> seq_num q = s"

lemma rx_packet_answer:
  "answers s q \<Longrightarrow> dict_get (pending_replies dev) s \<noteq> None \<Longrightarrow>
     rx_packet q dev = Inr (dev\<lparr>pending_replies := dict_set s (Some q) (pending_replies dev)\<rparr>)"
  by (auto simp: rx_packet_def answers_def)

lemma rx_packet_pending:
  "\<not> answers s q \<Longrightarrow> rx_packet q dev = Inr dev' \<Longrightarrow>
     dict_get (pending_replies dev') s = dict_get (pending_replies dev) s"
  by (auto simp: rx_packet_def answers_def Let_def result_simps split: if_splits)

lemma rx_all_pending:
  "list_all (\<lambda>q. \<not> answers s q) qs \<Longrightarrow> rx_all qs dev = Inr dev' \<Longrightarrow>
     dict_get (pending_replies dev') s = dict_get (pending_replies dev) s"
  by (induction qs arbitrary: dev) (auto simp: result_simps dest!: rx_packet_pending)

text \<open>What a chunk does: the packets it completes are handled, the rest stays in the buffer.\<close>

lemma rx_chunk_drains:
  assumes "rx_alive dev" "c \<noteq> []" "drains deserialize_from_buffer (rx_buffer dev @ c) ps rest" "rx_all ps dev = Inr dev'"
  shows "rx_chunk c dev = dev'\<lparr>rx_buffer := rest\<rparr>"
  using assms rx_loop_drains [OF assms(3,4)] by (simp add: rx_chunk_def)

text \<open>
  A caller waiting for \<open>s\<close> gets the reply \<open>r\<close> once it has arrived, however the bytes are cut, and the
  packets before it are handled in order.
\<close>

lemma await_stream:
  assumes "ub_codec.stream (ps @ [r]) fs" "ub_codec.residue (rx_buffer dev) fs"
    and "rx_buffer dev @ concat cs = concat fs" "[] \<notin> set cs" "rx_alive dev"
    and "dict_get (pending_replies dev) s = Some None" "list_all (\<lambda>q. \<not> answers s q) ps" "answers s r"
    and "rx_all ps dev = Inr dev'"
  shows "await_reply s cs dev
    = (dev'\<lparr>rx_buffer := [], pending_replies := dict_del s (pending_replies dev')\<rparr>, Inr r)"
  using assms
proof (induction cs arbitrary: dev dev' ps fs)
  case Nil
  then have "ps @ [r] = [] \<and> rx_buffer dev = []" using ub_codec.residue_complete [of "ps @ [r]" fs "rx_buffer dev"] by simp
  then show ?case by simp
next
  case (Cons c cs)
  obtain ps1 ps2 fs2 rest where d: "ps @ [r] = ps1 @ ps2" "drains deserialize_from_buffer (rx_buffer dev @ c) ps1 rest"
      "ub_codec.stream ps2 fs2" "rest @ concat cs = concat fs2" "ub_codec.residue rest fs2"
    using ub_codec.drain_stream [OF Cons.prems(1), of "rx_buffer dev @ c" "concat cs"] Cons.prems(3) by auto
  have step: "await_reply s (c # cs) dev = await_reply s cs (rx_chunk c dev)"
    using Cons.prems(6) by (intro await_reply_waits) simp
  have c: "c \<noteq> []" "[] \<notin> set cs" using Cons.prems(4) by auto
  show ?case
  proof (cases "ps2 = []")
    case True
    let ?dev = "dev'\<lparr>pending_replies := dict_set s (Some r) (pending_replies dev')\<rparr>"
    have "fs2 = []" using d(3) True by (simp add: ub_codec.stream_def)
    then have "rest = []" using d(4) by simp
    have "dict_get (pending_replies dev') s = Some None"
      using rx_all_pending [OF Cons.prems(7,9)] Cons.prems(6) by simp
    moreover have "ps1 = ps @ [r]" using d(1) True by simp
    ultimately have "rx_all ps1 dev = Inr ?dev"
      using Cons.prems(8,9) by (simp add: rx_all_append rx_packet_answer)
    then have "rx_chunk c dev = ?dev\<lparr>rx_buffer := []\<rparr>"
      using rx_chunk_drains [OF Cons.prems(5) c(1) d(2)] \<open>rest = []\<close> by simp
    then show ?thesis unfolding step using await_reply_answered [of "?dev\<lparr>rx_buffer := []\<rparr>" s r] by (simp add: delete_update_same)
  next
    case False
    then obtain ps3 where ps: "ps2 = ps3 @ [r]" "ps = ps1 @ ps3"
      using d(1) by (metis append_butlast_last_id append_is_Nil_conv butlast_append last_appendR snoc_eq_iff_butlast)
    then obtain dev1 where dev1: "rx_all ps1 dev = Inr dev1" "rx_all ps3 dev1 = Inr dev'"
      using Cons.prems(9) by (auto simp: rx_all_append result_simps)
    have chunk: "rx_chunk c dev = dev1\<lparr>rx_buffer := rest\<rparr>"
      using rx_chunk_drains [OF Cons.prems(5) c(1) d(2) dev1(1)] .
    have all: "list_all (\<lambda>q. \<not> answers s q) ps1" "list_all (\<lambda>q. \<not> answers s q) ps3"
      using Cons.prems(7) ps by simp_all
    have "await_reply s cs (dev1\<lparr>rx_buffer := rest\<rparr>)
        = ((dev'\<lparr>rx_buffer := rest\<rparr>)\<lparr>rx_buffer := [], pending_replies := dict_del s (pending_replies (dev'\<lparr>rx_buffer := rest\<rparr>))\<rparr>, Inr r)"
    proof (rule Cons.IH)
      show "ub_codec.stream (ps3 @ [r]) fs2" "ub_codec.residue (rx_buffer (dev1\<lparr>rx_buffer := rest\<rparr>)) fs2"
        "rx_buffer (dev1\<lparr>rx_buffer := rest\<rparr>) @ concat cs = concat fs2" "[] \<notin> set cs" "list_all (\<lambda>q. \<not> answers s q) ps3" "answers s r"
        using d(3-5) ps c all Cons.prems(8) by simp_all
      show "rx_alive (dev1\<lparr>rx_buffer := rest\<rparr>)" using rx_all_fields [OF dev1(1)] Cons.prems(5) by simp
      show "dict_get (pending_replies (dev1\<lparr>rx_buffer := rest\<rparr>)) s = Some None"
        using rx_all_pending [OF all(1) dev1(1)] Cons.prems(6) by simp
      show "rx_all ps3 (dev1\<lparr>rx_buffer := rest\<rparr>) = Inr (dev'\<lparr>rx_buffer := rest\<rparr>)"
        using dev1(2) by (simp add: rx_all_buffer on_result_def)
    qed
    then show ?thesis unfolding step chunk by simp
  qed
qed

text \<open>A device ready for a call.\<close>

definition ready :: "ub_device \<Rightarrow> bool" where
  "ready dev \<longleftrightarrow> sock_open dev \<and> rx_alive dev \<and> rx_buffer dev = []"

lemma send_sync_stream:
  assumes "list_all2 (\<lambda>q f. wf_packet q \<and> serialize q = Inr f) (ps @ [r]) fs" "concat cs = concat fs" "[] \<notin> set cs"
    and "ready dev" "serialize p = Inr bs"
    and "list_all (\<lambda>q. \<not> answers (seq_num p) q) ps" "answers (seq_num p) r"
    and "rx_all ps (dev\<lparr>pending_replies := dict_set (seq_num p) None (pending_replies dev)\<rparr>) = Inr dev'"
  shows "send_sync p cs dev = (dev'\<lparr>pending_replies := dict_del (seq_num p) (pending_replies dev')\<rparr>, bs, Inr r)"
proof -
  let ?dev = "dev\<lparr>pending_replies := dict_set (seq_num p) None (pending_replies dev)\<rparr>"
  have s: "ub_codec.stream (ps @ [r]) fs" using assms(1) by (simp add: ub_codec.stream_def)
  have "await_reply (seq_num p) cs ?dev = (dev'\<lparr>rx_buffer := [], pending_replies := dict_del (seq_num p) (pending_replies dev')\<rparr>, Inr r)"
    using await_stream [OF s, of ?dev cs "seq_num p" dev'] ub_codec.stream_residue [OF s] assms by (simp add: ready_def)
  moreover have "dev'\<lparr>rx_buffer := []\<rparr> = dev'" using rx_all_fields [OF assms(8)] assms(4) by (simp add: ready_def)
  ultimately show ?thesis using assms(4,5) by (simp add: send_sync_def ready_def Let_def)
qed

lemma send_sync_answered:
  assumes "ready dev" "serialize p = Inr bs" "answers (seq_num p) r" "wf_packet r" "serialize r = Inr rs"
    and "concat cs = rs" "[] \<notin> set cs"
  shows "send_sync p cs dev = (dev\<lparr>pending_replies := dict_del (seq_num p) (pending_replies dev)\<rparr>, bs, Inr r)"
  using send_sync_stream [of "[]" r "[rs]" cs dev p bs] assms by (simp add: delete_update_same)

text \<open>A closed device cannot call.\<close>

lemma send_sync_closed: "\<not> sock_open dev \<Longrightarrow> \<exists>e. snd (send_sync p cs dev) = ([], Inl e)"
  by (simp add: send_sync_def Let_def split: sum.split)

end
