(* ===== verification/Urma.thy ===== *)
theory Urma
  imports Device
begin

text \<open>
  The URMA client (\<open>unifiedbus/urma.py\<close>) and its protected variant (\<open>unifiedbus/cip.py\<close>): the
  context with its device, segments and jetties, one definition per method. Segments and jetties are
  shared objects; here the context's two dictionaries are the store of these objects and a handle is the
  id under which the context keeps it. Each call takes the chunks that arrive while it waits and gives
  the new context, the bytes it sent, and its value or what it raised.
\<close>

section \<open>Requests\<close>

text \<open>The shape of every call: take a sequence number, send the packet built with it, wait.\<close>

definition call_sync :: "(int \<Rightarrow> packet) \<Rightarrow> bytes list \<Rightarrow> ub_device \<Rightarrow> ub_device \<times> bytes \<times> packet result" where
  "call_sync mk cs dev = (case get_seq dev of (dev1, seq) \<Rightarrow> send_sync (mk seq) cs dev1)"

text \<open>\<open>raise RuntimeError(f"prefix{resp.metadata.get('error', default)}")\<close>.\<close>

definition failure :: "string \<Rightarrow> string \<Rightarrow> packet \<Rightarrow> py_error" where
  "failure prefix dflt resp =
     (case rbind (meta_get ''error'' (JStr dflt) resp) py_str of Inl e \<Rightarrow> e | Inr s \<Rightarrow> RuntimeError (prefix @ s))"

text \<open>\<open>resp.metadata.get("sim_latency_ns", 0.0)\<close>, returned as it is.\<close>

definition latency_field :: "packet \<Rightarrow> json result" where
  "latency_field resp = meta_get ''sim_latency_ns'' (JFloat 0) resp"

section \<open>State\<close>

record urma_segment =
  u_seg_id :: int
  u_base_addr :: int
  u_size :: int
  u_token :: int
  u_perm :: string
  u_buffer :: bytes

definition new_segment :: "int \<Rightarrow> int \<Rightarrow> int \<Rightarrow> string \<Rightarrow> bytes \<Rightarrow> urma_segment" where
  "new_segment sid sz token perm buf =
     \<lparr>u_seg_id = sid, u_base_addr = 0, u_size = sz, u_token = token, u_perm = perm, u_buffer = buf\<rparr>"

text \<open>\<open>j_cip\<close> is the engine of a \<open>CIPSecureJetty\<close> and \<open>None\<close> for a plain one.\<close>

record urma_jetty =
  j_local_id :: int
  j_remote_node :: int
  j_remote_id :: int
  j_token :: int
  j_cip :: "cip_engine option"

definition new_jetty :: "int \<Rightarrow> int \<Rightarrow> int \<Rightarrow> int \<Rightarrow> cip_engine option \<Rightarrow> urma_jetty" where
  "new_jetty lid rn rid token eng =
     \<lparr>j_local_id = lid, j_remote_node = rn, j_remote_id = rid, j_token = token, j_cip = eng\<rparr>"

lemma new_objects [simp]: "u_seg_id (new_segment sid sz token perm buf) = sid" "j_local_id (new_jetty lid rn rid token eng) = lid"
  by (simp_all add: new_segment_def new_jetty_def)

record urma_context =
  u_node :: int
  u_device :: ub_device
  u_next_seg :: int
  u_next_jetty :: int
  u_segments :: "(int, urma_segment) dict"
  u_jetties :: "(int, urma_jetty) dict"

definition new_context :: "int \<Rightarrow> ub_device \<Rightarrow> urma_context" where
  "new_context n dev = \<lparr>u_node = n, u_device = dev, u_next_seg = 1, u_next_jetty = 1, u_segments = [], u_jetties = []\<rparr>"

definition foreign_handle :: py_error where
  "foreign_handle = Unmodelled ''object of another context''"

section \<open>Registration\<close>

text \<open>\<open>size_or_buf\<close>: a number of zero bytes, or initial contents.\<close>

datatype seg_source = Seg_Size int | Seg_Contents bytes

fun seg_buffer :: "seg_source \<Rightarrow> bytes result" where
  "seg_buffer (Seg_Size n) = (if n < 0 then Inl (ValueError ''negative count'') else Inr (replicate (nat n) 0))"
| "seg_buffer (Seg_Contents bs) = Inr bs"

definition reg_seg_packet :: "urma_context \<Rightarrow> int \<Rightarrow> int \<Rightarrow> int \<Rightarrow> string \<Rightarrow> int \<Rightarrow> packet" where
  "reg_seg_packet ctx sid sz token perm seq =
     ub_packet OP_REG_SEG (u_node ctx) 0 token 0 FLAG_NONE seq zero_tag
       (JObj [(''segment_id'', JInt sid), (''size'', JInt sz), (''permissions'', JStr perm)]) []"

definition u_register_segment ::
  "seg_source \<Rightarrow> int \<Rightarrow> string \<Rightarrow> bytes list \<Rightarrow> urma_context \<Rightarrow> urma_context \<times> bytes \<times> int result"
where
  "u_register_segment src token perm cs ctx =
     (case seg_buffer src of
        Inl e \<Rightarrow> (ctx, [], Inl e)
      | Inr buf \<Rightarrow>
          let sz = int (length buf);
              sid = u_next_seg ctx;
              ctx1 = ctx\<lparr>u_next_seg := sid + 1\<rparr>;
              (dev, bs, r) = call_sync (reg_seg_packet ctx1 sid sz token perm) cs (u_device ctx1);
              ctx2 = ctx1\<lparr>u_device := dev\<rparr>
          in
          (case r of
             Inl e \<Rightarrow> (ctx2, bs, Inl e)
           | Inr resp \<Rightarrow>
               if opcode resp \<noteq> OP_RESP_OK
               then (ctx2, bs, Inl (RuntimeError ''Failed to register segment with UB fabric''))
               else (ctx2\<lparr>u_segments := dict_set sid (new_segment sid sz token perm buf) (u_segments ctx2)\<rparr>, bs, Inr sid)))"

definition jetty_packet :: "urma_context \<Rightarrow> int \<Rightarrow> int \<Rightarrow> int \<Rightarrow> int \<Rightarrow> int \<Rightarrow> packet" where
  "jetty_packet ctx lid rn rid token seq =
     ub_packet OP_CREATE_JETTY (u_node ctx) 0 token 0 FLAG_NONE seq zero_tag
       (JObj [(''local_jetty_id'', JInt lid), (''remote_node'', JInt rn), (''remote_jetty_id'', JInt rid)]) []"

definition u_create_jetty ::
  "int \<Rightarrow> int \<Rightarrow> int \<Rightarrow> bytes list \<Rightarrow> urma_context \<Rightarrow> urma_context \<times> bytes \<times> int result"
where
  "u_create_jetty rn rid token cs ctx =
     (let lid = u_next_jetty ctx;
          ctx1 = ctx\<lparr>u_next_jetty := lid + 1\<rparr>;
          (dev, bs, r) = call_sync (jetty_packet ctx1 lid rn rid token) cs (u_device ctx1);
          ctx2 = ctx1\<lparr>u_device := dev\<rparr>
      in
      (case r of
         Inl e \<Rightarrow> (ctx2, bs, Inl e)
       | Inr resp \<Rightarrow>
           if opcode resp \<noteq> OP_RESP_OK
           then (ctx2, bs, Inl (RuntimeError ''Failed to create Jetty with UB fabric''))
           else (ctx2\<lparr>u_jetties := dict_set lid (new_jetty lid rn rid token None) (u_jetties ctx2)\<rparr>, bs, Inr lid)))"

text \<open>A secure jetty is made without asking the switch.\<close>

definition create_secure_jetty :: "int \<Rightarrow> int \<Rightarrow> int \<Rightarrow> urma_context \<Rightarrow> urma_context \<times> int" where
  "create_secure_jetty rn rid token ctx =
     (let lid = u_next_jetty ctx;
          j = new_jetty lid rn rid token (Some (new_engine CIP_SUITE_AES_256_GCM 64))
      in (ctx\<lparr>u_next_jetty := lid + 1, u_jetties := dict_set lid j (u_jetties ctx)\<rparr>, lid))"

section \<open>Memory operations\<close>

text \<open>\<open>bytes(local_seg.buffer[local_offset:local_offset + length])\<close>.\<close>

definition local_bytes :: "urma_segment \<Rightarrow> int \<Rightarrow> int \<Rightarrow> bytes" where
  "local_bytes seg lo len = py_slice (u_buffer seg) lo (lo + len)"

definition write_packet :: "urma_context \<Rightarrow> urma_jetty \<Rightarrow> int \<Rightarrow> int \<Rightarrow> bytes \<Rightarrow> int \<Rightarrow> packet" where
  "write_packet ctx j rsid roff pay seq =
     ub_packet OP_URMA_WRITE (u_node ctx) (j_remote_node j) (j_token j) 0 FLAG_NONE seq zero_tag
       (JObj [(''segment_id'', JInt rsid), (''offset'', JInt roff)]) pay"

definition u_write ::
  "int \<Rightarrow> int \<Rightarrow> int \<Rightarrow> int \<Rightarrow> int \<Rightarrow> int \<Rightarrow> bytes list \<Rightarrow> urma_context \<Rightarrow> urma_context \<times> bytes \<times> json result"
where
  "u_write jid sid lo rsid roff len cs ctx =
     (case (dict_get (u_jetties ctx) jid, dict_get (u_segments ctx) sid) of
        (Some j, Some seg) \<Rightarrow>
          let (dev, bs, r) = call_sync (write_packet ctx j rsid roff (local_bytes seg lo len)) cs (u_device ctx) in
          (ctx\<lparr>u_device := dev\<rparr>, bs,
           rbind r (\<lambda>resp.
             if opcode resp \<noteq> OP_RESP_OK then Inl (failure ''URMA Write failed: '' ''Unknown error'' resp)
             else latency_field resp))
      | _ \<Rightarrow> (ctx, [], Inl foreign_handle))"

definition read_packet :: "urma_context \<Rightarrow> urma_jetty \<Rightarrow> int \<Rightarrow> int \<Rightarrow> int \<Rightarrow> int \<Rightarrow> packet" where
  "read_packet ctx j rsid roff len seq =
     ub_packet OP_URMA_READ (u_node ctx) (j_remote_node j) (j_token j) 0 FLAG_NONE seq zero_tag
       (JObj [(''segment_id'', JInt rsid), (''offset'', JInt roff), (''length'', JInt len)]) []"

text \<open>The answer's payload replaces the range of the local buffer, whatever its length.\<close>

definition fill_segment :: "int \<Rightarrow> int \<Rightarrow> int \<Rightarrow> bytes \<Rightarrow> urma_context \<Rightarrow> urma_context" where
  "fill_segment sid lo len bs ctx =
     ctx\<lparr>u_segments := dict_adjust sid (\<lambda>seg. seg\<lparr>u_buffer := py_slice_set (u_buffer seg) lo (lo + len) bs\<rparr>) (u_segments ctx)\<rparr>"

definition u_read ::
  "int \<Rightarrow> int \<Rightarrow> int \<Rightarrow> int \<Rightarrow> int \<Rightarrow> int \<Rightarrow> bytes list \<Rightarrow> urma_context \<Rightarrow> urma_context \<times> bytes \<times> json result"
where
  "u_read jid sid lo rsid roff len cs ctx =
     (case (dict_get (u_jetties ctx) jid, dict_get (u_segments ctx) sid) of
        (Some j, Some seg) \<Rightarrow>
          let (dev, bs, r) = call_sync (read_packet ctx j rsid roff len) cs (u_device ctx);
              ctx1 = ctx\<lparr>u_device := dev\<rparr>
          in
          (case r of
             Inl e \<Rightarrow> (ctx1, bs, Inl e)
           | Inr resp \<Rightarrow>
               if opcode resp \<noteq> OP_URMA_READ_RESP
               then (ctx1, bs, Inl (failure ''URMA Read failed: '' ''Unknown error'' resp))
               else (fill_segment sid lo len (payload resp) ctx1, bs, latency_field resp))
      | _ \<Rightarrow> (ctx, [], Inl foreign_handle))"

definition send_packet :: "urma_context \<Rightarrow> urma_jetty \<Rightarrow> bytes \<Rightarrow> int \<Rightarrow> packet" where
  "send_packet ctx j pay seq =
     ub_packet OP_URMA_SEND (u_node ctx) (j_remote_node j) (j_token j) 0 FLAG_NONE seq zero_tag (JObj []) pay"

definition u_send :: "int \<Rightarrow> bytes \<Rightarrow> bytes list \<Rightarrow> urma_context \<Rightarrow> urma_context \<times> bytes \<times> unit result" where
  "u_send jid pay cs ctx =
     (case dict_get (u_jetties ctx) jid of
        None \<Rightarrow> (ctx, [], Inl foreign_handle)
      | Some j \<Rightarrow>
          let (dev, bs, r) = call_sync (send_packet ctx j pay) cs (u_device ctx) in
          (ctx\<lparr>u_device := dev\<rparr>, bs,
           rbind r (\<lambda>resp. if opcode resp \<noteq> OP_RESP_OK then Inl (RuntimeError ''URMA Send failed'') else Inr ())))"

section \<open>Protected writes\<close>

definition protected_packet :: "urma_context \<Rightarrow> urma_jetty \<Rightarrow> int \<Rightarrow> int \<Rightarrow> bytes \<Rightarrow> bytes \<Rightarrow> int \<Rightarrow> packet" where
  "protected_packet ctx j rsid roff ct tag seq =
     ub_packet OP_URMA_WRITE (u_node ctx) (j_remote_node j) (j_token j) 0 FLAG_CIP_ENCRYPTED seq tag
       (JObj [(''segment_id'', JInt rsid), (''offset'', JInt roff)]) ct"

text \<open>The sequence number is taken before the encryption, which may raise; only a secure jetty has the method.\<close>

definition write_encrypted ::
  "int \<Rightarrow> int \<Rightarrow> int \<Rightarrow> int \<Rightarrow> int \<Rightarrow> int \<Rightarrow> bytes list \<Rightarrow> urma_context \<Rightarrow> urma_context \<times> bytes \<times> json result"
where
  "write_encrypted jid sid lo rsid roff len cs ctx =
     (case (dict_get (u_jetties ctx) jid, dict_get (u_segments ctx) sid) of
        (Some j, Some seg) \<Rightarrow>
          (case j_cip j of
             None \<Rightarrow> (ctx, [], Inl AttributeError)
           | Some eng \<Rightarrow>
               let (dev, seq) = get_seq (u_device ctx);
                   (eng1, enc) = encrypt_and_tag eng (local_bytes seg lo len) (j_token j) seq;
                   ctx1 = ctx\<lparr>u_device := dev, u_jetties := dict_set jid (j\<lparr>j_cip := Some eng1\<rparr>) (u_jetties ctx)\<rparr>
               in
               (case enc of
                  Inl e \<Rightarrow> (ctx1, [], Inl e)
                | Inr (ct, tag) \<Rightarrow>
                    let (dev2, bs, r) = send_sync (protected_packet ctx j rsid roff ct tag seq) cs dev in
                    (ctx1\<lparr>u_device := dev2\<rparr>, bs,
                     rbind r (\<lambda>resp.
                       if opcode resp \<noteq> OP_RESP_OK then Inl (failure ''CIP Secure Write rejected: '' ''CIP Write failed'' resp)
                       else latency_field resp))))
      | _ \<Rightarrow> (ctx, [], Inl foreign_handle))"

definition u_close :: "urma_context \<Rightarrow> urma_context" where
  "u_close ctx = ctx\<lparr>u_device := close_device (u_device ctx)\<rparr>"

section \<open>Calls that are answered\<close>

text \<open>What an answered call leaves behind.\<close>

definition after_call :: "ub_device \<Rightarrow> ub_device" where
  "after_call dev = dev\<lparr>dev_seq := dev_seq dev + 1, pending_replies := dict_del (dev_seq dev) (pending_replies dev)\<rparr>"

lemma ready_after_call [simp]: "ready (after_call dev) = ready dev"
  by (simp add: ready_def after_call_def)

lemma call_sync_answered:
  assumes "ready dev" "p = mk (dev_seq dev)" "seq_num p = dev_seq dev" "serialize p = Inr bs"
    and "answers (dev_seq dev) r" "wf_packet r" "serialize r = Inr rs" "concat cs = rs" "[] \<notin> set cs"
  shows "call_sync mk cs dev = (after_call dev, bs, Inr r)"
  using send_sync_answered [of "dev\<lparr>dev_seq := dev_seq dev + 1\<rparr>" p bs r rs cs] assms
  by (simp add: call_sync_def get_seq_def after_call_def ready_def)

section \<open>The context's objects\<close>

text \<open>
  Every object is kept under its own id, and all ids handed out so far are below the counters.
\<close>

definition objects_ok :: "('o \<Rightarrow> int) \<Rightarrow> int \<Rightarrow> (int, 'o) dict \<Rightarrow> bool" where
  "objects_ok own nxt d \<longleftrightarrow> dict_ok d \<and> list_all (\<lambda>(i, x). own x = i \<and> 1 \<le> i \<and> i < nxt) d"

definition context_ok :: "urma_context \<Rightarrow> bool" where
  "context_ok ctx \<longleftrightarrow> 1 \<le> u_next_seg ctx \<and> 1 \<le> u_next_jetty ctx
     \<and> objects_ok u_seg_id (u_next_seg ctx) (u_segments ctx) \<and> objects_ok j_local_id (u_next_jetty ctx) (u_jetties ctx)"

lemma in_dict_set: "z \<in> set (dict_set k v d) \<Longrightarrow> z = (k, v) \<or> z \<in> set d"
  by (induction d) (auto split: if_splits)

lemma objects_ok_set:
  "objects_ok own nxt d \<Longrightarrow> own x = i \<Longrightarrow> 1 \<le> i \<Longrightarrow> i < nxt \<Longrightarrow> objects_ok own nxt (dict_set i x d)"
  by (auto simp: objects_ok_def list_all_iff distinct_update dest!: in_dict_set)

lemma objects_ok_adjust:
  "objects_ok own nxt d \<Longrightarrow> (\<And>x. own (f x) = own x) \<Longrightarrow> objects_ok own nxt (dict_adjust i f d)"
  by (auto simp: dict_adjust_def objects_ok_set objects_ok_def list_all_iff split: option.split
      dest!: map_of_SomeD in_dict_set intro: distinct_update)

lemma objects_ok_mono: "objects_ok own nxt d \<Longrightarrow> nxt \<le> nxt' \<Longrightarrow> objects_ok own nxt' d"
  by (auto simp: objects_ok_def list_all_iff)

lemma objects_ok_get: "objects_ok own nxt d \<Longrightarrow> dict_get d i = Some x \<Longrightarrow> own x = i \<and> 1 \<le> i \<and> i < nxt"
  by (auto simp: objects_ok_def list_all_iff dest!: map_of_SomeD)

text \<open>All the methods of a context and its jetties, as calls, with the ids they hand out.\<close>

datatype urma_call =
    is_Register_Segment: Register_Segment seg_source int string "bytes list"
  | Create_Jetty int int int "bytes list"
  | Create_Secure_Jetty int int int
  | Write int int int int int int "bytes list"
  | Read int int int int int int "bytes list"
  | Send int bytes "bytes list"
  | Write_Encrypted int int int int int int "bytes list"
  | Close_Context

definition handed :: "int result \<Rightarrow> int option" where
  "handed r = (case r of Inl e \<Rightarrow> None | Inr i \<Rightarrow> Some i)"

fun urma_step :: "urma_context \<Rightarrow> urma_call \<Rightarrow> urma_context \<times> int option \<times> int option" where
  "urma_step ctx (Register_Segment src token perm cs) =
     (case u_register_segment src token perm cs ctx of (ctx1, _, r) \<Rightarrow> (ctx1, handed r, None))"
| "urma_step ctx (Create_Jetty rn rid token cs) =
     (case u_create_jetty rn rid token cs ctx of (ctx1, _, r) \<Rightarrow> (ctx1, None, handed r))"
| "urma_step ctx (Create_Secure_Jetty rn rid token) =
     (case create_secure_jetty rn rid token ctx of (ctx1, i) \<Rightarrow> (ctx1, None, Some i))"
| "urma_step ctx (Write j s lo rs ro len cs) = (fst (u_write j s lo rs ro len cs ctx), None, None)"
| "urma_step ctx (Read j s lo rs ro len cs) = (fst (u_read j s lo rs ro len cs ctx), None, None)"
| "urma_step ctx (Send j pay cs) = (fst (u_send j pay cs ctx), None, None)"
| "urma_step ctx (Write_Encrypted j s lo rs ro len cs) = (fst (write_encrypted j s lo rs ro len cs ctx), None, None)"
| "urma_step ctx Close_Context = (u_close ctx, None, None)"

text \<open>The methods in which no id is handed out.\<close>

lemma other_calls_objects:
  "u_next_seg (fst (u_write j s lo rs ro len cs ctx)) = u_next_seg ctx"
  "u_next_jetty (fst (u_write j s lo rs ro len cs ctx)) = u_next_jetty ctx"
  "u_segments (fst (u_write j s lo rs ro len cs ctx)) = u_segments ctx"
  "u_jetties (fst (u_write j s lo rs ro len cs ctx)) = u_jetties ctx"
  "u_next_seg (fst (u_read j s lo rs ro len cs ctx)) = u_next_seg ctx"
  "u_next_jetty (fst (u_read j s lo rs ro len cs ctx)) = u_next_jetty ctx"
  "u_jetties (fst (u_read j s lo rs ro len cs ctx)) = u_jetties ctx"
  "u_next_seg (fst (u_send j pay cs ctx)) = u_next_seg ctx"
  "u_next_jetty (fst (u_send j pay cs ctx)) = u_next_jetty ctx"
  "u_segments (fst (u_send j pay cs ctx)) = u_segments ctx"
  "u_jetties (fst (u_send j pay cs ctx)) = u_jetties ctx"
  "u_next_seg (fst (write_encrypted j s lo rs ro len cs ctx)) = u_next_seg ctx"
  "u_next_jetty (fst (write_encrypted j s lo rs ro len cs ctx)) = u_next_jetty ctx"
  "u_segments (fst (write_encrypted j s lo rs ro len cs ctx)) = u_segments ctx"
  by (auto simp: u_write_def u_read_def u_send_def write_encrypted_def fill_segment_def Let_def
      split: option.split prod.split sum.split)

lemma read_segments:
  "u_segments (fst (u_read j s lo rs ro len cs ctx)) = u_segments ctx
   \<or> (\<exists>bs. u_segments (fst (u_read j s lo rs ro len cs ctx))
        = dict_adjust s (\<lambda>seg. seg\<lparr>u_buffer := py_slice_set (u_buffer seg) lo (lo + len) bs\<rparr>) (u_segments ctx))"
  by (auto simp: u_read_def fill_segment_def Let_def split: option.split prod.split sum.split)

lemma encrypted_jetties:
  "u_jetties (fst (write_encrypted j s lo rs ro len cs ctx)) = u_jetties ctx
   \<or> (\<exists>jt eng. dict_get (u_jetties ctx) j = Some jt
       \<and> u_jetties (fst (write_encrypted j s lo rs ro len cs ctx)) = dict_set j (jt\<lparr>j_cip := Some eng\<rparr>) (u_jetties ctx))"
  by (auto simp: write_encrypted_def Let_def split: option.split prod.split sum.split)

lemma objects_ok_new:
  assumes "objects_ok own nxt d" "1 \<le> nxt" "own x = nxt"
  shows "objects_ok own (nxt + 1) (dict_set nxt x d)"
proof (rule objects_ok_set)
  show "objects_ok own (nxt + 1) d" using objects_ok_mono [OF assms(1)] by simp
qed (use assms in simp_all)

lemma register_objects:
  "u_next_jetty (fst (u_register_segment src token perm cs ctx)) = u_next_jetty ctx"
  "u_jetties (fst (u_register_segment src token perm cs ctx)) = u_jetties ctx"
  by (auto simp: u_register_segment_def Let_def split: sum.split prod.split)

lemma register_segments:
  "u_segments (fst (u_register_segment src token perm cs ctx)) = u_segments ctx
      \<and> u_next_seg (fst (u_register_segment src token perm cs ctx)) \<in> {u_next_seg ctx, u_next_seg ctx + 1}
   \<or> (\<exists>buf. u_segments (fst (u_register_segment src token perm cs ctx))
         = dict_set (u_next_seg ctx) (new_segment (u_next_seg ctx) (int (length buf)) token perm buf) (u_segments ctx)
       \<and> u_next_seg (fst (u_register_segment src token perm cs ctx)) = u_next_seg ctx + 1)"
  by (auto simp: u_register_segment_def Let_def split: sum.split prod.split)

lemma create_jetties:
  "u_segments (fst (u_create_jetty rn rid token cs ctx)) = u_segments ctx"
  "u_next_seg (fst (u_create_jetty rn rid token cs ctx)) = u_next_seg ctx"
  "u_next_jetty (fst (u_create_jetty rn rid token cs ctx)) = u_next_jetty ctx + 1"
  "u_jetties (fst (u_create_jetty rn rid token cs ctx)) = u_jetties ctx
   \<or> u_jetties (fst (u_create_jetty rn rid token cs ctx))
      = dict_set (u_next_jetty ctx) (new_jetty (u_next_jetty ctx) rn rid token None) (u_jetties ctx)"
  by (auto simp: u_create_jetty_def Let_def split: sum.split prod.split)

lemma register_ok: "context_ok ctx \<Longrightarrow> context_ok (fst (u_register_segment src token perm cs ctx))"
  using register_segments [of src token perm cs ctx] objects_ok_new [of u_seg_id "u_next_seg ctx" "u_segments ctx"]
    objects_ok_mono [of u_seg_id "u_next_seg ctx" "u_segments ctx" "u_next_seg ctx + 1"]
  by (auto simp: context_ok_def register_objects)

lemma create_ok: "context_ok ctx \<Longrightarrow> context_ok (fst (u_create_jetty rn rid token cs ctx))"
  using create_jetties(4) [of rn rid token cs ctx] objects_ok_new [of j_local_id "u_next_jetty ctx" "u_jetties ctx"]
    objects_ok_mono [of j_local_id "u_next_jetty ctx" "u_jetties ctx" "u_next_jetty ctx + 1"]
  by (auto simp: context_ok_def create_jetties(1-3))

lemma create_secure_ok: "context_ok ctx \<Longrightarrow> context_ok (fst (create_secure_jetty rn rid token ctx))"
  using objects_ok_new [of j_local_id "u_next_jetty ctx" "u_jetties ctx"]
  by (simp add: context_ok_def create_secure_jetty_def Let_def)

lemma urma_step_ok: "context_ok ctx \<Longrightarrow> context_ok (fst (urma_step ctx c))"
proof (cases c)
  case (Register_Segment src token perm cs)
  assume "context_ok ctx"
  then show ?thesis using register_ok [of ctx src token perm cs] Register_Segment by (auto split: prod.split)
next
  case (Create_Jetty rn rid token cs)
  assume "context_ok ctx"
  then show ?thesis using create_ok [of ctx rn rid token cs] Create_Jetty by (auto split: prod.split)
next
  case (Create_Secure_Jetty rn rid token)
  assume "context_ok ctx"
  then show ?thesis using create_secure_ok [of ctx rn rid token] Create_Secure_Jetty by (auto split: prod.split)
next
  case (Read j s lo rs ro len cs)
  assume ok: "context_ok ctx"
  have "objects_ok u_seg_id (u_next_seg ctx)
      (dict_adjust s (\<lambda>seg. seg\<lparr>u_buffer := py_slice_set (u_buffer seg) lo (lo + len) bs\<rparr>) (u_segments ctx))" for bs
    using ok by (intro objects_ok_adjust) (simp_all add: context_ok_def)
  then show ?thesis
    using ok Read read_segments [of j s lo rs ro len cs ctx] by (auto simp: context_ok_def other_calls_objects)
next
  case (Write_Encrypted j s lo rs ro len cs)
  assume ok: "context_ok ctx"
  have "objects_ok j_local_id (u_next_jetty ctx) (dict_set j (jt\<lparr>j_cip := Some eng\<rparr>) (u_jetties ctx))"
    if "dict_get (u_jetties ctx) j = Some jt" for jt eng
    using ok objects_ok_get [OF _ that] by (auto simp: context_ok_def intro!: objects_ok_set)
  then show ?thesis
    using ok Write_Encrypted encrypted_jetties [of j s lo rs ro len cs ctx]
    by (auto simp: context_ok_def other_calls_objects)
qed (simp_all add: context_ok_def other_calls_objects u_close_def)

lemma register_hands_out:
  "snd (snd (u_register_segment src token perm cs ctx)) = Inr i \<Longrightarrow>
     i = u_next_seg ctx \<and> u_next_seg (fst (u_register_segment src token perm cs ctx)) = i + 1"
  by (auto simp: u_register_segment_def Let_def split: sum.splits prod.splits if_splits)

lemma register_next: "u_next_seg ctx \<le> u_next_seg (fst (u_register_segment src token perm cs ctx))"
  using register_segments [of src token perm cs ctx] by auto

lemma create_hands_out:
  "snd (snd (u_create_jetty rn rid token cs ctx)) = Inr i \<Longrightarrow> i = u_next_jetty ctx"
  by (auto simp: u_create_jetty_def Let_def split: sum.splits prod.splits if_splits)

lemma handed_Some: "handed r = Some i \<longleftrightarrow> r = Inr i"
  by (auto simp: handed_def split: sum.split)

definition segment_step :: "urma_context \<Rightarrow> urma_call \<Rightarrow> urma_context \<times> int option" where
  "segment_step ctx c = (fst (urma_step ctx c), fst (snd (urma_step ctx c)))"

definition jetty_step :: "urma_context \<Rightarrow> urma_call \<Rightarrow> urma_context \<times> int option" where
  "jetty_step ctx c = (fst (urma_step ctx c), snd (snd (urma_step ctx c)))"

lemma segment_step_register:
  "segment_step ctx (Register_Segment src token perm cs) =
     (fst (u_register_segment src token perm cs ctx), handed (snd (snd (u_register_segment src token perm cs ctx))))"
  by (simp add: segment_step_def split: prod.split)

lemma create_secure_fields:
  "u_next_seg (fst (create_secure_jetty rn rid token ctx)) = u_next_seg ctx"
  "u_next_jetty (fst (create_secure_jetty rn rid token ctx)) = u_next_jetty ctx + 1"
  "snd (create_secure_jetty rn rid token ctx) = u_next_jetty ctx"
  by (simp_all add: create_secure_jetty_def Let_def)

lemma segment_step_other:
  assumes "\<not> is_Register_Segment c"
  shows "segment_step ctx c = (fst (urma_step ctx c), None) \<and> u_next_seg (fst (urma_step ctx c)) = u_next_seg ctx"
proof (cases c)
  case (Create_Jetty rn rid token cs)
  then show ?thesis using create_jetties(2) [of rn rid token cs ctx] by (auto simp: segment_step_def split: prod.split)
next
  case (Create_Secure_Jetty rn rid token)
  then show ?thesis using create_secure_fields(1) [of rn rid token ctx] by (auto simp: segment_step_def split: prod.split)
qed (use assms in \<open>simp_all add: segment_step_def other_calls_objects u_close_def\<close>)

interpretation segment_ids: id_allocator segment_step u_next_seg
proof
  fix ctx ctx' :: urma_context and c i
  show "i = u_next_seg ctx \<and> u_next_seg ctx' = i + 1" if "segment_step ctx c = (ctx', Some i)"
    using that register_hands_out [of _ _ _ _ ctx] segment_step_other [of c ctx]
    by (cases c) (auto simp: segment_step_register handed_Some)
  show "u_next_seg ctx \<le> u_next_seg ctx'" if "segment_step ctx c = (ctx', None)"
    using that register_next [of ctx] segment_step_other [of c ctx]
    by (cases c) (auto simp: segment_step_register)
qed

lemma jetty_step_create:
  "jetty_step ctx (Create_Jetty rn rid token cs) =
     (fst (u_create_jetty rn rid token cs ctx), handed (snd (snd (u_create_jetty rn rid token cs ctx))))"
  "jetty_step ctx (Create_Secure_Jetty rn rid token) =
     (fst (create_secure_jetty rn rid token ctx), Some (u_next_jetty ctx))"
  using create_secure_fields(3) [of rn rid token ctx] by (auto simp: jetty_step_def split: prod.split)

definition makes_jetty :: "urma_call \<Rightarrow> bool" where
  "makes_jetty c = (case c of Create_Jetty rn rid token cs \<Rightarrow> True | Create_Secure_Jetty rn rid token \<Rightarrow> True | _ \<Rightarrow> False)"

lemma jetty_step_other:
  assumes "\<not> makes_jetty c"
  shows "jetty_step ctx c = (fst (urma_step ctx c), None) \<and> u_next_jetty (fst (urma_step ctx c)) = u_next_jetty ctx"
proof (cases c)
  case (Register_Segment src token perm cs)
  then show ?thesis using register_objects(1) [of src token perm cs ctx] by (auto simp: jetty_step_def split: prod.split)
qed (use assms in \<open>simp_all add: jetty_step_def other_calls_objects u_close_def makes_jetty_def\<close>)

interpretation jetty_ids: id_allocator jetty_step u_next_jetty
proof
  fix ctx ctx' :: urma_context and c i
  show "i = u_next_jetty ctx \<and> u_next_jetty ctx' = i + 1" if "jetty_step ctx c = (ctx', Some i)"
    using that create_hands_out [of _ _ _ _ ctx] create_jetties(3) [of _ _ _ _ ctx] jetty_step_other [of c ctx]
    by (cases c) (auto simp: jetty_step_create handed_Some create_secure_fields makes_jetty_def)
  show "u_next_jetty ctx \<le> u_next_jetty ctx'" if "jetty_step ctx c = (ctx', None)"
    using that create_jetties(3) [of _ _ _ _ ctx] jetty_step_other [of c ctx]
    by (cases c) (auto simp: jetty_step_create makes_jetty_def)
qed

text \<open>Handles stay valid: no call takes an object away.\<close>

lemma handles_persist:
  "dict_get (u_segments ctx) s \<noteq> None \<Longrightarrow> dict_get (u_segments (fst (urma_step ctx c))) s \<noteq> None"
  "dict_get (u_jetties ctx) j \<noteq> None \<Longrightarrow> dict_get (u_jetties (fst (urma_step ctx c))) j \<noteq> None"
proof -
  show "dict_get (u_segments (fst (urma_step ctx c))) s \<noteq> None" if "dict_get (u_segments ctx) s \<noteq> None"
  proof (cases c)
    case (Register_Segment src token perm cs)
    then show ?thesis using that register_segments [of src token perm cs ctx] by (auto split: prod.split)
  next
    case (Create_Jetty rn rid token cs)
    then show ?thesis using that create_jetties(1) [of rn rid token cs ctx] by (auto split: prod.split)
  next
    case (Read jj ss lo rs ro len cs)
    then show ?thesis using that read_segments [of jj ss lo rs ro len cs ctx] by auto
  qed (use that in \<open>simp_all add: other_calls_objects u_close_def create_secure_jetty_def Let_def\<close>)
  show "dict_get (u_jetties (fst (urma_step ctx c))) j \<noteq> None" if "dict_get (u_jetties ctx) j \<noteq> None"
  proof (cases c)
    case (Register_Segment src token perm cs)
    then show ?thesis using that register_objects(2) [of src token perm cs ctx] by (auto split: prod.split)
  next
    case (Create_Jetty rn rid token cs)
    then show ?thesis using that create_jetties(4) [of rn rid token cs ctx] by (auto split: prod.split)
  next
    case (Write_Encrypted jj ss lo rs ro len cs)
    then show ?thesis using that encrypted_jetties [of jj ss lo rs ro len cs ctx] by auto
  qed (use that in \<open>simp_all add: other_calls_objects u_close_def create_secure_jetty_def Let_def\<close>)
qed

end
