(* ===== verification/Fabric_Handlers.thy ===== *)
theory Fabric_Handlers
  imports Fabric_State
begin

unbundle bit_operations_syntax

text \<open>
  The branches of \<open>UBFabricSwitch._process_packet\<close> (\<open>daemon/fabric.py\<close>), one definition per
  branch, in the order of the code. Each takes the environment, the packet, the node bound to the
  connection so far and the state, and gives the new state, what was written to connections, and
  the reply or the exception. A branch that raises keeps what it changed before.
\<close>

section \<open>Link layer and registration\<close>

definition handle_link_train :: "packet \<Rightarrow> int option \<Rightarrow> fabric \<Rightarrow> outcome" where
  "handle_link_train p cur fab =
     (fab, [], Inr (Some (switch_reply p OP_LINK_TRAIN_ACK
        [(''status'', JStr ''TRAINED''), (''speed_gbps'', JFloat (link_bw_gbps fab)), (''lanes'', JInt 8)]), cur))"

definition handle_credit_update :: "packet \<Rightarrow> int option \<Rightarrow> fabric \<Rightarrow> outcome" where
  "handle_credit_update p cur fab =
     (case dict_get (nodes fab) (src_node p) of
        None \<Rightarrow> (fab, [], Inr (None, cur))
      | Some c \<Rightarrow>
          (case int_get ''credit_delta'' 0 p of
             Inl e \<Rightarrow> (fab, [], Inl e)
           | Inr d \<Rightarrow>
               (fab\<lparr>nodes := dict_set (src_node p) (c\<lparr>credits := credits c + d\<rparr>) (nodes fab)\<rparr>,
                [], Inr (None, cur))))"

definition handle_ping :: "env \<Rightarrow> packet \<Rightarrow> int option \<Rightarrow> fabric \<Rightarrow> outcome" where
  "handle_ping en p cur fab =
     (fab, [], Inr (Some (switch_reply p OP_TRANS_PONG
        [(''timestamp'', JFloat (now en)), (''rtt_ns'', JFloat (fmul (hop_latency_ns fab) 2))]), cur))"

definition handle_reg_node :: "env \<Rightarrow> packet \<Rightarrow> int option \<Rightarrow> fabric \<Rightarrow> outcome" where
  "handle_reg_node en p cur fab =
     (case meta_get ''node_type'' (JStr ''GENERIC_XPU'') p of
        Inl e \<Rightarrow> (fab, [], Inl e)
      | Inr ty \<Rightarrow>
          let c = new_conn (src_node p) ty (me en) (now en) in
          (fab\<lparr>nodes := dict_set (src_node p) c (nodes fab),
               switch_table := register_node (src_node p) (switch_table fab)\<rparr>,
           [],
           Inr (Some (switch_reply p OP_RESP_OK
             [(''status'', JStr ''REGISTERED''), (''link_bw_gbps'', JFloat (link_bw_gbps fab)),
              (''credits'', JInt (credits c))]), Some (src_node p))))"

text \<open>The transmit counters of the sender, updated after the registration branch.\<close>

definition count_tx :: "env \<Rightarrow> packet \<Rightarrow> fabric \<Rightarrow> fabric" where
  "count_tx en p fab =
     fab\<lparr>nodes := dict_adjust (src_node p)
            (\<lambda>c. c\<lparr>tx_flits := tx_flits c + flit_count p, tx_bytes := tx_bytes c + total_bytes p,
                   last_active := now en\<rparr>) (nodes fab)\<rparr>"

definition handle_reg_seg :: "env \<Rightarrow> packet \<Rightarrow> int option \<Rightarrow> fabric \<Rightarrow> outcome" where
  "handle_reg_seg en p cur fab =
     (case rbind (int_index ''segment_id'' p) (\<lambda>sid.
           rbind (int_get ''base_addr'' 0 p) (\<lambda>base.
           rbind (int_index ''size'' p) (\<lambda>sz.
           rbind (str_get ''permissions'' ''RW'' p) (\<lambda>perm. Inr (sid, base, sz, perm)))))
      of Inl e \<Rightarrow> (fab, [], Inl e)
       | Inr (sid, base, sz, perm) \<Rightarrow>
           (case register_segment (src_node p) sid base sz (token_id p) perm (now en) (switch_table fab) of
              (sw, Inl e) \<Rightarrow> (fab\<lparr>switch_table := sw\<rparr>, [], Inl e)
            | (sw, Inr seg) \<Rightarrow>
                (fab\<lparr>switch_table := sw\<rparr>, [],
                 Inr (Some (switch_reply p OP_RESP_OK
                   [(''status'', JStr ''SEGMENT_REGISTERED''), (''segment_id'', JInt (segment_id seg))]), cur))))"

definition handle_create_jetty :: "packet \<Rightarrow> int option \<Rightarrow> fabric \<Rightarrow> outcome" where
  "handle_create_jetty p cur fab =
     (case rbind (int_index ''local_jetty_id'' p) (\<lambda>lid.
           rbind (int_index ''remote_node'' p) (\<lambda>rn.
           rbind (int_index ''remote_jetty_id'' p) (\<lambda>rid. Inr (lid, rn, rid))))
      of Inl e \<Rightarrow> (fab, [], Inl e)
       | Inr (lid, rn, rid) \<Rightarrow>
           (fab\<lparr>switch_table := create_jetty (src_node p) lid rn rid (token_id p) (switch_table fab)\<rparr>, [],
            Inr (Some (switch_reply p OP_RESP_OK
              [(''status'', JStr ''JETTY_CREATED''), (''jetty_id'', JInt lid)]), cur)))"

section \<open>Memory access\<close>

definition count_rx :: "packet \<Rightarrow> ub_conn \<Rightarrow> ub_conn" where
  "count_rx p c = c\<lparr>rx_flits := rx_flits c + flit_count p, rx_bytes := rx_bytes c + total_bytes p\<rparr>"

text \<open>
  Writes. The bound and the length are those of the packet's payload; what is stored is the
  decrypted payload; what is forwarded is the packet itself.
\<close>

definition handle_write :: "env \<Rightarrow> packet \<Rightarrow> bytes \<Rightarrow> int option \<Rightarrow> fabric \<Rightarrow> outcome" where
  "handle_write en p plain cur fab =
     (case rbind (int_index ''segment_id'' p) (\<lambda>sid.
           rbind (int_get ''offset'' 0 p) (\<lambda>off. Inr (sid, off)))
      of Inl e \<Rightarrow> (fab, [], Inl e)
       | Inr (sid, off) \<Rightarrow>
           let len = int (length (payload p));
               (valid, msg) = validate_access (dst_node p) sid off len True (token_id p) (switch_table fab)
           in
           (case transfer_time len fab of
              Inl e \<Rightarrow> (fab, [], Inl e)
            | Inr lat \<Rightarrow>
                if \<not> valid then (fab, [], Inr (Some (error_reply p msg), cur))
                else
                  let (fab1, out) =
                    (case dict_get (nodes fab) (dst_node p) of
                       None \<Rightarrow> (fab, [])
                     | Some c \<Rightarrow>
                         let c1 = count_rx p c;
                             c2 = (if off + len \<le> int (length (local_memory c1))
                                   then c1\<lparr>local_memory := py_slice_set (local_memory c1) off (off + len) plain\<rparr>
                                   else c1)
                         in (fab\<lparr>nodes := dict_set (dst_node p) c2 (nodes fab)\<rparr>, send_quiet en (conn_id c2) p));
                    fab2 = record_event en (if opcode p = OP_URMA_WRITE then ''URMA_WRITE'' else ''CDMA_WRITE'')
                             (src_node p) (dst_node p) len lat
                             (''Write seg '' @ show_int sid @ '' offset '' @ show_int off) fab1
                  in
                  (fab2, out,
                   Inr (Some (node_reply p
                     (if opcode p = OP_URMA_WRITE \<or> opcode p = OP_URMA_WRITE_IMM \<or> opcode p = OP_MEM_WRITE
                      then OP_RESP_OK else OP_CDMA_COMPLETE)
                     [(''status'', JStr ''COMPLETED''), (''bytes_written'', JInt len),
                      (''sim_latency_ns'', JFloat lat)]), cur))))"

text \<open>\<open>b"\x00" * n\<close>: empty when \<open>n\<close> is negative.\<close>

definition zero_bytes :: "int \<Rightarrow> bytes" where
  "zero_bytes n = replicate (nat n) 0"

definition handle_read :: "env \<Rightarrow> packet \<Rightarrow> int option \<Rightarrow> fabric \<Rightarrow> outcome" where
  "handle_read en p cur fab =
     (case rbind (int_index ''segment_id'' p) (\<lambda>sid.
           rbind (int_get ''offset'' 0 p) (\<lambda>off.
           rbind (int_get ''length'' 0 p) (\<lambda>len. Inr (sid, off, len))))
      of Inl e \<Rightarrow> (fab, [], Inl e)
       | Inr (sid, off, len) \<Rightarrow>
           let (valid, msg) = validate_access (dst_node p) sid off len False (token_id p) (switch_table fab) in
           (case transfer_time len fab of
              Inl e \<Rightarrow> (fab, [], Inl e)
            | Inr lat \<Rightarrow>
                if \<not> valid then (fab, [], Inr (Some (error_reply p msg), cur))
                else
                  let read_payload =
                    (case dict_get (nodes fab) (dst_node p) of
                       None \<Rightarrow> zero_bytes len
                     | Some c \<Rightarrow>
                         if off + len \<le> int (length (local_memory c))
                         then py_slice (local_memory c) off (off + len) else zero_bytes len);
                    fab1 = record_event en ''URMA_READ'' (src_node p) (dst_node p) len lat
                             (''Read seg '' @ show_int sid @ '' offset '' @ show_int off) fab
                  in
                  (fab1, [],
                   Inr (Some (ub_packet
                     (if opcode p = OP_URMA_READ then OP_URMA_READ_RESP else OP_MEM_READ_RESP)
                     (dst_node p) (src_node p) 0 0 FLAG_NONE (seq_num p) zero_tag
                     (JObj [(''status'', JStr ''OK''), (''sim_latency_ns'', JFloat lat)]) read_payload), cur))))"

text \<open>
  The value an atomic stores into a cell that held \<open>orig\<close>: nothing for a failed comparison, and
  \<open>struct.pack\<close> raises for a value outside 64 bits; only the addition masks.
\<close>

definition atomic_update :: "packet \<Rightarrow> int \<Rightarrow> bytes option result" where
  "atomic_update p orig =
     (if opcode p = OP_URMA_ATOMIC_CAS \<or> opcode p = OP_MEM_ATOMIC_CAS then
        rbind (int_get ''compare'' 0 p) (\<lambda>cmp.
        rbind (int_get ''swap'' 0 p) (\<lambda>sw.
          if orig = cmp then rbind (pack_uint 8 sw) (\<lambda>b. Inr (Some b)) else Inr None))
      else if opcode p = OP_URMA_ATOMIC_ADD \<or> opcode p = OP_MEM_ATOMIC_ADD then
        rbind (int_get ''add'' 0 p) (\<lambda>a.
        rbind (pack_uint 8 ((orig + a) AND 0xFFFFFFFFFFFFFFFF)) (\<lambda>b. Inr (Some b)))
      else if opcode p = OP_MEM_ATOMIC_AND then
        rbind (int_get ''and'' 0 p) (\<lambda>a. rbind (pack_uint 8 (orig AND a)) (\<lambda>b. Inr (Some b)))
      else if opcode p = OP_MEM_ATOMIC_OR then
        rbind (int_get ''or'' 0 p) (\<lambda>a. rbind (pack_uint 8 (orig OR a)) (\<lambda>b. Inr (Some b)))
      else if opcode p = OP_MEM_ATOMIC_SWAP then
        rbind (int_get ''swap'' 0 p) (\<lambda>sw. rbind (pack_uint 8 sw) (\<lambda>b. Inr (Some b)))
      else Inr None)"

text \<open>
  An atomic on the connection of the target: the original value and the new connection. A target
  that is not attached, or a cell past its memory, reads as 0 and stores nothing.
\<close>

definition atomic_apply :: "packet \<Rightarrow> int \<Rightarrow> fabric \<Rightarrow> (fabric \<times> int) result" where
  "atomic_apply p off fab =
     (case dict_get (nodes fab) (dst_node p) of
        None \<Rightarrow> Inr (fab, 0)
      | Some c \<Rightarrow>
          if off + 8 \<le> int (length (local_memory c)) then
            let orig = be_val (py_slice (local_memory c) off (off + 8)) in
            rbind (atomic_update p orig) (\<lambda>u.
              case u of
                None \<Rightarrow> Inr (fab, orig)
              | Some b \<Rightarrow>
                  Inr (fab\<lparr>nodes := dict_set (dst_node p)
                              (c\<lparr>local_memory := py_slice_set (local_memory c) off (off + 8) b\<rparr>) (nodes fab)\<rparr>,
                       orig))
          else Inr (fab, 0))"

definition handle_atomic :: "env \<Rightarrow> packet \<Rightarrow> int option \<Rightarrow> fabric \<Rightarrow> outcome" where
  "handle_atomic en p cur fab =
     (case rbind (int_index ''segment_id'' p) (\<lambda>sid.
           rbind (int_get ''offset'' 0 p) (\<lambda>off. Inr (sid, off)))
      of Inl e \<Rightarrow> (fab, [], Inl e)
       | Inr (sid, off) \<Rightarrow>
           let (valid, msg) = validate_access (dst_node p) sid off 8 True (token_id p) (switch_table fab) in
           if \<not> valid then (fab, [], Inr (Some (error_reply p msg), cur))
           else
             (case atomic_apply p off fab of
                Inl e \<Rightarrow> (fab, [], Inl e)
              | Inr (fab1, orig) \<Rightarrow>
                  (case transfer_time 8 fab of
                     Inl e \<Rightarrow> (fab1, [], Inl e)
                   | Inr lat \<Rightarrow>
                       (record_event en ''ATOMIC_OP'' (src_node p) (dst_node p) 8 lat
                          (''Atomic op 0x'' @ show_hex2 (opcode p) @ '' on seg '' @ show_int sid) fab1,
                        [],
                        Inr (Some (node_reply p
                          (if opcode p = OP_URMA_ATOMIC_CAS \<or> opcode p = OP_URMA_ATOMIC_ADD
                           then OP_URMA_ATOMIC_RESP else OP_MEM_ATOMIC_RESP)
                          [(''status'', JStr ''OK''), (''orig_value'', JInt orig),
                           (''sim_latency_ns'', JFloat lat)]), cur)))))"

section \<open>Coherence, sockets and calls\<close>

definition handle_coherence :: "env \<Rightarrow> packet \<Rightarrow> int option \<Rightarrow> fabric \<Rightarrow> outcome" where
  "handle_coherence en p cur fab =
     (case rbind (int_get ''line_addr'' 0 p) (\<lambda>line. rbind (transfer_time 64 fab) (\<lambda>lat. Inr (line, lat)))
      of Inl e \<Rightarrow> (fab, [], Inl e)
       | Inr (line, lat) \<Rightarrow>
           (record_event en ''CACHE_COHERENCE'' (src_node p) (dst_node p) 64 lat
              (''Coherence 0x'' @ show_hex2 (opcode p) @ '' line 0x'' @ show_hex line) fab,
            [],
            Inr (Some (node_reply p OP_SNOOP_RESP
              [(''status'', JStr ''COHERENCE_ACK''), (''state'', JStr ''INVALID''),
               (''sim_latency_ns'', JFloat lat)]), cur)))"

text \<open>
  The two relaying branches: the packet goes to the target if it is attached, errors of the relay are
  swallowed, then the event's description is built from a metadata field of any type.
\<close>

definition relay_to_target :: "env \<Rightarrow> packet \<Rightarrow> fabric \<Rightarrow> sent list" where
  "relay_to_target en p fab =
     (case dict_get (nodes fab) (dst_node p) of None \<Rightarrow> [] | Some c \<Rightarrow> send_quiet en (conn_id c) p)"

definition handle_ums :: "env \<Rightarrow> packet \<Rightarrow> int option \<Rightarrow> fabric \<Rightarrow> outcome" where
  "handle_ums en p cur fab =
     (case transfer_time (int (length (payload p))) fab of
        Inl e \<Rightarrow> (fab, [], Inl e)
      | Inr lat \<Rightarrow>
          let out = relay_to_target en p fab in
          (case rbind (meta_get ''port'' (JInt 0) p) py_str of
             Inl e \<Rightarrow> (fab, out, Inl e)
           | Inr port \<Rightarrow>
               (record_event en ''UMS_SOCKET'' (src_node p) (dst_node p) (int (length (payload p))) lat
                  (''UMS Op 0x'' @ show_hex2 (opcode p) @ '' port '' @ port) fab,
                out,
                Inr (Some (node_reply p OP_RESP_OK
                  [(''status'', JStr ''UMS_ACK''), (''sim_latency_ns'', JFloat lat)]), cur))))"

definition handle_urpc :: "env \<Rightarrow> packet \<Rightarrow> int option \<Rightarrow> fabric \<Rightarrow> outcome" where
  "handle_urpc en p cur fab =
     (case transfer_time (int (length (payload p))) fab of
        Inl e \<Rightarrow> (fab, [], Inl e)
      | Inr lat \<Rightarrow>
          let out = relay_to_target en p fab in
          (case rbind (meta_get ''method'' (JStr []) p) py_str of
             Inl e \<Rightarrow> (fab, out, Inl e)
           | Inr meth \<Rightarrow>
               (record_event en ''URPC_UMQ'' (src_node p) (dst_node p) (int (length (payload p))) lat
                  (''URPC/UMQ Op 0x'' @ show_hex2 (opcode p) @ '' method '' @ meth) fab,
                out,
                Inr (Some (node_reply p OP_RESP_OK
                  [(''status'', JStr ''RPC_DISPATCHED''), (''sim_latency_ns'', JFloat lat)]), cur))))"

section \<open>Memory pools\<close>

text \<open>
  After the export the size is logged in megabytes, by a true division of integers that raises when
  the quotient is no finite float.
\<close>

definition megabytes_finite :: "int \<Rightarrow> bool" where
  "megabytes_finite n \<longleftrightarrow> \<bar>n\<bar> < (2 ^ 1024 - 2 ^ 970) * 2 ^ 20"

definition handle_export :: "env \<Rightarrow> packet \<Rightarrow> int option \<Rightarrow> fabric \<Rightarrow> outcome" where
  "handle_export en p cur fab =
     (case rbind (int_index ''size'' p) (\<lambda>sz.
           rbind (str_get ''permissions'' ''RW'' p) (\<lambda>perm. Inr (sz, perm)))
      of Inl e \<Rightarrow> (fab, [], Inl e)
       | Inr (sz, perm) \<Rightarrow>
           (case export_memory_pool (src_node p) sz (token_id p) perm (now en) (switch_table fab) of
              (sw, Inl e) \<Rightarrow> (fab\<lparr>switch_table := sw\<rparr>, [], Inl e)
            | (sw, Inr pid) \<Rightarrow>
                if \<not> megabytes_finite sz then (fab\<lparr>switch_table := sw\<rparr>, [], Inl OverflowError)
                else
                  (fab\<lparr>switch_table := sw\<rparr>, [],
                   Inr (Some (switch_reply p OP_RESP_OK
                     [(''pool_id'', JInt pid), (''size'', JInt sz)]), cur))))"

definition handle_import :: "packet \<Rightarrow> int option \<Rightarrow> fabric \<Rightarrow> outcome" where
  "handle_import p cur fab =
     (case int_index ''pool_id'' p of
        Inl e \<Rightarrow> (fab, [], Inl e)
      | Inr pid \<Rightarrow>
          (case import_memory_pool (src_node p) pid (token_id p) (switch_table fab) of
             None \<Rightarrow>
               (fab, [], Inr (Some (error_reply p
                  (''Failed to import pool 0x'' @ show_hex pid @ '' (invalid pool ID or token mismatch)'')), cur))
           | Some seg \<Rightarrow>
               (fab, [], Inr (Some (switch_reply p OP_RESP_OK
                  [(''pool_id'', JInt pid), (''target_node'', JInt (seg_node seg)),
                   (''segment_id'', JInt (segment_id seg)), (''size'', JInt (seg_size seg)),
                   (''permissions'', JStr (permissions seg))]), cur))))"

section \<open>Emergencies\<close>

text \<open>Every attached node but the sender gets the packet, in the order of the node dictionary.\<close>

definition broadcast :: "env \<Rightarrow> packet \<Rightarrow> fabric \<Rightarrow> sent list" where
  "broadcast en p fab =
     concat (map (\<lambda>(n, c). if n \<noteq> src_node p then send_quiet en (conn_id c) p else []) (nodes fab))"

definition handle_sentry :: "env \<Rightarrow> packet \<Rightarrow> int option \<Rightarrow> fabric \<Rightarrow> outcome" where
  "handle_sentry en p cur fab =
     (case meta_get ''reason'' (JStr ''Emergency Event'') p of
        Inl e \<Rightarrow> (fab, [], Inl e)
      | Inr reason \<Rightarrow>
          let ev = JObj [(''node'', JInt (src_node p)), (''op'', JInt (opcode p)), (''reason'', reason),
                         (''time'', JFloat (now en))];
              fab1 = fab\<lparr>sentry_events := sentry_events fab @ [ev]\<rparr>
          in
          (fab1, broadcast en p fab1,
           Inr (Some (switch_reply p OP_RESP_OK
             [(''status'', JStr ''EMERGENCY_CONTAINED''), (''action'', JStr ''BLOCKED'')]), cur)))"

section \<open>Telemetry\<close>

definition topology_node :: "env \<Rightarrow> int \<times> ub_conn \<Rightarrow> json" where
  "topology_node en nc =
     (case nc of (n, c) \<Rightarrow>
        JObj [(''node_id'', JInt n), (''node_type'', node_type c), (''tx_flits'', JInt (tx_flits c)),
              (''rx_flits'', JInt (rx_flits c)), (''tx_bytes'', JInt (tx_bytes c)),
              (''rx_bytes'', JInt (rx_bytes c)), (''credits'', JInt (credits c)),
              (''uptime_sec'', JFloat (fround 1 (fsub (now en) (connected_at c))))])"

definition topology_pool :: "int \<times> ub_segment \<Rightarrow> json" where
  "topology_pool pp =
     (case pp of (pid, seg) \<Rightarrow>
        JObj [(''pool_id'', JInt pid), (''owner_node'', JInt (seg_node seg)),
              (''size_bytes'', JInt (seg_size seg)), (''token_id'', JInt (seg_token seg)),
              (''permissions'', JStr (permissions seg))])"

definition handle_topology :: "env \<Rightarrow> packet \<Rightarrow> int option \<Rightarrow> fabric \<Rightarrow> outcome" where
  "handle_topology en p cur fab =
     (fab, [], Inr (Some (switch_reply p OP_RESP_OK
        [(''switch'', JStr ''UB-SuperPoD-Switch-0''), (''link_bw_gbps'', JFloat (link_bw_gbps fab)),
         (''nodes'', JList (map (topology_node en) (nodes fab))),
         (''memory_pools'', JList (map topology_pool (memory_pools (switch_table fab))))]), cur))"

definition handle_stats :: "packet \<Rightarrow> int option \<Rightarrow> fabric \<Rightarrow> outcome" where
  "handle_stats p cur fab =
     (fab, [], Inr (Some (switch_reply p OP_RESP_OK
        [(''total_packets'', JInt (total_packets_routed fab)), (''total_flits'', JInt (total_flits_routed fab)),
         (''total_bytes'', JInt (total_bytes_transferred fab)), (''active_nodes'', JInt (int (length (nodes fab)))),
         (''cip_security'', JObj
            [(''cipher_suite'', JStr ''AES_256_GCM''),
             (''encrypted_packets'', JInt (total_encrypted_packets (cip fab))),
             (''decrypted_packets'', JInt (total_decrypted_packets (cip fab))),
             (''tamper_rejections'', JInt (total_tamper_rejections (cip fab))),
             (''replay_rejections'', JInt (total_replay_rejections (cip fab)))]),
         (''emergency_events'', JList (sentry_events fab)),
         (''recent_events'', JList (py_slice_from (recent_events fab) (- 20)))]), cur))"

section \<open>Forwarding\<close>

text \<open>Here the errors of the relay are not caught: the counters stay and the exception goes up.\<close>

definition handle_forward :: "env \<Rightarrow> packet \<Rightarrow> int option \<Rightarrow> fabric \<Rightarrow> outcome" where
  "handle_forward en p cur fab =
     (case dict_get (nodes fab) (dst_node p) of
        None \<Rightarrow> (fab, [], Inr (None, cur))
      | Some c \<Rightarrow>
          let fab1 = fab\<lparr>nodes := dict_set (dst_node p) (count_rx p c) (nodes fab)\<rparr> in
          (case send_raising en (conn_id c) p of
             Inl e \<Rightarrow> (fab1, [], Inl e)
           | Inr out \<Rightarrow>
               (fab1, out, Inr (Some (node_reply p OP_RESP_OK [(''status'', JStr ''FORWARDED'')]), cur))))"

end
