(* ===== verification/Fabric.thy ===== *)
theory Fabric
  imports Fabric_Handlers
begin

text \<open>
  \<open>_process_packet\<close> and \<open>_handle_client\<close> of \<open>daemon/fabric.py\<close>: the dispatch over the
  branches of \<open>Fabric_Handlers\<close>, the loop over the frames of a chunk, the cleanup of a connection,
  and the daemon as a whole as steps of its connections. Handling one packet is atomic: the only
  suspension inside it is \<open>drain\<close>, which returns at once while the transport's buffer is below its
  limit.
\<close>

section \<open>One packet\<close>

definition count_packet :: "packet \<Rightarrow> fabric \<Rightarrow> fabric" where
  "count_packet p fab =
     fab\<lparr>total_packets_routed := total_packets_routed fab + 1,
         total_flits_routed := total_flits_routed fab + flit_count p,
         total_bytes_transferred := total_bytes_transferred fab + total_bytes p\<rparr>"

text \<open>The branches after the registration branch, in the order of the code.\<close>

definition dispatch :: "env \<Rightarrow> packet \<Rightarrow> bytes \<Rightarrow> int option \<Rightarrow> fabric \<Rightarrow> outcome" where
  "dispatch en p plain cur fab =
     (let opc = opcode p in
      if opc = OP_REG_SEG then handle_reg_seg en p cur fab
      else if opc = OP_CREATE_JETTY then handle_create_jetty p cur fab
      else if opc \<in> {OP_URMA_WRITE, OP_URMA_WRITE_IMM, OP_CDMA_SUBMIT, OP_MEM_WRITE}
        then handle_write en p plain cur fab
      else if opc \<in> {OP_URMA_READ, OP_MEM_READ} then handle_read en p cur fab
      else if opc \<in> {OP_URMA_ATOMIC_CAS, OP_URMA_ATOMIC_ADD, OP_MEM_ATOMIC_CAS, OP_MEM_ATOMIC_ADD,
                    OP_MEM_ATOMIC_AND, OP_MEM_ATOMIC_OR, OP_MEM_ATOMIC_SWAP}
        then handle_atomic en p cur fab
      else if opc \<in> {OP_SNOOP_REQ, OP_CACHE_WB, OP_CACHE_EVICT} then handle_coherence en p cur fab
      else if opc \<in> {OP_UMS_SYN, OP_UMS_SYN_ACK, OP_UMS_DATA, OP_UMS_ACK, OP_UMS_FIN}
        then handle_ums en p cur fab
      else if opc \<in> {OP_URPC_CALL, OP_URPC_RETURN, OP_UMQ_PUB, OP_UMQ_SUB}
        then handle_urpc en p cur fab
      else if opc = OP_OBMM_EXPORT then handle_export en p cur fab
      else if opc = OP_OBMM_IMPORT then handle_import p cur fab
      else if opc \<in> {OP_SENTRY_OOM_BLOCK, OP_SENTRY_PANIC_BLOCK, OP_SENTRY_REBOOT_NOTIFY}
        then handle_sentry en p cur fab
      else if opc = OP_QUERY_TOPOLOGY then handle_topology en p cur fab
      else if opc = OP_QUERY_STATS then handle_stats p cur fab
      else handle_forward en p cur fab)"

definition process_plain :: "env \<Rightarrow> packet \<Rightarrow> bytes \<Rightarrow> int option \<Rightarrow> fabric \<Rightarrow> outcome" where
  "process_plain en p plain cur fab =
     (let opc = opcode p in
      if opc = OP_LINK_TRAIN_REQ then handle_link_train p cur fab
      else if opc = OP_LINK_CREDIT_UPDATE then handle_credit_update p cur fab
      else if opc = OP_TRANS_PING then handle_ping en p cur fab
      else if opc = OP_REG_NODE then handle_reg_node en p cur fab
      else dispatch en p plain cur (count_tx en p fab))"

text \<open>The CIP check comes first, for every opcode.\<close>

definition process_packet :: "env \<Rightarrow> packet \<Rightarrow> int option \<Rightarrow> fabric \<Rightarrow> outcome" where
  "process_packet en p cur fab0 =
     (let fab = count_packet p fab0 in
      if is_cip_encrypted p then
        (case decrypt_and_verify (cip fab) (payload p) (auth_tag p) (token_id p) (seq_num p) (src_node p) of
           (eng, Inl e) \<Rightarrow> (fab\<lparr>cip := eng\<rparr>, [], Inl e)
         | (eng, Inr (valid, plain, err_msg)) \<Rightarrow>
             if \<not> valid then (fab\<lparr>cip := eng\<rparr>, [], Inr (Some (error_reply p err_msg), cur))
             else process_plain en p plain cur (fab\<lparr>cip := eng\<rparr>))
      else process_plain en p (payload p) cur fab)"

section \<open>One client\<close>

text \<open>The handler's local variables: the unread bytes and the node registered on the connection.\<close>

record client =
  client_buffer :: bytes
  current_node :: "int option"

definition new_client :: client where
  "new_client = \<lparr>client_buffer = [], current_node = None\<rparr>"

text \<open>
  Processing one packet and writing its reply to the connection it came from. If \<open>_process_packet\<close>
  raises, the connection's node is not reassigned.
\<close>

definition serve_packet ::
  "env \<Rightarrow> packet \<Rightarrow> int option \<Rightarrow> fabric \<Rightarrow> fabric \<times> sent list \<times> int option \<times> py_error option"
where
  "serve_packet en p cur fab =
     (case process_packet en p cur fab of
        (fab1, out, Inl e) \<Rightarrow> (fab1, out, cur, Some e)
      | (fab1, out, Inr (None, cur1)) \<Rightarrow> (fab1, out, cur1, None)
      | (fab1, out, Inr (Some resp, cur1)) \<Rightarrow>
          (case send_raising en (me en) resp of
             Inl e \<Rightarrow> (fab1, out, cur1, Some e)
           | Inr reply \<Rightarrow> (fab1, out @ reply, cur1, None)))"

lemma consumed_shrinks:
  "deserialize_from_buffer buf = Inr (Some p, n) \<Longrightarrow> length buf - n < length buf"
  using deserialize_consumed [of buf p n] by auto

text \<open>The inner loop of \<open>_handle_client\<close>.\<close>

function client_loop ::
  "env \<Rightarrow> client \<Rightarrow> fabric \<Rightarrow> fabric \<times> sent list \<times> client \<times> py_error option"
where
  "client_loop en cl fab =
     (case deserialize_from_buffer (client_buffer cl) of
        Inl e \<Rightarrow> (fab, [], cl, Some e)
      | Inr (None, n) \<Rightarrow> (fab, [], cl, None)
      | Inr (Some p, n) \<Rightarrow>
          (case serve_packet en p (current_node cl) fab of
             (fab1, out, cur1, err) \<Rightarrow>
               let cl1 = \<lparr>client_buffer = drop n (client_buffer cl), current_node = cur1\<rparr> in
               (case err of
                  Some e \<Rightarrow> (fab1, out, cl1, Some e)
                | None \<Rightarrow>
                    (case client_loop en cl1 fab1 of
                       (fab2, out2, cl2, err2) \<Rightarrow> (fab2, out @ out2, cl2, err2)))))"
  by pat_completeness auto
termination
  by (relation "measure (\<lambda>(en, cl, fab). length (client_buffer cl))")
    (auto intro: consumed_shrinks)

declare client_loop.simps [simp del]

text \<open>A chunk from the socket.\<close>

definition client_chunk ::
  "env \<Rightarrow> bytes \<Rightarrow> client \<Rightarrow> fabric \<Rightarrow> fabric \<times> sent list \<times> client \<times> py_error option"
where
  "client_chunk en chunk cl fab = client_loop en (cl\<lparr>client_buffer := client_buffer cl @ chunk\<rparr>) fab"

text \<open>The \<open>finally\<close> block: the node last registered on the connection is detached.\<close>

definition client_cleanup :: "client \<Rightarrow> fabric \<Rightarrow> fabric" where
  "client_cleanup cl fab =
     (case current_node cl of
        None \<Rightarrow> fab
      | Some n \<Rightarrow>
          if dict_get (nodes fab) n = None then fab
          else fab\<lparr>nodes := dict_del n (nodes fab), switch_table := unregister_node n (switch_table fab)\<rparr>)"

section \<open>The daemon\<close>

record server =
  daemon :: fabric
  clients :: "(nat, client) dict"

definition new_server :: "pyfloat \<Rightarrow> pyfloat \<Rightarrow> server" where
  "new_server bw hop = \<lparr>daemon = new_fabric bw hop, clients = []\<rparr>"

text \<open>
  What happens to the daemon: \<open>start\<close>, \<open>stop\<close>, a new connection, and a completed \<open>read\<close> on a
  connection at a time, with the set of connections that are gone by then. An empty chunk is the end
  of the stream.
\<close>

datatype server_event =
    Start
  | Stop
  | Connect nat
  | Receive nat bytes pyfloat "nat \<Rightarrow> bool"

text \<open>
  A handler leaves its loop at the end of the stream, on an exception, or when the daemon was stopped
  while it waited or worked; leaving runs the cleanup.
\<close>

definition close_client :: "nat \<Rightarrow> client \<Rightarrow> server \<Rightarrow> server" where
  "close_client cid cl sv =
     sv\<lparr>daemon := client_cleanup cl (daemon sv), clients := dict_del cid (clients sv)\<rparr>"

fun server_step :: "server \<Rightarrow> server_event \<Rightarrow> server \<times> sent list" where
  "server_step sv Start = (sv\<lparr>daemon := (daemon sv)\<lparr>running := True\<rparr>\<rparr>, [])"
| "server_step sv Stop = (sv\<lparr>daemon := (daemon sv)\<lparr>running := False\<rparr>\<rparr>, [])"
| "server_step sv (Connect cid) =
     (if dict_get (clients sv) cid \<noteq> None \<or> \<not> running (daemon sv) then (sv, [])
      else (sv\<lparr>clients := dict_set cid new_client (clients sv)\<rparr>, []))"
| "server_step sv (Receive cid chunk tm gone) =
     (case dict_get (clients sv) cid of
        None \<Rightarrow> (sv, [])
      | Some cl \<Rightarrow>
          if chunk = [] then (close_client cid cl sv, [])
          else
            (case client_chunk \<lparr>now = tm, me = cid, lost = gone\<rparr> chunk cl (daemon sv) of
               (fab, out, cl1, err) \<Rightarrow>
                 let sv1 = sv\<lparr>daemon := fab\<rparr> in
                 if err \<noteq> None \<or> \<not> running fab then (close_client cid cl1 sv1, out)
                 else (sv1\<lparr>clients := dict_set cid cl1 (clients sv1)\<rparr>, out)))"

inductive reachable_server :: "pyfloat \<Rightarrow> pyfloat \<Rightarrow> server \<Rightarrow> bool" for bw hop where
  reachable_init: "reachable_server bw hop (new_server bw hop)"
| reachable_step: "reachable_server bw hop sv \<Longrightarrow> reachable_server bw hop (fst (server_step sv ev))"

end
