(* ===== verification/Fabric_Inv.thy ===== *)
theory Fabric_Inv
  imports Fabric
begin

text \<open>
  The invariant of the daemon and its preservation by every branch of the dispatch, by the client
  loop, and by every step of the daemon, so that it holds in every reachable state.
\<close>

section \<open>The invariant\<close>

definition conn_ok :: "int \<Rightarrow> ub_conn \<Rightarrow> bool" where
  "conn_ok n c \<longleftrightarrow> conn_node c = n \<and> length (local_memory c) = LOCAL_MEMORY_SIZE"

definition nodes_ok :: "(int, ub_conn) dict \<Rightarrow> bool" where
  "nodes_ok ns \<longleftrightarrow> dict_ok ns \<and> (\<forall>n c. dict_get ns n = Some c \<longrightarrow> conn_ok n c)"

text \<open>Every attached node has an entry in the table, so it is never reported as not found.\<close>

definition nodes_known :: "(int, ub_conn) dict \<Rightarrow> ub_switch \<Rightarrow> bool" where
  "nodes_known ns sw \<longleftrightarrow> (\<forall>n. dict_get ns n \<noteq> None \<longrightarrow> dict_get (segments sw) n \<noteq> None)"

definition fabric_ok :: "fabric \<Rightarrow> bool" where
  "fabric_ok fab \<longleftrightarrow>
     switch_ok (switch_table fab) \<and> nodes_ok (nodes fab) \<and> nodes_known (nodes fab) (switch_table fab)
     \<and> length (recent_events fab) \<le> 200 \<and> cipher_suite (cip fab) = CIP_SUITE_AES_256_GCM
     \<and> anti_replay_window_size (cip fab) = 64 \<and> (\<exists>S. window_rel (cip fab) S)"

named_theorems ok_intros

lemma new_fabric_ok: "fabric_ok (new_fabric bw hop)"
  using window_rel_new [of CIP_SUITE_AES_256_GCM 64] new_switch_ok
  by (auto simp: fabric_ok_def new_fabric_def nodes_ok_def nodes_known_def)

lemma length_push_event: "length evs \<le> 200 \<Longrightarrow> length (push_event ev evs) \<le> 200"
  by (simp add: push_event_def Let_def)

lemma record_event_ok [ok_intros]: "fabric_ok fab \<Longrightarrow> fabric_ok (record_event en ty src dst n lat desc fab)"
  by (simp add: fabric_ok_def record_event_def length_push_event)

lemma counters_ok [simp]:
  "fabric_ok (fab\<lparr>total_packets_routed := a\<rparr>) = fabric_ok fab"
  "fabric_ok (fab\<lparr>total_flits_routed := a\<rparr>) = fabric_ok fab"
  "fabric_ok (fab\<lparr>total_bytes_transferred := a\<rparr>) = fabric_ok fab"
  "fabric_ok (fab\<lparr>sentry_events := evs\<rparr>) = fabric_ok fab"
  "fabric_ok (fab\<lparr>running := b\<rparr>) = fabric_ok fab"
  by (simp_all add: fabric_ok_def)

lemma set_node_ok:
  assumes "fabric_ok fab" "dict_get (nodes fab) n = Some c" "conn_ok n c'"
  shows "fabric_ok (fab\<lparr>nodes := dict_set n c' (nodes fab)\<rparr>)"
  using assms by (auto simp: fabric_ok_def nodes_ok_def nodes_known_def split: if_splits)

lemma attached_ok: "fabric_ok fab \<Longrightarrow> dict_get (nodes fab) n = Some c \<Longrightarrow> conn_ok n c"
  by (auto simp: fabric_ok_def nodes_ok_def)

text \<open>The table may change as long as it forgets no node.\<close>

lemma set_switch_ok:
  assumes "fabric_ok fab" "switch_ok sw"
    and "\<And>n. dict_get (segments (switch_table fab)) n \<noteq> None \<Longrightarrow> dict_get (segments sw) n \<noteq> None"
  shows "fabric_ok (fab\<lparr>switch_table := sw\<rparr>)"
  using assms by (auto simp: fabric_ok_def nodes_known_def)

lemma register_node_keeps: "dict_get (segments sw) m \<noteq> None \<Longrightarrow> dict_get (segments (register_node n sw)) m \<noteq> None"
  by (simp add: register_node_get)

lemma register_segment_keeps:
  "dict_get (segments sw) m \<noteq> None \<Longrightarrow>
     dict_get (segments (fst (register_segment n sid base sz token perm tm sw))) m \<noteq> None"
  by (auto simp: register_segment_def Let_def register_node_get split: sum.split)

lemma export_memory_pool_keeps:
  "dict_get (segments sw) m \<noteq> None \<Longrightarrow>
     dict_get (segments (fst (export_memory_pool n sz token perm tm sw))) m \<noteq> None"
  using register_segment_keeps [of "sw\<lparr>next_pool_id := next_pool_id sw + 1\<rparr>" m n "next_pool_id sw" 0 sz token perm tm]
  by (auto simp: export_memory_pool_def Let_def split: prod.splits sum.splits)

section \<open>The branches\<close>

text \<open>What \<open>validate_access\<close> lets through starts at a non-negative offset.\<close>

lemma validate_access_offset:
  "validate_access target sid off len w token sw = (True, msg) \<Longrightarrow> 0 \<le> off"
  using validate_access_granted [of target sid off len w token sw] by (auto simp: contains_def)

lemma conn_ok_write:
  assumes "conn_ok n c" "0 \<le> off" "off + int (length bs) \<le> int (length (local_memory c))"
  shows "conn_ok n (c\<lparr>local_memory := py_slice_set (local_memory c) off (off + int (length bs)) bs\<rparr>)"
  using assms by (simp add: conn_ok_def length_py_slice_set)

lemma conn_ok_counters [simp]:
  "conn_ok n (c\<lparr>credits := a\<rparr>) = conn_ok n c" "conn_ok n (count_rx p c) = conn_ok n c"
  "conn_ok n (c\<lparr>tx_flits := a, tx_bytes := b, last_active := t\<rparr>) = conn_ok n c"
  by (simp_all add: conn_ok_def count_rx_def)

lemma count_rx_memory [simp]: "local_memory (count_rx p c) = local_memory c" "conn_id (count_rx p c) = conn_id c"
  by (simp_all add: count_rx_def)

lemma handle_link_train_ok [ok_intros]: "fabric_ok fab \<Longrightarrow> fabric_ok (fst (handle_link_train p cur fab))"
  by (simp add: handle_link_train_def)

lemma handle_credit_update_ok [ok_intros]: "fabric_ok fab \<Longrightarrow> fabric_ok (fst (handle_credit_update p cur fab))"
  by (auto simp: handle_credit_update_def attached_ok intro: set_node_ok split: option.split sum.split)

lemma handle_ping_ok [ok_intros]: "fabric_ok fab \<Longrightarrow> fabric_ok (fst (handle_ping en p cur fab))"
  by (simp add: handle_ping_def)

lemma handle_reg_node_ok [ok_intros]: "fabric_ok fab \<Longrightarrow> fabric_ok (fst (handle_reg_node en p cur fab))"
  by (auto simp: handle_reg_node_def Let_def fabric_ok_def nodes_ok_def nodes_known_def register_node_ok
      register_node_get conn_ok_def new_conn_def split: sum.split)

lemma count_tx_ok [ok_intros]: "fabric_ok fab \<Longrightarrow> fabric_ok (count_tx en p fab)"
  by (auto simp: count_tx_def dict_adjust_def attached_ok intro!: set_node_ok split: option.split)

lemma handle_reg_seg_ok [ok_intros]: "fabric_ok fab \<Longrightarrow> fabric_ok (fst (handle_reg_seg en p cur fab))"
proof -
  assume ok: "fabric_ok fab"
  have "fabric_ok (fab\<lparr>switch_table := fst (register_segment n sid base sz token perm tm (switch_table fab))\<rparr>)"
    for n sid base sz token perm tm
    using ok by (intro set_switch_ok register_segment_keeps register_segment_ok) (auto simp: fabric_ok_def)
  then show ?thesis
    using ok by (auto simp: handle_reg_seg_def split: sum.split prod.split) (metis fst_conv)+
qed

lemma handle_create_jetty_ok [ok_intros]: "fabric_ok fab \<Longrightarrow> fabric_ok (fst (handle_create_jetty p cur fab))"
  by (auto simp: handle_create_jetty_def intro!: set_switch_ok create_jetty_ok split: sum.split prod.split)
    (auto simp: fabric_ok_def create_jetty_def)

lemma handle_read_ok [ok_intros]: "fabric_ok fab \<Longrightarrow> fabric_ok (fst (handle_read en p cur fab))"
  by (auto simp: handle_read_def Let_def intro!: record_event_ok split: sum.split prod.split)

lemma handle_coherence_ok [ok_intros]: "fabric_ok fab \<Longrightarrow> fabric_ok (fst (handle_coherence en p cur fab))"
  by (auto simp: handle_coherence_def intro!: record_event_ok split: sum.split prod.split)

lemma handle_ums_ok [ok_intros]: "fabric_ok fab \<Longrightarrow> fabric_ok (fst (handle_ums en p cur fab))"
  by (auto simp: handle_ums_def Let_def intro!: record_event_ok split: sum.split)

lemma handle_urpc_ok [ok_intros]: "fabric_ok fab \<Longrightarrow> fabric_ok (fst (handle_urpc en p cur fab))"
  by (auto simp: handle_urpc_def Let_def intro!: record_event_ok split: sum.split)

lemma handle_export_ok [ok_intros]: "fabric_ok fab \<Longrightarrow> fabric_ok (fst (handle_export en p cur fab))"
proof -
  assume ok: "fabric_ok fab"
  have "fabric_ok (fab\<lparr>switch_table := fst (export_memory_pool n sz token perm tm (switch_table fab))\<rparr>)"
    for n sz token perm tm
    using ok by (intro set_switch_ok export_memory_pool_keeps export_memory_pool_ok) (auto simp: fabric_ok_def)
  then show ?thesis
    using ok by (auto simp: handle_export_def split: sum.split prod.split) (metis fst_conv)+
qed

lemma handle_import_ok [ok_intros]: "fabric_ok fab \<Longrightarrow> fabric_ok (fst (handle_import p cur fab))"
  by (auto simp: handle_import_def split: sum.split option.split)

lemma handle_sentry_ok [ok_intros]: "fabric_ok fab \<Longrightarrow> fabric_ok (fst (handle_sentry en p cur fab))"
  by (auto simp: handle_sentry_def Let_def split: sum.split)

lemma handle_topology_ok [ok_intros]: "fabric_ok fab \<Longrightarrow> fabric_ok (fst (handle_topology en p cur fab))"
  by (simp add: handle_topology_def)

lemma handle_stats_ok [ok_intros]: "fabric_ok fab \<Longrightarrow> fabric_ok (fst (handle_stats p cur fab))"
  by (simp add: handle_stats_def)

lemma handle_forward_ok [ok_intros]: "fabric_ok fab \<Longrightarrow> fabric_ok (fst (handle_forward en p cur fab))"
  by (auto simp: handle_forward_def Let_def attached_ok intro: set_node_ok split: option.split sum.split)

lemma handle_write_ok [ok_intros]:
  assumes ok: "fabric_ok fab" and len: "length plain = length (payload p)"
  shows "fabric_ok (fst (handle_write en p plain cur fab))"
proof -
  have "conn_ok (dst_node p) ((count_rx p c)\<lparr>local_memory :=
      py_slice_set (local_memory c) off (off + int (length (payload p))) plain\<rparr>)"
    if "dict_get (nodes fab) (dst_node p) = Some c" "0 \<le> off"
      "off + int (length (payload p)) \<le> int (length (local_memory c))" for c off
    using conn_ok_write [of "dst_node p" "count_rx p c" off plain] that attached_ok [OF ok] len by simp
  then show ?thesis
    using ok by (auto simp: handle_write_def Let_def attached_ok dest: validate_access_offset
        intro!: record_event_ok set_node_ok split: sum.split prod.split option.split)
qed

lemma atomic_update_length: "atomic_update p orig = Inr (Some b) \<Longrightarrow> length b = 8"
  by (auto simp: atomic_update_def result_simps dest: u64.enc_width split: if_splits)

lemma atomic_apply_ok:
  assumes "fabric_ok fab" "0 \<le> off" "atomic_apply p off fab = Inr (fab1, orig)"
  shows "fabric_ok fab1"
proof (cases "dict_get (nodes fab) (dst_node p)")
  case None
  then show ?thesis using assms by (simp add: atomic_apply_def)
next
  case (Some c)
  have "fabric_ok (fab\<lparr>nodes := dict_set (dst_node p)
      (c\<lparr>local_memory := py_slice_set (local_memory c) off (off + 8) b\<rparr>) (nodes fab)\<rparr>)"
    if "off + 8 \<le> int (length (local_memory c))" "length b = 8" for b
    using conn_ok_write [OF attached_ok [OF assms(1) Some], of off b] assms that
    by (intro set_node_ok [OF _ Some]) simp_all
  then show ?thesis
    using assms Some
    by (auto simp: atomic_apply_def Let_def result_simps dest!: atomic_update_length split: if_splits option.splits)
qed

lemma handle_atomic_ok [ok_intros]: "fabric_ok fab \<Longrightarrow> fabric_ok (fst (handle_atomic en p cur fab))"
  by (auto simp: handle_atomic_def Let_def dest: validate_access_offset atomic_apply_ok
      intro!: record_event_ok split: sum.split prod.split)

section \<open>The dispatch\<close>

lemma dispatch_ok:
  assumes "fabric_ok fab" "length plain = length (payload p)"
  shows "fabric_ok (fst (dispatch en p plain cur fab))"
  using assms unfolding dispatch_def Let_def
  by (simp only: fst_conv ok_intros simp_thms split: if_split)

lemma process_plain_ok:
  assumes "fabric_ok fab" "length plain = length (payload p)"
  shows "fabric_ok (fst (process_plain en p plain cur fab))"
  using assms unfolding process_plain_def Let_def
  by (simp only: fst_conv ok_intros dispatch_ok simp_thms split: if_split)

text \<open>Successful decryption keeps the length.\<close>

lemma decrypt_length:
  "decrypt_and_verify eng ct tag token seq src = (eng', Inr (True, p, m)) \<Longrightarrow> length p = length ct"
  by (auto simp: decrypt_and_verify_def dest!: keystream_length
      split: if_splits prod.splits sum.splits option.splits)

lemma cip_step_ok:
  assumes "fabric_ok fab"
  shows "fabric_ok (fab\<lparr>cip := fst (decrypt_and_verify (cip fab) ct tag token seq src)\<rparr>)"
proof -
  obtain S where S: "window_rel (cip fab) S" and suite: "cipher_suite (cip fab) = CIP_SUITE_AES_256_GCM"
    using assms by (auto simp: fabric_ok_def)
  have "\<exists>S'. window_rel (fst (decrypt_and_verify (cip fab) ct tag token seq src)) S'"
  proof (cases "ct = []")
    case True
    then show ?thesis using S by (auto simp: decrypt_and_verify_def)
  next
    case ct: False
    have su: "cipher_suite (cip fab) \<noteq> CIP_SUITE_NONE"
      by (simp add: suite CIP_SUITE_AES_256_GCM_def CIP_SUITE_NONE_def)
    show ?thesis
    proof (cases "abstract_refuses (anti_replay_window_size (cip fab)) S seq src")
      case True
      then show ?thesis using decrypt_refused [OF su ct S True, of tag token] S by auto
    next
      case False
      then show ?thesis using decrypt_moves_window [OF su ct S False] by blast
    qed
  qed
  then show ?thesis using assms by (simp add: fabric_ok_def)
qed

lemma process_packet_ok:
  assumes "fabric_ok fab"
  shows "fabric_ok (fst (process_packet en p cur fab))"
proof -
  have c: "fabric_ok (count_packet p fab)" using assms by (simp add: count_packet_def)
  show ?thesis
  proof (cases "is_cip_encrypted p")
    case False
    then show ?thesis using process_plain_ok [OF c] by (simp add: process_packet_def)
  next
    case True
    obtain eng r where d: "decrypt_and_verify (cip (count_packet p fab)) (payload p) (auth_tag p) (token_id p)
        (seq_num p) (src_node p) = (eng, r)" by fastforce
    have "fabric_ok ((count_packet p fab)\<lparr>cip := eng\<rparr>)" using cip_step_ok [OF c] d by (metis fst_conv)
    then show ?thesis
      using True d by (auto simp: process_packet_def Let_def dest: decrypt_length
          intro!: process_plain_ok split: sum.split prod.split)
  qed
qed

section \<open>Clients and the daemon\<close>

lemma serve_packet_ok: "fabric_ok fab \<Longrightarrow> fabric_ok (fst (serve_packet en p cur fab))"
  using process_packet_ok [of fab en p cur]
  by (auto simp: serve_packet_def split: prod.split sum.split option.split)

lemma client_loop_ok: "fabric_ok fab \<Longrightarrow> fabric_ok (fst (client_loop en cl fab))"
proof (induction en cl fab rule: client_loop.induct)
  case (1 en cl fab)
  show ?case
  proof (cases "deserialize_from_buffer (client_buffer cl)")
    case (Inl e)
    then show ?thesis using "1.prems" by (subst client_loop.simps) simp
  next
    case (Inr r)
    obtain q n where r: "r = (q, n)" by (cases r)
    show ?thesis
    proof (cases q)
      case None
      then show ?thesis using "1.prems" Inr r by (subst client_loop.simps) simp
    next
      case (Some p)
      obtain fab1 out cur1 err where sp: "serve_packet en p (current_node cl) fab = (fab1, out, cur1, err)"
        by (metis prod_cases4)
      have ok1: "fabric_ok fab1" using serve_packet_ok [OF "1.prems", of en p "current_node cl"] sp by simp
      show ?thesis
      proof (cases err)
        case None
        show ?thesis
          using "1.IH" [OF Inr r [symmetric] Some sp [symmetric] refl refl refl None ok1] Inr r Some sp None
          by (subst client_loop.simps) (auto simp: Let_def split: prod.split)
      next
        case (Some e)
        then show ?thesis using Inr r \<open>q = Some p\<close> sp ok1 by (subst client_loop.simps) simp
      qed
    qed
  qed
qed

lemma unregister_known:
  "nodes_known ns sw \<Longrightarrow> nodes_known (dict_del n ns) (unregister_node n sw)"
  by (auto simp: nodes_known_def unregister_node_def split: if_splits)

lemma client_cleanup_ok: "fabric_ok fab \<Longrightarrow> fabric_ok (client_cleanup cl fab)"
  using unregister_known unregister_node_ok
  by (auto simp: client_cleanup_def fabric_ok_def nodes_ok_def split: option.split)

lemma server_step_ok: "fabric_ok (daemon sv) \<Longrightarrow> fabric_ok (daemon (fst (server_step sv ev)))"
proof (cases ev)
  case (Receive cid chunk tm gone)
  assume ok: "fabric_ok (daemon sv)"
  have "fabric_ok (fst (client_chunk en chunk cl (daemon sv)))" for en cl
    unfolding client_chunk_def using ok by (rule client_loop_ok)
  then show ?thesis
    using ok Receive by (auto simp: close_client_def Let_def client_cleanup_ok split: option.split prod.split)
      (metis fst_conv client_cleanup_ok)+
qed (simp_all)

lemma reachable_ok: "reachable_server bw hop sv \<Longrightarrow> fabric_ok (daemon sv)"
  by (induction rule: reachable_server.induct) (simp_all add: new_server_def new_fabric_ok server_step_ok)

end
