(* ===== verification/Fabric_Access.thy ===== *)
theory Fabric_Access
  imports Fabric_Inv
begin

unbundle bit_operations_syntax

text \<open>
  Remote memory access through the switch: what writes, reads and atomics do to the memories of the
  nodes and what they answer, over the interface of \<open>Memory\<close>. \<open>mem_of\<close> is the abstraction: the
  memory of every attached node. The requests are described by the fields the handlers read.
\<close>

definition mem_of :: "fabric \<Rightarrow> int \<Rightarrow> bytes option" where
  "mem_of fab n = map_option local_memory (dict_get (nodes fab) n)"

section \<open>The way to the handlers\<close>

lemma process_packet_open:
  "\<not> is_cip_encrypted p \<Longrightarrow> process_packet en p cur fab = process_plain en p (payload p) cur (count_packet p fab)"
  by (simp add: process_packet_def Let_def)

lemma count_packet_simps [simp]:
  "nodes (count_packet p fab) = nodes fab" "switch_table (count_packet p fab) = switch_table fab"
  "cip (count_packet p fab) = cip fab" "link_bw_gbps (count_packet p fab) = link_bw_gbps fab"
  "hop_latency_ns (count_packet p fab) = hop_latency_ns fab" "recent_events (count_packet p fab) = recent_events fab"
  by (simp_all add: count_packet_def)

lemma count_tx_simps [simp]:
  "switch_table (count_tx en p fab) = switch_table fab" "cip (count_tx en p fab) = cip fab"
  "link_bw_gbps (count_tx en p fab) = link_bw_gbps fab" "hop_latency_ns (count_tx en p fab) = hop_latency_ns fab"
  by (simp_all add: count_tx_def)

lemma record_event_simps [simp]:
  "nodes (record_event en ty s d n lat desc fab) = nodes fab"
  "switch_table (record_event en ty s d n lat desc fab) = switch_table fab"
  "cip (record_event en ty s d n lat desc fab) = cip fab"
  by (simp_all add: record_event_def)

lemma mem_of_count [simp]:
  "mem_of (count_packet p fab) = mem_of fab" "mem_of (count_tx en p fab) = mem_of fab"
  "mem_of (record_event en ty s d n lat desc fab) = mem_of fab"
  by (auto simp: mem_of_def count_tx_def fun_eq_iff map_option_case split: option.split)

lemma transfer_time_count [simp]:
  "transfer_time n (count_packet p fab) = transfer_time n fab" "transfer_time n (count_tx en p fab) = transfer_time n fab"
  by (simp_all add: transfer_time_def calculate_transfer_time_ns_def)

definition write_opcodes :: "int set" where
  "write_opcodes = {OP_URMA_WRITE, OP_URMA_WRITE_IMM, OP_CDMA_SUBMIT, OP_MEM_WRITE}"

definition read_opcodes :: "int set" where
  "read_opcodes = {OP_URMA_READ, OP_MEM_READ}"

definition atomic_opcodes :: "int set" where
  "atomic_opcodes = {OP_URMA_ATOMIC_CAS, OP_URMA_ATOMIC_ADD, OP_MEM_ATOMIC_CAS, OP_MEM_ATOMIC_ADD,
     OP_MEM_ATOMIC_AND, OP_MEM_ATOMIC_OR, OP_MEM_ATOMIC_SWAP}"

lemma to_handler:
  "opcode p \<in> write_opcodes \<Longrightarrow> process_plain en p plain cur fab = handle_write en p plain cur (count_tx en p fab)"
  "opcode p \<in> read_opcodes \<Longrightarrow> process_plain en p plain cur fab = handle_read en p cur (count_tx en p fab)"
  "opcode p \<in> atomic_opcodes \<Longrightarrow> process_plain en p plain cur fab = handle_atomic en p cur (count_tx en p fab)"
  by (auto simp: write_opcodes_def read_opcodes_def atomic_opcodes_def process_plain_def dispatch_def Let_def)

section \<open>Requests\<close>

text \<open>An access to a range of a segment, as the handlers read it from the packet.\<close>

definition names_range :: "packet \<Rightarrow> int \<Rightarrow> int \<Rightarrow> bool" where
  "names_range p sid off \<longleftrightarrow> int_index ''segment_id'' p = Inr sid \<and> int_get ''offset'' 0 p = Inr off"

definition granted :: "packet \<Rightarrow> int \<Rightarrow> int \<Rightarrow> int \<Rightarrow> bool \<Rightarrow> fabric \<Rightarrow> bool" where
  "granted p sid off len w fab \<longleftrightarrow> fst (validate_access (dst_node p) sid off len w (token_id p) (switch_table fab))"

lemma granted_validate:
  "granted p sid off len w fab \<Longrightarrow>
     \<exists>msg. validate_access (dst_node p) sid off len w (token_id p) (switch_table fab) = (True, msg)"
  by (cases "validate_access (dst_node p) sid off len w (token_id p) (switch_table fab)") (simp add: granted_def)

lemma granted_offset: "granted p sid off len w fab \<Longrightarrow> 0 \<le> off"
  using granted_validate validate_access_offset by blast

lemma granted_count [simp]:
  "granted p sid off len w (count_packet q fab) = granted p sid off len w fab"
  "granted p sid off len w (count_tx en q fab) = granted p sid off len w fab"
  by (simp_all add: granted_def)

definition write_reply_opcode :: "packet \<Rightarrow> int" where
  "write_reply_opcode p =
     (if opcode p = OP_URMA_WRITE \<or> opcode p = OP_URMA_WRITE_IMM \<or> opcode p = OP_MEM_WRITE
      then OP_RESP_OK else OP_CDMA_COMPLETE)"

definition write_completed :: "packet \<Rightarrow> pyfloat \<Rightarrow> packet" where
  "write_completed p lat = node_reply p (write_reply_opcode p)
     [(''status'', JStr ''COMPLETED''), (''bytes_written'', JInt (int (length (payload p)))),
      (''sim_latency_ns'', JFloat lat)]"

lemma handle_write_granted:
  assumes "names_range p sid off" "granted p sid off (int (length (payload p))) True fab"
    and "transfer_time (int (length (payload p))) fab = Inr lat" "length plain = length (payload p)"
  shows "snd (snd (handle_write en p plain cur fab)) = Inr (Some (write_completed p lat), cur)"
    "mem_of (fst (handle_write en p plain cur fab)) n =
       (if n = dst_node p then map_option (\<lambda>m. if off + int (length (payload p)) \<le> int (length m)
          then mem_write m off plain else m) (mem_of fab n) else mem_of fab n)"
    "switch_table (fst (handle_write en p plain cur fab)) = switch_table fab"
proof -
  obtain msg where v: "validate_access (dst_node p) sid off (int (length (payload p))) True (token_id p)
      (switch_table fab) = (True, msg)"
    using granted_validate [OF assms(2)] by blast
  show "snd (snd (handle_write en p plain cur fab)) = Inr (Some (write_completed p lat), cur)"
    "mem_of (fst (handle_write en p plain cur fab)) n =
       (if n = dst_node p then map_option (\<lambda>m. if off + int (length (payload p)) \<le> int (length m)
          then mem_write m off plain else m) (mem_of fab n) else mem_of fab n)"
    "switch_table (fst (handle_write en p plain cur fab)) = switch_table fab"
    using assms(1,3,4) v
    by (auto simp: handle_write_def names_range_def Let_def write_completed_def write_reply_opcode_def
        mem_of_def mem_write_def split: option.split prod.split)
qed

definition read_completed :: "packet \<Rightarrow> pyfloat \<Rightarrow> bytes \<Rightarrow> packet" where
  "read_completed p lat bs = ub_packet (if opcode p = OP_URMA_READ then OP_URMA_READ_RESP else OP_MEM_READ_RESP)
     (dst_node p) (src_node p) 0 0 FLAG_NONE (seq_num p) zero_tag
     (JObj [(''status'', JStr ''OK''), (''sim_latency_ns'', JFloat lat)]) bs"

definition read_data :: "bytes option \<Rightarrow> int \<Rightarrow> int \<Rightarrow> bytes" where
  "read_data mo off len =
     (case mo of None \<Rightarrow> zero_bytes len
      | Some m \<Rightarrow> if off + len \<le> int (length m) then mem_read m off len else zero_bytes len)"

lemma handle_read_granted:
  assumes "names_range p sid off" "int_get ''length'' 0 p = Inr len" "granted p sid off len False fab"
    and "transfer_time len fab = Inr lat"
  shows "snd (snd (handle_read en p cur fab)) = Inr (Some (read_completed p lat (read_data (mem_of fab (dst_node p)) off len)), cur)"
    "mem_of (fst (handle_read en p cur fab)) = mem_of fab"
proof -
  obtain msg where v: "validate_access (dst_node p) sid off len False (token_id p) (switch_table fab) = (True, msg)"
    using granted_validate [OF assms(3)] by blast
  show "snd (snd (handle_read en p cur fab)) = Inr (Some (read_completed p lat (read_data (mem_of fab (dst_node p)) off len)), cur)"
    using assms v by (simp add: handle_read_def names_range_def Let_def read_completed_def read_data_def
        mem_of_def mem_read_def split: option.split)
  show "mem_of (fst (handle_read en p cur fab)) = mem_of fab"
    using assms v by (simp add: handle_read_def names_range_def Let_def)
qed

section \<open>Refusals\<close>

text \<open>A refused access is answered with the message of \<open>validate_access\<close>; nothing else happens.\<close>

lemma handle_write_refused:
  assumes "names_range p sid off"
    and "validate_access (dst_node p) sid off (int (length (payload p))) True (token_id p) (switch_table fab) = (False, msg)"
    and "transfer_time (int (length (payload p))) fab = Inr lat"
  shows "handle_write en p plain cur fab = (fab, [], Inr (Some (error_reply p msg), cur))"
  using assms by (simp add: handle_write_def names_range_def Let_def)

lemma handle_read_refused:
  assumes "names_range p sid off" "int_get ''length'' 0 p = Inr len"
    and "validate_access (dst_node p) sid off len False (token_id p) (switch_table fab) = (False, msg)"
    and "transfer_time len fab = Inr lat"
  shows "handle_read en p cur fab = (fab, [], Inr (Some (error_reply p msg), cur))"
  using assms by (simp add: handle_read_def names_range_def Let_def)

lemma handle_atomic_refused:
  assumes "names_range p sid off"
    and "validate_access (dst_node p) sid off 8 True (token_id p) (switch_table fab) = (False, msg)"
  shows "handle_atomic en p cur fab = (fab, [], Inr (Some (error_reply p msg), cur))"
  using assms by (simp add: handle_atomic_def names_range_def Let_def)

section \<open>Atomics\<close>

definition atomic_completed :: "packet \<Rightarrow> int \<Rightarrow> pyfloat \<Rightarrow> packet" where
  "atomic_completed p orig lat = node_reply p
     (if opcode p = OP_URMA_ATOMIC_CAS \<or> opcode p = OP_URMA_ATOMIC_ADD then OP_URMA_ATOMIC_RESP else OP_MEM_ATOMIC_RESP)
     [(''status'', JStr ''OK''), (''orig_value'', JInt orig), (''sim_latency_ns'', JFloat lat)]"

lemma handle_atomic_granted:
  assumes "names_range p sid off" "granted p sid off 8 True fab" "transfer_time 8 fab = Inr lat"
    and "mem_of fab (dst_node p) = Some m" "off + 8 \<le> int (length m)"
    and "atomic_update p (ram.cell m off) = Inr u"
  shows "snd (snd (handle_atomic en p cur fab)) = Inr (Some (atomic_completed p (ram.cell m off) lat), cur)"
    "mem_of (fst (handle_atomic en p cur fab)) n =
       (if n = dst_node p then Some (case u of None \<Rightarrow> m | Some b \<Rightarrow> mem_write m off b) else mem_of fab n)"
    "switch_table (fst (handle_atomic en p cur fab)) = switch_table fab"
    "link_bw_gbps (fst (handle_atomic en p cur fab)) = link_bw_gbps fab"
    "hop_latency_ns (fst (handle_atomic en p cur fab)) = hop_latency_ns fab"
proof -
  obtain msg where v: "validate_access (dst_node p) sid off 8 True (token_id p) (switch_table fab) = (True, msg)"
    using granted_validate [OF assms(2)] by blast
  obtain c where c: "dict_get (nodes fab) (dst_node p) = Some c" "local_memory c = m"
    using assms(4) by (auto simp: mem_of_def)
  have cell: "be_val (py_slice m off (off + 8)) = ram.cell m off"
    by (simp add: ram.cell_def mem_read_def)
  have b8: "length b = 8" if "u = Some b" for b
    using assms(6) that atomic_update_length by simp
  have app: "atomic_apply p off fab = Inr (case u of None \<Rightarrow> fab
      | Some b \<Rightarrow> fab\<lparr>nodes := dict_set (dst_node p) (c\<lparr>local_memory := mem_write m off b\<rparr>) (nodes fab)\<rparr>, ram.cell m off)"
    using assms(5,6) c b8 by (cases u) (simp_all add: atomic_apply_def Let_def cell mem_write_def)
  have "link_bw_gbps (case u of None \<Rightarrow> fab
      | Some b \<Rightarrow> fab\<lparr>nodes := dict_set (dst_node p) (c\<lparr>local_memory := mem_write m off b\<rparr>) (nodes fab)\<rparr>) = link_bw_gbps fab"
    by (simp split: option.split)
  then show "snd (snd (handle_atomic en p cur fab)) = Inr (Some (atomic_completed p (ram.cell m off) lat), cur)"
    "mem_of (fst (handle_atomic en p cur fab)) n =
       (if n = dst_node p then Some (case u of None \<Rightarrow> m | Some b \<Rightarrow> mem_write m off b) else mem_of fab n)"
    "switch_table (fst (handle_atomic en p cur fab)) = switch_table fab"
    "link_bw_gbps (fst (handle_atomic en p cur fab)) = link_bw_gbps fab"
    "hop_latency_ns (fst (handle_atomic en p cur fab)) = hop_latency_ns fab"
    using assms(1,3) v app c
    by (auto simp: handle_atomic_def names_range_def Let_def atomic_completed_def record_event_def mem_of_def
        split: option.split)
qed

text \<open>What each atomic stores, in terms of the cell.\<close>

lemma and_u64: "x AND 0xFFFFFFFFFFFFFFFF = x mod (256 :: int) ^ 8"
proof -
  have "x AND 0xFFFFFFFFFFFFFFFF = take_bit 64 x" by (simp add: take_bit_eq_mask mask_eq_exp_minus_1)
  then show ?thesis by (simp add: take_bit_eq_mod)
qed

lemma write_cell: "mem_write m off (be_bytes 8 v) = ram.set_cell m off v"
  by (simp add: ram.set_cell_def)

definition add_opcodes :: "int set" where
  "add_opcodes = {OP_URMA_ATOMIC_ADD, OP_MEM_ATOMIC_ADD}"

definition cas_opcodes :: "int set" where
  "cas_opcodes = {OP_URMA_ATOMIC_CAS, OP_MEM_ATOMIC_CAS}"

lemma sub_opcodes: "add_opcodes \<subseteq> atomic_opcodes" "cas_opcodes \<subseteq> atomic_opcodes"
  by (auto simp: add_opcodes_def cas_opcodes_def atomic_opcodes_def)

lemma atomic_update_add:
  assumes "opcode p \<in> add_opcodes" "int_get ''add'' 0 p = Inr a"
  shows "atomic_update p orig = Inr (Some (be_bytes 8 ((orig + a) mod 256 ^ 8)))"
proof -
  have r: "0 \<le> (orig + a) mod 256 ^ 8" "(orig + a) mod 256 ^ 8 < (256 :: int) ^ 8"
    by (rule pos_mod_sign pos_mod_bound; simp)+
  have "pack_uint 8 ((orig + a) mod 256 ^ 8) = Inr (be_bytes 8 ((orig + a) mod 256 ^ 8))"
    unfolding pack_uint_def using r by (simp only: simp_thms if_True)
  then show ?thesis
    using assms unfolding atomic_update_def add_opcodes_def and_u64 by auto
qed

lemma atomic_update_cas:
  assumes "opcode p \<in> cas_opcodes" "int_get ''compare'' 0 p = Inr cmp" "int_get ''swap'' 0 p = Inr sw"
  shows "atomic_update p orig =
    (if orig = cmp then (if 0 \<le> sw \<and> sw < 256 ^ 8 then Inr (Some (be_bytes 8 sw)) else Inl StructError) else Inr None)"
  using assms unfolding atomic_update_def cas_opcodes_def pack_uint_def by auto

section \<open>The latency model\<close>

definition latency_of :: "int \<Rightarrow> fabric \<Rightarrow> pyfloat" where
  "latency_of n fab =
     fadd (fadd (fl (fmul (fl (of_int n)) 8 / link_bw_gbps fab)) (fmul 1 (hop_latency_ns fab))) 35"

lemma transfer_time_value:
  assumes "link_bw_gbps fab \<noteq> 0" "\<bar>n\<bar> < 2 ^ 1024 - 2 ^ 970"
  shows "transfer_time n fab = Inr (latency_of n fab)"
proof -
  have "float_of_int n = Inr (fl (of_int n))" using assms(2) unfolding float_of_int_def by (simp only: not_le [symmetric] if_not_P) simp
  moreover have "float_of_int 1 = Inr 1" using fl_of_int [of 1] by (simp add: float_of_int_def)
  ultimately show ?thesis
    using assms(1) by (simp add: transfer_time_def calculate_transfer_time_ns_def fdiv_def latency_of_def Let_def)
qed

lemma transfer_time_small:
  "link_bw_gbps fab \<noteq> 0 \<Longrightarrow> 0 \<le> n \<Longrightarrow> n < 256 ^ 4 \<Longrightarrow> transfer_time n fab = Inr (latency_of n fab)"
proof (rule transfer_time_value)
  assume n: "0 \<le> n" "n < 256 ^ 4"
  have "(256 :: int) ^ 4 \<le> 2 ^ 970" by simp
  moreover have "(2 :: int) ^ 1024 = 2 ^ 970 * 2 ^ 54" by (simp flip: power_add)
  ultimately show "\<bar>n\<bar> < 2 ^ 1024 - 2 ^ 970" using n by simp
qed

lemma latency_mono:
  assumes "0 < link_bw_gbps fab" "m \<le> n"
  shows "latency_of m fab \<le> latency_of n fab"
proof -
  have "fl (of_int m) * 8 \<le> fl (of_int n) * 8" using fl_mono assms(2) by simp
  then have "fmul (fl (of_int m)) 8 / link_bw_gbps fab \<le> fmul (fl (of_int n)) 8 / link_bw_gbps fab"
    using assms(1) fl_mono by (simp add: fmul_def divide_right_mono)
  then show ?thesis by (simp add: latency_of_def fadd_def fl_mono)
qed

lemma latency_lower:
  assumes "0 < link_bw_gbps fab" "0 \<le> hop_latency_ns fab" "0 \<le> n"
  shows "35 \<le> latency_of n fab"
proof -
  have "0 \<le> fmul (fl (of_int n)) 8 / link_bw_gbps fab"
    using assms(1,3) by (simp add: fmul_def fl_nonneg)
  then have "0 \<le> fadd (fl (fmul (fl (of_int n)) 8 / link_bw_gbps fab)) (fmul 1 (hop_latency_ns fab))"
    using assms(2) by (simp add: fadd_def fmul_def fl_nonneg)
  then have "fl 35 \<le> latency_of n fab" unfolding latency_of_def fadd_def by (intro fl_mono) simp
  moreover have "fl 35 = 35" using fl_of_int [of 35] by simp
  ultimately show ?thesis by simp
qed

end
