(* ===== verification/Fabric_Protocol.thy ===== *)
theory Fabric_Protocol
  imports Fabric_Access
begin

unbundle bit_operations_syntax

text \<open>
  Protocol-level behaviour of the switch: every answer is addressed to its request, protected packets
  that fail verification have no effect, no protected packet is processed twice, emergencies reach
  every other node, refusals have no effect, and the loop over a connection's chunks is the sequence
  of its packets.
\<close>

section \<open>Answers\<close>

definition fabric_reply_opcodes :: "int set" where
  "fabric_reply_opcodes = {OP_LINK_TRAIN_ACK, OP_TRANS_PONG, OP_RESP_OK, OP_RESP_ERR, OP_CDMA_COMPLETE,
     OP_URMA_READ_RESP, OP_MEM_READ_RESP, OP_URMA_ATOMIC_RESP, OP_MEM_ATOMIC_RESP, OP_SNOOP_RESP}"

definition reply_to :: "packet \<Rightarrow> packet \<Rightarrow> bool" where
  "reply_to p r \<longleftrightarrow> dst_node r = src_node p \<and> seq_num r = seq_num p
     \<and> (src_node r = 0 \<or> src_node r = dst_node p) \<and> opcode r \<in> fabric_reply_opcodes
     \<and> flags r = FLAG_NONE \<and> length (auth_tag r) = 16"

definition answered :: "packet \<Rightarrow> outcome \<Rightarrow> bool" where
  "answered p res \<longleftrightarrow>
     (case snd (snd res) of Inr (Some r, cur) \<Rightarrow> reply_to p r | _ \<Rightarrow> True)"

named_theorems answered_intros

lemma reply_fields [simp]:
  "opcode (reply_packet opc s d q ms) = opc" "src_node (reply_packet opc s d q ms) = s"
  "dst_node (reply_packet opc s d q ms) = d" "seq_num (reply_packet opc s d q ms) = q"
  "flags (reply_packet opc s d q ms) = FLAG_NONE" "length (auth_tag (reply_packet opc s d q ms)) = 16"
  "payload (reply_packet opc s d q ms) = []"
  by (simp_all add: reply_packet_def ub_packet_def zero_tag_def)

lemma reply_to_simps [simp]:
  "reply_to p (switch_reply p opc ms) \<longleftrightarrow> opc \<in> fabric_reply_opcodes"
  "reply_to p (node_reply p opc ms) \<longleftrightarrow> opc \<in> fabric_reply_opcodes"
  "reply_to p (error_reply p msg)"
  by (auto simp: reply_to_def switch_reply_def node_reply_def error_reply_def fabric_reply_opcodes_def)

lemma reply_to_read [simp]:
  "reply_to p (ub_packet opc (dst_node p) (src_node p) t l FLAG_NONE (seq_num p) zero_tag ms bs)
     \<longleftrightarrow> opc \<in> fabric_reply_opcodes"
  by (auto simp: reply_to_def ub_packet_def zero_tag_def)

lemma answered_simps [simp]:
  "answered p (fab, out, Inl e)" "answered p (fab, out, Inr (None, cur))"
  "answered p (fab, out, Inr (Some r, cur)) \<longleftrightarrow> reply_to p r"
  by (simp_all add: answered_def)

lemma handlers_answer [answered_intros]:
  "answered p (handle_link_train p cur fab)" "answered p (handle_credit_update p cur fab)"
  "answered p (handle_ping en p cur fab)" "answered p (handle_reg_node en p cur fab)"
  "answered p (handle_reg_seg en p cur fab)" "answered p (handle_create_jetty p cur fab)"
  "answered p (handle_coherence en p cur fab)" "answered p (handle_ums en p cur fab)"
  "answered p (handle_urpc en p cur fab)" "answered p (handle_export en p cur fab)"
  "answered p (handle_import p cur fab)" "answered p (handle_sentry en p cur fab)"
  "answered p (handle_topology en p cur fab)" "answered p (handle_stats p cur fab)"
  "answered p (handle_forward en p cur fab)"
  by (auto simp: handle_link_train_def handle_credit_update_def handle_ping_def handle_reg_node_def
      handle_reg_seg_def handle_create_jetty_def handle_coherence_def handle_ums_def handle_urpc_def
      handle_export_def handle_import_def handle_sentry_def handle_topology_def handle_stats_def
      handle_forward_def Let_def fabric_reply_opcodes_def split: option.split sum.split prod.split)

lemma handle_write_answer [answered_intros]: "answered p (handle_write en p plain cur fab)"
  by (auto simp: handle_write_def Let_def fabric_reply_opcodes_def split: option.split sum.split prod.split)

lemma handle_read_answer [answered_intros]: "answered p (handle_read en p cur fab)"
  by (auto simp: handle_read_def Let_def fabric_reply_opcodes_def split: option.split sum.split prod.split)

lemma handle_atomic_answer [answered_intros]: "answered p (handle_atomic en p cur fab)"
  by (auto simp: handle_atomic_def Let_def fabric_reply_opcodes_def split: option.split sum.split prod.split)

lemma dispatch_answer [answered_intros]: "answered p (dispatch en p plain cur fab)"
  unfolding dispatch_def Let_def by (simp only: answered_intros simp_thms split: if_split)

lemma process_plain_answer [answered_intros]: "answered p (process_plain en p plain cur fab)"
  unfolding process_plain_def Let_def by (simp only: answered_intros simp_thms split: if_split)

lemma process_packet_answer: "answered p (process_packet en p cur fab)"
  by (auto simp: process_packet_def Let_def answered_intros split: prod.split sum.split)

section \<open>The replay window through the switch\<close>

text \<open>Processing a packet moves the engine by one verification at most.\<close>

lemma handlers_keep_cip:
  "cip (fst (handle_link_train p cur fab)) = cip fab" "cip (fst (handle_credit_update p cur fab)) = cip fab"
  "cip (fst (handle_ping en p cur fab)) = cip fab" "cip (fst (handle_reg_node en p cur fab)) = cip fab"
  "cip (fst (handle_reg_seg en p cur fab)) = cip fab" "cip (fst (handle_create_jetty p cur fab)) = cip fab"
  "cip (fst (handle_coherence en p cur fab)) = cip fab" "cip (fst (handle_ums en p cur fab)) = cip fab"
  "cip (fst (handle_urpc en p cur fab)) = cip fab" "cip (fst (handle_export en p cur fab)) = cip fab"
  "cip (fst (handle_import p cur fab)) = cip fab" "cip (fst (handle_sentry en p cur fab)) = cip fab"
  "cip (fst (handle_topology en p cur fab)) = cip fab" "cip (fst (handle_stats p cur fab)) = cip fab"
  "cip (fst (handle_forward en p cur fab)) = cip fab"
  by (auto simp: handle_link_train_def handle_credit_update_def handle_ping_def handle_reg_node_def
      handle_reg_seg_def handle_create_jetty_def handle_coherence_def handle_ums_def handle_urpc_def
      handle_export_def handle_import_def handle_sentry_def handle_topology_def handle_stats_def
      handle_forward_def Let_def split: option.split sum.split prod.split)

lemma memory_handlers_keep_cip:
  "cip (fst (handle_write en p plain cur fab)) = cip fab" "cip (fst (handle_read en p cur fab)) = cip fab"
  by (auto simp: handle_write_def handle_read_def Let_def split: option.split sum.split prod.split)

lemma atomic_keeps_cip: "cip (fst (handle_atomic en p cur fab)) = cip fab"
  by (auto simp: handle_atomic_def atomic_apply_def Let_def result_simps
      split: option.splits sum.split prod.split if_splits)

definition keeps_cip :: "cip_engine \<Rightarrow> outcome \<Rightarrow> bool" where
  "keeps_cip eng res \<longleftrightarrow> cip (fst res) = eng"

lemma dispatch_cip: "keeps_cip (cip fab) (dispatch en p plain cur fab)"
  unfolding dispatch_def Let_def
  by (simp only: keeps_cip_def handlers_keep_cip memory_handlers_keep_cip atomic_keeps_cip simp_thms split: if_split)

lemma process_plain_cip: "cip (fst (process_plain en p plain cur fab)) = cip fab"
proof -
  have "keeps_cip (cip fab) (dispatch en p plain cur (count_tx en p fab))"
    using dispatch_cip [of "count_tx en p fab"] by simp
  then show ?thesis by (simp add: process_plain_def Let_def keeps_cip_def handlers_keep_cip)
qed

lemma process_packet_cip:
  "cip (fst (process_packet en p cur fab)) =
     (if is_cip_encrypted p
      then fst (decrypt_and_verify (cip fab) (payload p) (auth_tag p) (token_id p) (seq_num p) (src_node p))
      else cip fab)"
  by (auto simp: process_packet_def Let_def process_plain_cip split: prod.split sum.split)

definition packet_call :: "packet \<Rightarrow> cip_call" where
  "packet_call p = (payload p, auth_tag p, token_id p, seq_num p, src_node p)"

text \<open>A step of the switch, and whether a protected packet with a payload passed verification in it.\<close>

definition protected_step :: "fabric \<Rightarrow> env \<times> packet \<times> int option \<Rightarrow> fabric \<times> bool" where
  "protected_step fab r =
     (case r of (en, p, cur) \<Rightarrow>
        (fst (process_packet en p cur fab), is_cip_encrypted p \<and> snd (engine_step (cip fab) (packet_call p))))"

definition source_and_seq :: "env \<times> packet \<times> int option \<Rightarrow> int \<times> int" where
  "source_and_seq r = (src_node (fst (snd r)), seq_num (fst (snd r)))"

lemma engine_step_fst:
  "fst (engine_step eng (packet_call p)) =
     fst (decrypt_and_verify eng (payload p) (auth_tag p) (token_id p) (seq_num p) (src_node p))"
  by (simp add: engine_step_def packet_call_def split: prod.split)

interpretation switch_filter: replay_filter protected_step source_and_seq "\<lambda>fab :: fabric. engine_rel (cip fab)"
proof
  fix fab :: fabric and S and r :: "env \<times> packet \<times> int option" and fab'
  assume rel: "engine_rel (cip fab) S"
  obtain en p cur where r: "r = (en, p, cur)" by (cases r)
  have cip: "cip (fst (process_packet en p cur fab)) =
      (if is_cip_encrypted p then fst (engine_step (cip fab) (packet_call p)) else cip fab)"
    by (simp add: process_packet_cip engine_step_fst)
  have key: "call_key (packet_call p) = source_and_seq r"
    by (simp add: call_key_def packet_call_def source_and_seq_def r)
  obtain eng ok where st: "engine_step (cip fab) (packet_call p) = (eng, ok)" by fastforce
  show "source_and_seq r \<notin> S \<and> (\<exists>S'. insert (source_and_seq r) S \<subseteq> S' \<and> engine_rel (cip fab') S')"
    if "protected_step fab r = (fab', True)"
    using that engine.through [OF rel, of "packet_call p" eng] cip st key by (auto simp: protected_step_def r)
  show "\<exists>S'. S \<subseteq> S' \<and> engine_rel (cip fab') S'" if s: "protected_step fab r = (fab', False)"
  proof (cases "is_cip_encrypted p")
    case True
    then show ?thesis
      using s engine.stopped [OF rel, of "packet_call p" eng] cip st by (auto simp: protected_step_def r)
  next
    case False
    then have "cip fab' = cip fab" using s cip by (auto simp: protected_step_def r)
    then show ?thesis using rel by auto
  qed
qed

section \<open>Emergencies\<close>

definition sentry_opcodes :: "int set" where
  "sentry_opcodes = {OP_SENTRY_OOM_BLOCK, OP_SENTRY_PANIC_BLOCK, OP_SENTRY_REBOOT_NOTIFY}"

lemma to_sentry:
  "opcode p \<in> sentry_opcodes \<Longrightarrow> process_plain en p plain cur fab = handle_sentry en p cur (count_tx en p fab)"
  by (auto simp: sentry_opcodes_def process_plain_def dispatch_def Let_def)

lemma filter_dict_set: "\<not> P k \<Longrightarrow> filter (\<lambda>x. P (fst x)) (dict_set k v d) = filter (\<lambda>x. P (fst x)) d"
  by (induction d) auto

lemma filter_dict_adjust: "\<not> P k \<Longrightarrow> filter (\<lambda>x. P (fst x)) (dict_adjust k f d) = filter (\<lambda>x. P (fst x)) d"
  by (simp add: dict_adjust_def filter_dict_set split: option.split)

lemma broadcast_filter:
  "broadcast en p fab =
     concat (map (\<lambda>x. send_quiet en (conn_id (snd x)) p) (filter (\<lambda>x. fst x \<noteq> src_node p) (nodes fab)))"
proof -
  have "concat (map (\<lambda>(n, c). if n \<noteq> src_node p then send_quiet en (conn_id c) p else []) ns)
      = concat (map (\<lambda>x. send_quiet en (conn_id (snd x)) p) (filter (\<lambda>x. fst x \<noteq> src_node p) ns))" for ns
    by (induction ns) auto
  then show ?thesis by (simp add: broadcast_def)
qed

lemma broadcast_delivers:
  assumes "serialize p = Inr bs" "\<And>c. \<not> lost en c"
  shows "broadcast en p fab = map (\<lambda>x. (conn_id (snd x), bs)) (filter (\<lambda>x. fst x \<noteq> src_node p) (nodes fab))"
proof -
  have "send_quiet en c p = [(c, bs)]" for c using assms by (simp add: send_quiet_def send_raising_def)
  moreover have "concat (map (\<lambda>x. [f x]) xs) = map f xs" for f :: "int \<times> ub_conn \<Rightarrow> sent" and xs
    by (induction xs) simp_all
  ultimately show ?thesis by (simp add: broadcast_filter)
qed

lemma emergency_outputs:
  assumes "\<not> is_cip_encrypted p" "opcode p \<in> sentry_opcodes" "meta_get ''reason'' (JStr ''Emergency Event'') p = Inr reason"
    and "serialize p = Inr bs" "\<And>c. \<not> lost en c"
  shows "fst (snd (process_packet en p cur fab))
      = map (\<lambda>x. (conn_id (snd x), bs)) (filter (\<lambda>x. fst x \<noteq> src_node p) (nodes fab))"
    "sentry_events (fst (process_packet en p cur fab)) = sentry_events fab @
       [JObj [(''node'', JInt (src_node p)), (''op'', JInt (opcode p)), (''reason'', reason), (''time'', JFloat (now en))]]"
proof -
  have n: "filter (\<lambda>x. fst x \<noteq> src_node p) (nodes (count_tx en p (count_packet p fab)))
      = filter (\<lambda>x. fst x \<noteq> src_node p) (nodes fab)"
    using filter_dict_adjust [of "\<lambda>n. n \<noteq> src_node p" "src_node p"] by (simp add: count_tx_def)
  show "fst (snd (process_packet en p cur fab))
      = map (\<lambda>x. (conn_id (snd x), bs)) (filter (\<lambda>x. fst x \<noteq> src_node p) (nodes fab))"
    unfolding process_packet_open [OF assms(1)] to_sentry [OF assms(2)]
    using assms(3) n broadcast_delivers [OF assms(4,5)] by (simp add: handle_sentry_def Let_def)
  show "sentry_events (fst (process_packet en p cur fab)) = sentry_events fab @
       [JObj [(''node'', JInt (src_node p)), (''op'', JInt (opcode p)), (''reason'', reason), (''time'', JFloat (now en))]]"
    unfolding process_packet_open [OF assms(1)] to_sentry [OF assms(2)]
    using assms(3) by (simp add: handle_sentry_def Let_def count_tx_def count_packet_def)
qed

section \<open>Credits\<close>

definition credits_of :: "fabric \<Rightarrow> int \<Rightarrow> int option" where
  "credits_of fab n = map_option credits (dict_get (nodes fab) n)"

definition keeps_credits :: "fabric \<Rightarrow> outcome \<Rightarrow> bool" where
  "keeps_credits fab res \<longleftrightarrow> credits_of (fst res) = credits_of fab"

lemma credits_count [simp]:
  "credits_of (count_packet p fab) = credits_of fab" "credits_of (count_tx en p fab) = credits_of fab"
  "credits_of (record_event en ty s d n lat desc fab) = credits_of fab"
  "credits_of (fab\<lparr>cip := eng\<rparr>) = credits_of fab"
  "credits_of (fab\<lparr>switch_table := sw\<rparr>) = credits_of fab" "credits_of (fab\<lparr>sentry_events := evs\<rparr>) = credits_of fab"
  by (auto simp: credits_of_def count_tx_def fun_eq_iff map_option_case split: option.split)

lemma credits_set_node:
  "dict_get (nodes fab) n = Some c \<Longrightarrow> credits c' = credits c \<Longrightarrow>
     credits_of (fab\<lparr>nodes := dict_set n c' (nodes fab)\<rparr>) = credits_of fab"
  by (auto simp: credits_of_def)

lemma count_rx_credits [simp]: "credits (count_rx p c) = credits c"
  by (simp add: count_rx_def)

lemma dispatch_keeps_credits:
  "keeps_credits fab (handle_reg_seg en p cur fab)" "keeps_credits fab (handle_create_jetty p cur fab)"
  "keeps_credits fab (handle_read en p cur fab)" "keeps_credits fab (handle_coherence en p cur fab)"
  "keeps_credits fab (handle_ums en p cur fab)" "keeps_credits fab (handle_urpc en p cur fab)"
  "keeps_credits fab (handle_export en p cur fab)" "keeps_credits fab (handle_import p cur fab)"
  "keeps_credits fab (handle_sentry en p cur fab)" "keeps_credits fab (handle_topology en p cur fab)"
  "keeps_credits fab (handle_stats p cur fab)"
  by (auto simp: keeps_credits_def handle_reg_seg_def handle_create_jetty_def handle_read_def handle_coherence_def
      handle_ums_def handle_urpc_def handle_export_def handle_import_def handle_sentry_def handle_topology_def
      handle_stats_def Let_def split: option.split sum.split prod.split)

lemma write_keeps_credits: "keeps_credits fab (handle_write en p plain cur fab)"
  by (auto simp: keeps_credits_def handle_write_def Let_def intro!: credits_set_node
      split: option.split sum.split prod.split)

lemma forward_keeps_credits: "keeps_credits fab (handle_forward en p cur fab)"
  by (auto simp: keeps_credits_def handle_forward_def Let_def intro!: credits_set_node
      split: option.split sum.split)

lemma atomic_apply_credits: "atomic_apply p off fab = Inr (fab1, orig) \<Longrightarrow> credits_of fab1 = credits_of fab"
  by (auto simp: atomic_apply_def Let_def result_simps credits_set_node split: option.splits if_splits)

lemma atomic_keeps_credits: "keeps_credits fab (handle_atomic en p cur fab)"
  by (auto simp: keeps_credits_def handle_atomic_def Let_def dest: atomic_apply_credits split: sum.split prod.split)

lemmas branch_credits = dispatch_keeps_credits write_keeps_credits forward_keeps_credits atomic_keeps_credits

lemma dispatch_credits: "keeps_credits fab (dispatch en p plain cur fab)"
  unfolding dispatch_def Let_def by (simp only: branch_credits simp_thms split: if_split)

lemma process_plain_credits:
  assumes "opcode p \<noteq> OP_LINK_CREDIT_UPDATE" "opcode p \<noteq> OP_REG_NODE"
  shows "credits_of (fst (process_plain en p plain cur fab)) = credits_of fab"
  using dispatch_credits [of "count_tx en p fab" en p plain cur] assms
  by (simp add: process_plain_def Let_def keeps_credits_def handle_link_train_def handle_ping_def)

lemma process_packet_credits:
  assumes "opcode p \<noteq> OP_LINK_CREDIT_UPDATE" "opcode p \<noteq> OP_REG_NODE"
  shows "credits_of (fst (process_packet en p cur fab)) = credits_of fab"
  using process_plain_credits [OF assms]
  by (auto simp: process_packet_def Let_def split: prod.split sum.split)

section \<open>A connection as the sequence of its packets\<close>

text \<open>The packets of a connection served one after the other, until one raises.\<close>

primrec serve_all ::
  "env \<Rightarrow> packet list \<Rightarrow> int option \<Rightarrow> fabric \<Rightarrow> fabric \<times> sent list \<times> int option \<times> py_error option"
where
  "serve_all en [] cur fab = (fab, [], cur, None)"
| "serve_all en (p # ps) cur fab =
     (case serve_packet en p cur fab of
        (fab1, out, cur1, Some e) \<Rightarrow> (fab1, out, cur1, Some e)
      | (fab1, out, cur1, None) \<Rightarrow>
          (case serve_all en ps cur1 fab1 of (fab2, out2, cur2, err) \<Rightarrow> (fab2, out @ out2, cur2, err)))"

lemma client_loop_serves:
  assumes "drains deserialize_from_buffer buf ps rest" "serve_all en ps cur fab = (fab', out, cur', err)"
  shows "\<exists>buf'. client_loop en \<lparr>client_buffer = buf, current_node = cur\<rparr> fab
      = (fab', out, \<lparr>client_buffer = buf', current_node = cur'\<rparr>, err) \<and> (err = None \<longrightarrow> buf' = rest)"
  using assms
proof (induction arbitrary: cur fab fab' out rule: drains.induct)
  case (drains_stop buf n)
  then show ?case by (subst client_loop.simps) simp
next
  case (drains_frame buf p n ps rest)
  obtain fab1 out1 cur1 err1 where sp: "serve_packet en p cur fab = (fab1, out1, cur1, err1)"
    by (metis prod_cases4)
  show ?case
  proof (cases err1)
    case (Some e)
    then have "fab' = fab1" "out = out1" "cur' = cur1" "err = Some e" using drains_frame.prems sp by simp_all
    then show ?thesis using drains_frame.hyps(1) sp Some by (subst client_loop.simps) (simp add: Let_def)
  next
    case None
    obtain fab2 out2 cur2 err2 where sa: "serve_all en ps cur1 fab1 = (fab2, out2, cur2, err2)"
      by (metis prod_cases4)
    have res: "fab' = fab2" "out = out1 @ out2" "cur' = cur2" "err = err2"
      using drains_frame.prems sp sa None by simp_all
    then obtain buf' where "client_loop en \<lparr>client_buffer = drop n buf, current_node = cur1\<rparr> fab1
        = (fab2, out2, \<lparr>client_buffer = buf', current_node = cur'\<rparr>, err) \<and> (err = None \<longrightarrow> buf' = rest)"
      using drains_frame.IH [of cur1 fab1 fab2 out2] sa by auto
    then show ?thesis
      using drains_frame.hyps(1) sp res None by (subst client_loop.simps) (simp add: Let_def)
  qed
qed

lemma drains_stream:
  assumes "list_all2 (\<lambda>p f. wf_packet p \<and> serialize p = Inr f) ps fs"
  shows "drains deserialize_from_buffer (concat fs) ps []"
proof -
  have s: "ub_codec.stream ps fs" using assms by (simp add: ub_codec.stream_def)
  obtain ps1 ps2 fs2 rest where ps: "ps = ps1 @ ps2" and d: "drains deserialize_from_buffer (concat fs) ps1 rest"
    and rest: "ub_codec.stream ps2 fs2" "ub_codec.residue rest fs2" "rest = concat fs2"
    using ub_codec.drain_stream [OF s, of "concat fs" "[]"] by auto
  have "ps2 = [] \<and> rest = []" using rest by (rule ub_codec.residue_complete)
  then show ?thesis using ps d by simp
qed

section \<open>Hang-up\<close>

lemma client_cleanup_detaches:
  assumes "current_node cl = Some n" "dict_get (nodes fab) n \<noteq> None"
  shows "client_cleanup cl fab = fab\<lparr>nodes := dict_del n (nodes fab), switch_table := unregister_node n (switch_table fab)\<rparr>"
  using assms by (auto simp: client_cleanup_def)

section \<open>The event log\<close>

lemma push_event_window: "push_event e (drop (length es - 200) es) = drop (length (es @ [e]) - 200) (es @ [e])"
proof (cases "length es < 200")
  case True
  then show ?thesis by (simp add: push_event_def)
next
  case False
  then have "drop (length es - 200) es @ [e] \<noteq> []" "length (drop (length es - 200) es @ [e]) = 201" by simp_all
  moreover have "tl (drop (length es - 200) es @ [e]) = drop (Suc (length es - 200)) (es @ [e])"
    using False by (simp add: drop_Suc tl_drop flip: tl_append_if)
  moreover have "Suc (length es - 200) = length (es @ [e]) - 200" using False by simp
  ultimately show ?thesis by (simp add: push_event_def Let_def)
qed

lemma push_events_last: "foldl (\<lambda>evs e. push_event e evs) [] es = drop (length es - 200) es"
  by (induction es rule: rev_induct) (simp_all add: push_event_window)

end
