(* ===== verification/Fabric_Props.thy ===== *)
theory Fabric_Props
  imports Fabric_Access Fabric_Protocol
begin

unbundle bit_operations_syntax

text \<open>
  Properties of remote memory access through \<open>_process_packet\<close>: reads see writes, accesses stay
  in their range, atomics are atomic, refusals change nothing, and the state invariant. The sample
  switch of the concrete instances has one node with sixteen bytes of memory and one segment.
\<close>

section \<open>Whole packets\<close>

lemma process_write:
  assumes "\<not> is_cip_encrypted p" "opcode p \<in> write_opcodes" "names_range p sid off"
    and "granted p sid off (int (length (payload p))) True fab"
    and "transfer_time (int (length (payload p))) fab = Inr lat"
  shows "snd (snd (process_packet en p cur fab)) = Inr (Some (write_completed p lat), cur)"
    "mem_of (fst (process_packet en p cur fab)) n =
       (if n = dst_node p then map_option (\<lambda>m. if off + int (length (payload p)) \<le> int (length m)
          then mem_write m off (payload p) else m) (mem_of fab n) else mem_of fab n)"
    "switch_table (fst (process_packet en p cur fab)) = switch_table fab"
  unfolding process_packet_open [OF assms(1)] to_handler(1) [OF assms(2)]
  using assms(3-5)
  by (subst handle_write_granted [where sid = sid and off = off and lat = lat]; simp)+

lemma process_read:
  assumes "\<not> is_cip_encrypted p" "opcode p \<in> read_opcodes" "names_range p sid off"
    and "int_get ''length'' 0 p = Inr len" "granted p sid off len False fab" "transfer_time len fab = Inr lat"
  shows "snd (snd (process_packet en p cur fab)) =
      Inr (Some (read_completed p lat (read_data (mem_of fab (dst_node p)) off len)), cur)"
    "mem_of (fst (process_packet en p cur fab)) = mem_of fab"
  unfolding process_packet_open [OF assms(1)] to_handler(2) [OF assms(2)]
  using assms(3-6)
  by (subst handle_read_granted [where sid = sid and off = off and len = len and lat = lat]; simp)+

lemma process_atomic:
  assumes "\<not> is_cip_encrypted p" "opcode p \<in> atomic_opcodes" "names_range p sid off"
    and "granted p sid off 8 True fab" "transfer_time 8 fab = Inr lat"
    and "mem_of fab (dst_node p) = Some m" "off + 8 \<le> int (length m)" "atomic_update p (ram.cell m off) = Inr u"
  shows "snd (snd (process_packet en p cur fab)) = Inr (Some (atomic_completed p (ram.cell m off) lat), cur)"
    "mem_of (fst (process_packet en p cur fab)) n =
       (if n = dst_node p then Some (case u of None \<Rightarrow> m | Some b \<Rightarrow> mem_write m off b) else mem_of fab n)"
    "switch_table (fst (process_packet en p cur fab)) = switch_table fab"
    "link_bw_gbps (fst (process_packet en p cur fab)) = link_bw_gbps fab"
    "hop_latency_ns (fst (process_packet en p cur fab)) = hop_latency_ns fab"
proof -
  have h: "names_range p sid off" "granted p sid off 8 True (count_tx en p (count_packet p fab))"
      "transfer_time 8 (count_tx en p (count_packet p fab)) = Inr lat"
      "mem_of (count_tx en p (count_packet p fab)) (dst_node p) = Some m" "off + 8 \<le> int (length m)"
      "atomic_update p (ram.cell m off) = Inr u"
    using assms(3-8) by simp_all
  show "snd (snd (process_packet en p cur fab)) = Inr (Some (atomic_completed p (ram.cell m off) lat), cur)"
    "mem_of (fst (process_packet en p cur fab)) n =
       (if n = dst_node p then Some (case u of None \<Rightarrow> m | Some b \<Rightarrow> mem_write m off b) else mem_of fab n)"
    "switch_table (fst (process_packet en p cur fab)) = switch_table fab"
    "link_bw_gbps (fst (process_packet en p cur fab)) = link_bw_gbps fab"
    "hop_latency_ns (fst (process_packet en p cur fab)) = hop_latency_ns fab"
    unfolding process_packet_open [OF assms(1)] to_handler(3) [OF assms(2)]
    using handle_atomic_granted [OF h] by simp_all
qed

lemma link_after_write:
  assumes "\<not> is_cip_encrypted p" "opcode p \<in> write_opcodes"
  shows "link_bw_gbps (fst (process_packet en p cur fab)) = link_bw_gbps fab"
    "hop_latency_ns (fst (process_packet en p cur fab)) = hop_latency_ns fab"
  unfolding process_packet_open [OF assms(1)] to_handler(1) [OF assms(2)] handle_write_def Let_def
  by (auto simp: record_event_def split: sum.split prod.split option.split)

lemma transfer_time_cong:
  "link_bw_gbps fab' = link_bw_gbps fab \<Longrightarrow> hop_latency_ns fab' = hop_latency_ns fab \<Longrightarrow>
     transfer_time n fab' = transfer_time n fab"
  by (simp add: transfer_time_def calculate_transfer_time_ns_def)

text \<open>A granted read of a range that a granted write has just filled.\<close>

lemma read_after_write:
  assumes "\<not> is_cip_encrypted p" "opcode p \<in> write_opcodes" "names_range p sid off"
    and "granted p sid off (int (length (payload p))) True fab"
    and "transfer_time (int (length (payload p))) fab = Inr lat"
    and "mem_of fab (dst_node p) = Some m" "off + int (length (payload p)) \<le> int (length m)"
    and "\<not> is_cip_encrypted q" "opcode q \<in> read_opcodes" "dst_node q = dst_node p" "names_range q sid' off"
    and "int_get ''length'' 0 q = Inr (int (length (payload p)))"
    and "granted q sid' off (int (length (payload p))) False fab"
  shows "snd (snd (process_packet en' q cur' (fst (process_packet en p cur fab))))
    = Inr (Some (read_completed q lat (payload p)), cur')"
proof -
  let ?fab = "fst (process_packet en p cur fab)"
  have r: "in_range (int (length m)) off (int (length (payload p)))"
    using granted_offset [OF assms(4)] assms(7) by (simp add: in_range_def)
  have mem: "mem_of ?fab (dst_node q) = Some (mem_write m off (payload p))"
    using process_write(2) [OF assms(1-5)] assms(6,7,10) by simp
  have "granted q sid' off (int (length (payload p))) False ?fab"
    using assms(13) process_write(3) [OF assms(1-5)] by (simp add: granted_def)
  moreover have "transfer_time (int (length (payload p))) ?fab = Inr lat"
    using assms(5) transfer_time_cong [OF link_after_write [OF assms(1,2)]] by simp
  moreover have "read_data (mem_of ?fab (dst_node q)) off (int (length (payload p))) = payload p"
    using ram.rd_wr [OF r] ram.wr_size [OF r] assms(7) by (simp add: mem read_data_def)
  ultimately show ?thesis using process_read(1) [OF assms(8,9,11,12)] by simp
qed

section \<open>A sample switch\<close>

definition sample_conn :: ub_conn where
  "sample_conn =
     \<lparr>conn_node = 2, node_type = JStr ''NPU'', conn_id = 4, connected_at = 0, tx_flits = 0, rx_flits = 0,
      tx_bytes = 0, rx_bytes = 0, credits = 1024, last_active = 0, local_memory = replicate 16 0,
      cache_directory = [], ums_listeners = []\<rparr>"

definition sample_fabric :: fabric where
  "sample_fabric = (new_fabric 800 15)
     \<lparr>switch_table := fst (register_segment 2 1 0 64 7 ''RW'' 0 new_switch), nodes := [(2, sample_conn)]\<rparr>"

definition sample_env :: env where
  "sample_env = \<lparr>now = 0, me = 3, lost = (\<lambda>c. False)\<rparr>"

text \<open>A request of node 1 to node 2 with token 7.\<close>

definition sample_request :: "int \<Rightarrow> (string \<times> json) list \<Rightarrow> bytes \<Rightarrow> packet" where
  "sample_request opc ms pay =
     ub_packet opc 1 2 7 0 FLAG_NONE 5 zero_tag (JObj ((''segment_id'', JInt 1) # ms)) pay"

lemma sample_request_simps [simp]:
  "opcode (sample_request opc ms pay) = opc" "src_node (sample_request opc ms pay) = 1"
  "dst_node (sample_request opc ms pay) = 2" "token_id (sample_request opc ms pay) = 7"
  "payload (sample_request opc ms pay) = pay" "\<not> is_cip_encrypted (sample_request opc ms pay)"
  "metadata (sample_request opc ms pay) = JObj ((''segment_id'', JInt 1) # ms)"
  by (simp_all add: sample_request_def ub_packet_def is_cip_encrypted_def FLAG_NONE_def)

lemma sample_range [simp]:
  "names_range (sample_request opc ((''offset'', JInt off) # ms) pay) 1 off"
  by (simp add: names_range_def int_index_def int_get_def meta_index_def meta_get_def)

lemma sample_segment:
  "dict_get (segments (switch_table sample_fabric)) 2 = Some [(1,
     \<lparr>segment_id = 1, seg_node = 2, base_addr = 0, seg_size = 64, seg_token = 7, permissions = ''RW'', created_at = 0\<rparr>)]"
  by (simp add: sample_fabric_def register_segment_def ub_segment_init_def upper_char_def register_node_def
      new_switch_def Let_def dict_adjust_def)

lemma sample_granted [simp]:
  "dst_node p = 2 \<Longrightarrow> token_id p = 7 \<Longrightarrow> granted p 1 off len w sample_fabric \<longleftrightarrow> 0 \<le> off \<and> off + len \<le> 64"
  by (auto simp: granted_def validate_access_granted sample_segment contains_def check_permission_iff)

lemma sample_mem [simp]: "mem_of sample_fabric 2 = Some (replicate 16 0)"
  by (simp add: mem_of_def sample_fabric_def sample_conn_def)

lemma sample_time: "0 \<le> n \<Longrightarrow> n < 256 ^ 4 \<Longrightarrow> transfer_time n sample_fabric = Inr (latency_of n sample_fabric)"
  by (rule transfer_time_small) (simp_all add: sample_fabric_def new_fabric_def)

section \<open>Properties\<close>

text \<open>
  C1. The daemon's state stays well-formed: in every state the daemon can reach, through any
  connections, chunks and hang-ups, the switch table is well-formed, every attached node has its own
  id, a memory of exactly 64 MB and an entry in the table, the event log has at most 200 entries, and
  the replay window stands for a set of sequence numbers.
\<close>

theorem daemon_state_invariant:
  assumes "reachable_server bw hop sv"
  shows "fabric_ok (daemon sv)"
  using assms by (rule reachable_ok)

theorem daemon_state_invariant_witness:
  "fabric_ok (daemon (fst (server_step (fst (server_step (new_server 800 15) Start)) (Connect 4))))"
  by (rule daemon_state_invariant [OF reachable_step [OF reachable_step [OF reachable_init]]])

text \<open>
  C2. Reads return what was written: after a granted write that fits the target's memory, a granted
  read of the same offset and length on the same node answers with exactly the written bytes,
  whichever of the node's segments the two requests name. (The segments' base addresses play no part,
  so all segments of a node share its memory from offset 0.)
\<close>

theorem read_returns_written_bytes:
  assumes "\<not> is_cip_encrypted p" "opcode p \<in> write_opcodes" "names_range p sid off"
    and "granted p sid off (int (length (payload p))) True fab"
    and "transfer_time (int (length (payload p))) fab = Inr lat"
    and "mem_of fab (dst_node p) = Some m" "off + int (length (payload p)) \<le> int (length m)"
    and "\<not> is_cip_encrypted q" "opcode q \<in> read_opcodes" "dst_node q = dst_node p" "names_range q sid' off"
    and "int_get ''length'' 0 q = Inr (int (length (payload p)))"
    and "granted q sid' off (int (length (payload p))) False fab"
  shows "snd (snd (process_packet en' q cur' (fst (process_packet en p cur fab))))
    = Inr (Some (read_completed q lat (payload p)), cur')"
  using assms by (rule read_after_write)

theorem read_returns_written_bytes_witness:
  "\<exists>lat. snd (snd (process_packet sample_env (sample_request OP_URMA_READ [(''offset'', JInt 4), (''length'', JInt 3)] []) None
       (fst (process_packet sample_env (sample_request OP_URMA_WRITE [(''offset'', JInt 4)] [1, 2, 3]) None sample_fabric))))
     = Inr (Some (read_completed (sample_request OP_URMA_READ [(''offset'', JInt 4), (''length'', JInt 3)] []) lat [1, 2, 3]), None)"
  using read_returns_written_bytes [of "sample_request OP_URMA_WRITE [(''offset'', JInt 4)] [1, 2, 3]" 1 4 sample_fabric
      "latency_of 3 sample_fabric" "replicate 16 0"
      "sample_request OP_URMA_READ [(''offset'', JInt 4), (''length'', JInt 3)] []" 1 sample_env None sample_env None]
    sample_time [of 3]
  by (simp add: write_opcodes_def read_opcodes_def int_get_def meta_get_def) blast

text \<open>
  C3. Writes stay in their range: a granted write leaves the memory of every other node, every
  disjoint range of the target's memory, its size, and the switch table as they were.
\<close>

theorem write_touches_only_its_range:
  assumes "\<not> is_cip_encrypted p" "opcode p \<in> write_opcodes" "names_range p sid off"
    and "granted p sid off (int (length (payload p))) True fab"
    and "transfer_time (int (length (payload p))) fab = Inr lat"
    and "mem_of fab (dst_node p) = Some m"
    and "in_range (int (length m)) k l" "k + l \<le> off \<or> off + int (length (payload p)) \<le> k" "n \<noteq> dst_node p"
  shows "(\<exists>m'. mem_of (fst (process_packet en p cur fab)) (dst_node p) = Some m' \<and> length m' = length m
        \<and> mem_read m' k l = mem_read m k l)
    \<and> mem_of (fst (process_packet en p cur fab)) n = mem_of fab n
    \<and> switch_table (fst (process_packet en p cur fab)) = switch_table fab"
proof (cases "off + int (length (payload p)) \<le> int (length m)")
  case True
  then have "in_range (int (length m)) off (int (length (payload p)))"
    using granted_offset [OF assms(4)] by (simp add: in_range_def)
  then show ?thesis
    using process_write(2,3) [OF assms(1-5)] assms(6-9) True ram.rd_wr_other ram.wr_size by simp
next
  case False
  then show ?thesis using process_write(2,3) [OF assms(1-5)] assms(6,9) by simp
qed

theorem write_touches_only_its_range_witness:
  "mem_of (fst (process_packet sample_env (sample_request OP_MEM_WRITE [(''offset'', JInt 4)] [1, 2, 3]) None sample_fabric)) 9
   = mem_of sample_fabric 9"
  using write_touches_only_its_range [of "sample_request OP_MEM_WRITE [(''offset'', JInt 4)] [1, 2, 3]" 1 4 sample_fabric
      "latency_of 3 sample_fabric" "replicate 16 0" 8 8 9 sample_env None] sample_time [of 3]
  by (simp add: write_opcodes_def in_range_def)

text \<open>
  A write beyond the simulated memory is acknowledged and lost: if the segment grants the range
  but the target's memory ends before it, the answer is COMPLETED and no memory changes.
\<close>

theorem write_past_memory_acknowledged:
  assumes "\<not> is_cip_encrypted p" "opcode p \<in> write_opcodes" "names_range p sid off"
    and "granted p sid off (int (length (payload p))) True fab"
    and "transfer_time (int (length (payload p))) fab = Inr lat"
    and "mem_of fab (dst_node p) = Some m" "int (length m) < off + int (length (payload p))"
  shows "snd (snd (process_packet en p cur fab)) = Inr (Some (write_completed p lat), cur)
    \<and> mem_of (fst (process_packet en p cur fab)) = mem_of fab"
  using process_write(1,2) [OF assms(1-5)] assms(6,7) by (auto simp: fun_eq_iff)

theorem write_past_memory_acknowledged_witness:
  "mem_of (fst (process_packet sample_env (sample_request OP_URMA_WRITE [(''offset'', JInt 40)] [9]) None sample_fabric))
   = mem_of sample_fabric"
  using write_past_memory_acknowledged [of "sample_request OP_URMA_WRITE [(''offset'', JInt 40)] [9]" 1 40 sample_fabric
      "latency_of 1 sample_fabric" "replicate 16 0" sample_env None] sample_time [of 1]
  by (simp add: write_opcodes_def)

text \<open>
  A negative read length leaks memory past the segment: a read of length -1 at offset 0 is granted
  on every segment of non-negative size the token may read, and is answered with the whole memory of
  the node but its last byte.
\<close>

theorem negative_read_leaks_memory:
  assumes "\<not> is_cip_encrypted p" "opcode p \<in> read_opcodes" "names_range p sid 0"
    and "int_get ''length'' 0 p = Inr (- 1)" "granted p sid 0 0 False fab" "transfer_time (- 1) fab = Inr lat"
    and "mem_of fab (dst_node p) = Some m"
  shows "snd (snd (process_packet en p cur fab)) = Inr (Some (read_completed p lat (butlast m)), cur)"
proof -
  have "granted p sid 0 (- 1) False fab"
    using assms(5) by (auto simp: granted_def validate_access_granted contains_def)
  moreover have "read_data (mem_of fab (dst_node p)) 0 (- 1) = butlast m"
  proof -
    have "nat (int (length m) - 1) = length m - Suc 0" by linarith
    then show ?thesis
      using assms(7) by (simp add: read_data_def mem_read_def py_slice_def py_clamp_def butlast_conv_take Let_def)
  qed
  ultimately show ?thesis using process_read(1) [OF assms(1-4)] assms(6) by simp
qed

theorem negative_read_leaks_memory_witness:
  "\<exists>lat. snd (snd (process_packet sample_env (sample_request OP_MEM_READ [(''offset'', JInt 0), (''length'', JInt (- 1))] [])
       None sample_fabric))
     = Inr (Some (read_completed (sample_request OP_MEM_READ [(''offset'', JInt 0), (''length'', JInt (- 1))] []) lat (replicate 15 0)), None)"
proof -
  have t: "transfer_time (- 1) sample_fabric = Inr (latency_of (- 1) sample_fabric)"
    by (rule transfer_time_value) (simp_all add: sample_fabric_def new_fabric_def)
  have "butlast (replicate 16 (0 :: byte)) = replicate 15 0" by (simp add: numeral_eq_Suc)
  then show ?thesis
    using negative_read_leaks_memory [of "sample_request OP_MEM_READ [(''offset'', JInt 0), (''length'', JInt (- 1))] []"
        1 sample_fabric "latency_of (- 1) sample_fabric" "replicate 16 0" sample_env None] t
    by (simp add: read_opcodes_def int_get_def meta_get_def) blast
qed

section \<open>Atomics\<close>

text \<open>The 64-bit integer at an offset.\<close>

definition u64_at :: "bytes \<Rightarrow> int \<Rightarrow> int" where
  "u64_at m off = be_val (mem_read m off 8)"

lemma u64_cell: "u64_at m off = ram.cell m off"
  by (simp add: u64_at_def ram.cell_def)

definition atomic_request :: "packet \<Rightarrow> int \<Rightarrow> int \<Rightarrow> int \<Rightarrow> fabric \<Rightarrow> bool" where
  "atomic_request p dst sid off fab \<longleftrightarrow>
     \<not> is_cip_encrypted p \<and> dst_node p = dst \<and> names_range p sid off \<and> granted p sid off 8 True fab"

definition add_amount :: "packet \<Rightarrow> int" where
  "add_amount p = (case int_get ''add'' 0 p of Inl e \<Rightarrow> 0 | Inr a \<Rightarrow> a)"

definition fetch_add :: "packet \<Rightarrow> int \<Rightarrow> int \<Rightarrow> int \<Rightarrow> fabric \<Rightarrow> bool" where
  "fetch_add p dst sid off fab \<longleftrightarrow>
     atomic_request p dst sid off fab \<and> opcode p \<in> add_opcodes \<and> int_get ''add'' 0 p = Inr (add_amount p)"

lemma fetch_add_step:
  assumes "fetch_add p dst sid off fab" "transfer_time 8 fab = Inr lat"
    and "mem_of fab dst = Some m" "off + 8 \<le> int (length m)"
  shows "snd (snd (process_packet en p cur fab)) = Inr (Some (atomic_completed p (u64_at m off) lat), cur)"
    "mem_of (fst (process_packet en p cur fab)) n =
       (if n = dst then Some (ram.set_cell m off (ram.cell m off + add_amount p)) else mem_of fab n)"
    "switch_table (fst (process_packet en p cur fab)) = switch_table fab"
    "transfer_time 8 (fst (process_packet en p cur fab)) = Inr lat"
proof -
  have h: "\<not> is_cip_encrypted p" "opcode p \<in> atomic_opcodes" "names_range p sid off" "granted p sid off 8 True fab"
      "transfer_time 8 fab = Inr lat" "mem_of fab (dst_node p) = Some m" "off + 8 \<le> int (length m)"
      "atomic_update p (ram.cell m off) = Inr (Some (be_bytes 8 ((ram.cell m off + add_amount p) mod 256 ^ 8)))"
    using assms sub_opcodes atomic_update_add [of p "add_amount p"]
    by (auto simp: fetch_add_def atomic_request_def)
  have "be_bytes 8 (v mod 256 ^ 8) = be_bytes 8 v" for v
  proof -
    have "be_bytes (length (be_bytes 8 v)) (be_val (be_bytes 8 v)) = be_bytes 8 v" by (rule be_bytes_be_val)
    then show ?thesis by (simp only: length_be_bytes be_val_be_bytes)
  qed
  then have w: "mem_write m off (be_bytes 8 ((ram.cell m off + add_amount p) mod 256 ^ 8))
      = ram.set_cell m off (ram.cell m off + add_amount p)"
    by (simp only: write_cell)
  show "snd (snd (process_packet en p cur fab)) = Inr (Some (atomic_completed p (u64_at m off) lat), cur)"
    using process_atomic(1) [OF h] by (simp add: u64_cell)
  show "mem_of (fst (process_packet en p cur fab)) n =
       (if n = dst then Some (ram.set_cell m off (ram.cell m off + add_amount p)) else mem_of fab n)"
    using process_atomic(2) [OF h] assms(1) w by (simp add: fetch_add_def atomic_request_def)
  show "switch_table (fst (process_packet en p cur fab)) = switch_table fab"
    by (rule process_atomic(3) [OF h])
  show "transfer_time 8 (fst (process_packet en p cur fab)) = Inr lat"
    using transfer_time_cong [OF process_atomic(4,5) [OF h]] assms(2) by simp
qed

text \<open>Packets handled one after the other, each with its own environment and connection.\<close>

primrec process_all :: "(env \<times> packet \<times> int option) list \<Rightarrow> fabric \<Rightarrow> fabric" where
  "process_all [] fab = fab"
| "process_all (r # rs) fab = process_all rs (fst (process_packet (fst r) (fst (snd r)) (snd (snd r)) fab))"

lemma fetch_add_table: "switch_table fab' = switch_table fab \<Longrightarrow> fetch_add p dst sid off fab' = fetch_add p dst sid off fab"
  by (simp add: fetch_add_def atomic_request_def granted_def)

lemma additions_run:
  assumes "list_all (\<lambda>r. fetch_add (fst (snd r)) dst sid off fab) rs" "transfer_time 8 fab = Inr lat"
    and "mem_of fab dst = Some m" "in_range (int (length m)) off 8"
  shows "mem_of (process_all rs fab) dst
    = Some (foldl (\<lambda>m v. ram.set_cell m off (ram.cell m off + v)) m (map (\<lambda>r. add_amount (fst (snd r))) rs))"
  using assms
proof (induction rs arbitrary: fab m)
  case (Cons r rs)
  let ?p = "fst (snd r)" and ?fab = "fst (process_packet (fst r) (fst (snd r)) (snd (snd r)) fab)"
  let ?m = "ram.set_cell m off (ram.cell m off + add_amount ?p)"
  have fa: "fetch_add ?p dst sid off fab" and rest: "list_all (\<lambda>r. fetch_add (fst (snd r)) dst sid off fab) rs"
    using Cons.prems(1) by simp_all
  have off: "off + 8 \<le> int (length m)" using Cons.prems(4) by (simp add: in_range_def)
  note st = fetch_add_step [OF fa Cons.prems(2,3) off]
  have "list_all (\<lambda>r. fetch_add (fst (snd r)) dst sid off ?fab) rs"
    using rest fetch_add_table [OF st(3)] by (simp add: list_all_iff)
  moreover have "transfer_time 8 ?fab = Inr lat" by (rule st(4))
  moreover have "mem_of ?fab dst = Some ?m" using st(2) by simp
  moreover have "in_range (int (length ?m)) off 8" using ram.set_cell_size [OF Cons.prems(4)] Cons.prems(4) by simp
  ultimately show ?case using Cons.IH [of ?fab ?m] by simp
qed simp

text \<open>
  C4. Fetch-and-add is exact and atomic: however many additions to one cell are handled, from whatever
  nodes and connections and in whatever order, the cell ends with its old value plus all the amounts,
  modulo 2 to the 64; no addition is lost.
\<close>

theorem additions_never_lost:
  assumes "list_all (\<lambda>r. fetch_add (fst (snd r)) dst sid off fab) rs" "transfer_time 8 fab = Inr lat"
    and "mem_of fab dst = Some m" "in_range (int (length m)) off 8"
  shows "\<exists>m'. mem_of (process_all rs fab) dst = Some m'
    \<and> u64_at m' off = (u64_at m off + sum_list (map (\<lambda>r. add_amount (fst (snd r))) rs)) mod 2 ^ 64"
  using additions_run [OF assms] ram.cell_additions [OF assms(4)] by (simp add: u64_cell)

lemma sample_zero: "u64_at (replicate 16 0) 8 = 0"
  by (simp add: u64_at_def mem_read_def py_slice_def py_clamp_def Let_def be_val_def numeral_eq_Suc)

theorem additions_never_lost_witness:
  "\<exists>m'. mem_of (process_all
      [(sample_env, sample_request OP_URMA_ATOMIC_ADD [(''offset'', JInt 8), (''add'', JInt 5)] [], None),
       (sample_env, sample_request OP_MEM_ATOMIC_ADD [(''offset'', JInt 8), (''add'', JInt (- 2))] [], None)] sample_fabric) 2 = Some m'
    \<and> u64_at m' 8 = 3"
  using additions_never_lost [of 2 1 8 sample_fabric
      "[(sample_env, sample_request OP_URMA_ATOMIC_ADD [(''offset'', JInt 8), (''add'', JInt 5)] [], None),
       (sample_env, sample_request OP_MEM_ATOMIC_ADD [(''offset'', JInt 8), (''add'', JInt (- 2))] [], None)]"
      "latency_of 8 sample_fabric" "replicate 16 0"] sample_time [of 8] sample_zero
  by (simp add: fetch_add_def atomic_request_def add_opcodes_def add_amount_def int_get_def meta_get_def in_range_def)

text \<open>
  C20. Compare-and-swap: with a swap value of 64 bits, the cell takes that value if it held the compare
  value and keeps its own otherwise; either way the answer carries the value found, and every other
  node's memory is as before.
\<close>

theorem compare_and_swap_exact:
  assumes "atomic_request p dst sid off fab" "opcode p \<in> cas_opcodes"
    and "int_get ''compare'' 0 p = Inr cmp" "int_get ''swap'' 0 p = Inr sw" "0 \<le> sw" "sw < 2 ^ 64"
    and "transfer_time 8 fab = Inr lat" "mem_of fab dst = Some m" "in_range (int (length m)) off 8"
  shows "snd (snd (process_packet en p cur fab)) = Inr (Some (atomic_completed p (u64_at m off) lat), cur)
    \<and> (\<exists>m'. mem_of (fst (process_packet en p cur fab)) dst = Some m'
          \<and> u64_at m' off = (if u64_at m off = cmp then sw else u64_at m off))
    \<and> (n = dst \<or> mem_of (fst (process_packet en p cur fab)) n = mem_of fab n)"
proof -
  let ?u = "if ram.cell m off = cmp then Some (be_bytes 8 sw) else None"
  have off: "off + 8 \<le> int (length m)" using assms(9) by (simp add: in_range_def)
  have h: "\<not> is_cip_encrypted p" "opcode p \<in> atomic_opcodes" "names_range p sid off" "granted p sid off 8 True fab"
      "transfer_time 8 fab = Inr lat" "mem_of fab (dst_node p) = Some m" "off + 8 \<le> int (length m)"
      "atomic_update p (ram.cell m off) = Inr ?u"
    using assms(1,2,5-8) off sub_opcodes atomic_update_cas [OF assms(2-4)] by (auto simp: atomic_request_def)
  have "ram.cell (mem_write m off (be_bytes 8 sw)) off = sw"
    using ram.cell_set_cell [OF assms(9), of sw] assms(5,6) by (simp add: write_cell del: be_bytes.simps)
  then show ?thesis
    using process_atomic(1,2) [OF h] assms(1) by (auto simp: u64_cell atomic_request_def)
qed

theorem compare_and_swap_exact_witness:
  "\<exists>m'. mem_of (fst (process_packet sample_env (sample_request OP_MEM_ATOMIC_CAS
       [(''offset'', JInt 8), (''compare'', JInt 0), (''swap'', JInt 77)] []) None sample_fabric)) 2 = Some m' \<and> u64_at m' 8 = 77"
  using compare_and_swap_exact [of "sample_request OP_MEM_ATOMIC_CAS
       [(''offset'', JInt 8), (''compare'', JInt 0), (''swap'', JInt 77)] []" 2 1 8 sample_fabric 0 77
      "latency_of 8 sample_fabric" "replicate 16 0" sample_env None 2] sample_time [of 8] sample_zero
  by (simp add: atomic_request_def cas_opcodes_def int_get_def meta_get_def in_range_def)

text \<open>
  Swapping in a value that does not fit 64 bits raises: a compare-and-swap that matches, with a
  negative or too large swap value, is not answered but raises \<open>struct.error\<close>, which ends the
  connection; no memory changes.
\<close>

theorem oversized_swap_raises:
  assumes "atomic_request p dst sid off fab" "opcode p \<in> cas_opcodes"
    and "int_get ''compare'' 0 p = Inr (u64_at m off)" "int_get ''swap'' 0 p = Inr sw" "sw < 0 \<or> 2 ^ 64 \<le> sw"
    and "mem_of fab dst = Some m" "in_range (int (length m)) off 8"
  shows "snd (snd (process_packet en p cur fab)) = Inl StructError
    \<and> mem_of (fst (process_packet en p cur fab)) = mem_of fab"
proof -
  let ?fab = "count_tx en p (count_packet p fab)"
  have a: "\<not> is_cip_encrypted p" "opcode p \<in> atomic_opcodes" "names_range p sid off" "granted p sid off 8 True ?fab"
      "mem_of ?fab (dst_node p) = Some m"
    using assms(1,2,6) sub_opcodes by (auto simp: atomic_request_def)
  obtain msg where v: "validate_access (dst_node p) sid off 8 True (token_id p) (switch_table ?fab) = (True, msg)"
    using granted_validate [OF a(4)] by blast
  obtain c where c: "dict_get (nodes ?fab) (dst_node p) = Some c" "local_memory c = m"
    using a(5) by (auto simp: mem_of_def simp del: mem_of_count)
  have "atomic_update p (u64_at m off) = Inl StructError"
    using atomic_update_cas [OF assms(2-4), of "u64_at m off"] assms(5) by auto
  moreover have "off + 8 \<le> int (length m)" using assms(7) by (simp add: in_range_def)
  ultimately have "atomic_apply p off ?fab = Inl StructError"
    using c by (simp add: atomic_apply_def u64_at_def mem_read_def Let_def)
  then have "process_packet en p cur fab = (?fab, [], Inl StructError)"
    unfolding process_packet_open [OF a(1)] to_handler(3) [OF a(2)]
    using a(3) v by (simp add: handle_atomic_def names_range_def Let_def)
  then show ?thesis by simp
qed

theorem oversized_swap_raises_witness:
  "snd (snd (process_packet sample_env (sample_request OP_URMA_ATOMIC_CAS
     [(''offset'', JInt 8), (''compare'', JInt 0), (''swap'', JInt (- 1))] []) None sample_fabric)) = Inl StructError"
  using oversized_swap_raises [of "sample_request OP_URMA_ATOMIC_CAS
       [(''offset'', JInt 8), (''compare'', JInt 0), (''swap'', JInt (- 1))] []" 2 1 8 sample_fabric "replicate 16 0" "- 1"
      sample_env None] sample_zero
  by (simp add: atomic_request_def cas_opcodes_def int_get_def meta_get_def in_range_def)

section \<open>Protocol\<close>

text \<open>
  C17. Every answer belongs to its request: whatever the packet and the state, if the switch answers
  at all, the answer is addressed to the packet's source, carries its sequence number, names the
  switch or the packet's target as its source, and has one of the ten response opcodes.
\<close>

theorem every_answer_matches_its_request: "answered p (process_packet en p cur fab)"
  by (rule process_packet_answer)

text \<open>
  C5. No protected packet is processed twice: over any sequence of packets handled by a fresh switch,
  from any connections, no two packets with the CIP flag and a payload that pass verification have the
  same source and sequence number.
\<close>

theorem protected_packets_processed_once:
  "distinct (let_through protected_step source_and_seq (new_fabric bw hop) rs)"
proof -
  have "engine_rel (cip (new_fabric bw hop)) {}"
    using engine_rel_new [of CIP_SUITE_AES_256_GCM 64]
    by (simp add: new_fabric_def CIP_SUITE_AES_256_GCM_def CIP_SUITE_NONE_def)
  then show ?thesis using switch_filter.through_once by blast
qed

text \<open>The engine after a rejection: by the window, or by the tag after the window let the number through.\<close>

lemma replay_check_message:
  assumes "replay_check eng seq src = (eng', Inr (Some msg))"
  shows "\<exists>h. dict_get (highest_seq_seen eng) src = Some h
    \<and> msg = (if anti_replay_window_size eng \<le> h - seq then stale_message seq h else duplicate_message seq)"
  using assms by (auto simp: replay_check_def Let_def split: option.splits if_splits)

lemma replay_check_counters:
  assumes "replay_check eng seq src = (eng', Inr None)"
  shows "total_replay_rejections eng' = total_replay_rejections eng" "total_tamper_rejections eng' = total_tamper_rejections eng"
    "total_decrypted_packets eng' = total_decrypted_packets eng" "total_encrypted_packets eng' = total_encrypted_packets eng"
  using assms by (auto simp: replay_check_def Let_def split: option.splits if_splits)

definition rejection :: "cip_engine \<Rightarrow> (int \<times> int) set \<Rightarrow> packet \<Rightarrow> cip_engine \<Rightarrow> string \<Rightarrow> bool" where
  "rejection eng S p eng' msg \<longleftrightarrow>
     (if abstract_refuses (anti_replay_window_size eng) S (seq_num p) (src_node p)
      then eng' = eng\<lparr>total_replay_rejections := total_replay_rejections eng + 1\<rparr>
        \<and> (\<exists>h. dict_get (highest_seq_seen eng) (src_node p) = Some h
              \<and> msg = (if anti_replay_window_size eng \<le> h - seq_num p then stale_message (seq_num p) h else duplicate_message (seq_num p)))
      else msg = tamper_message \<and> window_rel eng' (insert (src_node p, seq_num p) S)
        \<and> total_tamper_rejections eng' = total_tamper_rejections eng + 1
        \<and> total_replay_rejections eng' = total_replay_rejections eng
        \<and> total_decrypted_packets eng' = total_decrypted_packets eng
        \<and> total_encrypted_packets eng' = total_encrypted_packets eng
        \<and> cipher_suite eng' = cipher_suite eng \<and> anti_replay_window_size eng' = anti_replay_window_size eng)"

lemma decrypt_rejects:
  assumes "cipher_suite eng \<noteq> CIP_SUITE_NONE" "payload p \<noteq> []" "cip_fields_ok (cipher_suite eng) (token_id p) (seq_num p)" "window_rel eng S"
    and "abstract_refuses (anti_replay_window_size eng) S (seq_num p) (src_node p)
      \<or> auth_tag p \<noteq> tag_of (cipher_suite eng) (token_id p) (seq_num p) (payload p)"
  shows "\<exists>eng' msg. decrypt_and_verify eng (payload p) (auth_tag p) (token_id p) (seq_num p) (src_node p) = (eng', Inr (False, [], msg))
    \<and> rejection eng S p eng' msg"
proof (cases "abstract_refuses (anti_replay_window_size eng) S (seq_num p) (src_node p)")
  case True
  then obtain msg where r: "replay_check eng (seq_num p) (src_node p)
      = (eng\<lparr>total_replay_rejections := total_replay_rejections eng + 1\<rparr>, Inr (Some msg))"
    using replay_check_refuses [OF assms(4)] by blast
  then show ?thesis
    using assms(1,2) True replay_check_message [OF r] by (auto simp: decrypt_and_verify_def rejection_def)
next
  case False
  then obtain eng1 where r: "replay_check eng (seq_num p) (src_node p) = (eng1, Inr None)"
      "window_rel eng1 (insert (src_node p, seq_num p) S)"
    using replay_check_passes [OF assms(4) False] by (cases "replay_check eng (seq_num p) (src_node p)") auto
  have "cipher_suite eng1 = cipher_suite eng" "anti_replay_window_size eng1 = anti_replay_window_size eng"
    using replay_check_window [of eng "seq_num p" "src_node p"] r(1) by simp_all
  then show ?thesis
    using assms(1,2,5) False r replay_check_counters [OF r(1)]
    by (simp add: decrypt_and_verify_def rejection_def cip_fields [OF assms(3)])
qed

text \<open>
  C18. A protected packet that fails verification has no effect: when an active engine refuses its number,
  as too old or as seen before, or when its tag is not the one of its token, number and ciphertext, the
  switch counts the packet, its flits and bytes, and exactly one rejection counter rises by one: the replay
  counter, with everything else of the engine as it was, or the tamper counter, with the number now spent.
  Nothing else of the switch changes, nothing is executed, stored or relayed, and the sender gets the message
  of the rejection.
\<close>

theorem rejected_packet_has_no_effect:
  assumes "is_cip_encrypted p" "cipher_suite (cip fab) \<noteq> CIP_SUITE_NONE" "payload p \<noteq> []"
    and "cip_fields_ok (cipher_suite (cip fab)) (token_id p) (seq_num p)" "window_rel (cip fab) S"
    and "abstract_refuses (anti_replay_window_size (cip fab)) S (seq_num p) (src_node p)
      \<or> auth_tag p \<noteq> tag_of (cipher_suite (cip fab)) (token_id p) (seq_num p) (payload p)"
  shows "\<exists>eng msg. rejection (cip fab) S p eng msg
    \<and> process_packet en p cur fab
      = (fab\<lparr>total_packets_routed := total_packets_routed fab + 1, total_flits_routed := total_flits_routed fab + flit_count p,
             total_bytes_transferred := total_bytes_transferred fab + total_bytes p, cip := eng\<rparr>,
         [], Inr (Some (error_reply p msg), cur))"
proof -
  obtain eng msg where r: "decrypt_and_verify (cip fab) (payload p) (auth_tag p) (token_id p) (seq_num p) (src_node p) = (eng, Inr (False, [], msg))"
      "rejection (cip fab) S p eng msg"
    using decrypt_rejects [OF assms(2-6)] by blast
  have "process_packet en p cur fab = ((count_packet p fab)\<lparr>cip := eng\<rparr>, [], Inr (Some (error_reply p msg), cur))"
    using r(1) assms(1) by (simp add: process_packet_def)
  then show ?thesis using r(2) unfolding count_packet_def by fastforce
qed

theorem rejected_packet_has_no_effect_witness:
  "\<exists>fab'. process_packet sample_env (ub_packet OP_URMA_WRITE 1 2 7 0 FLAG_CIP_ENCRYPTED 9 zero_tag (JObj []) [1]) None
      (sample_fabric\<lparr>cip := (new_engine 2 64)\<lparr>highest_seq_seen := [(1, 100)], replay_bitmap := [(1, 1)]\<rparr>\<rparr>)
    = (fab', [], Inr (Some (error_reply (ub_packet OP_URMA_WRITE 1 2 7 0 FLAG_CIP_ENCRYPTED 9 zero_tag (JObj []) [1]) (stale_message 9 100)), None))
    \<and> total_replay_rejections (cip fab') = 1 \<and> total_tamper_rejections (cip fab') = 0"
proof -
  let ?p = "ub_packet OP_URMA_WRITE 1 2 7 0 FLAG_CIP_ENCRYPTED 9 zero_tag (JObj []) [1]"
  let ?eng = "(new_engine 2 64)\<lparr>highest_seq_seen := [(1, 100)], replay_bitmap := [(1, 1)]\<rparr>"
  have c: "is_cip_encrypted ?p" by (simp add: is_cip_encrypted_def ub_packet_def FLAG_CIP_ENCRYPTED_def)
  have f: "cip (sample_fabric\<lparr>cip := ?eng\<rparr>) = ?eng" by simp
  have e: "cipher_suite ?eng = 2" "anti_replay_window_size ?eng = 64" "highest_seq_seen ?eng = [(1, 100)]"
    "total_replay_rejections ?eng = 0" "total_tamper_rejections ?eng = 0"
    by (simp_all add: new_engine_def)
  have w: "window_rel ?eng {(1, 100)}"
    by (rule window_rel_update [OF window_rel_new [of 2 64], of _ 1 100, simplified]) (simp_all add: new_engine_def window_first)
  have p: "seq_num ?p = 9" "src_node ?p = 1" "payload ?p = [1]" "token_id ?p = 7" by (simp_all add: ub_packet_def)
  have ref: "abstract_refuses 64 {(1, 100)} 9 1" by (auto simp: abstract_refuses_def)
  obtain eng msg where r: "rejection ?eng {(1, 100)} ?p eng msg"
    "\<exists>fab'. process_packet sample_env ?p None (sample_fabric\<lparr>cip := ?eng\<rparr>) = (fab', [], Inr (Some (error_reply ?p msg), None)) \<and> cip fab' = eng"
    using rejected_packet_has_no_effect [of ?p "sample_fabric\<lparr>cip := ?eng\<rparr>" "{(1, 100)}" sample_env None, unfolded f e p] c w ref
    by (fastforce simp: CIP_SUITE_NONE_def cip_fields_ok_def)
  moreover have "total_tamper_rejections (new_engine 2 64) = 0" by (simp add: new_engine_def)
  ultimately show ?thesis using ref by (auto simp: rejection_def e p)
qed

text \<open>
  An emergency reaches every other node, once: if no peer is gone, a panic, out-of-memory or reboot
  packet is written, unchanged, to the connection of every attached node except its source, in the
  order of the node dictionary, and the event is appended to the emergency log.
\<close>

theorem emergency_reaches_every_other_node:
  assumes "\<not> is_cip_encrypted p" "opcode p \<in> sentry_opcodes" "meta_get ''reason'' (JStr ''Emergency Event'') p = Inr reason"
    and "serialize p = Inr bs" "lost en = (\<lambda>c. False)"
  shows "fst (snd (process_packet en p cur fab))
      = map (\<lambda>x. (conn_id (snd x), bs)) (filter (\<lambda>x. fst x \<noteq> src_node p) (nodes fab))
    \<and> sentry_events (fst (process_packet en p cur fab)) = sentry_events fab @
       [JObj [(''node'', JInt (src_node p)), (''op'', JInt (opcode p)), (''reason'', reason), (''time'', JFloat (now en))]]"
  using emergency_outputs [OF assms(1-4)] assms(5) by simp

theorem emergency_reaches_every_other_node_witness:
  "\<exists>bs. fst (snd (process_packet sample_env (sample_packet\<lparr>opcode := OP_SENTRY_OOM_BLOCK\<rparr>) None sample_fabric)) = [(4, bs)]"
proof -
  let ?p = "sample_packet\<lparr>opcode := OP_SENTRY_OOM_BLOCK\<rparr>"
  have "header_in_range (packet_header ?p)"
    using sample_serialize by (simp add: serialize_Inr header_in_range_def packet_header_def meta_bytes_def)
  then have "\<exists>bs. serialize ?p = Inr bs" by (simp add: serialize_Inr)
  then obtain bs where "serialize ?p = Inr bs" ..
  moreover have "meta_get ''reason'' (JStr ''Emergency Event'') ?p = Inr (JStr ''Emergency Event'')"
    by (simp add: meta_get_def sample_packet_def ub_packet_def)
  moreover have "\<not> is_cip_encrypted ?p" "opcode ?p \<in> sentry_opcodes" "src_node ?p = 1" "lost sample_env = (\<lambda>c. False)"
    by (simp_all add: is_cip_encrypted_def sample_packet_def ub_packet_def FLAG_CIP_ENCRYPTED_def sentry_opcodes_def sample_env_def)
  ultimately show ?thesis
    using emergency_reaches_every_other_node [of ?p "JStr ''Emergency Event''" bs sample_env None sample_fabric]
    by (auto simp: sample_fabric_def sample_conn_def)
qed

text \<open>
  A request to access a range, of any of the three kinds, and what the switch has of it after the CIP check:
  the engine and the bytes to write. A protected packet must have passed verification.
\<close>

definition access_request :: "packet \<Rightarrow> int \<Rightarrow> int \<Rightarrow> int \<Rightarrow> bool \<Rightarrow> bool" where
  "access_request p sid off len w \<longleftrightarrow> names_range p sid off \<and>
     (opcode p \<in> write_opcodes \<and> len = int (length (payload p)) \<and> w
      \<or> opcode p \<in> read_opcodes \<and> int_get ''length'' 0 p = Inr len \<and> \<not> w
      \<or> opcode p \<in> atomic_opcodes \<and> len = 8 \<and> w)"

definition opened :: "cip_engine \<Rightarrow> packet \<Rightarrow> cip_engine \<Rightarrow> bytes \<Rightarrow> bool" where
  "opened eng p eng' body \<longleftrightarrow>
     (if is_cip_encrypted p
      then \<exists>m. decrypt_and_verify eng (payload p) (auth_tag p) (token_id p) (seq_num p) (src_node p) = (eng', Inr (True, body, m))
      else eng' = eng \<and> body = payload p)"

lemma process_opened:
  "opened (cip fab) p eng body \<Longrightarrow> process_packet en p cur fab = process_plain en p body cur ((count_packet p fab)\<lparr>cip := eng\<rparr>)"
  by (auto simp: opened_def process_packet_def Let_def count_packet_def split: if_splits)

text \<open>
  C19. A refused access has no effect: when \<open>validate_access\<close> refuses a write, read or atomic, plain or
  protected, the answer is its message and nothing is relayed; the memories, the table and the attached nodes
  are unchanged, and the state differs from the one before in the traffic counters and, for a protected
  packet, in what verifying it did to the CIP engine, which happens before the access check.
\<close>

theorem refused_access_has_no_effect:
  assumes "access_request p sid off len w" "opened (cip fab) p eng body" "transfer_time len fab = Inr lat"
    and "validate_access (dst_node p) sid off len w (token_id p) (switch_table fab) = (False, msg)"
  shows "process_packet en p cur fab =
    (count_tx en p ((count_packet p fab)\<lparr>cip := eng\<rparr>), [], Inr (Some (error_reply p msg), cur))"
proof -
  let ?counted = "(count_packet p fab)\<lparr>cip := eng\<rparr>"
  let ?fab = "count_tx en p ?counted"
  have p: "names_range p sid off" using assms(1) by (simp add: access_request_def)
  have h: "transfer_time len ?fab = Inr lat"
    "validate_access (dst_node p) sid off len w (token_id p) (switch_table ?fab) = (False, msg)"
    using assms(3,4) by (simp_all add: transfer_time_def calculate_transfer_time_ns_def Let_def)
  consider "opcode p \<in> write_opcodes" "len = int (length (payload p))" w
    | "opcode p \<in> read_opcodes" "int_get ''length'' 0 p = Inr len" "\<not> w"
    | "opcode p \<in> atomic_opcodes" "len = 8" w
    using assms(1) unfolding access_request_def by blast
  then show ?thesis
    unfolding process_opened [OF assms(2)]
  proof cases
    case 1
    then show "process_plain en p body cur ?counted = (?fab, [], Inr (Some (error_reply p msg), cur))"
      using h handle_write_refused [OF p, of ?fab msg lat] by (simp add: to_handler(1))
  next
    case 2
    then show "process_plain en p body cur ?counted = (?fab, [], Inr (Some (error_reply p msg), cur))"
      using h handle_read_refused [OF p, of len ?fab msg lat] by (simp add: to_handler(2))
  next
    case 3
    then show "process_plain en p body cur ?counted = (?fab, [], Inr (Some (error_reply p msg), cur))"
      using h handle_atomic_refused [OF p, of ?fab msg] by (simp add: to_handler(3))
  qed
qed

theorem refused_access_has_no_effect_witness:
  "fst (snd (process_packet sample_env (sample_request OP_URMA_WRITE [(''offset'', JInt 62)] [1, 2, 3]) None sample_fabric)) = []"
proof -
  let ?p = "sample_request OP_URMA_WRITE [(''offset'', JInt 62)] [1, 2, 3]"
  have "\<not> fst (validate_access 2 1 62 3 True 7 (switch_table sample_fabric))"
    using sample_granted [of ?p 62 3 True] by (simp add: granted_def)
  then obtain msg where "validate_access (dst_node ?p) 1 62 3 True (token_id ?p) (switch_table sample_fabric) = (False, msg)"
    by (cases "validate_access 2 1 62 3 True 7 (switch_table sample_fabric)") simp
  moreover have "access_request ?p 1 62 3 True" by (simp add: access_request_def write_opcodes_def)
  moreover have "opened (cip sample_fabric) ?p (cip sample_fabric) [1, 2, 3]" by (simp add: opened_def)
  ultimately show ?thesis using refused_access_has_no_effect sample_time [of 3] by fastforce
qed

text \<open>
  Atomic XOR is not executed: the packet falls through to forwarding, so no memory changes and the
  sender gets FORWARDED or, if the target is not attached, no answer.
\<close>

theorem atomic_xor_not_executed:
  assumes "opcode p = OP_MEM_ATOMIC_XOR" "\<not> is_cip_encrypted p" "snd (snd (process_packet en p cur fab)) = Inr (r, cur')"
  shows "r = (if dict_get (nodes fab) (dst_node p) = None then None
      else Some (node_reply p OP_RESP_OK [(''status'', JStr ''FORWARDED'')]))
    \<and> mem_of (fst (process_packet en p cur fab)) = mem_of fab"
proof -
  let ?fab = "count_tx en p (count_packet p fab)"
  have f: "process_packet en p cur fab = handle_forward en p cur ?fab"
    unfolding process_packet_open [OF assms(2)] using assms(1) by (simp add: process_plain_def dispatch_def Let_def)
  have k: "dict_get (nodes ?fab) (dst_node p) = None \<longleftrightarrow> dict_get (nodes fab) (dst_node p) = None"
    by (simp add: count_tx_def)
  have "mem_of (fst (handle_forward en p cur ?fab)) = mem_of ?fab"
    by (auto simp: handle_forward_def Let_def mem_of_def simp del: mem_of_count split: option.split sum.split)
  then show ?thesis
    using assms(3) k unfolding f by (auto simp: handle_forward_def Let_def split: option.splits sum.splits)
qed

theorem atomic_xor_not_executed_witness:
  "mem_of (fst (process_packet sample_env (reply_packet OP_MEM_ATOMIC_XOR 1 9 5 []) None sample_fabric)) 2 = Some (replicate 16 0)"
proof -
  let ?p = "reply_packet OP_MEM_ATOMIC_XOR 1 9 5 []"
  have n: "\<not> is_cip_encrypted ?p" by (simp add: is_cip_encrypted_def FLAG_NONE_def)
  have "snd (snd (process_packet sample_env ?p None sample_fabric)) = Inr (None, None)"
    unfolding process_packet_open [OF n]
    by (simp add: process_plain_def dispatch_def Let_def handle_forward_def count_tx_def count_packet_def
        dict_adjust_def sample_fabric_def)
  then show ?thesis using atomic_xor_not_executed [of ?p sample_env None sample_fabric None None] n by simp
qed

text \<open>
  Credits are never consumed: a packet other than a credit update or a registration leaves the
  flow-control credits of every node as they are, whatever it transfers.
\<close>

theorem credits_never_consumed:
  assumes "opcode p \<noteq> OP_LINK_CREDIT_UPDATE" "opcode p \<noteq> OP_REG_NODE"
  shows "credits_of (fst (process_packet en p cur fab)) = credits_of fab"
  using assms by (rule process_packet_credits)

theorem credits_never_consumed_witness:
  "credits_of (fst (process_packet sample_env (sample_request OP_URMA_WRITE [(''offset'', JInt 4)] [1, 2, 3]) None sample_fabric))
   = credits_of sample_fabric"
  by (rule credits_never_consumed) simp_all

text \<open>
  C16. A connection is the sequence of its packets: a chunk holding the frames of well-formed packets is
  handled as these packets one after the other, in order, with the same writes and the same final
  state; and unless one of them raises, no byte is left over.
\<close>

theorem chunk_is_sequence_of_packets:
  assumes "list_all2 (\<lambda>p f. wf_packet p \<and> serialize p = Inr f) ps fs"
    and "serve_all en ps cur fab = (fab', out, cur', err)"
  shows "\<exists>buf. client_chunk en (concat fs) \<lparr>client_buffer = [], current_node = cur\<rparr> fab
      = (fab', out, \<lparr>client_buffer = buf, current_node = cur'\<rparr>, err) \<and> (err = None \<longrightarrow> buf = [])"
  using client_loop_serves [OF drains_stream [OF assms(1)] assms(2)] by (simp add: client_chunk_def)

theorem chunk_is_sequence_of_packets_witness:
  "\<exists>fab' out cur' err buf. serve_all sample_env [sample_packet, sample_packet] None sample_fabric = (fab', out, cur', err)
    \<and> client_chunk sample_env (sample_frame @ sample_frame) new_client sample_fabric
      = (fab', out, \<lparr>client_buffer = buf, current_node = cur'\<rparr>, err)"
proof -
  obtain fab' out cur' err where sa: "serve_all sample_env [sample_packet, sample_packet] None sample_fabric = (fab', out, cur', err)"
    by (metis prod_cases4)
  have "list_all2 (\<lambda>p f. wf_packet p \<and> serialize p = Inr f) [sample_packet, sample_packet] [sample_frame, sample_frame]"
    by (simp add: sample_facts)
  from chunk_is_sequence_of_packets [OF this sa] show ?thesis using sa by (auto simp: new_client_def simp del: serve_all.simps)
qed

text \<open>
  Hang-up detaches the node last registered on the connection: it is no longer attached, every
  access to it is refused, and the memories of all other nodes stay. This is so even when the node has
  meanwhile registered over another connection, which then loses it.
\<close>

theorem hangup_detaches_node:
  assumes "current_node cl = Some n" "dict_get (nodes fab) n = Some c"
  shows "mem_of (client_cleanup cl fab) = (mem_of fab)(n := None)
    \<and> validate_access n sid off len w token (switch_table (client_cleanup cl fab))
        = (False, ''Target node '' @ show_int n @ '' not found on UB fabric'')"
  using client_cleanup_detaches [OF assms(1), of fab] assms(2)
  by (auto simp: mem_of_def unregister_node_def validate_access_def fun_eq_iff)

theorem hangup_detaches_node_witness:
  "mem_of (client_cleanup \<lparr>client_buffer = [], current_node = Some 2\<rparr> sample_fabric) 2 = None"
  using hangup_detaches_node [of "\<lparr>client_buffer = [], current_node = Some 2\<rparr>" 2 sample_fabric sample_conn]
  by (simp add: sample_fabric_def)

text \<open>
  The latency model is sound: on a link with positive bandwidth and non-negative hop latency, the
  simulated time of a transfer of at most 4 GiB is defined, at least the 35 ns of the memory, and does
  not decrease with the number of bytes, in spite of floating-point rounding at every step.
\<close>

theorem latency_sound:
  assumes "0 < link_bw_gbps fab" "0 \<le> hop_latency_ns fab" "0 \<le> m" "m \<le> n" "n < 2 ^ 32"
  shows "\<exists>lm ln. transfer_time m fab = Inr lm \<and> transfer_time n fab = Inr ln \<and> 35 \<le> lm \<and> lm \<le> ln"
  using transfer_time_small [of fab] latency_lower [OF assms(1-3)] latency_mono [OF assms(1,4)] assms by simp

theorem latency_sound_witness:
  "\<exists>lm ln. transfer_time 64 sample_fabric = Inr lm \<and> transfer_time 4096 sample_fabric = Inr ln \<and> 35 \<le> lm \<and> lm \<le> ln"
  by (rule latency_sound) (simp_all add: sample_fabric_def new_fabric_def)

text \<open>
  The event log holds the most recent 200 events: recording any sequence of events into an empty
  log leaves exactly its last 200, in order.
\<close>

theorem event_log_is_last_200: "foldl (\<lambda>evs e. push_event e evs) [] es = drop (length es - 200) es"
  by (rule push_events_last)

end
