(* ===== verification/Fabric_Guest.thy ===== *)
theory Fabric_Guest
  imports Fabric_Props Device
begin

text \<open>
  The switch of \<open>daemon/fabric.py\<close> and the guest device of \<open>unifiedbus/device.py\<close> together: a request
  and its answer over the wire, relayed writes and the copies of a node's memory that the switch and the
  guest keep, and answers that do not come from the switch. Bytes that the switch writes to a connection
  reach the device at the other end in order, cut into any chunks.
\<close>

section \<open>A request and its answer\<close>

lemma serve_answer:
  assumes "process_packet en p cur fab = (fab', out, Inr (Some r, cur'))" "serialize r = Inr rs" "\<not> lost en (me en)"
  shows "serve_packet en p cur fab = (fab', out @ [(me en, rs)], cur', None)"
  using assms by (simp add: serve_packet_def send_raising_def)

lemma request_served:
  assumes "wf_packet p" "serialize p = Inr bs"
    and "process_packet en p cur fab = (fab', out, Inr (Some r, cur'))" "serialize r = Inr rs" "\<not> lost en (me en)"
  shows "client_chunk en bs \<lparr>client_buffer = [], current_node = cur\<rparr> fab
    = (fab', out @ [(me en, rs)], \<lparr>client_buffer = [], current_node = cur'\<rparr>, None)"
proof -
  have "drains deserialize_from_buffer (concat [bs]) [p] []" using assms(1,2) by (intro drains_stream) simp
  moreover have "serve_all en [p] cur fab = (fab', out @ [(me en, rs)], cur', None)"
    using serve_answer [OF assms(3-5)] by simp
  ultimately show ?thesis using client_loop_serves by (fastforce simp: client_chunk_def)
qed

lemma answer_recognised: "fabric_reply_opcodes \<subseteq> RESPONSE_OPCODES"
  by (simp add: fabric_reply_opcodes_def RESPONSE_OPCODES_def)

lemma reply_answers: "reply_to p r \<Longrightarrow> answers (seq_num p) r"
  using answer_recognised by (auto simp: reply_to_def answers_def)

lemma process_reply: "process_packet en p cur fab = (fab', out, Inr (Some r, cur')) \<Longrightarrow> reply_to p r"
  using process_packet_answer [of p en cur fab] by simp

text \<open>A sample request, an emergency of node 1, and its answer.\<close>

definition sample_alarm :: packet where
  "sample_alarm = sample_packet\<lparr>opcode := OP_SENTRY_OOM_BLOCK\<rparr>"

definition sample_answer :: packet where
  "sample_answer = switch_reply sample_alarm OP_RESP_OK [(''status'', JStr ''EMERGENCY_CONTAINED''), (''action'', JStr ''BLOCKED'')]"

definition sample_device :: ub_device where
  "sample_device = (new_device 1 [])\<lparr>rx_alive := True, sock_open := True\<rparr>"

lemma sample_device_fields [simp]: "ready sample_device" "pending_replies sample_device = []"
  by (simp_all add: sample_device_def new_device_def ready_def)

lemma sample_env_fields [simp]: "me sample_env = 3" "\<not> lost sample_env c"
  by (simp_all add: sample_env_def)

lemma sample_alarm_fields [simp]:
  "opcode sample_alarm = OP_SENTRY_OOM_BLOCK" "src_node sample_alarm = 1" "dst_node sample_alarm = 2" "seq_num sample_alarm = 9"
  "\<not> is_cip_encrypted sample_alarm" "meta_get ''reason'' (JStr ''Emergency Event'') sample_alarm = Inr (JStr ''Emergency Event'')"
  by (simp_all add: sample_alarm_def sample_packet_def ub_packet_def is_cip_encrypted_def FLAG_CIP_ENCRYPTED_def meta_get_def)

lemma sample_alarm_frame: "\<exists>bs. serialize sample_alarm = Inr bs"
proof -
  have "header_in_range (packet_header sample_alarm)"
    using sample_serialize by (simp add: serialize_Inr header_in_range_def packet_header_def meta_bytes_def sample_alarm_def)
  then show ?thesis by (simp add: serialize_Inr)
qed

lemma sample_alarm_wf: "wf_packet sample_alarm"
  using sample_wf by (simp add: wf_packet_def sample_alarm_def)

lemma sample_answer_wf: "wf_packet sample_answer"
  by (simp add: sample_answer_def switch_reply_def reply_packet_def wf_ub_packet FLAG_NONE_def)

lemma sample_answer_frame: "\<exists>rs. serialize sample_answer = Inr rs"
proof -
  have "length (meta_bytes sample_answer) < 100"
    by (simp add: sample_answer_def switch_reply_def reply_packet_def ub_packet_def meta_bytes_def json_falsy.simps
        quote_str_def escape_char_def encode_utf8_def utf8_char_def)
  then have "header_in_range (packet_header sample_answer)"
    by (simp add: header_in_range_def packet_header_def sample_answer_def switch_reply_def reply_packet_def ub_packet_def zero_tag_def FLAG_NONE_def)
  then show ?thesis by (simp add: serialize_Inr)
qed

text \<open>
  C13. A request gets its answer: when the switch answers a well-formed request with a well-formed packet,
  the switch reads exactly this request from the requester's bytes, writes the answer after whatever it
  relayed, and the caller of \<open>send_sync\<close> gets exactly this answer, however the bytes are cut on the way
  back. The sequence number is free again afterwards.
\<close>

theorem request_gets_its_answer:
  assumes "wf_packet p" "serialize p = Inr bs"
    and "process_packet en p cur fab = (fab', out, Inr (Some r, cur'))"
    and "wf_packet r" "serialize r = Inr rs" "\<not> lost en (me en)"
    and "ready dev" "concat cs = rs" "[] \<notin> set cs"
  shows "client_chunk en bs \<lparr>client_buffer = [], current_node = cur\<rparr> fab
      = (fab', out @ [(me en, rs)], \<lparr>client_buffer = [], current_node = cur'\<rparr>, None)
    \<and> send_sync p cs dev = (dev\<lparr>pending_replies := dict_del (seq_num p) (pending_replies dev)\<rparr>, bs, Inr r)"
  using request_served [OF assms(1-3,5,6)] send_sync_answered [OF assms(7,2) reply_answers [OF process_reply [OF assms(3)]] assms(4,5,8,9)] by simp

theorem request_gets_its_answer_witness:
  "\<exists>bs rs. snd (snd (send_sync sample_alarm [rs] sample_device)) = Inr sample_answer
    \<and> fst (snd (client_chunk sample_env bs new_client (new_fabric 800 15))) = [(3, rs)]"
proof -
  obtain bs rs where f: "serialize sample_alarm = Inr bs" "serialize sample_answer = Inr rs"
    using sample_alarm_frame sample_answer_frame by blast
  obtain fab' where "process_packet sample_env sample_alarm None (new_fabric 800 15) = (fab', [], Inr (Some sample_answer, None))"
    by (simp add: process_packet_open to_sentry sentry_opcodes_def handle_sentry_def Let_def sample_answer_def broadcast_def
        new_fabric_def count_tx_def count_packet_def dict_adjust_def)
  from request_gets_its_answer [OF sample_alarm_wf f(1) this sample_answer_wf f(2), of sample_device "[rs]"]
  have "client_chunk sample_env bs \<lparr>client_buffer = [], current_node = None\<rparr> (new_fabric 800 15)
      = (fab', [(3, rs)], \<lparr>client_buffer = [], current_node = None\<rparr>, None)"
    "send_sync sample_alarm [rs] sample_device
      = (sample_device\<lparr>pending_replies := dict_del (seq_num sample_alarm) []\<rparr>, bs, Inr sample_answer)"
    using serialize_nonempty [OF f(2)] by simp_all
  then show ?thesis unfolding new_client_def by (metis fst_conv snd_conv)
qed

section \<open>The two copies of a node's memory\<close>

lemma handle_write_relays:
  assumes "names_range p sid off" "granted p sid off (int (length (payload p))) True fab"
    and "transfer_time (int (length (payload p))) fab = Inr lat"
    and "dict_get (nodes fab) (dst_node p) = Some c"
  shows "fst (snd (handle_write en p plain cur fab)) = send_quiet en (conn_id c) p"
proof -
  obtain msg where v: "validate_access (dst_node p) sid off (int (length (payload p))) True (token_id p)
      (switch_table fab) = (True, msg)"
    using granted_validate [OF assms(2)] by blast
  show ?thesis using assms(1,3,4) v by (auto simp: handle_write_def names_range_def Let_def count_rx_def)
qed

lemma count_tx_conn:
  "dict_get (nodes fab) n = Some c \<Longrightarrow> \<exists>c'. dict_get (nodes (count_tx en p fab)) n = Some c' \<and> conn_id c' = conn_id c"
  by (auto simp: count_tx_def)

lemma process_write_relays:
  assumes "\<not> is_cip_encrypted p" "opcode p \<in> write_opcodes" "names_range p sid off"
    and "granted p sid off (int (length (payload p))) True fab"
    and "transfer_time (int (length (payload p))) fab = Inr lat"
    and "dict_get (nodes fab) (dst_node p) = Some c" "\<not> lost en (conn_id c)" "serialize p = Inr f"
  shows "fst (snd (process_packet en p cur fab)) = [(conn_id c, f)]"
proof -
  obtain c' where c': "dict_get (nodes (count_tx en p (count_packet p fab))) (dst_node p) = Some c'" "conn_id c' = conn_id c"
    using count_tx_conn [of "count_packet p fab" "dst_node p" c en p] assms(6) by auto
  show ?thesis
    unfolding process_packet_open [OF assms(1)] to_handler(1) [OF assms(2)]
    using assms(3-5,7,8) c'
    by (subst handle_write_relays [where sid = sid and off = off and lat = lat and c = c'])
      (simp_all add: send_quiet_def send_raising_def)
qed

text \<open>What a relayed frame does to the guest that receives it.\<close>

lemma rx_relayed:
  assumes "wf_packet p" "serialize p = Inr f" "rx_alive dev" "rx_buffer dev = []" "rx_packet p dev = Inr dev'"
  shows "rx_chunk f dev = dev'"
proof -
  have "drains deserialize_from_buffer (concat [f]) [p] []" using assms(1,2) by (intro drains_stream) simp
  then have "rx_chunk f dev = dev'\<lparr>rx_buffer := []\<rparr>"
    using rx_chunk_drains [OF assms(3), of f "[p]" "[]" dev'] serialize_nonempty [OF assms(2)] assms(4,5) by simp
  then show ?thesis using rx_packet_fields [OF assms(5)] assms(4) by simp
qed

lemma write_not_response: "opcode p \<in> write_opcodes \<Longrightarrow> opcode p \<notin> RESPONSE_OPCODES"
  by (auto simp: write_opcodes_def RESPONSE_OPCODES_def)

lemma rx_write:
  assumes "opcode p = OP_URMA_WRITE \<or> opcode p = OP_CDMA_SUBMIT" "int_get ''offset'' 0 p = Inr off"
  shows "rx_packet p dev = Inr (if off + int (length (payload p)) \<le> int (length (dev_memory dev))
     then dev\<lparr>dev_memory := mem_write (dev_memory dev) off (payload p)\<rparr> else dev)"
  using assms by (auto simp: rx_packet_def RESPONSE_OPCODES_def mem_write_def)

lemma rx_other:
  assumes "opcode p \<notin> RESPONSE_OPCODES" "opcode p \<noteq> OP_URMA_WRITE" "opcode p \<noteq> OP_CDMA_SUBMIT"
  shows "rx_packet p dev = Inr dev"
  using assms by (simp add: rx_packet_def)

text \<open>
  C15. The guest's memory mirrors the switch's copy: when the two copies of the target's memory agree, a
  granted plain URMA write or DMA submission is relayed to the target's connection, unchanged, and once
  the target's device has received it the copies agree again.
\<close>

theorem guest_memory_mirrors_writes:
  assumes "opcode p = OP_URMA_WRITE \<or> opcode p = OP_CDMA_SUBMIT" "\<not> is_cip_encrypted p" "names_range p sid off"
    and "granted p sid off (int (length (payload p))) True fab"
    and "transfer_time (int (length (payload p))) fab = Inr lat"
    and "dict_get (nodes fab) (dst_node p) = Some c" "\<not> lost en (conn_id c)" "wf_packet p" "serialize p = Inr f"
    and "rx_alive dev" "rx_buffer dev = []" "mem_of fab (dst_node p) = Some (dev_memory dev)"
  shows "fst (snd (process_packet en p cur fab)) = [(conn_id c, f)]
    \<and> mem_of (fst (process_packet en p cur fab)) (dst_node p) = Some (dev_memory (rx_chunk f dev))"
proof -
  have op: "opcode p \<in> write_opcodes" using assms(1) by (auto simp: write_opcodes_def)
  have "rx_chunk f dev = (if off + int (length (payload p)) \<le> int (length (dev_memory dev))
      then dev\<lparr>dev_memory := mem_write (dev_memory dev) off (payload p)\<rparr> else dev)"
    using rx_relayed [OF assms(8-11)] rx_write [OF assms(1), of off dev] assms(3) by (simp add: names_range_def)
  then show ?thesis
    using process_write_relays [OF assms(2) op assms(3-7,9)] process_write(2) [OF assms(2) op assms(3-5)] assms(12)
    by simp
qed

lemma sample_meta_short:
  "length (encode_utf8 (dumps (JObj [(''segment_id'', JInt 1), (''offset'', JInt 4)]))) = 30"
  by (simp add: encode_utf8_def utf8_char_def quote_str_def escape_char_def show_int_def show_base.simps digit_char_def)

lemma sample_request_frame: "0 \<le> opc \<Longrightarrow> opc < 256 \<Longrightarrow> \<exists>f. serialize (sample_request opc [(''offset'', JInt 4)] [1, 2, 3]) = Inr f"
proof -
  assume opc: "0 \<le> opc" "opc < 256"
  have "length (meta_bytes (sample_request opc [(''offset'', JInt 4)] [1, 2, 3])) = 30"
    using sample_meta_short by (simp add: meta_bytes_def)
  then show ?thesis
    using opc by (simp add: serialize_Inr header_in_range_def packet_header_def)
      (simp add: sample_request_def ub_packet_def zero_tag_def FLAG_NONE_def)
qed

lemma sample_request_wf: "wf_packet (sample_request opc [(''offset'', JInt 4)] pay)"
  by (simp add: sample_request_def wf_ub_packet FLAG_NONE_def)

lemma sample_node [simp]: "dict_get (nodes sample_fabric) 2 = Some sample_conn"
  "conn_id sample_conn = 4" "local_memory sample_conn = replicate 16 0"
  by (simp_all add: sample_fabric_def sample_conn_def)

definition sample_guest :: ub_device where
  "sample_guest = sample_device\<lparr>dev_node := 2, dev_memory := replicate 16 0\<rparr>"

lemma sample_guest_fields [simp]:
  "ready sample_guest" "rx_alive sample_guest" "rx_buffer sample_guest = []" "dev_memory sample_guest = replicate 16 0"
  using sample_device_fields by (simp_all add: sample_guest_def ready_def)

theorem guest_memory_mirrors_writes_witness:
  "\<exists>f. serialize (sample_request OP_URMA_WRITE [(''offset'', JInt 4)] [1, 2, 3]) = Inr f
    \<and> mem_of (fst (process_packet sample_env (sample_request OP_URMA_WRITE [(''offset'', JInt 4)] [1, 2, 3]) None sample_fabric)) 2
      = Some (dev_memory (rx_chunk f sample_guest))"
proof -
  obtain f where f: "serialize (sample_request OP_URMA_WRITE [(''offset'', JInt 4)] [1, 2, 3]) = Inr f"
    using sample_request_frame [of OP_URMA_WRITE] by auto
  then show ?thesis
    using guest_memory_mirrors_writes [of "sample_request OP_URMA_WRITE [(''offset'', JInt 4)] [1, 2, 3]" 1 4 sample_fabric
        "latency_of 3 sample_fabric" sample_conn sample_env f sample_guest None] sample_time [of 3] sample_request_wf
    by simp
qed

section \<open>Writes the guest does not see as the switch does\<close>

text \<open>
  Not every granted write reaches the guest's memory: \<open>OP_MEM_WRITE\<close> and \<open>OP_URMA_WRITE_IMM\<close> change
  the switch's copy and are relayed, but the device ignores the relayed packet, so the copies drift apart.
\<close>

theorem other_writes_not_mirrored:
  assumes "opcode p = OP_MEM_WRITE \<or> opcode p = OP_URMA_WRITE_IMM" "\<not> is_cip_encrypted p" "names_range p sid off"
    and "granted p sid off (int (length (payload p))) True fab"
    and "transfer_time (int (length (payload p))) fab = Inr lat"
    and "dict_get (nodes fab) (dst_node p) = Some c" "\<not> lost en (conn_id c)" "wf_packet p" "serialize p = Inr f"
    and "off + int (length (payload p)) \<le> int (length (local_memory c))" "rx_alive dev" "rx_buffer dev = []"
  shows "fst (snd (process_packet en p cur fab)) = [(conn_id c, f)]
    \<and> mem_of (fst (process_packet en p cur fab)) (dst_node p) = Some (mem_write (local_memory c) off (payload p))
    \<and> rx_chunk f dev = dev"
proof -
  have op: "opcode p \<in> write_opcodes" using assms(1) by (auto simp: write_opcodes_def)
  have "rx_packet p dev = Inr dev" using assms(1) write_not_response [OF op] by (intro rx_other) auto
  then have "rx_chunk f dev = dev" using rx_relayed [OF assms(8,9,11,12)] by simp
  moreover have "mem_of fab (dst_node p) = Some (local_memory c)" using assms(6) by (simp add: mem_of_def)
  ultimately show ?thesis
    using process_write_relays [OF assms(2) op assms(3-7,9)] process_write(2) [OF assms(2) op assms(3-5)] assms(10)
    by simp
qed

theorem other_writes_not_mirrored_witness:
  "\<exists>f. serialize (sample_request OP_MEM_WRITE [(''offset'', JInt 4)] [1, 2, 3]) = Inr f \<and> rx_chunk f sample_guest = sample_guest
    \<and> mem_of (fst (process_packet sample_env (sample_request OP_MEM_WRITE [(''offset'', JInt 4)] [1, 2, 3]) None sample_fabric)) 2
      = Some (mem_write (replicate 16 0) 4 [1, 2, 3])"
proof -
  obtain f where f: "serialize (sample_request OP_MEM_WRITE [(''offset'', JInt 4)] [1, 2, 3]) = Inr f"
    using sample_request_frame [of OP_MEM_WRITE] by auto
  then show ?thesis
    using other_writes_not_mirrored [of "sample_request OP_MEM_WRITE [(''offset'', JInt 4)] [1, 2, 3]" 1 4 sample_fabric
        "latency_of 3 sample_fabric" sample_conn sample_env f sample_guest None] sample_time [of 3] sample_request_wf
    by simp
qed

lemma process_protected:
  assumes "is_cip_encrypted p"
    and "decrypt_and_verify (cip fab) (payload p) (auth_tag p) (token_id p) (seq_num p) (src_node p) = (eng, Inr (True, plain, msg))"
  shows "process_packet en p cur fab = process_plain en p plain cur ((count_packet p fab)\<lparr>cip := eng\<rparr>)"
  using assms by (simp add: process_packet_def Let_def)

lemma cip_update_simps [simp]:
  "granted p sid off len w (fab\<lparr>cip := eng\<rparr>) = granted p sid off len w fab"
  "transfer_time n (fab\<lparr>cip := eng\<rparr>) = transfer_time n fab"
  "mem_of (fab\<lparr>cip := eng\<rparr>) = mem_of fab"
  by (simp_all add: granted_def transfer_time_def calculate_transfer_time_ns_def mem_of_def fun_eq_iff)

text \<open>An accepted protected write: the switch stores the plaintext and relays the packet as it is.\<close>

lemma protected_write:
  assumes "is_cip_encrypted p" "opcode p \<in> write_opcodes" "names_range p sid off"
    and "granted p sid off (int (length (payload p))) True fab"
    and "transfer_time (int (length (payload p))) fab = Inr lat"
    and "decrypt_and_verify (cip fab) (payload p) (auth_tag p) (token_id p) (seq_num p) (src_node p) = (eng, Inr (True, plain, msg))"
    and "dict_get (nodes fab) (dst_node p) = Some c" "\<not> lost en (conn_id c)" "serialize p = Inr f"
    and "off + int (length (payload p)) \<le> int (length (local_memory c))"
  shows "fst (snd (process_packet en p cur fab)) = [(conn_id c, f)]"
    "mem_of (fst (process_packet en p cur fab)) (dst_node p) = Some (mem_write (local_memory c) off plain)"
    "snd (snd (process_packet en p cur fab)) = Inr (Some (write_completed p lat), cur)"
proof -
  let ?fab = "count_tx en p ((count_packet p fab)\<lparr>cip := eng\<rparr>)"
  have pp: "process_packet en p cur fab = handle_write en p plain cur ?fab"
    unfolding process_protected [OF assms(1,6)] to_handler(1) [OF assms(2)] ..
  obtain c' where c': "dict_get (nodes ?fab) (dst_node p) = Some c'" "conn_id c' = conn_id c"
    using count_tx_conn [of "(count_packet p fab)\<lparr>cip := eng\<rparr>" "dst_node p" c en p] assms(7) by auto
  have m: "mem_of fab (dst_node p) = Some (local_memory c)" using assms(7) by (simp add: mem_of_def)
  have h: "granted p sid off (int (length (payload p))) True ?fab" "transfer_time (int (length (payload p))) ?fab = Inr lat"
    using assms(4,5) by simp_all
  have len: "length plain = length (payload p)" using decrypt_accepted_length [OF assms(6)] .
  show "fst (snd (process_packet en p cur fab)) = [(conn_id c, f)]"
    unfolding pp handle_write_relays [OF assms(3) h c'(1)] using assms(8,9) c'(2)
    by (simp add: send_quiet_def send_raising_def)
  show "mem_of (fst (process_packet en p cur fab)) (dst_node p) = Some (mem_write (local_memory c) off plain)"
    unfolding pp handle_write_granted(2) [OF assms(3) h len] using assms(10) m by simp
  show "snd (snd (process_packet en p cur fab)) = Inr (Some (write_completed p lat), cur)"
    unfolding pp by (rule handle_write_granted(1) [OF assms(3) h len])
qed

text \<open>
  C29. A protected write leaves the guest with the ciphertext: the switch's copy of the target's memory
  gets the decrypted bytes, but the packet is relayed as it came, and the device stores its payload
  without decrypting it.
\<close>

theorem protected_write_leaves_ciphertext:
  assumes "opcode p = OP_URMA_WRITE \<or> opcode p = OP_CDMA_SUBMIT" "is_cip_encrypted p" "names_range p sid off"
    and "granted p sid off (int (length (payload p))) True fab"
    and "transfer_time (int (length (payload p))) fab = Inr lat"
    and "decrypt_and_verify (cip fab) (payload p) (auth_tag p) (token_id p) (seq_num p) (src_node p) = (eng, Inr (True, plain, msg))"
    and "dict_get (nodes fab) (dst_node p) = Some c" "\<not> lost en (conn_id c)" "wf_packet p" "serialize p = Inr f"
    and "off + int (length (payload p)) \<le> int (length (local_memory c))"
    and "rx_alive dev" "rx_buffer dev = []" "dev_memory dev = local_memory c"
  shows "mem_of (fst (process_packet en p cur fab)) (dst_node p) = Some (mem_write (local_memory c) off plain)
    \<and> fst (snd (process_packet en p cur fab)) = [(conn_id c, f)]
    \<and> dev_memory (rx_chunk f dev) = mem_write (local_memory c) off (payload p)"
proof -
  have op: "opcode p \<in> write_opcodes" using assms(1) by (auto simp: write_opcodes_def)
  have "rx_packet p dev = Inr (dev\<lparr>dev_memory := mem_write (dev_memory dev) off (payload p)\<rparr>)"
    using rx_write [OF assms(1), of off dev] assms(3,11,14) by (simp add: names_range_def)
  then have "dev_memory (rx_chunk f dev) = mem_write (local_memory c) off (payload p)"
    using rx_relayed [OF assms(9,10,12,13)] assms(14) by simp
  then show ?thesis using protected_write(1,2) [OF assms(2) op assms(3-8,10,11)] by simp
qed

definition sample_protected :: "bytes \<Rightarrow> bytes \<Rightarrow> packet" where
  "sample_protected ct tag =
     (sample_request OP_URMA_WRITE [(''offset'', JInt 4)] ct)\<lparr>flags := FLAG_CIP_ENCRYPTED, auth_tag := tag\<rparr>"

lemma sample_protected_fields [simp]:
  "opcode (sample_protected ct tag) = OP_URMA_WRITE" "src_node (sample_protected ct tag) = 1" "dst_node (sample_protected ct tag) = 2"
  "token_id (sample_protected ct tag) = 7" "seq_num (sample_protected ct tag) = 5" "payload (sample_protected ct tag) = ct"
  "auth_tag (sample_protected ct tag) = tag" "is_cip_encrypted (sample_protected ct tag)"
  "names_range (sample_protected ct tag) 1 4"
  "length tag = 16 \<Longrightarrow> wf_packet (sample_protected ct tag)"
proof -
  show "names_range (sample_protected ct tag) 1 4"
    using sample_range [of OP_URMA_WRITE 4 "[]" ct]
    by (simp add: sample_protected_def names_range_def int_index_def int_get_def meta_index_def meta_get_def)
  show "wf_packet (sample_protected ct tag)" if "length tag = 16"
    using that sample_request_wf [of OP_URMA_WRITE ct] by (simp add: wf_packet_def sample_protected_def FLAG_CIP_ENCRYPTED_def)
qed (simp_all add: sample_protected_def sample_request_def ub_packet_def is_cip_encrypted_def FLAG_CIP_ENCRYPTED_def)

theorem protected_write_leaves_ciphertext_witness:
  "\<exists>ct tag f. snd (encrypt_and_tag (cip sample_fabric) [1, 2, 3] 7 5) = Inr (ct, tag) \<and> serialize (sample_protected ct tag) = Inr f
    \<and> mem_of (fst (process_packet sample_env (sample_protected ct tag) None sample_fabric)) 2
      = Some (mem_write (replicate 16 0) 4 [1, 2, 3])
    \<and> dev_memory (rx_chunk f sample_guest) = mem_write (replicate 16 0) 4 ct"
proof -
  have eng: "cip sample_fabric = new_engine CIP_SUITE_AES_256_GCM 64" by (simp add: sample_fabric_def new_fabric_def)
  obtain ct tag where e: "snd (encrypt_and_tag (cip sample_fabric) [1, 2, 3] 7 5) = Inr (ct, tag)"
    and d: "snd (decrypt_and_verify (cip sample_fabric) ct tag 7 5 1) = Inr (True, [1, 2, 3], ''OK'')"
    using encrypted_decrypts [OF _ _ refl window_rel_new, of CIP_SUITE_AES_256_GCM 64 7 5 "[1, 2, 3]" 1]
    unfolding eng by (auto simp: cip_fields_ok_def CIP_SUITE_AES_256_GCM_def)
  have l: "length ct = 3" "length tag = 16"
    using encrypt_lengths [of "cip sample_fabric" "[1, 2, 3]" 7 5 _ ct tag] e by (metis length_Cons list.size(3) numeral_3_eq_3 prod.collapse)+
  have "length (meta_bytes (sample_protected ct tag)) = 30"
    using sample_meta_short by (simp add: meta_bytes_def sample_protected_def)
  then have "header_in_range (packet_header (sample_protected ct tag))"
    using l by (simp add: header_in_range_def packet_header_def)
      (simp add: sample_protected_def sample_request_def ub_packet_def FLAG_CIP_ENCRYPTED_def)
  then obtain f where f: "serialize (sample_protected ct tag) = Inr f" by (simp add: serialize_Inr)
  obtain eng' where "decrypt_and_verify (cip sample_fabric) ct tag 7 5 1 = (eng', Inr (True, [1, 2, 3], ''OK''))"
    using d by (metis prod.collapse)
  then show ?thesis
    using protected_write_leaves_ciphertext [of "sample_protected ct tag" 1 4 sample_fabric "latency_of 3 sample_fabric" eng'
        "[1, 2, 3]" "''OK''" sample_conn sample_env f sample_guest None] sample_time [of 3] e f l
    by (intro exI [of _ ct] exI [of _ tag] exI [of _ f]) simp
qed

section \<open>Answers that do not come from the switch\<close>

text \<open>
  C28. Any node can answer in the switch's place: a plain \<open>OP_RESP_OK\<close> or \<open>OP_RESP_ERR\<close> packet that any
  node sends is forwarded to its destination as it is, and if it carries the sequence number the
  destination waits for, \<open>send_sync\<close> returns it as the reply. Source, token and content are not checked.
\<close>

theorem forged_answer_accepted:
  assumes "opcode q = OP_RESP_OK \<or> opcode q = OP_RESP_ERR" "\<not> is_cip_encrypted q"
    and "dict_get (nodes fab) (dst_node q) = Some c" "\<not> lost en (conn_id c)" "wf_packet q" "serialize q = Inr f"
    and "ready dev" "seq_num q = seq_num p" "serialize p = Inr bs"
  shows "fst (snd (process_packet en q cur fab)) = [(conn_id c, f)]
    \<and> snd (snd (send_sync p [f] dev)) = Inr q"
proof -
  let ?fab = "count_tx en q (count_packet q fab)"
  obtain c' where c': "dict_get (nodes ?fab) (dst_node q) = Some c'" "conn_id c' = conn_id c"
    using count_tx_conn [of "count_packet q fab" "dst_node q" c en q] assms(3) by auto
  have "process_packet en q cur fab = handle_forward en q cur ?fab"
    unfolding process_packet_open [OF assms(2)] using assms(1) by (auto simp: process_plain_def dispatch_def Let_def)
  then have "fst (snd (process_packet en q cur fab)) = [(conn_id c, f)]"
    using c' assms(4,6) by (simp add: handle_forward_def Let_def send_raising_def)
  moreover have "answers (seq_num p) q" using assms(1,8) by (auto simp: answers_def RESPONSE_OPCODES_def)
  then have "snd (snd (send_sync p [f] dev)) = Inr q"
    using send_sync_stream [of "[]" q "[f]" "[f]" dev p bs] assms(5-7,9) serialize_nonempty [OF assms(6)] by simp
  ultimately show ?thesis by simp
qed

theorem forged_answer_accepted_witness:
  "\<exists>f. fst (snd (process_packet sample_env (sample_request OP_RESP_OK [(''offset'', JInt 4)] [1, 2, 3]) None sample_fabric)) = [(4, f)]
    \<and> snd (snd (send_sync (sample_alarm\<lparr>seq_num := 5\<rparr>) [f] sample_guest))
      = Inr (sample_request OP_RESP_OK [(''offset'', JInt 4)] [1, 2, 3])"
proof -
  obtain f where f: "serialize (sample_request OP_RESP_OK [(''offset'', JInt 4)] [1, 2, 3]) = Inr f"
    using sample_request_frame [of OP_RESP_OK] by auto
  have "header_in_range (packet_header (sample_alarm\<lparr>seq_num := 5\<rparr>))"
    using sample_alarm_frame by (auto simp: serialize_Inr header_in_range_def packet_header_def meta_bytes_def)
  then obtain bs where "serialize (sample_alarm\<lparr>seq_num := 5\<rparr>) = Inr bs" by (simp add: serialize_Inr)
  moreover have "seq_num (sample_request OP_RESP_OK [(''offset'', JInt 4)] [1, 2, 3]) = 5"
    by (simp add: sample_request_def ub_packet_def)
  ultimately show ?thesis
    using forged_answer_accepted [of "sample_request OP_RESP_OK [(''offset'', JInt 4)] [1, 2, 3]" sample_fabric sample_conn sample_env f
        sample_guest "sample_alarm\<lparr>seq_num := 5\<rparr>" bs None] f sample_request_wf
    by simp
qed

end
