(* ===== verification/Urma_Props.thy ===== *)
theory Urma_Props
  imports Urma Fabric_Guest
begin

text \<open>
  Properties of the URMA client, alone and against the switch: the ids it hands out, the objects of its
  context, a remote write followed by a remote read over the wire, a protected write, and what a read
  does to the local buffer.
\<close>

section \<open>Packets of the client as requests to the switch\<close>

lemma write_packet_simps [simp]:
  "opcode (write_packet ctx j rsid roff pay s) = OP_URMA_WRITE" "dst_node (write_packet ctx j rsid roff pay s) = j_remote_node j"
  "src_node (write_packet ctx j rsid roff pay s) = u_node ctx" "payload (write_packet ctx j rsid roff pay s) = pay"
  "seq_num (write_packet ctx j rsid roff pay s) = s" "token_id (write_packet ctx j rsid roff pay s) = j_token j"
  "\<not> is_cip_encrypted (write_packet ctx j rsid roff pay s)" "names_range (write_packet ctx j rsid roff pay s) rsid roff"
  by (simp_all add: write_packet_def ub_packet_def is_cip_encrypted_def FLAG_NONE_def names_range_def int_index_def int_get_def
      meta_index_def meta_get_def)

lemma read_packet_simps [simp]:
  "opcode (read_packet ctx j rsid roff len s) = OP_URMA_READ" "dst_node (read_packet ctx j rsid roff len s) = j_remote_node j"
  "src_node (read_packet ctx j rsid roff len s) = u_node ctx" "payload (read_packet ctx j rsid roff len s) = []"
  "seq_num (read_packet ctx j rsid roff len s) = s" "token_id (read_packet ctx j rsid roff len s) = j_token j"
  "\<not> is_cip_encrypted (read_packet ctx j rsid roff len s)" "names_range (read_packet ctx j rsid roff len s) rsid roff"
  "int_get ''length'' 0 (read_packet ctx j rsid roff len s) = Inr len"
  by (simp_all add: read_packet_def ub_packet_def is_cip_encrypted_def FLAG_NONE_def names_range_def int_index_def int_get_def
      meta_index_def meta_get_def)

lemma reg_seg_packet_simps [simp]:
  "opcode (reg_seg_packet ctx sid sz token perm s) = OP_REG_SEG" "src_node (reg_seg_packet ctx sid sz token perm s) = u_node ctx"
  "seq_num (reg_seg_packet ctx sid sz token perm s) = s" "token_id (reg_seg_packet ctx sid sz token perm s) = token"
  "\<not> is_cip_encrypted (reg_seg_packet ctx sid sz token perm s)" "int_index ''segment_id'' (reg_seg_packet ctx sid sz token perm s) = Inr sid" "int_get ''base_addr'' d (reg_seg_packet ctx sid sz token perm s) = Inr d"
  "int_index ''size'' (reg_seg_packet ctx sid sz token perm s) = Inr sz" "str_get ''permissions'' e (reg_seg_packet ctx sid sz token perm s) = Inr perm"
  by (simp_all add: reg_seg_packet_def ub_packet_def is_cip_encrypted_def FLAG_NONE_def meta_get_def meta_index_def
      int_index_def int_get_def str_get_def)

lemma request_wf [simp]: "wf_packet (write_packet ctx j rsid roff pay s)" "wf_packet (read_packet ctx j rsid roff len s)"
  by (simp_all add: write_packet_def read_packet_def wf_ub_packet FLAG_NONE_def)

lemma completed_simps:
  "opcode p = OP_URMA_WRITE \<Longrightarrow> opcode (write_completed p lat) = OP_RESP_OK"
  "opcode q = OP_URMA_READ \<Longrightarrow> opcode (read_completed q lat bs) = OP_URMA_READ_RESP"
  "seq_num (write_completed p lat) = seq_num p" "seq_num (read_completed q lat bs) = seq_num q"
  "payload (read_completed q lat bs) = bs"
  "latency_field (write_completed p lat) = Inr (JFloat lat)" "latency_field (read_completed q lat bs) = Inr (JFloat lat)"
  by (simp_all add: write_completed_def read_completed_def write_reply_opcode_def node_reply_def reply_packet_def ub_packet_def
      latency_field_def meta_get_def)

lemma completed_answers:
  "opcode p = OP_URMA_WRITE \<Longrightarrow> answers (seq_num p) (write_completed p lat)"
  "opcode q = OP_URMA_READ \<Longrightarrow> answers (seq_num q) (read_completed q lat bs)"
  by (simp_all add: answers_def completed_simps RESPONSE_OPCODES_def)

lemma transfer_time_float: "transfer_time n fab = Inr lat \<Longrightarrow> fl lat = lat"
  by (auto simp: transfer_time_def calculate_transfer_time_ns_def fadd_def Let_def result_simps)

lemma completed_wf:
  assumes "transfer_time n fab = Inr lat"
  shows "wf_packet (write_completed p lat)" "wf_packet (read_completed q lat bs)"
  using transfer_time_float [OF assms]
  by (simp_all add: write_completed_def read_completed_def node_reply_def reply_packet_def wf_ub_packet FLAG_NONE_def)

section \<open>Answered calls\<close>

lemma u_write_answered:
  assumes "dict_get (u_jetties ctx) jid = Some j" "dict_get (u_segments ctx) sid = Some seg" "ready (u_device ctx)"
    and "p = write_packet ctx j rsid roff (local_bytes seg lo len) (dev_seq (u_device ctx))" "serialize p = Inr f"
    and "transfer_time n fab = Inr lat" "serialize (write_completed p lat) = Inr a" "concat cs = a" "[] \<notin> set cs"
  shows "u_write jid sid lo rsid roff len cs ctx = (ctx\<lparr>u_device := after_call (u_device ctx)\<rparr>, f, Inr (JFloat lat))"
proof -
  have op: "opcode p = OP_URMA_WRITE" "seq_num p = dev_seq (u_device ctx)" using assms(4) by simp_all
  have "call_sync (write_packet ctx j rsid roff (local_bytes seg lo len)) cs (u_device ctx)
      = (after_call (u_device ctx), f, Inr (write_completed p lat))"
    using assms(3-5,7-9) op completed_answers(1) [OF op(1), of lat] completed_wf(1) [OF assms(6)]
    by (intro call_sync_answered) simp_all
  then show ?thesis using assms(1,2) completed_simps(1) [OF op(1)] by (simp add: u_write_def completed_simps(6) Let_def)
qed

lemma u_read_answered:
  assumes "dict_get (u_jetties ctx) jid = Some j" "dict_get (u_segments ctx) sid = Some seg" "ready (u_device ctx)"
    and "q = read_packet ctx j rsid roff len (dev_seq (u_device ctx))" "serialize q = Inr f"
    and "transfer_time n fab = Inr lat" "serialize (read_completed q lat bs) = Inr a" "concat cs = a" "[] \<notin> set cs"
  shows "u_read jid sid lo rsid roff len cs ctx
    = (fill_segment sid lo len bs (ctx\<lparr>u_device := after_call (u_device ctx)\<rparr>), f, Inr (JFloat lat))"
proof -
  have op: "opcode q = OP_URMA_READ" "seq_num q = dev_seq (u_device ctx)" using assms(4) by simp_all
  have "call_sync (read_packet ctx j rsid roff len) cs (u_device ctx)
      = (after_call (u_device ctx), f, Inr (read_completed q lat bs))"
    using assms(3-5,7-9) op completed_answers(2) [OF op(1), of lat bs] completed_wf(2) [OF assms(6)]
    by (intro call_sync_answered) simp_all
  then show ?thesis using assms(1,2) completed_simps(2) [OF op(1)] by (simp add: u_read_def completed_simps(5,7) Let_def)
qed

lemma process_read_silent:
  assumes "\<not> is_cip_encrypted q" "opcode q \<in> read_opcodes" "names_range q sid off"
    and "int_get ''length'' 0 q = Inr len" "granted q sid off len False fab" "transfer_time len fab = Inr lat"
  shows "fst (snd (process_packet en q cur fab)) = []"
proof -
  have g: "granted q sid off len False (count_tx en q (count_packet q fab))" using assms(5) by simp
  obtain msg where "validate_access (dst_node q) sid off len False (token_id q) (switch_table (count_tx en q (count_packet q fab))) = (True, msg)"
    using granted_validate [OF g] by blast
  then show ?thesis
    unfolding process_packet_open [OF assms(1)] to_handler(2) [OF assms(2)]
    using assms(3,4,6) by (simp add: handle_read_def names_range_def Let_def)
qed

lemma filled_segment:
  "dict_get (u_segments ctx) sid = Some seg \<Longrightarrow>
     dict_get (u_segments (fill_segment sid lo len bs ctx)) sid = Some (seg\<lparr>u_buffer := py_slice_set (u_buffer seg) lo (lo + len) bs\<rparr>)"
  by (simp add: fill_segment_def)

section \<open>A remote write and a remote read\<close>

text \<open>The switch's side of a granted write and a granted read of the same range after it.\<close>

lemma write_read_served:
  assumes "opcode p = OP_URMA_WRITE" "\<not> is_cip_encrypted p" "wf_packet p" "names_range p wsid off" "len = int (length (payload p))"
    and "opcode q = OP_URMA_READ" "\<not> is_cip_encrypted q" "wf_packet q" "names_range q rsid off" "int_get ''length'' 0 q = Inr len"
    and "dst_node q = dst_node p" "granted p wsid off len True fab" "granted q rsid off len False fab" "transfer_time len fab = Inr lat"
    and "mem_of fab (dst_node p) = Some m" "off + len \<le> int (length m)"
    and "serialize p = Inr pf" "serialize q = Inr qf"
    and "serialize (write_completed p lat) = Inr wa" "serialize (read_completed q lat (payload p)) = Inr ra"
    and "\<not> lost en (me en)" "\<not> lost en' (me en')"
  shows "\<exists>fab1 fab2 out.
      client_chunk en pf \<lparr>client_buffer = [], current_node = cur\<rparr> fab
        = (fab1, out @ [(me en, wa)], \<lparr>client_buffer = [], current_node = cur\<rparr>, None)
    \<and> client_chunk en' qf \<lparr>client_buffer = [], current_node = cur'\<rparr> fab1
        = (fab2, [(me en', ra)], \<lparr>client_buffer = [], current_node = cur'\<rparr>, None)"
proof -
  have ops: "opcode p \<in> write_opcodes" "opcode q \<in> read_opcodes" using assms(1,6) by (simp_all add: write_opcodes_def read_opcodes_def)
  have g: "granted p wsid off (int (length (payload p))) True fab" "transfer_time (int (length (payload p))) fab = Inr lat"
    using assms(5,12,14) by simp_all
  obtain fab1 out where w: "process_packet en p cur fab = (fab1, out, Inr (Some (write_completed p lat), cur))"
    using process_write(1) [OF assms(2) ops(1) assms(4) g, of en cur] by (metis prod.collapse)
  have fab1: "fst (process_packet en p cur fab) = fab1" using w by simp
  have "snd (snd (process_packet en' q cur' fab1)) = Inr (Some (read_completed q lat (payload p)), cur')"
    using read_after_write [OF assms(2) ops(1) assms(4) g assms(15) _ assms(7) ops(2) assms(11,9), of en' cur' en cur] assms(5,10,13,16) fab1
    by simp
  moreover have "fst (snd (process_packet en' q cur' fab1)) = []"
  proof (rule process_read_silent [OF assms(7) ops(2) assms(9,10)])
    show "granted q rsid off len False fab1"
      using assms(13) process_write(3) [OF assms(2) ops(1) assms(4) g, of en cur] fab1 by (simp add: granted_def)
    show "transfer_time len fab1 = Inr lat"
      using assms(14) transfer_time_cong [OF link_after_write [OF assms(2) ops(1), of en cur fab]] fab1 by simp
  qed
  ultimately obtain fab2 where "process_packet en' q cur' fab1 = (fab2, [], Inr (Some (read_completed q lat (payload p)), cur'))"
    by (metis prod.collapse)
  then show ?thesis
    using request_served [OF assms(3,17) w assms(19,21)] request_served [OF assms(8,18) _ assms(20,22), of cur' fab1 fab2 "[]" cur'] by simp
qed

text \<open>
  C6. A remote write is read back: one context writes a range of its segment to a remote segment, and then
  a context (the same or another, with its own jetty and token) reads that range into a segment of its
  own. If the switch grants both requests and the range lies in the target's memory, the switch serves
  exactly these two frames, both calls return the simulated latency, and the reader's buffer holds the
  writer's bytes, however the answers are cut on their way back.
\<close>

theorem remote_write_read_back:
  assumes "dict_get (u_jetties wctx) wj = Some jw" "dict_get (u_segments wctx) ws = Some segw" "ready (u_device wctx)"
    and "dict_get (u_jetties rctx) rj = Some jr" "dict_get (u_segments rctx) rs = Some segr" "ready (u_device rctx)"
    and "j_remote_node jr = j_remote_node jw"
    and "pay = local_bytes segw wlo len" "len = int (length pay)"
    and "p = write_packet wctx jw wsid off pay (dev_seq (u_device wctx))"
    and "q = read_packet rctx jr rsid off len (dev_seq (u_device rctx))"
    and "granted p wsid off len True fab" "granted q rsid off len False fab" "transfer_time len fab = Inr lat"
    and "mem_of fab (j_remote_node jw) = Some m" "off + len \<le> int (length m)"
    and "serialize p = Inr pf" "serialize q = Inr qf"
    and "serialize (write_completed p lat) = Inr wa" "serialize (read_completed q lat pay) = Inr ra"
    and "\<not> lost en (me en)" "\<not> lost en' (me en')"
    and "concat wcs = wa" "[] \<notin> set wcs" "concat rcs = ra" "[] \<notin> set rcs"
  shows "\<exists>fab1 fab2 out.
      client_chunk en pf \<lparr>client_buffer = [], current_node = cur\<rparr> fab
        = (fab1, out @ [(me en, wa)], \<lparr>client_buffer = [], current_node = cur\<rparr>, None)
    \<and> snd (u_write wj ws wlo wsid off len wcs wctx) = (pf, Inr (JFloat lat))
    \<and> client_chunk en' qf \<lparr>client_buffer = [], current_node = cur'\<rparr> fab1
        = (fab2, [(me en', ra)], \<lparr>client_buffer = [], current_node = cur'\<rparr>, None)
    \<and> snd (u_read rj rs rlo rsid off len rcs rctx) = (qf, Inr (JFloat lat))
    \<and> dict_get (u_segments (fst (u_read rj rs rlo rsid off len rcs rctx))) rs
        = Some (segr\<lparr>u_buffer := py_slice_set (u_buffer segr) rlo (rlo + len) pay\<rparr>)"
proof -
  have p: "payload p = pay" "dst_node p = j_remote_node jw" "dst_node q = dst_node p" using assms(7,10,11) by simp_all
  then have fs: "len = int (length (payload p))" "mem_of fab (dst_node p) = Some m" "serialize (read_completed q lat (payload p)) = Inr ra"
    using assms(9,15,20) by simp_all
  have "u_write wj ws wlo wsid off len wcs wctx = (wctx\<lparr>u_device := after_call (u_device wctx)\<rparr>, pf, Inr (JFloat lat))"
    using assms(8,10) by (intro u_write_answered [OF assms(1-3) _ assms(17,14,19,23,24)]) simp
  moreover have "u_read rj rs rlo rsid off len rcs rctx
      = (fill_segment rs rlo len pay (rctx\<lparr>u_device := after_call (u_device rctx)\<rparr>), qf, Inr (JFloat lat))"
    by (rule u_read_answered [OF assms(4-6,11,18,14,20,25,26)])
  moreover have "\<exists>fab1 fab2 out. client_chunk en pf \<lparr>client_buffer = [], current_node = cur\<rparr> fab
        = (fab1, out @ [(me en, wa)], \<lparr>client_buffer = [], current_node = cur\<rparr>, None)
    \<and> client_chunk en' qf \<lparr>client_buffer = [], current_node = cur'\<rparr> fab1
        = (fab2, [(me en', ra)], \<lparr>client_buffer = [], current_node = cur'\<rparr>, None)"
    using assms(10,11)
    by (intro write_read_served [OF _ _ _ _ fs(1) _ _ _ _ _ p(3) assms(12,13,14) fs(2) assms(16-19) fs(3) assms(21,22)]) simp_all
  ultimately show ?thesis using filled_segment [of "rctx\<lparr>u_device := after_call (u_device rctx)\<rparr>" rs segr rlo len pay] assms(5) by auto
qed

text \<open>A sample context of node 1, and a switch on which a transfer of three bytes takes 53 ns.\<close>

definition sample_context :: urma_context where
  "sample_context = (new_context 1 sample_device)
     \<lparr>u_next_seg := 2, u_next_jetty := 2, u_segments := [(1, new_segment 1 4 7 ''RW'' [1, 2, 3, 9])], u_jetties := [(1, new_jetty 1 2 1 7 None)]\<rparr>"

definition slow_fabric :: fabric where
  "slow_fabric = sample_fabric\<lparr>link_bw_gbps := 8\<rparr>"

lemma sample_context_fields [simp]:
  "u_node sample_context = 1" "ready (u_device sample_context)" "dev_seq (u_device sample_context) = 1"
  "dict_get (u_segments sample_context) 1 = Some (new_segment 1 4 7 ''RW'' [1, 2, 3, 9])"
  "dict_get (u_jetties sample_context) 1 = Some (new_jetty 1 2 1 7 None)"
  by (simp_all add: sample_context_def new_context_def) (simp add: sample_device_def new_device_def)

lemma sample_jetty_fields [simp]:
  "j_remote_node (new_jetty l n r t e) = n" "j_token (new_jetty l n r t e) = t" "j_cip (new_jetty l n r t e) = e"
  "u_buffer (new_segment s sz t p b) = b"
  by (simp_all add: new_jetty_def new_segment_def)

lemma slow_fabric_fields [simp]:
  "dst_node p = 2 \<Longrightarrow> token_id p = 7 \<Longrightarrow> granted p 1 off len w slow_fabric \<longleftrightarrow> 0 \<le> off \<and> off + len \<le> 64"
  "mem_of slow_fabric 2 = Some (replicate 16 0)"
  "dict_get (nodes slow_fabric) 2 = Some sample_conn"
proof -
  show "mem_of slow_fabric 2 = Some (replicate 16 0)" using sample_mem by (simp add: slow_fabric_def mem_of_def)
  show "granted p 1 off len w slow_fabric \<longleftrightarrow> 0 \<le> off \<and> off + len \<le> 64" if "dst_node p = 2" "token_id p = 7"
    using sample_granted [OF that, of off len w] by (simp add: slow_fabric_def granted_def)
qed (simp_all add: slow_fabric_def)

lemma slow_time: "transfer_time 3 slow_fabric = Inr 53"
proof -
  have f: "float_of_int 3 = Inr 3" "float_of_int 1 = Inr 1" "fl 24 = 24" "fl 3 = 3" "fl 15 = 15" "fl 18 = 18" "fl 53 = 53"
    using fl_of_int [of 3] fl_of_int [of 1] fl_of_int [of 24] fl_of_int [of 15] fl_of_int [of 18] fl_of_int [of 53]
    by (simp_all add: float_of_int_def)
  then show ?thesis
    by (simp add: transfer_time_def calculate_transfer_time_ns_def slow_fabric_def sample_fabric_def new_fabric_def fdiv_def fmul_def fadd_def)
qed

lemma float_repr_53: "float_repr 53 = ''53.0''"
  by code_simp

lemma serialize_short:
  assumes "length (meta_bytes p) < 256" "length (payload p) < 256" "0 \<le> opcode p \<and> opcode p < 256"
    and "0 \<le> src_node p \<and> src_node p < 256" "0 \<le> dst_node p \<and> dst_node p < 256" "0 \<le> token_id p \<and> token_id p < 65536"
    and "0 \<le> seq_num p \<and> seq_num p < 256"
  shows "\<exists>f. serialize p = Inr f"
  using assms flags_vl_range [of "flags p" "virtual_lane p"] by (simp add: serialize_Inr header_in_range_def packet_header_def)

lemmas meta_length = encode_utf8_def utf8_char_def quote_str_def escape_char_def show_int_def show_base.simps digit_char_def
  meta_bytes_def float_repr_53

lemma sample_exchange_frames:
  "\<exists>f. serialize (write_packet sample_context (new_jetty 1 2 1 7 None) 1 4 [1, 2, 3] 1) = Inr f"
  "\<exists>f. serialize (read_packet sample_context (new_jetty 1 2 1 7 None) 1 4 3 1) = Inr f"
  "\<exists>f. serialize (write_completed (write_packet sample_context (new_jetty 1 2 1 7 None) 1 4 [1, 2, 3] 1) 53) = Inr f"
  "\<exists>f. serialize (read_completed (read_packet sample_context (new_jetty 1 2 1 7 None) 1 4 3 1) 53 [1, 2, 3]) = Inr f"
  by (rule serialize_short; simp add: write_packet_def read_packet_def write_completed_def write_reply_opcode_def read_completed_def
      node_reply_def reply_packet_def ub_packet_def meta_length)+

theorem remote_write_read_back_witness:
  "\<exists>wa ra. snd (snd (u_write 1 1 0 1 4 3 [wa] sample_context)) = Inr (JFloat 53)
    \<and> dict_get (u_segments (fst (u_read 1 1 1 1 4 3 [ra] sample_context))) 1 = Some (new_segment 1 4 7 ''RW'' [1, 1, 2, 3])"
proof -
  let ?p = "write_packet sample_context (new_jetty 1 2 1 7 None) 1 4 [1, 2, 3] 1"
  let ?q = "read_packet sample_context (new_jetty 1 2 1 7 None) 1 4 3 1"
  obtain pf qf wa ra where f: "serialize ?p = Inr pf" "serialize ?q = Inr qf" "serialize (write_completed ?p 53) = Inr wa"
      "serialize (read_completed ?q 53 [1, 2, 3]) = Inr ra"
    using sample_exchange_frames by blast
  have b: "local_bytes (new_segment 1 4 7 ''RW'' [1, 2, 3, 9]) 0 3 = [1, 2, 3]"
    by (simp add: local_bytes_def py_slice_def py_clamp_def)
  have "(new_segment 1 4 7 ''RW'' [1, 2, 3, 9])\<lparr>u_buffer := py_slice_set [1, 2, 3, 9] 1 4 [1, 2, 3]\<rparr> = new_segment 1 4 7 ''RW'' [1, 1, 2, 3]"
    by (simp add: py_slice_set_def py_clamp_def new_segment_def)
  moreover have g: "granted ?p 1 4 3 True slow_fabric" "granted ?q 1 4 3 False slow_fabric"
    "mem_of slow_fabric (j_remote_node (new_jetty 1 2 1 7 None)) = Some (replicate 16 0)"
    "[] \<notin> set [wa]" "[] \<notin> set [ra]"
    using serialize_nonempty [OF f(3)] serialize_nonempty [OF f(4)] by simp_all
  moreover have t: "\<exists>fab1 fab2 out.
      client_chunk sample_env pf \<lparr>client_buffer = [], current_node = None\<rparr> slow_fabric
        = (fab1, out @ [(me sample_env, wa)], \<lparr>client_buffer = [], current_node = None\<rparr>, None)
    \<and> snd (u_write 1 1 0 1 4 3 [wa] sample_context) = (pf, Inr (JFloat 53))
    \<and> client_chunk sample_env qf \<lparr>client_buffer = [], current_node = None\<rparr> fab1
        = (fab2, [(me sample_env, ra)], \<lparr>client_buffer = [], current_node = None\<rparr>, None)
    \<and> snd (u_read 1 1 1 1 4 3 [ra] sample_context) = (qf, Inr (JFloat 53))
    \<and> dict_get (u_segments (fst (u_read 1 1 1 1 4 3 [ra] sample_context))) 1
        = Some ((new_segment 1 4 7 ''RW'' [1, 2, 3, 9])\<lparr>u_buffer := py_slice_set (u_buffer (new_segment 1 4 7 ''RW'' [1, 2, 3, 9])) 1 (1 + 3) [1, 2, 3]\<rparr>)"
    by (rule remote_write_read_back [OF sample_context_fields(5,4,2) sample_context_fields(5,4,2) refl b [symmetric] _ _ _ g(1,2) slow_time
        g(3) _ f _ _ _ g(4) _ g(5)]) simp_all
  ultimately show ?thesis by - (rule exI [where x = wa], rule exI [where x = ra], auto)
qed

section \<open>A protected write\<close>

lemma protected_packet_simps [simp]:
  "opcode (protected_packet ctx j rsid roff ct tag s) = OP_URMA_WRITE" "dst_node (protected_packet ctx j rsid roff ct tag s) = j_remote_node j"
  "src_node (protected_packet ctx j rsid roff ct tag s) = u_node ctx" "payload (protected_packet ctx j rsid roff ct tag s) = ct"
  "seq_num (protected_packet ctx j rsid roff ct tag s) = s" "token_id (protected_packet ctx j rsid roff ct tag s) = j_token j"
  "is_cip_encrypted (protected_packet ctx j rsid roff ct tag s)" "names_range (protected_packet ctx j rsid roff ct tag s) rsid roff"
  "length tag = 16 \<Longrightarrow> auth_tag (protected_packet ctx j rsid roff ct tag s) = tag"
  by (simp_all add: protected_packet_def ub_packet_def is_cip_encrypted_def FLAG_CIP_ENCRYPTED_def names_range_def int_index_def
      int_get_def meta_index_def meta_get_def)

lemma protected_wf: "wf_packet (protected_packet ctx j rsid roff ct tag s)"
  by (simp add: protected_packet_def wf_ub_packet FLAG_CIP_ENCRYPTED_def)

text \<open>What the call sends and returns when the switch completes the write.\<close>

lemma write_encrypted_answered:
  assumes "dict_get (u_jetties ctx) jid = Some j" "dict_get (u_segments ctx) sid = Some seg" "j_cip j = Some eng"
    and "ready (u_device ctx)" "s = dev_seq (u_device ctx)"
    and "snd (encrypt_and_tag eng (local_bytes seg lo len) (j_token j) s) = Inr (ct, tag)"
    and "p = protected_packet ctx j rsid roff ct tag s" "serialize p = Inr f"
    and "transfer_time n fab = Inr lat" "serialize (write_completed p lat) = Inr a" "concat cs = a" "[] \<notin> set cs"
  shows "snd (write_encrypted jid sid lo rsid roff len cs ctx) = (f, Inr (JFloat lat))"
proof -
  let ?dev = "(u_device ctx)\<lparr>dev_seq := s + 1\<rparr>"
  have op: "opcode p = OP_URMA_WRITE" "seq_num p = s" using assms(7) by simp_all
  have "ready ?dev" using assms(4) by (simp add: ready_def)
  from send_sync_answered [OF this assms(8) completed_answers(1) [OF op(1)] completed_wf(1) [OF assms(9)] assms(10-12)]
  have "snd (send_sync p cs ?dev) = (f, Inr (write_completed p lat))" by simp
  moreover obtain eng1 where "encrypt_and_tag eng (local_bytes seg lo len) (j_token j) s = (eng1, Inr (ct, tag))"
    using assms(6) by (metis prod.collapse)
  ultimately show ?thesis
    using assms(1-3,5,7) completed_simps(1) [OF op(1)]
    by (auto simp: write_encrypted_def get_seq_def completed_simps(6) Let_def split: prod.splits)
qed

text \<open>
  C14. A protected write arrives in plain text: if the target is attached over a live connection and the
  remote range lies inside its memory (64 MB in the switch), a secure jetty's encrypted write with a fresh
  sequence number, granted by the switch, is accepted, the range of the switch's copy of the target's memory
  then holds exactly the plaintext of the local range, although the frame carries only the ciphertext and
  its tag, and the call returns the simulated latency.
\<close>

theorem protected_write_arrives:
  assumes "dict_get (u_jetties ctx) jid = Some j" "dict_get (u_segments ctx) sid = Some seg" "j_cip j = Some eng"
    and "ready (u_device ctx)" "s = dev_seq (u_device ctx)" "pay = local_bytes seg lo len" "length pay \<le> 2 ^ 37"
    and "cip_fields_ok (cipher_suite eng) (j_token j) s" "cipher_suite (cip fab) = cipher_suite eng" "window_rel (cip fab) S"
    and "\<not> abstract_refuses (anti_replay_window_size (cip fab)) S s (u_node ctx)"
    and "snd (encrypt_and_tag eng pay (j_token j) s) = Inr (ct, tag)" "p = protected_packet ctx j rsid roff ct tag s"
    and "granted p rsid roff (int (length pay)) True fab" "transfer_time (int (length pay)) fab = Inr lat"
    and "dict_get (nodes fab) (j_remote_node j) = Some c" "\<not> lost en (conn_id c)"
    and "roff + int (length pay) \<le> int (length (local_memory c))"
    and "serialize p = Inr f" "serialize (write_completed p lat) = Inr a" "concat cs = a" "[] \<notin> set cs"
  shows "mem_of (fst (process_packet en p cur fab)) (j_remote_node j) = Some (mem_write (local_memory c) roff pay)
    \<and> snd (snd (process_packet en p cur fab)) = Inr (Some (write_completed p lat), cur)
    \<and> snd (write_encrypted jid sid lo rsid roff len cs ctx) = (f, Inr (JFloat lat))"
proof -
  have d: "snd (decrypt_and_verify (cip fab) ct tag (j_token j) s (u_node ctx)) = Inr (True, pay, ''OK'')"
    using encrypted_decrypts [OF assms(8,7,9,10,11)] assms(12) by auto
  obtain eng1 where "encrypt_and_tag eng pay (j_token j) s = (eng1, Inr (ct, tag))" using assms(12) by (metis prod.collapse)
  then have l: "length ct = length pay" "length tag = 16" using encrypt_lengths by blast+
  obtain eng2 where "decrypt_and_verify (cip fab) ct tag (j_token j) s (u_node ctx) = (eng2, Inr (True, pay, ''OK''))"
    using d by (metis prod.collapse)
  then have g: "granted p rsid roff (int (length (payload p))) True fab" "transfer_time (int (length (payload p))) fab = Inr lat"
    "decrypt_and_verify (cip fab) (payload p) (auth_tag p) (token_id p) (seq_num p) (src_node p) = (eng2, Inr (True, pay, ''OK''))"
    "dict_get (nodes fab) (dst_node p) = Some c" "roff + int (length (payload p)) \<le> int (length (local_memory c))"
    using assms(13-16,18) l by simp_all
  have "opcode p \<in> write_opcodes" "is_cip_encrypted p" "names_range p rsid roff" "dst_node p = j_remote_node j"
    using assms(13) by (simp_all add: write_opcodes_def)
  then show ?thesis
    using write_encrypted_answered [OF assms(1-5) _ assms(13,19,15,20-22), of lo len] assms(6,12)
      protected_write(2,3) [OF _ _ _ g(1-4) assms(17,19) g(5), of cur] by simp
qed

definition secure_context :: urma_context where
  "secure_context = sample_context\<lparr>u_jetties := [(1, new_jetty 1 2 1 7 (Some (new_engine CIP_SUITE_AES_256_GCM 64)))]\<rparr>"

lemma secure_context_fields [simp]:
  "u_node secure_context = 1" "ready (u_device secure_context)" "dev_seq (u_device secure_context) = 1"
  "dict_get (u_segments secure_context) 1 = Some (new_segment 1 4 7 ''RW'' [1, 2, 3, 9])"
  "dict_get (u_jetties secure_context) 1 = Some (new_jetty 1 2 1 7 (Some (new_engine CIP_SUITE_AES_256_GCM 64)))"
  using sample_context_fields by (simp_all add: secure_context_def)

theorem protected_write_arrives_witness:
  "\<exists>ct tag a. mem_of (fst (process_packet sample_env (protected_packet secure_context (new_jetty 1 2 1 7
        (Some (new_engine CIP_SUITE_AES_256_GCM 64))) 1 4 ct tag 1) None slow_fabric)) 2 = Some (mem_write (replicate 16 0) 4 [1, 2, 3])
    \<and> snd (snd (write_encrypted 1 1 0 1 4 3 [a] secure_context)) = Inr (JFloat 53)"
proof -
  let ?eng = "new_engine CIP_SUITE_AES_256_GCM 64"
  let ?j = "new_jetty 1 2 1 7 (Some ?eng)"
  have cf': "cip_fields_ok CIP_SUITE_AES_256_GCM 7 1" by (simp add: cip_fields_ok_def CIP_SUITE_AES_256_GCM_def)
  then have cf: "cip_fields_ok (cipher_suite ?eng) 7 1" by simp
  have eng: "cip slow_fabric = ?eng" by (simp add: slow_fabric_def sample_fabric_def new_fabric_def)
  have b: "[1, 2, 3] = local_bytes (new_segment 1 4 7 ''RW'' [1, 2, 3, 9]) 0 3"
    by (simp add: local_bytes_def py_slice_def py_clamp_def)
  obtain ct tag where e: "snd (encrypt_and_tag ?eng [1, 2, 3] 7 1) = Inr (ct, tag)"
    using encrypted_decrypts [OF cf _ refl window_rel_new, of "[1, 2, 3]" 1] by auto
  then obtain eng1 where "encrypt_and_tag ?eng [1, 2, 3] 7 1 = (eng1, Inr (ct, tag))" by (metis prod.collapse)
  then have l: "length ct = 3" using encrypt_lengths by fastforce
  let ?p = "protected_packet secure_context ?j 1 4 ct tag 1"
  have "\<exists>f. serialize ?p = Inr f" "\<exists>f. serialize (write_completed ?p 53) = Inr f"
    using l by (intro serialize_short; simp add: protected_packet_def write_completed_def write_reply_opcode_def
      node_reply_def reply_packet_def ub_packet_def meta_length)+
  then obtain f a where f: "serialize ?p = Inr f" "serialize (write_completed ?p 53) = Inr a" by blast
  have g: "granted ?p 1 4 (int (length [1, 2, 3 :: byte])) True slow_fabric" "[] \<notin> set [a]" "4 + int (length [1, 2, 3 :: byte]) \<le> int (length (local_memory sample_conn))"
    using serialize_nonempty [OF f(2)] by simp_all
  have w: "window_rel (cip slow_fabric) {}" unfolding eng by (rule window_rel_new)
  have "mem_of (fst (process_packet sample_env ?p None slow_fabric)) (j_remote_node ?j) = Some (mem_write (local_memory sample_conn) 4 [1, 2, 3])
    \<and> snd (snd (process_packet sample_env ?p None slow_fabric)) = Inr (Some (write_completed ?p 53), None)
    \<and> snd (write_encrypted 1 1 0 1 4 3 [a] secure_context) = (f, Inr (JFloat 53))"
    using slow_time
    by (intro protected_write_arrives [OF secure_context_fields(5,4) sample_jetty_fields(3) secure_context_fields(2) secure_context_fields(3) [symmetric] b _ _ _ w _ _ refl
          g(1) _ _ _ g(3) f _ g(2)]) (simp_all add: eng e cf')
  then show ?thesis by - (rule exI [where x = ct], rule exI [where x = tag], rule exI [where x = a], auto)
qed

section \<open>The objects of a context\<close>

text \<open>
  C27. Objects of a context never clash or vanish: over any run of its methods, successful or not, every
  segment and jetty stays registered under its own id, every handle once valid stays valid, and all ids
  handed out for segments, and all handed out for jetties, plain or secure, are distinct.
\<close>

theorem context_objects_stay:
  assumes "context_ok ctx" "dict_get (u_segments ctx) s \<noteq> None" "dict_get (u_jetties ctx) j \<noteq> None"
    and "ctx' = foldl (\<lambda>x c. fst (urma_step x c)) ctx calls"
  shows "context_ok ctx' \<and> dict_get (u_segments ctx') s \<noteq> None \<and> dict_get (u_jetties ctx') j \<noteq> None
    \<and> distinct (handed_out segment_step ctx calls) \<and> distinct (handed_out jetty_step ctx calls)"
proof -
  have "context_ok (foldl (\<lambda>x c. fst (urma_step x c)) ctx calls)
      \<and> dict_get (u_segments (foldl (\<lambda>x c. fst (urma_step x c)) ctx calls)) s \<noteq> None
      \<and> dict_get (u_jetties (foldl (\<lambda>x c. fst (urma_step x c)) ctx calls)) j \<noteq> None"
    using assms(1-3) by (induction calls arbitrary: ctx) (simp_all add: urma_step_ok handles_persist del: not_None_eq)
  then show ?thesis using assms(4) segment_ids.ids_distinct jetty_ids.ids_distinct by simp
qed

lemma sample_context_ok: "context_ok sample_context"
  by (simp add: context_ok_def objects_ok_def sample_context_def new_context_def)

theorem context_objects_stay_witness:
  "distinct (handed_out segment_step sample_context
     [Register_Segment (Seg_Size 8) 7 ''RW'' [], Create_Secure_Jetty 2 1 7, Close_Context])"
  using context_objects_stay [OF sample_context_ok, of 1 1 _ "[Register_Segment (Seg_Size 8) 7 ''RW'' [], Create_Secure_Jetty 2 1 7, Close_Context]"]
  by simp

lemma py_clamp_int: "py_clamp n (int k) = min n k" "py_clamp n (int k + int l) = min n (k + l)"
  by (simp_all add: py_clamp_def flip: of_nat_add)

lemma py_slice_set_over:
  assumes "a \<le> length xs"
  shows "py_slice_set xs (int a) (int a + int (length ys)) ys = take a xs @ ys @ drop (a + length ys) xs"
  using assms by (simp add: py_slice_set_def py_clamp_int Let_def max_def min_def)

lemma py_slice_of_set_over:
  assumes "a \<le> length xs"
  shows "py_slice (take a xs @ ys @ zs) (int a) (int a + int (length ys)) = ys"
  using assms by (simp add: py_slice_def py_clamp_int Let_def min_def)

lemma filled_bounds:
  assumes "dict_get (u_segments ctx) sid = Some seg" "0 \<le> lo" "lo \<le> int (length (u_buffer seg))" "len = int (length bs)"
  shows "\<exists>buf. dict_get (u_segments (fill_segment sid lo len bs ctx)) sid = Some (seg\<lparr>u_buffer := buf\<rparr>)
    \<and> buf = take (nat lo) (u_buffer seg) @ bs @ drop (nat (lo + len)) (u_buffer seg)
    \<and> int (length buf) = max (int (length (u_buffer seg))) (lo + len)"
proof -
  obtain a where a: "lo = int a" using assms(2) by (metis nonneg_int_cases)
  have al: "a \<le> length (u_buffer seg)" using assms(3) a by simp
  have "py_slice_set (u_buffer seg) lo (lo + len) bs = take a (u_buffer seg) @ bs @ drop (a + length bs) (u_buffer seg)"
    unfolding a assms(4) using al by (rule py_slice_set_over)
  moreover have "nat (lo + len) = a + length bs" by (simp add: a assms(4))
  ultimately show ?thesis using filled_segment [OF assms(1), of lo len bs] al by (simp add: a assms(4))
qed

text \<open>
  C31. A remote read may grow the local segment: when the switch grants a read of \<open>len\<close> bytes, \<open>len\<close> at least 0, that lie in
  the target's memory and its answer arrives, cut in any way, \<open>read\<close> to an offset \<open>lo\<close> between 0 and the length of
  the local buffer returns the simulated latency and replaces the bytes from \<open>lo\<close> on by exactly the target's
  bytes; what lies before \<open>lo\<close> and from \<open>lo + len\<close> on stays, and the buffer ends at its old end or at
  \<open>lo + len\<close>, whichever is later, so that a read past the end makes it longer than the registered size.
\<close>

theorem read_may_grow_segment:
  assumes "dict_get (u_jetties ctx) jid = Some j" "dict_get (u_segments ctx) sid = Some seg" "ready (u_device ctx)"
    and "0 \<le> lo" "lo \<le> int (length (u_buffer seg))"
    and "q = read_packet ctx j rsid roff len (dev_seq (u_device ctx))" "serialize q = Inr f"
    and "granted q rsid roff len False fab" "transfer_time len fab = Inr lat"
    and "mem_of fab (j_remote_node j) = Some m" "roff + len \<le> int (length m)" "bs = py_slice m roff (roff + len)"
    and "snd (snd (process_packet en q cur fab)) = Inr (Some r, cur')" "serialize r = Inr a" "concat cs = a" "[] \<notin> set cs"
    and "0 \<le> len"
  shows "\<exists>ctx' buf. u_read jid sid lo rsid roff len cs ctx = (ctx', f, Inr (JFloat lat))
    \<and> dict_get (u_segments ctx') sid = Some (seg\<lparr>u_buffer := buf\<rparr>)
    \<and> buf = take (nat lo) (u_buffer seg) @ bs @ drop (nat (lo + len)) (u_buffer seg)
    \<and> int (length buf) = max (int (length (u_buffer seg))) (lo + len)"
proof -
  have q: "\<not> is_cip_encrypted q" "opcode q \<in> read_opcodes" "names_range q rsid roff" "int_get ''length'' 0 q = Inr len"
    "dst_node q = j_remote_node j"
    using assms(6) by (simp_all add: read_opcodes_def)
  have n: "0 \<le> roff" "0 \<le> len" using granted_offset [OF assms(8)] assms(17) by simp_all
  have "read_data (Some m) roff len = bs" using assms(11,12) by (simp add: read_data_def mem_read_def)
  then have "r = read_completed q lat bs"
    using process_read(1) [OF q(1-4) assms(8,9), of en cur] assms(10,13) q(5) by simp
  then have "u_read jid sid lo rsid roff len cs ctx
      = (fill_segment sid lo len bs (ctx\<lparr>u_device := after_call (u_device ctx)\<rparr>), f, Inr (JFloat lat))"
    using assms(14) by (intro u_read_answered [OF assms(1-3,6,7,9) _ assms(15,16)]) simp
  moreover have "len = int (length bs)" using assms(11) n by (simp add: assms(12) py_slice_def py_clamp_def Let_def)
  ultimately show ?thesis
    using filled_bounds [of "ctx\<lparr>u_device := after_call (u_device ctx)\<rparr>" sid seg lo len bs] assms(2,4,5) by auto
qed

theorem read_may_grow_segment_witness:
  "\<exists>a f. snd (u_read 1 1 3 1 4 3 [a] sample_context) = (f, Inr (JFloat 53))
    \<and> dict_get (u_segments (fst (u_read 1 1 3 1 4 3 [a] sample_context))) 1
      = Some ((new_segment 1 4 7 ''RW'' [1, 2, 3, 9])\<lparr>u_buffer := [1, 2, 3, 0, 0, 0]\<rparr>)"
proof -
  let ?q = "read_packet sample_context (new_jetty 1 2 1 7 None) 1 4 3 1"
  have "\<exists>f. serialize ?q = Inr f" "\<exists>f. serialize (read_completed ?q 53 [0, 0, 0]) = Inr f"
    by (rule serialize_short; simp add: read_packet_def read_completed_def node_reply_def reply_packet_def ub_packet_def meta_length)+
  then obtain f a where f: "serialize ?q = Inr f" "serialize (read_completed ?q 53 [0, 0, 0]) = Inr a" by blast
  have g: "granted ?q 1 4 3 False slow_fabric" "transfer_time 3 slow_fabric = Inr 53" using slow_time by simp_all
  have m: "mem_of slow_fabric (j_remote_node (new_jetty 1 2 1 7 None)) = Some (replicate 16 0)" by simp
  have b: "[0, 0, 0] = py_slice (replicate 16 (0 :: byte)) 4 (4 + 3)" by (simp add: py_slice_def py_clamp_def numeral_3_eq_3)
  have "snd (snd (process_packet sample_env ?q None slow_fabric)) = Inr (Some (read_completed ?q 53 [0, 0, 0]), None)"
    using process_read(1) [of ?q 1 4 3 slow_fabric 53 sample_env None] g b by (simp add: read_opcodes_def read_data_def mem_read_def)
  from read_may_grow_segment [OF sample_context_fields(5,4,2) _ _ _ f(1) g m _ b this f(2), of 3 "[a]"] serialize_nonempty [OF f(2)]
  obtain ctx' where "u_read 1 1 3 1 4 3 [a] sample_context = (ctx', f, Inr (JFloat 53))"
    "dict_get (u_segments ctx') 1 = Some ((new_segment 1 4 7 ''RW'' [1, 2, 3, 9])\<lparr>u_buffer := [1, 2, 3, 0, 0, 0]\<rparr>)"
    by auto
  then show ?thesis by - (rule exI [where x = a], rule exI [where x = f], simp)
qed

end
