(* ===== verification/Obmm.thy ===== *)
theory Obmm
  imports Urma_Props
begin

text \<open>
  Borrowed memory (\<open>unifiedbus/obmm.py\<close>): exporting a pool, importing it by number and token, and
  reading and writing it through a handle, which checks its bounds before it asks the switch. The
  properties follow a pool from the switch's answer to an import to bytes shared between two borrowers.
\<close>

section \<open>State and operations\<close>

record obmm_client =
  o_node :: int
  o_device :: ub_device
  exported_pools :: "(int, int) dict"

definition new_obmm :: "int \<Rightarrow> ub_device \<Rightarrow> obmm_client" where
  "new_obmm n dev = \<lparr>o_node = n, o_device = dev, exported_pools = []\<rparr>"

record pool_handle =
  ph_pool :: int
  ph_owner :: int
  ph_segment :: int
  ph_size :: int
  ph_token :: int
  ph_perm :: string

definition export_packet :: "obmm_client \<Rightarrow> int \<Rightarrow> int \<Rightarrow> string \<Rightarrow> int \<Rightarrow> packet" where
  "export_packet cl sz token perm seq =
     ub_packet OP_OBMM_EXPORT (o_node cl) 0 token 0 FLAG_NONE seq zero_tag
       (JObj [(''size'', JInt sz), (''permissions'', JStr perm)]) []"

definition export_memory ::
  "int \<Rightarrow> int \<Rightarrow> string \<Rightarrow> bytes list \<Rightarrow> obmm_client \<Rightarrow> obmm_client \<times> bytes \<times> int result"
where
  "export_memory sz token perm cs cl =
     (let (dev, bs, r) = call_sync (export_packet cl sz token perm) cs (o_device cl);
          cl1 = cl\<lparr>o_device := dev\<rparr>
      in
      (case r of
         Inl e \<Rightarrow> (cl1, bs, Inl e)
       | Inr resp \<Rightarrow>
           if opcode resp \<noteq> OP_RESP_OK then (cl1, bs, Inl (RuntimeError ''Failed to export memory pool''))
           else
             (case int_index ''pool_id'' resp of
                Inl e \<Rightarrow> (cl1, bs, Inl e)
              | Inr pid \<Rightarrow> (cl1\<lparr>exported_pools := dict_set pid sz (exported_pools cl1)\<rparr>, bs, Inr pid))))"

definition import_packet :: "obmm_client \<Rightarrow> int \<Rightarrow> int \<Rightarrow> int \<Rightarrow> packet" where
  "import_packet cl pid token seq =
     ub_packet OP_OBMM_IMPORT (o_node cl) 0 token 0 FLAG_NONE seq zero_tag (JObj [(''pool_id'', JInt pid)]) []"

text \<open>The handle built from the answer: the four fields are read with \<open>[]\<close>, in this order.\<close>

definition handle_of :: "int \<Rightarrow> int \<Rightarrow> packet \<Rightarrow> pool_handle result" where
  "handle_of pid token resp =
     rbind (int_index ''target_node'' resp) (\<lambda>owner.
     rbind (int_index ''segment_id'' resp) (\<lambda>sid.
     rbind (int_index ''size'' resp) (\<lambda>sz.
     rbind (rbind (meta_index ''permissions'' resp) as_str) (\<lambda>perm.
       Inr \<lparr>ph_pool = pid, ph_owner = owner, ph_segment = sid, ph_size = sz, ph_token = token, ph_perm = perm\<rparr>))))"

definition import_memory :: "int \<Rightarrow> int \<Rightarrow> bytes list \<Rightarrow> obmm_client \<Rightarrow> obmm_client \<times> bytes \<times> pool_handle result" where
  "import_memory pid token cs cl =
     (let (dev, bs, r) = call_sync (import_packet cl pid token) cs (o_device cl) in
      (cl\<lparr>o_device := dev\<rparr>, bs,
       rbind r (\<lambda>resp.
         if opcode resp \<noteq> OP_RESP_OK
         then Inl (failure (''Failed to import pool 0x'' @ show_hex pid @ '': '') ''Import failed'' resp)
         else handle_of pid token resp)))"

definition pool_range_error :: "string \<Rightarrow> int \<Rightarrow> int \<Rightarrow> int \<Rightarrow> py_error" where
  "pool_range_error what off len sz =
     ValueError (what @ '' exceeds pool size: offset='' @ show_int off @ '', length='' @ show_int len @ '', size='' @ show_int sz)"

definition pool_write_packet :: "obmm_client \<Rightarrow> pool_handle \<Rightarrow> int \<Rightarrow> bytes \<Rightarrow> int \<Rightarrow> packet" where
  "pool_write_packet cl h off pay seq =
     ub_packet OP_URMA_WRITE (o_node cl) (ph_owner h) (ph_token h) 0 FLAG_NONE seq zero_tag
       (JObj [(''segment_id'', JInt (ph_segment h)), (''offset'', JInt off)]) pay"

definition pool_write :: "pool_handle \<Rightarrow> int \<Rightarrow> bytes \<Rightarrow> bytes list \<Rightarrow> obmm_client \<Rightarrow> obmm_client \<times> bytes \<times> json result" where
  "pool_write h off data cs cl =
     (let len = int (length data) in
      if ph_size h < off + len then (cl, [], Inl (pool_range_error ''Write'' off len (ph_size h)))
      else
        let (dev, bs, r) = call_sync (pool_write_packet cl h off data) cs (o_device cl) in
        (cl\<lparr>o_device := dev\<rparr>, bs,
         rbind r (\<lambda>resp.
           if opcode resp \<noteq> OP_RESP_OK then Inl (failure ''OBMM Pool Write failed: '' ''Write failed'' resp)
           else latency_field resp)))"

definition pool_read_packet :: "obmm_client \<Rightarrow> pool_handle \<Rightarrow> int \<Rightarrow> int \<Rightarrow> int \<Rightarrow> packet" where
  "pool_read_packet cl h off len seq =
     ub_packet OP_URMA_READ (o_node cl) (ph_owner h) (ph_token h) 0 FLAG_NONE seq zero_tag
       (JObj [(''segment_id'', JInt (ph_segment h)), (''offset'', JInt off), (''length'', JInt len)]) []"

definition pool_read :: "pool_handle \<Rightarrow> int \<Rightarrow> int \<Rightarrow> bytes list \<Rightarrow> obmm_client \<Rightarrow> obmm_client \<times> bytes \<times> bytes result" where
  "pool_read h off len cs cl =
     (if ph_size h < off + len then (cl, [], Inl (pool_range_error ''Read'' off len (ph_size h)))
      else
        let (dev, bs, r) = call_sync (pool_read_packet cl h off len) cs (o_device cl) in
        (cl\<lparr>o_device := dev\<rparr>, bs,
         rbind r (\<lambda>resp.
           if opcode resp \<noteq> OP_URMA_READ_RESP then Inl (failure ''OBMM Pool Read failed: '' ''Read failed'' resp)
           else Inr (payload resp))))"

definition close_obmm :: "obmm_client \<Rightarrow> obmm_client" where
  "close_obmm cl = cl\<lparr>o_device := close_device (o_device cl)\<rparr>"

section \<open>Importing\<close>

text \<open>The handle a borrower gets for a pool of the switch's table.\<close>

definition borrowed :: "int \<Rightarrow> int \<Rightarrow> ub_segment \<Rightarrow> pool_handle" where
  "borrowed pid token seg =
     \<lparr>ph_pool = pid, ph_owner = seg_node seg, ph_segment = segment_id seg, ph_size = seg_size seg,
      ph_token = token, ph_perm = permissions seg\<rparr>"

definition import_reply :: "packet \<Rightarrow> int \<Rightarrow> ub_segment \<Rightarrow> packet" where
  "import_reply p pid seg = switch_reply p OP_RESP_OK
     [(''pool_id'', JInt pid), (''target_node'', JInt (seg_node seg)), (''segment_id'', JInt (segment_id seg)),
      (''size'', JInt (seg_size seg)), (''permissions'', JStr (permissions seg))]"

definition import_refusal :: "packet \<Rightarrow> int \<Rightarrow> packet" where
  "import_refusal p pid =
     error_reply p (''Failed to import pool 0x'' @ show_hex pid @ '' (invalid pool ID or token mismatch)'')"

lemma import_packet_simps [simp]:
  "opcode (import_packet cl pid token s) = OP_OBMM_IMPORT" "seq_num (import_packet cl pid token s) = s"
  "src_node (import_packet cl pid token s) = o_node cl" "token_id (import_packet cl pid token s) = token"
  "\<not> is_cip_encrypted (import_packet cl pid token s)" "int_index ''pool_id'' (import_packet cl pid token s) = Inr pid"
  by (simp_all add: import_packet_def ub_packet_def is_cip_encrypted_def FLAG_NONE_def int_index_def meta_index_def)

lemma process_import:
  "snd (snd (process_packet en (import_packet cl pid token s) cur fab)) =
     Inr (Some (case import_memory_pool (o_node cl) pid token (switch_table fab) of
        None \<Rightarrow> import_refusal (import_packet cl pid token s) pid
      | Some seg \<Rightarrow> import_reply (import_packet cl pid token s) pid seg), cur)"
  unfolding process_packet_open [OF import_packet_simps(5)]
  by (simp add: process_plain_def dispatch_def Let_def handle_import_def import_reply_def import_refusal_def split: option.split)

lemma import_replies:
  "answers (seq_num p) (import_reply p pid seg)" "answers (seq_num p) (import_refusal p pid)"
  "opcode (import_reply p pid seg) = OP_RESP_OK" "opcode (import_refusal p pid) = OP_RESP_ERR"
  "handle_of pid token (import_reply p pid seg) = Inr (borrowed pid token seg)"
  by (simp_all add: import_reply_def import_refusal_def error_reply_def switch_reply_def reply_packet_def answers_def
      RESPONSE_OPCODES_def handle_of_def borrowed_def int_index_def meta_index_def ub_packet_def)

lemma import_replies_wf: "wf_packet (import_reply p pid seg)" "wf_packet (import_refusal p pid)"
  by (simp_all add: import_reply_def import_refusal_def error_reply_def switch_reply_def reply_packet_def wf_ub_packet FLAG_NONE_def)

text \<open>
  An import yields exactly what the switch's table says: when the switch answers an import, the caller
  gets a handle with the owner, segment, size and permissions of the pool and its own token if the pool
  exists and its token is 0 or the caller's, and the import error in every other case.
\<close>

theorem import_matches_table:
  assumes "ready (o_device cl)" "p = import_packet cl pid token (dev_seq (o_device cl))" "serialize p = Inr f"
    and "snd (snd (process_packet en p cur fab)) = Inr (Some r, cur')" "serialize r = Inr a" "concat cs = a" "[] \<notin> set cs"
  shows "snd (import_memory pid token cs cl) = (f,
    case dict_get (memory_pools (switch_table fab)) pid of
      None \<Rightarrow> Inl (failure (''Failed to import pool 0x'' @ show_hex pid @ '': '') ''Import failed'' (import_refusal p pid))
    | Some seg \<Rightarrow>
        if seg_token seg = 0 \<or> seg_token seg = token then Inr (borrowed pid token seg)
        else Inl (failure (''Failed to import pool 0x'' @ show_hex pid @ '': '') ''Import failed'' (import_refusal p pid)))"
proof -
  have p: "seq_num p = dev_seq (o_device cl)" using assms(2) by simp
  have r: "r = (case import_memory_pool (o_node cl) pid token (switch_table fab) of
      None \<Rightarrow> import_refusal p pid | Some seg \<Rightarrow> import_reply p pid seg)"
    using process_import [of en cl pid token "dev_seq (o_device cl)" cur fab] assms(2,4) by auto
  then have "wf_packet r" "answers (dev_seq (o_device cl)) r"
    using import_replies(1,2) [of p] import_replies_wf [of p] p by (simp_all split: option.split)
  then have "call_sync (import_packet cl pid token) cs (o_device cl) = (after_call (o_device cl), f, Inr r)"
    using assms p by (intro call_sync_answered) simp_all
  then have m: "snd (import_memory pid token cs cl) = (f, if opcode r \<noteq> OP_RESP_OK
      then Inl (failure (''Failed to import pool 0x'' @ show_hex pid @ '': '') ''Import failed'' r) else handle_of pid token r)"
    by (simp add: import_memory_def)
  show ?thesis
  proof (cases "dict_get (memory_pools (switch_table fab)) pid")
    case None
    then have "r = import_refusal p pid" using r by (simp add: import_memory_pool_def)
    then show ?thesis using m None import_replies(4) by simp
  next
    case (Some seg)
    then show ?thesis using m r import_of_pool [OF Some, of "o_node cl" token] import_replies(3-5) by simp
  qed
qed

section \<open>Sharing a pool\<close>

lemma pool_packet_simps [simp]:
  "opcode (pool_write_packet cl h off pay s) = OP_URMA_WRITE" "opcode (pool_read_packet cl h off len s) = OP_URMA_READ"
  "seq_num (pool_write_packet cl h off pay s) = s" "seq_num (pool_read_packet cl h off len s) = s"
  "dst_node (pool_write_packet cl h off pay s) = ph_owner h" "dst_node (pool_read_packet cl h off len s) = ph_owner h"
  "token_id (pool_write_packet cl h off pay s) = ph_token h" "token_id (pool_read_packet cl h off len s) = ph_token h"
  "payload (pool_write_packet cl h off pay s) = pay" "int_get ''length'' 0 (pool_read_packet cl h off len s) = Inr len"
  "\<not> is_cip_encrypted (pool_write_packet cl h off pay s)" "\<not> is_cip_encrypted (pool_read_packet cl h off len s)"
  "names_range (pool_write_packet cl h off pay s) (ph_segment h) off" "names_range (pool_read_packet cl h off len s) (ph_segment h) off"
  by (simp_all add: pool_write_packet_def pool_read_packet_def ub_packet_def is_cip_encrypted_def FLAG_NONE_def names_range_def
      int_index_def int_get_def meta_index_def meta_get_def)

lemma pool_packet_wf [simp]: "wf_packet (pool_write_packet cl h off pay s)" "wf_packet (pool_read_packet cl h off len s)"
  by (simp_all add: pool_write_packet_def pool_read_packet_def wf_ub_packet FLAG_NONE_def)

lemma borrowed_fields [simp]:
  "ph_owner (borrowed pid t seg) = seg_node seg" "ph_segment (borrowed pid t seg) = segment_id seg"
  "ph_size (borrowed pid t seg) = seg_size seg" "ph_token (borrowed pid t seg) = t"
  by (simp_all add: borrowed_def)

text \<open>The pool is in the table and its segment is still registered under its owner.\<close>

definition pool_live :: "fabric \<Rightarrow> int \<Rightarrow> ub_segment \<Rightarrow> bool" where
  "pool_live fab pid seg \<longleftrightarrow> dict_get (memory_pools (switch_table fab)) pid = Some seg
     \<and> (\<exists>segs. dict_get (segments (switch_table fab)) (seg_node seg) = Some segs \<and> dict_get segs (segment_id seg) = Some seg)"

lemma pool_granted:
  assumes "pool_live fab pid seg" "seg_token seg = 0 \<or> seg_token seg = token_id p" "(if w then CHR ''W'' else CHR ''R'') \<in> set (permissions seg)"
    and "dst_node p = seg_node seg" "0 \<le> off" "off + len \<le> seg_size seg"
  shows "granted p (segment_id seg) off len w fab"
  using assms by (auto simp: granted_def validate_access_granted check_permission_iff contains_def pool_live_def)

lemma pool_write_answered:
  assumes "off + int (length data) \<le> ph_size h" "ready (o_device cl)" "p = pool_write_packet cl h off data (dev_seq (o_device cl))"
    and "serialize p = Inr f" "transfer_time n fab = Inr lat" "serialize (write_completed p lat) = Inr a" "concat cs = a" "[] \<notin> set cs"
  shows "snd (pool_write h off data cs cl) = (f, Inr (JFloat lat))"
proof -
  have op: "opcode p = OP_URMA_WRITE" "seq_num p = dev_seq (o_device cl)" using assms(3) by simp_all
  have "call_sync (pool_write_packet cl h off data) cs (o_device cl) = (after_call (o_device cl), f, Inr (write_completed p lat))"
    using assms op completed_answers(1) [OF op(1), of lat] completed_wf(1) [OF assms(5)] by (intro call_sync_answered) simp_all
  then show ?thesis using assms(1) completed_simps(1) [OF op(1)] by (simp add: pool_write_def completed_simps(6) Let_def)
qed

lemma pool_read_answered:
  assumes "off + len \<le> ph_size h" "ready (o_device cl)" "q = pool_read_packet cl h off len (dev_seq (o_device cl))"
    and "serialize q = Inr f" "transfer_time n fab = Inr lat" "serialize (read_completed q lat bs) = Inr a" "concat cs = a" "[] \<notin> set cs"
  shows "snd (pool_read h off len cs cl) = (f, Inr bs)"
proof -
  have op: "opcode q = OP_URMA_READ" "seq_num q = dev_seq (o_device cl)" using assms(3) by simp_all
  have "call_sync (pool_read_packet cl h off len) cs (o_device cl) = (after_call (o_device cl), f, Inr (read_completed q lat bs))"
    using assms op completed_answers(2) [OF op(1), of lat bs] completed_wf(2) [OF assms(5)] by (intro call_sync_answered) simp_all
  then show ?thesis using assms(1) completed_simps(2) [OF op(1)] by (simp add: pool_read_def completed_simps(5))
qed

text \<open>
  C30. Borrowers share the pool's bytes: two clients with handles to the same live, readable and writable
  pool, each with a token the pool accepts, write and read through the switch; if the owner is attached, what the
  first writes to a range that lies inside the pool and also inside the owner's memory (64 MB in the switch,
  however large the pool) is what the second reads from it, and the switch serves exactly these two frames.
\<close>

theorem pool_shared_between_borrowers:
  assumes "pool_live fab pid seg" "seg_token seg \<in> {0, wt}" "seg_token seg \<in> {0, rt}"
    and "CHR ''W'' \<in> set (permissions seg)" "CHR ''R'' \<in> set (permissions seg)"
    and "len = int (length data)" "0 \<le> off" "off + len \<le> seg_size seg"
    and "mem_of fab (seg_node seg) = Some m" "off + len \<le> int (length m)" "transfer_time len fab = Inr lat"
    and "ready (o_device wcl)" "p = pool_write_packet wcl (borrowed pid wt seg) off data (dev_seq (o_device wcl))" "serialize p = Inr pf"
    and "ready (o_device rcl)" "q = pool_read_packet rcl (borrowed pid rt seg) off len (dev_seq (o_device rcl))" "serialize q = Inr qf"
    and "serialize (write_completed p lat) = Inr wa" "serialize (read_completed q lat data) = Inr ra"
    and "\<not> lost en (me en)" "\<not> lost en' (me en')" "concat wcs = wa" "[] \<notin> set wcs" "concat rcs = ra" "[] \<notin> set rcs"
  shows "snd (pool_write (borrowed pid wt seg) off data wcs wcl) = (pf, Inr (JFloat lat))
    \<and> snd (pool_read (borrowed pid rt seg) off len rcs rcl) = (qf, Inr data)
    \<and> (\<exists>fab1 fab2 out.
        client_chunk en pf \<lparr>client_buffer = [], current_node = cur\<rparr> fab
          = (fab1, out @ [(me en, wa)], \<lparr>client_buffer = [], current_node = cur\<rparr>, None)
      \<and> client_chunk en' qf \<lparr>client_buffer = [], current_node = cur'\<rparr> fab1
          = (fab2, [(me en', ra)], \<lparr>client_buffer = [], current_node = cur'\<rparr>, None))"
proof (intro conjI)
  show "snd (pool_write (borrowed pid wt seg) off data wcs wcl) = (pf, Inr (JFloat lat))"
    using assms(6,8) by (intro pool_write_answered [OF _ assms(12,13,14,11,18,22,23)]) simp
  show "snd (pool_read (borrowed pid rt seg) off len rcs rcl) = (qf, Inr data)"
    using assms(8) by (intro pool_read_answered [OF _ assms(15,16,17,11,19,24,25)]) simp
  have p: "payload p = data" "dst_node p = seg_node seg" "dst_node q = dst_node p" using assms(13,16) by simp_all
  then have fs: "len = int (length (payload p))" "mem_of fab (dst_node p) = Some m" "serialize (read_completed q lat (payload p)) = Inr ra"
    using assms(6,9,19) by simp_all
  have "granted p (segment_id seg) off len True fab" "granted q (segment_id seg) off len False fab"
    using assms by (auto intro!: pool_granted)
  then show "\<exists>fab1 fab2 out.
        client_chunk en pf \<lparr>client_buffer = [], current_node = cur\<rparr> fab
          = (fab1, out @ [(me en, wa)], \<lparr>client_buffer = [], current_node = cur\<rparr>, None)
      \<and> client_chunk en' qf \<lparr>client_buffer = [], current_node = cur'\<rparr> fab1
          = (fab2, [(me en', ra)], \<lparr>client_buffer = [], current_node = cur'\<rparr>, None)"
    using assms(13,16) pool_packet_simps(13) [of wcl "borrowed pid wt seg"] pool_packet_simps(14) [of rcl "borrowed pid rt seg"]
    by (intro write_read_served [OF _ _ _ _ fs(1) _ _ _ _ _ p(3) _ _ assms(11) fs(2) assms(10,14,17,18) fs(3) assms(20,21)]) simp_all
qed

text \<open>
  Out-of-range pool accesses stay local: a read or write that passes the end of the pool raises
  \<open>ValueError\<close>, sends nothing and leaves the client as it is, whatever would have arrived.
\<close>

theorem pool_range_checked_locally:
  assumes "ph_size h < off + int (length data)" "ph_size h < off + len"
  shows "pool_write h off data cs cl = (cl, [], Inl (pool_range_error ''Write'' off (int (length data)) (ph_size h)))
    \<and> pool_read h off len cs cl = (cl, [], Inl (pool_range_error ''Read'' off len (ph_size h)))"
  using assms by (simp add: pool_write_def pool_read_def Let_def)

section \<open>Instances\<close>

definition sample_pool :: ub_segment where
  "sample_pool = \<lparr>segment_id = 1, seg_node = 2, base_addr = 0, seg_size = 64, seg_token = 7, permissions = ''RW'', created_at = 0\<rparr>"

definition pool_fabric :: fabric where
  "pool_fabric = slow_fabric\<lparr>switch_table := (switch_table slow_fabric)\<lparr>memory_pools := [(1, sample_pool)]\<rparr>\<rparr>"

definition sample_client :: obmm_client where
  "sample_client = new_obmm 1 sample_device"

lemma sample_client_fields [simp]: "o_node sample_client = 1" "ready (o_device sample_client)" "dev_seq (o_device sample_client) = 1"
  by (simp_all add: sample_client_def new_obmm_def) (simp add: sample_device_def new_device_def)

lemma sample_pool_fields [simp]:
  "seg_token sample_pool = 7" "seg_size sample_pool = 64" "seg_node sample_pool = 2" "segment_id sample_pool = 1" "permissions sample_pool = ''RW''"
  by (simp_all add: sample_pool_def)

lemma pool_fabric_fields [simp]:
  "dict_get (memory_pools (switch_table pool_fabric)) 1 = Some sample_pool" "mem_of pool_fabric 2 = Some (replicate 16 0)"
  "transfer_time 3 pool_fabric = Inr 53" "pool_live pool_fabric 1 sample_pool"
proof -
  show pool: "dict_get (memory_pools (switch_table pool_fabric)) 1 = Some sample_pool" by (simp add: pool_fabric_def)
  show "mem_of pool_fabric 2 = Some (replicate 16 0)" using slow_fabric_fields(2) by (simp add: pool_fabric_def mem_of_def)
  show "transfer_time 3 pool_fabric = Inr 53"
    using slow_time transfer_time_cong [of pool_fabric slow_fabric 3] by (simp add: pool_fabric_def)
  have "dict_get (segments (switch_table pool_fabric)) 2 = Some [(1, sample_pool)]"
    using sample_segment by (simp add: pool_fabric_def slow_fabric_def sample_pool_def)
  then show "pool_live pool_fabric 1 sample_pool" using pool by (simp add: pool_live_def)
qed

lemma pool_exchange_frames:
  "\<exists>f. serialize (import_packet sample_client 1 7 1) = Inr f"
  "\<exists>f. serialize (import_reply (import_packet sample_client 1 7 1) 1 sample_pool) = Inr f"
  "\<exists>f. serialize (pool_write_packet sample_client (borrowed 1 7 sample_pool) 4 [1, 2, 3] 1) = Inr f"
  "\<exists>f. serialize (pool_read_packet sample_client (borrowed 1 7 sample_pool) 4 3 1) = Inr f"
  "\<exists>f. serialize (write_completed (pool_write_packet sample_client (borrowed 1 7 sample_pool) 4 [1, 2, 3] 1) 53) = Inr f"
  "\<exists>f. serialize (read_completed (pool_read_packet sample_client (borrowed 1 7 sample_pool) 4 3 1) 53 [1, 2, 3]) = Inr f"
  by (rule serialize_short; simp add: import_packet_def import_reply_def switch_reply_def pool_write_packet_def pool_read_packet_def
      write_completed_def write_reply_opcode_def read_completed_def node_reply_def reply_packet_def ub_packet_def meta_length)+

theorem import_matches_table_witness:
  "\<exists>a. snd (snd (import_memory 1 7 [a] sample_client)) = Inr (borrowed 1 7 sample_pool)"
proof -
  let ?p = "import_packet sample_client 1 7 1"
  obtain f a where f: "serialize ?p = Inr f" "serialize (import_reply ?p 1 sample_pool) = Inr a" using pool_exchange_frames by blast
  have r: "snd (snd (process_packet sample_env ?p None pool_fabric)) = Inr (Some (import_reply ?p 1 sample_pool), None)"
    using import_of_pool [OF pool_fabric_fields(1), of 1 7] by (simp add: process_import)
  have "snd (import_memory 1 7 [a] sample_client) = (f, Inr (borrowed 1 7 sample_pool))"
    using import_matches_table [OF sample_client_fields(2) _ f(1) r f(2), where cs = "[a]"] serialize_nonempty [OF f(2)] by simp
  then show ?thesis by - (rule exI [where x = a], simp)
qed

theorem pool_shared_between_borrowers_witness:
  "\<exists>wa ra. snd (snd (pool_write (borrowed 1 7 sample_pool) 4 [1, 2, 3] [wa] sample_client)) = Inr (JFloat 53)
    \<and> snd (snd (pool_read (borrowed 1 7 sample_pool) 4 3 [ra] sample_client)) = Inr [1, 2, 3]"
proof -
  let ?p = "pool_write_packet sample_client (borrowed 1 7 sample_pool) 4 [1, 2, 3] 1"
  let ?q = "pool_read_packet sample_client (borrowed 1 7 sample_pool) 4 3 1"
  obtain pf qf wa ra where f: "serialize ?p = Inr pf" "serialize ?q = Inr qf" "serialize (write_completed ?p 53) = Inr wa"
      "serialize (read_completed ?q 53 [1, 2, 3]) = Inr ra"
    using pool_exchange_frames by blast
  have "\<exists>x. snd (pool_write (borrowed 1 7 sample_pool) 4 [1, 2, 3] [wa] sample_client) = (pf, Inr (JFloat 53))
      \<and> snd (pool_read (borrowed 1 7 sample_pool) 4 3 [ra] sample_client) = (qf, Inr [1, 2, 3]) \<and> x"
    by (rule exI, rule pool_shared_between_borrowers [of pool_fabric 1 sample_pool 7 7 3 "[1, 2, 3]" 4 "replicate 16 0" 53 sample_client ?p pf
          sample_client ?q qf wa ra sample_env sample_env "[wa]" "[ra]" None None])
      (simp_all add: f serialize_nonempty [OF f(3), symmetric] serialize_nonempty [OF f(4), symmetric])
  then show ?thesis by - (rule exI [where x = wa], rule exI [where x = ra], auto)
qed

theorem pool_range_checked_locally_witness:
  "pool_write (borrowed 1 7 sample_pool) 62 [1, 2, 3] [] sample_client
     = (sample_client, [], Inl (pool_range_error ''Write'' 62 3 64))"
  using pool_range_checked_locally [of "borrowed 1 7 sample_pool" 62 "[1, 2, 3]" 3 "[]" sample_client] by simp

end
