(* ===== verification/Cdma.thy ===== *)
theory Cdma
  imports Obmm
begin

text \<open>
  The DMA engine (\<open>unifiedbus/cdma.py\<close>): a submission makes a task with one descriptor and a packet,
  and a thread of its own sends the packet and marks the task done. The submission and the thread's body
  are two operations; between them the engine may be used for other submissions.
\<close>

section \<open>Descriptors and tasks\<close>

text \<open>What a failed transfer records: the error text of the answer, or the exception (its \<open>str\<close>).\<close>

datatype dma_error = Reported json | Raised py_error

record cdma_descriptor =
  d_id :: int
  d_src_node :: int
  d_dst_node :: int
  d_src_offset :: int
  d_dst_seg :: int
  d_dst_offset :: int
  d_length :: int
  d_token :: int
  d_payload :: bytes
  d_completed :: bool
  d_latency :: json
  d_error :: "dma_error option"

definition new_descriptor :: "int \<Rightarrow> int \<Rightarrow> int \<Rightarrow> int \<Rightarrow> int \<Rightarrow> int \<Rightarrow> int \<Rightarrow> int \<Rightarrow> bytes \<Rightarrow> cdma_descriptor" where
  "new_descriptor i src dst src_off seg off len token pay =
     \<lparr>d_id = i, d_src_node = src, d_dst_node = dst, d_src_offset = src_off, d_dst_seg = seg, d_dst_offset = off,
      d_length = len, d_token = token, d_payload = pay, d_completed = False, d_latency = JFloat 0, d_error = None\<rparr>"

text \<open>\<open>t_done\<close> is the event that \<open>wait\<close> waits for.\<close>

record cdma_task =
  t_descriptors :: "cdma_descriptor list"
  t_done :: bool
  t_total_bytes :: int
  t_elapsed :: json

definition new_task :: "cdma_descriptor list \<Rightarrow> cdma_task" where
  "new_task ds = \<lparr>t_descriptors = ds, t_done = False, t_total_bytes = sum_list (map d_length ds), t_elapsed = JFloat 0\<rparr>"

definition mark_done :: "json \<Rightarrow> dma_error option \<Rightarrow> cdma_task \<Rightarrow> cdma_task" where
  "mark_done lat err task =
     task\<lparr>t_elapsed := lat,
          t_descriptors := map (\<lambda>d. d\<lparr>d_completed := True, d_latency := lat, d_error := err\<rparr>) (t_descriptors task),
          t_done := True\<rparr>"

text \<open>\<open>wait\<close>: whether the event is set when the wait ends.\<close>

definition task_wait :: "cdma_task \<Rightarrow> bool" where
  "task_wait task = t_done task"

section \<open>The engine\<close>

record cdma_engine =
  c_node :: int
  c_device :: ub_device
  c_next_desc :: int

definition new_dma :: "int \<Rightarrow> ub_device \<Rightarrow> cdma_engine" where
  "new_dma n dev = \<lparr>c_node = n, c_device = dev, c_next_desc = 1\<rparr>"

definition dma_packet :: "cdma_engine \<Rightarrow> int \<Rightarrow> int \<Rightarrow> int \<Rightarrow> int \<Rightarrow> bytes \<Rightarrow> int \<Rightarrow> int \<Rightarrow> packet" where
  "dma_packet eng dst seg off token pay desc seq =
     ub_packet OP_CDMA_SUBMIT (c_node eng) dst token 0 FLAG_NONE seq zero_tag
       (JObj [(''segment_id'', JInt seg), (''offset'', JInt off), (''desc_id'', JInt desc)]) pay"

text \<open>The submission up to the start of the thread: the task and the packet for the thread.\<close>

definition submit_dma_write ::
  "int \<Rightarrow> int \<Rightarrow> int \<Rightarrow> bytes \<Rightarrow> int \<Rightarrow> cdma_engine \<Rightarrow> cdma_engine \<times> cdma_task \<times> packet"
where
  "submit_dma_write dst seg off data token eng =
     (let i = c_next_desc eng;
          eng1 = eng\<lparr>c_next_desc := i + 1\<rparr>;
          desc = new_descriptor i (c_node eng) dst 0 seg off (int (length data)) token data;
          (dev, seq) = get_seq (c_device eng1)
      in (eng1\<lparr>c_device := dev\<rparr>, new_task [desc], dma_packet eng1 dst seg off token data i seq))"

text \<open>The body of the thread; every exception ends in the task.\<close>

definition async_exec :: "packet \<Rightarrow> bytes list \<Rightarrow> cdma_task \<Rightarrow> cdma_engine \<Rightarrow> cdma_engine \<times> bytes \<times> cdma_task" where
  "async_exec p cs task eng =
     (let (dev, bs, r) = send_sync p cs (c_device eng);
          outcome =
            rbind r (\<lambda>resp.
              if opcode resp = OP_CDMA_COMPLETE \<or> opcode resp = OP_RESP_OK
              then rbind (latency_field resp) (\<lambda>lat. Inr (lat, None))
              else rbind (meta_get ''error'' (JStr ''DMA Failed'') resp) (\<lambda>err. Inr (JFloat 0, Some (Reported err))))
      in
      (eng\<lparr>c_device := dev\<rparr>, bs,
       case outcome of
         Inl e \<Rightarrow> mark_done (JFloat 0) (Some (Raised e)) task
       | Inr (lat, err) \<Rightarrow> mark_done lat err task))"


section \<open>Descriptor ids\<close>




section \<open>Properties\<close>

text \<open>How a task can end.\<close>

definition task_ended :: "json \<Rightarrow> dma_error option \<Rightarrow> cdma_task \<Rightarrow> cdma_task \<Rightarrow> bool" where
  "task_ended lat err task task' \<longleftrightarrow> task_wait task' \<and> t_elapsed task' = lat \<and> t_total_bytes task' = t_total_bytes task
     \<and> map d_id (t_descriptors task') = map d_id (t_descriptors task)
     \<and> list_all (\<lambda>d. d_completed d \<and> d_latency d = lat \<and> d_error d = err) (t_descriptors task')"

lemma mark_done_ends: "task_ended lat err task (mark_done lat err task)"
  by (simp add: task_ended_def mark_done_def task_wait_def list_all_iff o_def)



lemma dma_packet_simps [simp]:
  "opcode (dma_packet eng dst seg off token pay i s) = OP_CDMA_SUBMIT" "seq_num (dma_packet eng dst seg off token pay i s) = s"
  "dst_node (dma_packet eng dst seg off token pay i s) = dst" "token_id (dma_packet eng dst seg off token pay i s) = token"
  "payload (dma_packet eng dst seg off token pay i s) = pay" "\<not> is_cip_encrypted (dma_packet eng dst seg off token pay i s)"
  "names_range (dma_packet eng dst seg off token pay i s) seg off"
  by (simp_all add: dma_packet_def ub_packet_def is_cip_encrypted_def FLAG_NONE_def names_range_def int_index_def int_get_def
      meta_index_def meta_get_def)

lemma dma_packet_wf: "wf_packet (dma_packet eng dst seg off token pay i s)"
  by (simp add: dma_packet_def wf_ub_packet FLAG_NONE_def)

lemma submit_fields:
  "submit_dma_write dst seg off data token eng = (eng1, task, p) \<Longrightarrow>
     c_device eng1 = (c_device eng)\<lparr>dev_seq := dev_seq (c_device eng) + 1\<rparr>
     \<and> (\<exists>eng0. p = dma_packet eng0 dst seg off token data (c_next_desc eng) (dev_seq (c_device eng)))"
  by (auto simp: submit_dma_write_def get_seq_def Let_def)

lemma async_exec_answered:
  assumes "ready (c_device eng)" "serialize p = Inr f" "answers (seq_num p) r" "wf_packet r" "serialize r = Inr a" "concat cs = a" "[] \<notin> set cs"
  shows "opcode r = OP_CDMA_COMPLETE \<Longrightarrow> latency_field r = Inr lat \<Longrightarrow> snd (snd (async_exec p cs task eng)) = mark_done lat None task"
    "opcode r = OP_RESP_ERR \<Longrightarrow> meta_get ''error'' (JStr ''DMA Failed'') r = Inr err \<Longrightarrow>
       snd (snd (async_exec p cs task eng)) = mark_done (JFloat 0) (Some (Reported err)) task"
  using send_sync_answered [OF assms] by (simp_all add: async_exec_def)

lemma error_reply_facts:
  "wf_packet (error_reply p msg)" "answers (seq_num p) (error_reply p msg)" "opcode (error_reply p msg) = OP_RESP_ERR"
  "meta_get ''error'' d (error_reply p msg) = Inr (JStr msg)"
proof -
  show "wf_packet (error_reply p msg)"
    by (simp add: error_reply_def switch_reply_def reply_packet_def wf_ub_packet FLAG_NONE_def)
qed (simp_all add: error_reply_def switch_reply_def reply_packet_def answers_def RESPONSE_OPCODES_def meta_get_def ub_packet_def)

lemma dma_completed_facts:
  assumes "opcode p = OP_CDMA_SUBMIT"
  shows "opcode (write_completed p lat) = OP_CDMA_COMPLETE" "answers (seq_num p) (write_completed p lat)"
  using assms by (simp_all add: write_completed_def write_reply_opcode_def node_reply_def answers_def RESPONSE_OPCODES_def)

text \<open>
  C32. A DMA task ends as the switch decides: when a submitted packet is served and answered, the task ends,
  if the access check grants the range, with the simulated latency and no error, and otherwise with latency 0
  and the message of the access check. After a grant the data is in the target's memory if the target is
  attached and the range lies inside its memory (64 MB in the switch), an attached target's memory is
  unchanged if it does not, and every other node's memory and the table are unchanged; after a refusal the
  switch has only counted the packet and relays nothing.
\<close>

theorem dma_ends_as_decided:
  assumes "submit_dma_write dst seg off data token eng = (eng1, task, p)" "ready (c_device eng)" "serialize p = Inr f"
    and "validate_access dst seg off (int (length data)) True token (switch_table fab) = (ok, msg)"
    and "transfer_time (int (length data)) fab = Inr lat"
    and "snd (snd (process_packet en p cur fab)) = Inr (Some r, cur')" "serialize r = Inr a" "concat cs = a" "[] \<notin> set cs"
  shows "task_ended (if ok then JFloat lat else JFloat 0) (if ok then None else Some (Reported (JStr msg))) task
      (snd (snd (async_exec p cs task eng1)))
    \<and> (if ok then switch_table (fst (process_packet en p cur fab)) = switch_table fab
          \<and> mem_of (fst (process_packet en p cur fab)) = (mem_of fab)(dst := map_option (\<lambda>m.
              if off + int (length data) \<le> int (length m) then mem_write m off data else m) (mem_of fab dst))
        else process_packet en p cur fab = (count_tx en p (count_packet p fab), [], Inr (Some (error_reply p msg), cur)))"
proof -
  obtain eng0 where p: "p = dma_packet eng0 dst seg off token data (c_next_desc eng) (dev_seq (c_device eng))"
    and dev: "ready (c_device eng1)"
    using submit_fields [OF assms(1)] assms(2) by (auto simp: ready_def)
  have q: "opcode p = OP_CDMA_SUBMIT" "\<not> is_cip_encrypted p" "names_range p seg off" "payload p = data" "dst_node p = dst" "token_id p = token"
    by (simp_all add: p)
  then have w: "opcode p \<in> write_opcodes" "transfer_time (int (length (payload p))) fab = Inr lat"
    using assms(5) by (simp_all add: write_opcodes_def)
  show ?thesis
  proof (cases ok)
    case True
    then have g: "granted p seg off (int (length (payload p))) True fab" using assms(4) q by (simp add: granted_def)
    have "r = write_completed p lat" using process_write(1) [OF q(2) w(1) q(3) g w(2), of en cur] assms(6) by simp
    then have "snd (snd (async_exec p cs task eng1)) = mark_done (JFloat lat) None task"
      using dma_completed_facts [OF q(1)] completed_wf(1) [OF assms(5)] completed_simps(6) assms(3,7-9)
      by (intro async_exec_answered(1) [OF dev]) simp_all
    moreover have "mem_of (fst (process_packet en p cur fab)) = (mem_of fab)(dst := map_option (\<lambda>m.
        if off + int (length data) \<le> int (length m) then mem_write m off data else m) (mem_of fab dst))"
      using process_write(2) [OF q(2) w(1) q(3) g w(2), of en cur, unfolded q(4,5)] by (intro ext) simp
    ultimately show ?thesis using process_write(3) [OF q(2) w(1) q(3) g w(2), of en cur] mark_done_ends True by simp
  next
    case False
    have pp: "process_packet en p cur fab = (count_tx en p (count_packet p fab), [], Inr (Some (error_reply p msg), cur))"
      unfolding process_packet_open [OF q(2)] to_handler(1) [OF w(1)]
      using handle_write_refused [OF q(3), of "count_tx en p (count_packet p fab)" msg lat] assms(4) w(2) q False by simp
    then have "snd (snd (async_exec p cs task eng1)) = mark_done (JFloat 0) (Some (Reported (JStr msg))) task"
      using error_reply_facts [where p = p and msg = msg] assms(3,6-9) by (intro async_exec_answered(2) [OF dev]) simp_all
    then show ?thesis using mark_done_ends False pp by simp
  qed
qed

lemma dma_frames:
  "\<exists>f. serialize (dma_packet (new_dma 1 sample_device) 2 1 4 7 [1, 2, 3] 1 1) = Inr f"
  "\<exists>f. serialize (write_completed (dma_packet (new_dma 1 sample_device) 2 1 4 7 [1, 2, 3] 1 1) 53) = Inr f"
  by (rule serialize_short; simp add: dma_packet_def new_dma_def write_completed_def write_reply_opcode_def node_reply_def reply_packet_def
      ub_packet_def meta_length)+

theorem dma_ends_as_decided_witness:
  "\<exists>task p a. snd (submit_dma_write 2 1 4 [1, 2, 3] 7 (new_dma 1 sample_device)) = (task, p)
    \<and> task_ended (JFloat 53) None task (snd (snd (async_exec p [a] task (fst (submit_dma_write 2 1 4 [1, 2, 3] 7 (new_dma 1 sample_device))))))"
proof -
  have seq: "dev_seq sample_device = 1" by (simp add: sample_device_def new_device_def)
  let ?p = "dma_packet (new_dma 1 sample_device) 2 1 4 7 [1, 2, 3] 1 1"
  obtain f a where f: "serialize ?p = Inr f" "serialize (write_completed ?p 53) = Inr a" using dma_frames by blast
  obtain eng1 task where s: "submit_dma_write 2 1 4 [1, 2, 3] 7 (new_dma 1 sample_device) = (eng1, task, ?p)"
    by (simp add: submit_dma_write_def new_dma_def get_seq_def Let_def seq dma_packet_def)
  have g: "granted ?p 1 4 (int (length (payload ?p))) True slow_fabric" by simp
  obtain msg where v: "validate_access 2 1 4 (int (length [1, 2, 3 :: byte])) True 7 (switch_table slow_fabric) = (True, msg)"
    using granted_validate [OF g] by auto
  have r: "snd (snd (process_packet sample_env ?p None slow_fabric)) = Inr (Some (write_completed ?p 53), None)"
    using slow_time by (intro process_write(1) [OF _ _ _ g]) (simp_all add: write_opcodes_def)
  have "ready (c_device (new_dma 1 sample_device))" by (simp add: new_dma_def)
  from dma_ends_as_decided [OF s this f(1) v _ r f(2), of 53 "[a]"]
  have "task_ended (JFloat 53) None task (snd (snd (async_exec ?p [a] task eng1)))"
    using slow_time serialize_nonempty [OF f(2)] by simp
  then show ?thesis using s by - (rule exI [where x = task], rule exI [where x = ?p], rule exI [where x = a], simp)
qed

end
