(* ===== verification/Services.thy ===== *)
theory Services
  imports Cdma
begin

text \<open>
  The smaller clients: sockets over the bus (\<open>unifiedbus/ums.py\<close>), remote calls (\<open>unifiedbus/urpc.py\<close>),
  the cache agent (\<open>unifiedbus/coherence.py\<close>) and the emergency monitor (\<open>unifiedbus/sentry.py\<close>), each
  as a record with one definition per method; and what the switch does with their packets.
\<close>

section \<open>Sockets\<close>

record ums_socket =
  ums_node :: int
  ums_remote :: int
  ums_port :: int
  ums_device :: ub_device
  ums_connected :: bool

definition new_ums :: "int \<Rightarrow> int \<Rightarrow> int \<Rightarrow> ub_device \<Rightarrow> ums_socket" where
  "new_ums n remote port dev =
     \<lparr>ums_node = n, ums_remote = remote, ums_port = port, ums_device = dev, ums_connected = False\<rparr>"

definition ums_packet :: "int \<Rightarrow> ums_socket \<Rightarrow> bytes \<Rightarrow> int \<Rightarrow> packet" where
  "ums_packet opc s pay seq =
     ub_packet opc (ums_node s) (ums_remote s) 0 0 FLAG_NONE seq zero_tag (JObj [(''port'', JInt (ums_port s))]) pay"

definition ums_connect :: "bytes list \<Rightarrow> ums_socket \<Rightarrow> ums_socket \<times> bytes \<times> unit result" where
  "ums_connect cs s =
     (let (dev, bs, r) = call_sync (ums_packet OP_UMS_SYN s []) cs (ums_device s);
          s1 = s\<lparr>ums_device := dev\<rparr>
      in
      (case r of
         Inl e \<Rightarrow> (s1, bs, Inl e)
       | Inr resp \<Rightarrow>
           if opcode resp \<noteq> OP_RESP_OK
           then (s1, bs, Inl (ConnectionError (''Failed to connect UMS socket to Node '' @ show_int (ums_remote s)
                                @ '':'' @ show_int (ums_port s))))
           else (s1\<lparr>ums_connected := True\<rparr>, bs, Inr ())))"

definition ums_send :: "bytes \<Rightarrow> bytes list \<Rightarrow> ums_socket \<Rightarrow> ums_socket \<times> bytes \<times> json result" where
  "ums_send data cs s =
     (if \<not> ums_connected s then (s, [], Inl (ConnectionError ''Socket not connected''))
      else
        let (dev, bs, r) = call_sync (ums_packet OP_UMS_DATA s data) cs (ums_device s) in
        (s\<lparr>ums_device := dev\<rparr>, bs,
         rbind r (\<lambda>resp.
           if opcode resp \<noteq> OP_RESP_OK then Inl (RuntimeError ''UMS Data send failed'') else latency_field resp)))"

text \<open>A connected socket sends a \<open>FIN\<close> first; whatever comes of it, it is then disconnected and closed.\<close>

definition ums_close :: "bytes list \<Rightarrow> ums_socket \<Rightarrow> ums_socket \<times> bytes" where
  "ums_close cs s =
     (let (s1, bs) =
        (if ums_connected s then
           let (dev, bs, r) = call_sync (ums_packet OP_UMS_FIN s []) cs (ums_device s)
           in (s\<lparr>ums_device := dev, ums_connected := False\<rparr>, bs)
         else (s, []))
      in (s1\<lparr>ums_device := close_device (ums_device s1)\<rparr>, bs))"

section \<open>Remote calls\<close>

record urpc_client =
  rpc_node :: int
  rpc_remote :: int
  rpc_device :: ub_device

definition urpc_packet :: "urpc_client \<Rightarrow> string \<Rightarrow> (string \<times> json) list \<Rightarrow> int \<Rightarrow> packet" where
  "urpc_packet cl meth params seq =
     ub_packet OP_URPC_CALL (rpc_node cl) (rpc_remote cl) 0 0 FLAG_NONE seq zero_tag
       (JObj [(''method'', JStr meth)]) (encode_utf8 (dumps (JObj params)))"

definition urpc_call ::
  "string \<Rightarrow> (string \<times> json) list \<Rightarrow> bytes list \<Rightarrow> urpc_client \<Rightarrow> urpc_client \<times> bytes \<times> json result"
where
  "urpc_call meth params cs cl =
     (let (dev, bs, r) = call_sync (urpc_packet cl meth params) cs (rpc_device cl) in
      (cl\<lparr>rpc_device := dev\<rparr>, bs,
       rbind r (\<lambda>resp.
         if opcode resp \<noteq> OP_RESP_OK then Inl (RuntimeError (''URPC call '' @ meth @ '' failed''))
         else rbind (latency_field resp) (\<lambda>lat. Inr (JObj [(''status'', JStr ''SUCCESS''), (''latency_ns'', lat)])))))"

definition urpc_close :: "urpc_client \<Rightarrow> urpc_client" where
  "urpc_close cl = cl\<lparr>rpc_device := close_device (rpc_device cl)\<rparr>"

section \<open>The cache agent\<close>

text \<open>\<open>cache_lines\<close> is never used by the code.\<close>

record cache_agent =
  agent_node :: int
  agent_device :: ub_device
  cache_lines :: "(int, string) dict"

definition new_agent :: "int \<Rightarrow> ub_device \<Rightarrow> cache_agent" where
  "new_agent n dev = \<lparr>agent_node = n, agent_device = dev, cache_lines = []\<rparr>"

definition snoop_packet :: "cache_agent \<Rightarrow> int \<Rightarrow> int \<Rightarrow> int \<Rightarrow> packet" where
  "snoop_packet ag target line seq =
     ub_packet OP_SNOOP_REQ (agent_node ag) target 0 0 FLAG_NONE seq zero_tag
       (JObj [(''line_addr'', JInt line), (''type'', JStr ''INVALIDATE'')]) []"

definition request_snoop_invalidation ::
  "int \<Rightarrow> int \<Rightarrow> bytes list \<Rightarrow> cache_agent \<Rightarrow> cache_agent \<times> bytes \<times> json result"
where
  "request_snoop_invalidation target line cs ag =
     (let (dev, bs, r) = call_sync (snoop_packet ag target line) cs (agent_device ag) in
      (ag\<lparr>agent_device := dev\<rparr>, bs,
       rbind r (\<lambda>resp.
         if opcode resp \<noteq> OP_SNOOP_RESP then Inl (RuntimeError (''Snoop request failed for line 0x'' @ show_hex line))
         else meta_get ''state'' (JStr ''INVALID'') resp)))"

definition writeback_packet :: "cache_agent \<Rightarrow> int \<Rightarrow> int \<Rightarrow> bytes \<Rightarrow> int \<Rightarrow> packet" where
  "writeback_packet ag home line data seq =
     ub_packet OP_CACHE_WB (agent_node ag) home 0 0 FLAG_NONE seq zero_tag (JObj [(''line_addr'', JInt line)]) data"

definition writeback_cacheline ::
  "int \<Rightarrow> int \<Rightarrow> bytes \<Rightarrow> bytes list \<Rightarrow> cache_agent \<Rightarrow> cache_agent \<times> bytes \<times> json result"
where
  "writeback_cacheline home line data cs ag =
     (let (dev, bs, r) = call_sync (writeback_packet ag home line data) cs (agent_device ag) in
      (ag\<lparr>agent_device := dev\<rparr>, bs,
       rbind r (\<lambda>resp.
         if opcode resp \<noteq> OP_SNOOP_RESP then Inl (RuntimeError (''Cache writeback failed for line 0x'' @ show_hex line))
         else latency_field resp)))"

definition agent_close :: "cache_agent \<Rightarrow> cache_agent" where
  "agent_close ag = ag\<lparr>agent_device := close_device (agent_device ag)\<rparr>"

section \<open>The emergency monitor\<close>

record sentry_client =
  sentry_node :: int
  sentry_device :: ub_device

definition sentry_packet :: "sentry_client \<Rightarrow> int \<Rightarrow> string \<Rightarrow> string \<Rightarrow> int \<Rightarrow> packet" where
  "sentry_packet cl opc reason act seq =
     ub_packet opc (sentry_node cl) 0 0 0 FLAG_NONE seq zero_tag
       (JObj [(''reason'', JStr reason), (''action'', JStr act)]) []"

definition trigger :: "int \<Rightarrow> string \<Rightarrow> string \<Rightarrow> bytes list \<Rightarrow> sentry_client \<Rightarrow> sentry_client \<times> bytes \<times> bool result" where
  "trigger opc reason act cs cl =
     (let (dev, bs, r) = call_sync (sentry_packet cl opc reason act) cs (sentry_device cl) in
      (cl\<lparr>sentry_device := dev\<rparr>, bs, rbind r (\<lambda>resp. Inr (opcode resp = OP_RESP_OK))))"

definition trigger_oom_freeze :: "int \<Rightarrow> bytes list \<Rightarrow> sentry_client \<Rightarrow> sentry_client \<times> bytes \<times> bool result" where
  "trigger_oom_freeze mb =
     trigger OP_SENTRY_OOM_BLOCK (''OOM threshold exceeded ('' @ show_int mb @ '' MB)'') ''FREEZE_LOCAL_PAGING''"

definition trigger_panic_alert :: "string \<Rightarrow> bytes list \<Rightarrow> sentry_client \<Rightarrow> sentry_client \<times> bytes \<times> bool result" where
  "trigger_panic_alert msg = trigger OP_SENTRY_PANIC_BLOCK (''Kernel Panic: '' @ msg) ''ISOLATE_LINK''"

definition sentry_close :: "sentry_client \<Rightarrow> sentry_client" where
  "sentry_close cl = cl\<lparr>sentry_device := close_device (sentry_device cl)\<rparr>"

section \<open>The life of a socket\<close>

datatype ums_op = Connect_Socket "bytes list" | Send_Data bytes "bytes list" | Close_Socket "bytes list"

text \<open>The socket and what the operation put on the wire.\<close>

fun ums_step :: "ums_socket \<Rightarrow> ums_op \<Rightarrow> ums_socket \<times> bytes" where
  "ums_step s (Connect_Socket cs) = (case ums_connect cs s of (s1, bs, r) \<Rightarrow> (s1, bs))"
| "ums_step s (Send_Data data cs) = (case ums_send data cs s of (s1, bs, r) \<Rightarrow> (s1, bs))"
| "ums_step s (Close_Socket cs) = ums_close cs s"

primrec ums_run :: "ums_socket \<Rightarrow> ums_op list \<Rightarrow> ums_socket \<times> bytes list" where
  "ums_run s [] = (s, [])"
| "ums_run s (c # ops) = (case ums_step s c of (s1, bs) \<Rightarrow> case ums_run s1 ops of (s2, bss) \<Rightarrow> (s2, bs # bss))"

definition socket_closed :: "ums_socket \<Rightarrow> bool" where
  "socket_closed s \<longleftrightarrow> \<not> ums_connected s \<and> \<not> sock_open (ums_device s)"

lemma rx_packet_sock: "rx_packet p dev = Inr dev' \<Longrightarrow> sock_open dev' = sock_open dev"
  by (auto simp: rx_packet_def Let_def result_simps split: if_splits)

lemma call_sync_closed:
  assumes "\<not> sock_open dev" "call_sync mk cs dev = (dev', bs, r)"
  shows "\<not> sock_open dev' \<and> bs = [] \<and> (\<exists>e. r = Inl e)"
  using assms by (auto simp: call_sync_def get_seq_def send_sync_def Let_def split: sum.splits)

lemma closed_step:
  assumes "socket_closed s" "ums_step s c = (s', bs)"
  shows "socket_closed s' \<and> bs = []"
proof (cases c)
  case (Connect_Socket cs)
  then show ?thesis using assms
    by (cases "call_sync (ums_packet OP_UMS_SYN s []) cs (ums_device s)")
      (auto simp: ums_connect_def socket_closed_def dest!: call_sync_closed [rotated])
qed (use assms in \<open>auto simp: ums_send_def ums_close_def socket_closed_def close_device_def\<close>)

lemma closed_run: "socket_closed s \<Longrightarrow> ums_run s ops = (s', bss) \<Longrightarrow> socket_closed s' \<and> set bss \<subseteq> {[]}"
proof (induction ops arbitrary: s bss)
  case (Cons c ops)
  obtain s1 bs where st: "ums_step s c = (s1, bs)" by fastforce
  obtain bss1 where "ums_run s1 ops = (s', bss1)" "bss = bs # bss1" using Cons.prems(2) st by (auto split: prod.splits)
  then show ?case using Cons.IH [of s1 bss1] closed_step [OF Cons.prems(1) st] by simp
qed simp

lemma close_closes: "socket_closed (fst (ums_close cs s))"
  by (simp add: ums_close_def socket_closed_def close_device_def Let_def split: prod.split)

text \<open>
  A closed socket stays closed: after \<open>close\<close>, whatever the outcome of its \<open>FIN\<close>, no sequence of
  connects, sends and closes puts a byte on the wire or connects the socket again; and before a
  successful connect a send puts nothing on the wire either.
\<close>

theorem closed_socket_stays_closed:
  assumes "ums_run (fst (ums_close cs s)) ops = (s', bss)"
  shows "\<not> ums_connected s' \<and> set bss \<subseteq> {[]} \<and> (\<forall>data cs. snd (ums_send data cs s') = ([], Inl (ConnectionError ''Socket not connected'')))"
  using closed_run [OF close_closes assms] by (simp add: socket_closed_def ums_send_def)

theorem closed_socket_stays_closed_witness:
  "\<not> ums_connected (fst (ums_run (fst (ums_close [] (new_ums 1 2 80 sample_device))) [Connect_Socket [], Send_Data [1] []]))"
proof -
  obtain s' bss where r: "ums_run (fst (ums_close [] (new_ums 1 2 80 sample_device))) [Connect_Socket [], Send_Data [1] []] = (s', bss)"
    by (meson surj_pair)
  then show ?thesis using closed_socket_stays_closed [OF r] by simp
qed

section \<open>Answers of the switch to the small clients\<close>

lemma service_packet_simps [simp]:
  "opcode (ums_packet opc s pay q) = opc" "dst_node (ums_packet opc s pay q) = ums_remote s" "seq_num (ums_packet opc s pay q) = q"
  "\<not> is_cip_encrypted (ums_packet opc s pay q)" "payload (ums_packet opc s pay q) = pay"
  "meta_get ''port'' d (ums_packet opc s pay q) = Inr (JInt (ums_port s))"
  "opcode (urpc_packet cl meth params q) = OP_URPC_CALL" "dst_node (urpc_packet cl meth params q) = rpc_remote cl"
  "seq_num (urpc_packet cl meth params q) = q" "\<not> is_cip_encrypted (urpc_packet cl meth params q)"
  "payload (urpc_packet cl meth params q) = encode_utf8 (dumps (JObj params))"
  "meta_get ''method'' d (urpc_packet cl meth params q) = Inr (JStr meth)"
  "opcode (writeback_packet ag home line data q) = OP_CACHE_WB" "seq_num (writeback_packet ag home line data q) = q"
  "\<not> is_cip_encrypted (writeback_packet ag home line data q)" "dst_node (writeback_packet ag home line data q) = home"
  "int_get ''line_addr'' 0 (writeback_packet ag home line data q) = Inr line"
  by (simp_all add: ums_packet_def urpc_packet_def writeback_packet_def ub_packet_def is_cip_encrypted_def FLAG_NONE_def meta_get_def int_get_def)

definition status_reply :: "packet \<Rightarrow> int \<Rightarrow> (string \<times> json) list \<Rightarrow> pyfloat \<Rightarrow> packet" where
  "status_reply p opc ms lat = node_reply p opc (ms @ [(''sim_latency_ns'', JFloat lat)])"

lemma status_reply_facts:
  assumes "list_all (\<lambda>(k, v). k \<noteq> ''sim_latency_ns'' \<and> (\<exists>s. v = JStr s)) ms" "distinct (map fst ms)" "opc \<in> RESPONSE_OPCODES"
  shows "answers (seq_num p) (status_reply p opc ms lat)" "opcode (status_reply p opc ms lat) = opc"
    "latency_field (status_reply p opc ms lat) = Inr (JFloat lat)" "fl lat = lat \<Longrightarrow> wf_packet (status_reply p opc ms lat)"
proof -
  have k: "''sim_latency_ns'' \<notin> fst ` set ms" using assms(1) by (auto simp: list_all_iff)
  then have "map_of ms ''sim_latency_ns'' = None" by (simp add: map_of_eq_None_iff)
  then show "latency_field (status_reply p opc ms lat) = Inr (JFloat lat)"
    by (simp add: status_reply_def latency_field_def meta_get_def node_reply_def reply_packet_def ub_packet_def map_of_append map_add_def)
  show "wf_packet (status_reply p opc ms lat)" if "fl lat = lat"
    using that assms(1,2) k unfolding status_reply_def node_reply_def reply_packet_def
    by (intro wf_ub_packet) (auto simp: FLAG_NONE_def list_all_iff)
  show "answers (seq_num p) (status_reply p opc ms lat)" "opcode (status_reply p opc ms lat) = opc"
    using assms(3) by (simp_all add: status_reply_def answers_def node_reply_def)
qed

lemma process_service:
  assumes "\<not> is_cip_encrypted p" "opcode p = OP_UMS_SYN \<or> opcode p = OP_UMS_DATA" "meta_get ''port'' (JInt 0) p = Inr (JInt port)"
    and "transfer_time (int (length (payload p))) fab = Inr lat"
  shows "snd (snd (process_packet en p cur fab)) = Inr (Some (status_reply p OP_RESP_OK [(''status'', JStr ''UMS_ACK'')] lat), cur)"
  unfolding process_packet_open [OF assms(1)] using assms(2-4)
  by (auto simp: process_plain_def dispatch_def Let_def handle_ums_def status_reply_def)

lemma process_call:
  assumes "\<not> is_cip_encrypted p" "opcode p = OP_URPC_CALL" "meta_get ''method'' (JStr []) p = Inr (JStr meth)"
    and "transfer_time (int (length (payload p))) fab = Inr lat"
  shows "snd (snd (process_packet en p cur fab)) = Inr (Some (status_reply p OP_RESP_OK [(''status'', JStr ''RPC_DISPATCHED'')] lat), cur)"
    "fst (snd (process_packet en p cur fab)) = relay_to_target en p (count_tx en p (count_packet p fab))"
  unfolding process_packet_open [OF assms(1)] using assms(2-4)
  by (auto simp: process_plain_def dispatch_def Let_def handle_urpc_def status_reply_def)

lemma process_coherence:
  assumes "\<not> is_cip_encrypted p" "opcode p = OP_SNOOP_REQ \<or> opcode p = OP_CACHE_WB \<or> opcode p = OP_CACHE_EVICT"
    and "int_get ''line_addr'' 0 p = Inr line" "transfer_time 64 fab = Inr lat"
  shows "snd (snd (process_packet en p cur fab)) =
      Inr (Some (status_reply p OP_SNOOP_RESP [(''status'', JStr ''COHERENCE_ACK''), (''state'', JStr ''INVALID'')] lat), cur)"
    "fst (snd (process_packet en p cur fab)) = []" "mem_of (fst (process_packet en p cur fab)) = mem_of fab"
  unfolding process_packet_open [OF assms(1)] using assms(2-4)
  by (auto simp: process_plain_def dispatch_def Let_def handle_coherence_def status_reply_def)

lemma call_answered:
  assumes "ready dev" "p = mk (dev_seq dev)" "seq_num p = dev_seq dev" "serialize p = Inr f" "transfer_time n fab = Inr lat"
    and "list_all (\<lambda>(k, v). k \<noteq> ''sim_latency_ns'' \<and> (\<exists>s. v = JStr s)) ms" "distinct (map fst ms)" "opc \<in> RESPONSE_OPCODES"
    and "serialize (status_reply p opc ms lat) = Inr a" "concat cs = a" "[] \<notin> set cs"
  shows "call_sync mk cs dev = (after_call dev, f, Inr (status_reply p opc ms lat))"
  using assms status_reply_facts(1) [OF assms(6-8), of p lat] status_reply_facts(4) [OF assms(6-8) transfer_time_float [OF assms(5)], of p]
  by (intro call_sync_answered) simp_all

lemma slow_time_2: "transfer_time 2 slow_fabric = Inr 52"
proof -
  have f: "float_of_int 2 = Inr 2" "float_of_int 1 = Inr 1" "fl 16 = 16" "fl 2 = 2" "fl 15 = 15" "fl 17 = 17" "fl 52 = 52"
    using fl_of_int [of 2] fl_of_int [of 1] fl_of_int [of 16] fl_of_int [of 15] fl_of_int [of 17] fl_of_int [of 52]
    by (simp_all add: float_of_int_def)
  then show ?thesis
    by (simp add: transfer_time_def calculate_transfer_time_ns_def slow_fabric_def sample_fabric_def new_fabric_def fdiv_def fmul_def fadd_def)
qed

lemma slow_time_64: "transfer_time 64 slow_fabric = Inr 114"
proof -
  have f: "float_of_int 64 = Inr 64" "float_of_int 1 = Inr 1" "fl 512 = 512" "fl 64 = 64" "fl 15 = 15" "fl 79 = 79" "fl 114 = 114"
    using fl_of_int [of 64] fl_of_int [of 1] fl_of_int [of 512] fl_of_int [of 15] fl_of_int [of 79] fl_of_int [of 114]
    by (simp_all add: float_of_int_def)
  then show ?thesis
    by (simp add: transfer_time_def calculate_transfer_time_ns_def slow_fabric_def sample_fabric_def new_fabric_def fdiv_def fmul_def fadd_def)
qed

lemma float_repr_52: "float_repr 52 = ''52.0''"
  by code_simp

lemma float_repr_114: "float_repr 114 = ''114.0''"
  by code_simp

abbreviation rpc_ack :: "(string \<times> json) list" where
  "rpc_ack \<equiv> [(''status'', JStr ''RPC_DISPATCHED'')]"

abbreviation coherence_ack :: "(string \<times> json) list" where
  "coherence_ack \<equiv> [(''status'', JStr ''COHERENCE_ACK''), (''state'', JStr ''INVALID'')]"

lemma service_frames:
  "\<exists>f. serialize (urpc_packet \<lparr>rpc_node = 1, rpc_remote = 2, rpc_device = sample_device\<rparr> ''m'' [] 1) = Inr f"
  "\<exists>f. serialize (status_reply (urpc_packet \<lparr>rpc_node = 1, rpc_remote = 2, rpc_device = sample_device\<rparr> ''m'' [] 1)
     OP_RESP_OK rpc_ack 52) = Inr f"
  "\<exists>f. serialize (writeback_packet (new_agent 1 sample_device) 2 0 [1, 2] 1) = Inr f"
  "\<exists>f. serialize (status_reply (writeback_packet (new_agent 1 sample_device) 2 0 [1, 2] 1) OP_SNOOP_RESP coherence_ack 114) = Inr f"
  by (rule serialize_short; simp add: urpc_packet_def writeback_packet_def new_agent_def status_reply_def node_reply_def
      reply_packet_def ub_packet_def meta_length float_repr_52 float_repr_114)+

lemma sample_seq: "dev_seq sample_device = 1" "ready sample_device"
  using sample_context_fields(2,3) by (simp_all add: sample_context_def new_context_def)

text \<open>
  C34. A remote call is delivered exactly and acknowledged at once: if no connection is lost, the switch
  writes the call's frame once, to the connection of the remote node if that is attached and to nobody
  otherwise; the frame decodes to the method and to exactly the parameters the caller gave, and in both
  cases the caller gets SUCCESS with the simulated latency from the switch, without waiting for the remote
  node to execute anything.
\<close>

theorem remote_call_delivered:
  assumes "ready (rpc_device cl)" "p = urpc_packet cl meth params (dev_seq (rpc_device cl))" "json_ok (JObj params)"
    and "serialize p = Inr f" "transfer_time (int (length (payload p))) fab = Inr lat"
    and "snd (snd (process_packet en p cur fab)) = Inr (Some r, cur')" "serialize r = Inr a" "concat cs = a" "[] \<notin> set cs"
    and "\<And>c. \<not> lost en c"
  shows "snd (urpc_call meth params cs cl) = (f, Inr (JObj [(''status'', JStr ''SUCCESS''), (''latency_ns'', JFloat lat)]))
    \<and> fst (snd (process_packet en p cur fab)) = (case dict_get (nodes fab) (rpc_remote cl) of None \<Rightarrow> [] | Some c \<Rightarrow> [(conn_id c, f)])
    \<and> deserialize_from_buffer f = Inr (Some p, length f) \<and> meta_get ''method'' JNull p = Inr (JStr meth)
    \<and> rbind (decode_utf8 (payload p)) loads = Inr (JObj params)"
proof -
  have p: "\<not> is_cip_encrypted p" "opcode p = OP_URPC_CALL" "meta_get ''method'' (JStr []) p = Inr (JStr meth)" "dst_node p = rpc_remote cl"
    "seq_num p = dev_seq (rpc_device cl)" "meta_get ''method'' JNull p = Inr (JStr meth)" "payload p = encode_utf8 (dumps (JObj params))"
    using assms(2) by simp_all
  let ?ms = "[(''status'', JStr ''RPC_DISPATCHED'')]"
  have ms: "list_all (\<lambda>(k, v). k \<noteq> ''sim_latency_ns'' \<and> (\<exists>s. v = JStr s)) ?ms" "distinct (map fst ?ms)" "OP_RESP_OK \<in> RESPONSE_OPCODES"
    by (simp_all add: RESPONSE_OPCODES_def)
  have "r = status_reply p OP_RESP_OK ?ms lat" using process_call(1) [OF p(1-3) assms(5), of en cur] assms(6) by simp
  then have "call_sync (urpc_packet cl meth params) cs (rpc_device cl) = (after_call (rpc_device cl), f, Inr (status_reply p OP_RESP_OK ?ms lat))"
    using assms(2,7) by (intro call_answered [OF assms(1) _ p(5) assms(4,5) ms _ assms(8,9)]) simp_all
  then have "snd (urpc_call meth params cs cl) = (f, Inr (JObj [(''status'', JStr ''SUCCESS''), (''latency_ns'', JFloat lat)]))"
    using status_reply_facts(2,3) [OF ms] by (simp add: urpc_call_def)
  moreover have "relay_to_target en p (count_tx en p (count_packet p fab))
      = (case dict_get (nodes fab) (rpc_remote cl) of None \<Rightarrow> [] | Some c \<Rightarrow> [(conn_id c, f)])"
    using assms(4,10) p(4) by (auto simp: relay_to_target_def count_tx_def send_quiet_def send_raising_def dict_adjust_def split: option.split)
  moreover have "deserialize_from_buffer (f @ []) = Inr (Some p, length f)"
    using assms(2,4) by (intro deserialize_serialize_rest) (simp_all add: urpc_packet_def wf_ub_packet FLAG_NONE_def)
  moreover have "rbind (decode_utf8 (payload p)) loads = Inr (JObj params)"
    using assms(3) by (simp add: p(7) decode_encode_utf8 loads_dumps_eq)
  ultimately show ?thesis using process_call(2) [OF p(1-3) assms(5), of en cur] p(6) by simp
qed

theorem remote_call_delivered_witness:
  "\<exists>a. snd (snd (urpc_call ''m'' [] [a] \<lparr>rpc_node = 1, rpc_remote = 2, rpc_device = sample_device\<rparr>))
     = Inr (JObj [(''status'', JStr ''SUCCESS''), (''latency_ns'', JFloat 52)])"
proof -
  let ?cl = "\<lparr>rpc_node = 1, rpc_remote = 2, rpc_device = sample_device\<rparr>"
  let ?p = "urpc_packet ?cl ''m'' [] (dev_seq sample_device)"
  obtain f a where f: "serialize ?p = Inr f" "serialize (status_reply ?p OP_RESP_OK rpc_ack 52) = Inr a"
    using service_frames sample_seq by metis
  have n: "length (payload ?p) = 2" by (simp add: encode_utf8_def utf8_char_def)
  then have t: "transfer_time (int (length (payload ?p))) slow_fabric = Inr 52" using slow_time_2 by simp
  have "snd (snd (process_packet sample_env ?p None slow_fabric)) = Inr (Some (status_reply ?p OP_RESP_OK rpc_ack 52), None)"
    using t by (intro process_call(1)) simp_all
  then show ?thesis
    using remote_call_delivered [OF _ _ _ f(1) t _ f(2), where cl = ?cl and meth = "''m''" and params = "[]" and en = sample_env and cur = None and cur' = None and cs = "[a]"]
      serialize_nonempty [OF f(2)] sample_seq(2) by (intro exI [where x = a]) (simp add: sample_env_def)
qed

text \<open>
  A cache writeback is acknowledged and lost: the switch answers it with the latency of a line, which
  the agent returns, but no memory changes and the data is relayed to nobody.
\<close>

theorem writeback_lost:
  assumes "ready (agent_device ag)" "p = writeback_packet ag home line data (dev_seq (agent_device ag))" "serialize p = Inr f"
    and "transfer_time 64 fab = Inr lat" "snd (snd (process_packet en p cur fab)) = Inr (Some r, cur')"
    and "serialize r = Inr a" "concat cs = a" "[] \<notin> set cs"
  shows "snd (writeback_cacheline home line data cs ag) = (f, Inr (JFloat lat))
    \<and> mem_of (fst (process_packet en p cur fab)) = mem_of fab \<and> fst (snd (process_packet en p cur fab)) = []"
proof -
  let ?ms = "[(''status'', JStr ''COHERENCE_ACK''), (''state'', JStr ''INVALID'')]"
  have ms: "list_all (\<lambda>(k, v). k \<noteq> ''sim_latency_ns'' \<and> (\<exists>s. v = JStr s)) ?ms" "distinct (map fst ?ms)" "OP_SNOOP_RESP \<in> RESPONSE_OPCODES"
    by (simp_all add: RESPONSE_OPCODES_def)
  have p: "\<not> is_cip_encrypted p" "opcode p = OP_SNOOP_REQ \<or> opcode p = OP_CACHE_WB \<or> opcode p = OP_CACHE_EVICT"
    "int_get ''line_addr'' 0 p = Inr line" "seq_num p = dev_seq (agent_device ag)"
    using assms(2) by simp_all
  note pc = process_coherence [OF p(1-3) assms(4), of en cur]
  have "call_sync (writeback_packet ag home line data) cs (agent_device ag)
      = (after_call (agent_device ag), f, Inr (status_reply p OP_SNOOP_RESP ?ms lat))"
    using assms(2,5,6) pc(1) by (intro call_answered [OF assms(1) _ p(4) assms(3,4) ms _ assms(7,8)]) simp_all
  then show ?thesis using pc(2,3) status_reply_facts(2,3) [OF ms] by (simp add: writeback_cacheline_def)
qed

theorem writeback_lost_witness:
  "\<exists>a. snd (snd (writeback_cacheline 2 0 [1, 2] [a] (new_agent 1 sample_device))) = Inr (JFloat 114)"
proof -
  let ?ag = "new_agent 1 sample_device"
  let ?p = "writeback_packet ?ag 2 0 [1, 2] (dev_seq sample_device)"
  obtain f a where f: "serialize ?p = Inr f" "serialize (status_reply ?p OP_SNOOP_RESP coherence_ack 114) = Inr a"
    using service_frames sample_seq by metis
  have "snd (snd (process_packet sample_env ?p None slow_fabric)) = Inr (Some (status_reply ?p OP_SNOOP_RESP coherence_ack 114), None)"
    using slow_time_64 by (intro process_coherence(1)) simp_all
  then show ?thesis
    using writeback_lost [OF _ _ f(1) slow_time_64 _ f(2), where ag = ?ag and home = 2 and line = 0 and data = "[1, 2]" and en = sample_env and cur = None and cur' = None and cs = "[a]"]
      serialize_nonempty [OF f(2)] sample_seq(2) by (intro exI [where x = a]) (simp add: new_agent_def)
qed

end
