(* ===== verification/Hccl.thy ===== *)
theory Hccl
  imports Urma_Props
begin

text \<open>
  The collectives of the guest SDK (\<open>unifiedbus/hccl.py\<close>): the context of one rank with its ring
  neighbours, scratch segment and jetty, \<open>all_reduce\<close> and \<open>all_gather\<close>. NumPy is not part of the
  repository: it is a parameter, \<open>None\<close> when its import fails.
\<close>

section \<open>Tensors and numbers\<close>

text \<open>What the code uses of NumPy: \<open>nbytes\<close>, \<open>len\<close> (which raises for a scalar array) and \<open>np.tile\<close>.\<close>

record 'n numpy =
  nd_bytes :: "'n \<Rightarrow> int"
  nd_len :: "'n \<Rightarrow> int result"
  nd_tile :: "'n \<Rightarrow> int \<Rightarrow> 'n"

text \<open>An array exists only where NumPy does; \<open>T_Other\<close> is any object of another type.\<close>

datatype ('e, 'n) tensor = T_Array 'n | T_Bytes bytes | T_List "'e list" | T_Other

definition get_bytes_and_len :: "'n numpy option \<Rightarrow> ('e, 'n) tensor \<Rightarrow> (int \<times> int) result" where
  "get_bytes_and_len np t =
     (case (np, t) of
        (Some m, T_Array a) \<Rightarrow> rbind (nd_len m a) (\<lambda>n. Inr (nd_bytes m a, n))
      | (_, T_Bytes bs) \<Rightarrow> Inr (int (length bs), int (length bs))
      | (_, T_List xs) \<Rightarrow> Inr (int (length xs) * 4, int (length xs))
      | _ \<Rightarrow> Inr (4096, 1024))"

lemma get_bytes_and_len_simps [simp]:
  "get_bytes_and_len np (T_Bytes bs) = Inr (int (length bs), int (length bs))"
  "get_bytes_and_len np (T_List xs) = Inr (int (length xs) * 4, int (length xs))"
  by (simp_all add: get_bytes_and_len_def split: option.split)

text \<open>\<open>v * k\<close> for a field of an answer and an integer: sequences are repeated.\<close>

fun py_times :: "json \<Rightarrow> int \<Rightarrow> json result" where
  "py_times (JInt a) k = Inr (JInt (a * k))"
| "py_times (JBool b) k = Inr (JInt (if b then k else 0))"
| "py_times (JFloat x) k = rbind (float_of_int k) (\<lambda>f. Inr (JFloat (fmul x f)))"
| "py_times (JStr s) k = Inr (JStr (concat (replicate (nat k) s)))"
| "py_times (JList vs) k = Inr (JList (concat (replicate (nat k) vs)))"
| "py_times JNull k = Inl TypeError"
| "py_times (JObj ms) k = Inl TypeError"

text \<open>The value as an operand of float arithmetic.\<close>

fun as_number :: "json \<Rightarrow> pyfloat result" where
  "as_number (JInt a) = float_of_int a"
| "as_number (JBool b) = Inr (if b then 1 else 0)"
| "as_number (JFloat x) = Inr x"
| "as_number _ = Inl TypeError"

text \<open>\<open>a / b\<close> of two integers: the exact quotient is rounded once.\<close>

definition int_ratio :: "int \<Rightarrow> int \<Rightarrow> pyfloat result" where
  "int_ratio a b =
     (if b = 0 then Inl ZeroDivisionError
      else if (2 ^ 1024 - 2 ^ 970) * \<bar>b\<bar> \<le> \<bar>a\<bar> then Inl OverflowError
      else Inr (fl (of_int a / of_int b)))"

section \<open>The context of a rank\<close>

datatype reduce_op = SUM_op | PROD_op | MAX_op | MIN_op

record collective_stats =
  st_name :: string
  st_bytes :: int
  st_latency :: pyfloat
  st_bandwidth :: pyfloat

record hccl =
  h_rank :: int
  h_world :: int
  h_node :: int
  h_urma :: urma_context
  h_next_rank :: int
  h_prev_rank :: int
  h_next_node :: int
  h_prev_node :: int
  h_scratch_size :: int
  h_scratch :: int
  h_jetty :: int

definition SCRATCH_SIZE :: int where
  "SCRATCH_SIZE = 32 * 1024 * 1024"

text \<open>The fields of the object, given the context of its node, the scratch segment and the jetty.\<close>

definition ring_context :: "int \<Rightarrow> int \<Rightarrow> urma_context \<Rightarrow> int \<Rightarrow> int \<Rightarrow> hccl" where
  "ring_context rank world ctx sid jid =
     (let nxt = (rank + 1) mod world;
          prv = (rank - 1 + world) mod world
      in
      \<lparr>h_rank = rank, h_world = world, h_node = rank + 1, h_urma = ctx, h_next_rank = nxt, h_prev_rank = prv,
       h_next_node = nxt + 1, h_prev_node = prv + 1, h_scratch_size = SCRATCH_SIZE, h_scratch = sid, h_jetty = jid\<rparr>)"

text \<open>The constructor, given the connected device; an exception leaves no object.\<close>

definition hccl_init :: "int \<Rightarrow> int \<Rightarrow> ub_device \<Rightarrow> bytes list \<Rightarrow> bytes list \<Rightarrow> bytes \<times> hccl result" where
  "hccl_init rank world dev cs1 cs2 =
     (let ctx = new_context (rank + 1) dev in
      if world = 0 then ([], Inl ZeroDivisionError)
      else
        let nxt = (rank + 1) mod world;
            (ctx1, bs1, r1) = u_register_segment (Seg_Size SCRATCH_SIZE) (4096 + rank) ''RW'' cs1 ctx
        in
        (case r1 of
           Inl e \<Rightarrow> (bs1, Inl e)
         | Inr sid \<Rightarrow>
             let (ctx2, bs2, r2) = u_create_jetty (nxt + 1) 1 (4096 + nxt) cs2 ctx1 in
             (case r2 of
                Inl e \<Rightarrow> (bs1 @ bs2, Inl e)
              | Inr jid \<Rightarrow>
                  (bs1 @ bs2, Inr (ring_context rank world ctx2 sid jid)))))"

section \<open>Collectives\<close>

text \<open>The write to the next rank that both operations make.\<close>

definition ring_write :: "int \<Rightarrow> bytes list \<Rightarrow> hccl \<Rightarrow> hccl \<times> bytes \<times> json result" where
  "ring_write len cs h =
     (case u_write (h_jetty h) (h_scratch h) 0 1 0 len cs (h_urma h) of (ctx, bs, r) \<Rightarrow> (h\<lparr>h_urma := ctx\<rparr>, bs, r))"

definition reduce_latency :: "json \<Rightarrow> int \<Rightarrow> int \<Rightarrow> int \<Rightarrow> pyfloat result" where
  "reduce_latency lat world nb chunk =
     rbind (py_times lat (2 * (world - 1))) (\<lambda>v.
     rbind (int_ratio nb chunk) (\<lambda>q.
     rbind (as_number v) (\<lambda>x.
     rbind (fdiv (fmul x q) 1000) (\<lambda>us.
       if us < 5 then rbind (int_ratio nb (100 * 1024 * 1024)) (\<lambda>m. Inr (fadd 5 (fmul m 10))) else Inr us))))"

definition gather_latency :: "json \<Rightarrow> int \<Rightarrow> pyfloat result" where
  "gather_latency lat world =
     rbind (py_times lat (world - 1)) (\<lambda>v.
     rbind (as_number v) (\<lambda>x.
     rbind (fdiv x 1000) (\<lambda>us. Inr (fadd us 3))))"

definition collective_bandwidth :: "int \<Rightarrow> pyfloat \<Rightarrow> pyfloat result" where
  "collective_bandwidth nb us =
     (if 0 < us then rbind (int_ratio nb (1024 ^ 3)) (\<lambda>g. rbind (fdiv us 1000000) (\<lambda>s. fdiv g s)) else Inr 100)"

definition all_reduce ::
  "'n numpy option \<Rightarrow> ('e, 'n) tensor \<Rightarrow> reduce_op \<Rightarrow> bytes list \<Rightarrow> hccl \<Rightarrow> hccl \<times> bytes \<times> (('e, 'n) tensor \<times> collective_stats) result"
where
  "all_reduce np t oper cs h =
     (case get_bytes_and_len np t of
        Inl e \<Rightarrow> (h, [], Inl e)
      | Inr (nb, n) \<Rightarrow>
          let chunk = min nb 65536;
              (h1, bs, r) = ring_write chunk cs h
          in
          (h1, bs,
           rbind r (\<lambda>lat.
           rbind (reduce_latency lat (h_world h) nb chunk) (\<lambda>us.
           rbind (collective_bandwidth nb us) (\<lambda>bw.
             Inr (t, \<lparr>st_name = ''AllReduce'', st_bytes = nb, st_latency = us, st_bandwidth = bw\<rparr>))))))"

definition gathered :: "'n numpy option \<Rightarrow> ('e, 'n) tensor \<Rightarrow> int \<Rightarrow> ('e, 'n) tensor" where
  "gathered np t world =
     (case (np, t) of
        (Some m, T_Array a) \<Rightarrow> T_Array (nd_tile m a world)
      | (_, T_List xs) \<Rightarrow> T_List (concat (replicate (nat world) xs))
      | _ \<Rightarrow> t)"

definition all_gather ::
  "'n numpy option \<Rightarrow> ('e, 'n) tensor \<Rightarrow> bytes list \<Rightarrow> hccl \<Rightarrow> hccl \<times> bytes \<times> (('e, 'n) tensor \<times> collective_stats) result"
where
  "all_gather np t cs h =
     (case get_bytes_and_len np t of
        Inl e \<Rightarrow> (h, [], Inl e)
      | Inr (nb_in, n) \<Rightarrow>
          let nb = nb_in * h_world h;
              (h1, bs, r) = ring_write (min nb_in 65536) cs h
          in
          (h1, bs,
           rbind r (\<lambda>lat.
           rbind (gather_latency lat (h_world h)) (\<lambda>us.
           rbind (collective_bandwidth nb us) (\<lambda>bw.
             Inr (gathered np t (h_world h),
                  \<lparr>st_name = ''AllGather'', st_bytes = nb, st_latency = us, st_bandwidth = bw\<rparr>))))))"

definition hccl_close :: "hccl \<Rightarrow> hccl" where
  "hccl_close h = h\<lparr>h_urma := u_close (h_urma h)\<rparr>"

section \<open>A context in working order\<close>

text \<open>The ring positions of a context, its jetty to the next rank and its scratch segment, all zeros.\<close>

definition ring_jetty :: "hccl \<Rightarrow> urma_jetty" where
  "ring_jetty h = new_jetty (h_jetty h) (h_next_node h) 1 (4096 + h_next_rank h) None"

definition scratch_segment :: "hccl \<Rightarrow> urma_segment" where
  "scratch_segment h = new_segment (h_scratch h) SCRATCH_SIZE (4096 + h_rank h) ''RW'' (replicate (nat SCRATCH_SIZE) 0)"

definition hccl_ok :: "hccl \<Rightarrow> bool" where
  "hccl_ok h \<longleftrightarrow> h_node h = h_rank h + 1 \<and> h_next_rank h = (h_rank h + 1) mod h_world h \<and> h_next_node h = h_next_rank h + 1
     \<and> h_prev_rank h = (h_rank h - 1 + h_world h) mod h_world h \<and> u_node (h_urma h) = h_node h
     \<and> dict_get (u_jetties (h_urma h)) (h_jetty h) = Some (ring_jetty h)
     \<and> dict_get (u_segments (h_urma h)) (h_scratch h) = Some (scratch_segment h)"

text \<open>Any two contexts that differ in their device only.\<close>

definition same_but_device :: "hccl \<Rightarrow> hccl \<Rightarrow> bool" where
  "same_but_device h h' \<longleftrightarrow> (\<exists>dev. h' = h\<lparr>h_urma := (h_urma h)\<lparr>u_device := dev\<rparr>\<rparr>)"

lemma same_but_device_refl [simp]: "same_but_device h h"
  unfolding same_but_device_def by (rule exI [where x = "u_device (h_urma h)"]) simp

lemma same_but_device_ok: "same_but_device h h' \<Longrightarrow> hccl_ok h \<Longrightarrow> hccl_ok h' \<and> h_rank h' = h_rank h \<and> h_world h' = h_world h"
  by (auto simp: same_but_device_def hccl_ok_def ring_jetty_def scratch_segment_def)

lemma ring_write_same: "same_but_device h (fst (ring_write len cs h))"
  unfolding same_but_device_def ring_write_def u_write_def
  by (auto simp: Let_def split: option.split prod.split intro: exI [where x = "u_device (h_urma h)"])

lemma collectives_same:
  "same_but_device h (fst (all_reduce np t oper cs h))" "same_but_device h (fst (all_gather np t cs h))"
proof -
  show "same_but_device h (fst (all_reduce np t oper cs h))"
    using ring_write_same [of h "min (fst (projr (get_bytes_and_len np t))) 65536" cs]
    by (auto simp: all_reduce_def Let_def split: sum.split prod.split)
  show "same_but_device h (fst (all_gather np t cs h))"
    using ring_write_same [of h "min (fst (projr (get_bytes_and_len np t))) 65536" cs]
    by (auto simp: all_gather_def Let_def split: sum.split prod.split)
qed

lemma hccl_init_ok:
  assumes "hccl_init rank world dev cs1 cs2 = (bs, Inr h)"
  shows "hccl_ok h \<and> h_rank h = rank \<and> h_world h = world \<and> h_scratch h = 1"
  using assms
  by (auto simp: hccl_init_def ring_context_def u_register_segment_def u_create_jetty_def new_context_def hccl_ok_def ring_jetty_def scratch_segment_def
      SCRATCH_SIZE_def Let_def split: if_splits sum.splits prod.splits)

section \<open>The ring\<close>

lemma upper_RW: "py_upper ''RW'' = Inr ''RW''"
  by code_simp

lemma segment_init_RW:
  "ub_segment_init sid n base sz token ''RW'' t = Inr \<lparr>segment_id = sid, seg_node = n, base_addr = base, seg_size = sz,
     seg_token = token, permissions = ''RW'', created_at = t\<rparr>"
  by (simp add: ub_segment_init_def upper_RW del: py_upper.simps)

lemma registration_grants:
  assumes "\<not> is_cip_encrypted q" "q = reg_seg_packet ctx sid sz token ''RW'' sq"
    and "dst_node p = u_node ctx" "token_id p = token" "0 \<le> off" "off + len \<le> sz"
  shows "granted p sid off len True (fst (process_packet en q cur fab))"
proof -
  define fab' where "fab' = count_tx en q (count_packet q fab)"
  obtain sw seg where r: "register_segment (u_node ctx) sid 0 sz token ''RW'' (now en) (switch_table fab') = (sw, Inr seg)"
    by (simp add: register_segment_def segment_init_RW Let_def)
  have "fst (process_packet en q cur fab) = fab'\<lparr>switch_table := sw\<rparr>"
    unfolding process_packet_open [OF assms(1)] using assms(2) r
    by (simp add: process_plain_def dispatch_def Let_def handle_reg_seg_def fab'_def)
  moreover have "contains seg off len \<and> check_permission seg True (token_id p)"
    using assms(4-6) register_segment_get(2) [OF r] by (auto simp: segment_init_RW contains_def check_permission_def)
  ultimately show ?thesis
    using register_segment_get(1) [OF r] assms(3) unfolding granted_def validate_access_granted by auto
qed

text \<open>
  The ranks form a ring whose writes are accepted: for ranks \<open>r\<close> and \<open>r + 1\<close> (modulo the world size)
  with initialised contexts, each is the other's neighbour, the jetty of the first addresses the node of
  the second, and once the switch has served the registration of the second's scratch segment, every
  write of the first into that segment is granted.
\<close>

theorem ring_write_granted:
  assumes "hccl_init rank world dev cs1 cs2 = (bs, Inr h)" "hccl_init ((rank + 1) mod world) world dev' cs1' cs2' = (bs', Inr h')"
    and "0 \<le> rank" "rank < world" "int (length pay) \<le> SCRATCH_SIZE"
    and "q = reg_seg_packet (new_context (h_node h') dev') (h_scratch h') SCRATCH_SIZE (4096 + h_rank h') ''RW'' sq"
  shows "h_next_rank h = h_rank h' \<and> h_prev_rank h' = h_rank h \<and> h_next_node h = h_node h'
    \<and> (\<exists>j. dict_get (u_jetties (h_urma h)) (h_jetty h) = Some j
         \<and> granted (write_packet (h_urma h) j 1 0 pay s) 1 0 (int (length pay)) True (fst (process_packet en q cur fab)))"
proof -
  have h: "hccl_ok h" "h_rank h = rank" "h_world h = world" and h': "hccl_ok h'" "h_rank h' = (rank + 1) mod world" "h_world h' = world"
      "h_scratch h' = 1"
    using hccl_init_ok [OF assms(1)] hccl_init_ok [OF assms(2)] by auto
  have "((rank + 1) mod world - 1 + world) mod world = (rank + world) mod world" by (simp add: mod_simps)
  then have prev: "h_prev_rank h' = h_rank h" using h h' assms(3,4) by (simp add: hccl_ok_def)
  have next_node: "h_next_rank h = h_rank h'" "h_next_node h = h_node h'" using h h' by (simp_all add: hccl_ok_def)
  have j: "dict_get (u_jetties (h_urma h)) (h_jetty h) = Some (ring_jetty h)" using h(1) by (simp add: hccl_ok_def)
  have "granted (write_packet (h_urma h) (ring_jetty h) 1 0 pay s) 1 0 (int (length pay)) True (fst (process_packet en q cur fab))"
    using next_node h'(4) assms(5,6) by (intro registration_grants) (auto simp: ring_jetty_def new_context_def new_jetty_def)
  then show ?thesis using prev next_node j by blast
qed

section \<open>What the collectives compute\<close>

lemma scratch_zeros:
  assumes "0 \<le> len" "len \<le> SCRATCH_SIZE"
  shows "local_bytes (scratch_segment h) 0 len = replicate (nat len) 0"
  using assms py_slice_nonneg [of 0 len "replicate (nat SCRATCH_SIZE) (0 :: byte)"]
  by (simp add: local_bytes_def scratch_segment_def min_def nat_mono)

lemma ring_write_frame:
  assumes "hccl_ok h" "0 \<le> len" "len \<le> SCRATCH_SIZE"
  shows "fst (snd (ring_write len cs h))
    = fst (snd (call_sync (write_packet (h_urma h) (ring_jetty h) 1 0 (replicate (nat len) 0)) cs (u_device (h_urma h))))"
  using assms scratch_zeros [OF assms(2,3), of h] unfolding ring_write_def u_write_def hccl_ok_def
  by (simp add: Let_def split: prod.split)

lemma five_plus: "0 \<le> m \<Longrightarrow> 5 \<le> fadd 5 (fmul m 10)"
  using fl_mono [of "5 :: rat" "5 + fmul m 10"] fl_nonneg [of "m * 10"] fl_of_int [of 5] by (simp add: fadd_def fmul_def)

lemma int_ratio_nonneg: "int_ratio a b = Inr q \<Longrightarrow> 0 \<le> a \<Longrightarrow> 0 \<le> b \<Longrightarrow> 0 \<le> q"
  by (auto simp: int_ratio_def fl_nonneg split: if_splits)

lemma reduce_latency_floor: "reduce_latency lat world nb chunk = Inr us \<Longrightarrow> 0 \<le> nb \<Longrightarrow> 5 \<le> us"
  by (auto simp: reduce_latency_def result_simps five_plus dest!: int_ratio_nonneg split: if_splits)

text \<open>Runs of collectives on one context.\<close>

datatype ('e, 'n) collective = Reduce "('e, 'n) tensor" reduce_op "bytes list" | Gather "('e, 'n) tensor" "bytes list"

primrec hccl_run :: "'n numpy option \<Rightarrow> ('e, 'n) collective list \<Rightarrow> hccl \<Rightarrow> hccl" where
  "hccl_run np [] h = h"
| "hccl_run np (c # calls) h =
     hccl_run np calls (case c of Reduce t oper cs \<Rightarrow> fst (all_reduce np t oper cs h) | Gather t cs \<Rightarrow> fst (all_gather np t cs h))"

lemma hccl_run_ok: "hccl_ok h \<Longrightarrow> hccl_ok (hccl_run np calls h) \<and> h_world (hccl_run np calls h) = h_world h"
proof (induction calls arbitrary: h)
  case (Cons c calls)
  then show ?case by (cases c) (simp_all add: same_but_device_ok [OF collectives_same(1)] same_but_device_ok [OF collectives_same(2)])
qed simp

text \<open>
  C35. The collectives combine nothing: after any run of collectives on an initialised context, the only
  frame an \<open>all_reduce\<close> sends carries zeros from the scratch segment, never bytes of the tensor; its
  result is the caller's own tensor whatever the operator, with a latency of at least 5 microseconds;
  and \<open>all_gather\<close> of a list repeats the caller's own list, once per rank.
\<close>

theorem collectives_combine_nothing:
  assumes "hccl_init rank world dev cs1 cs2 = (bs, Inr h0)" "h = hccl_run np calls h0"
    and "get_bytes_and_len np t = Inr (nb, n)" "0 \<le> nb"
    and "all_reduce np t oper cs h = (h', f, r)" "all_gather np (T_List xs) cs' h = (h'', f', r')"
  shows "f = fst (snd (call_sync (write_packet (h_urma h) (ring_jetty h) 1 0 (replicate (nat (min nb 65536)) 0)) cs
           (u_device (h_urma h))))
    \<and> (case r of Inl e \<Rightarrow> True | Inr (t', st) \<Rightarrow> t' = t \<and> st_bytes st = nb \<and> 5 \<le> st_latency st)
    \<and> (case r' of Inl e \<Rightarrow> True | Inr (t', st) \<Rightarrow> t' = T_List (concat (replicate (nat world) xs)))"
proof -
  have ok: "hccl_ok h" "h_world h = world" using hccl_init_ok [OF assms(1)] hccl_run_ok [of h0 np calls] assms(2) by auto
  have "0 \<le> min nb 65536" "min nb 65536 \<le> SCRATCH_SIZE" using assms(4) by (simp_all add: SCRATCH_SIZE_def)
  from ring_write_frame [OF ok(1) this, of cs]
  have "f = fst (snd (call_sync (write_packet (h_urma h) (ring_jetty h) 1 0 (replicate (nat (min nb 65536)) 0)) cs
      (u_device (h_urma h))))"
    using assms(3,5) by (auto simp: all_reduce_def Let_def split: prod.splits)
  moreover have "case r of Inl e \<Rightarrow> True | Inr (t', st) \<Rightarrow> t' = t \<and> st_bytes st = nb \<and> 5 \<le> st_latency st"
    using assms(3-5) by (auto simp: all_reduce_def Let_def result_simps dest!: reduce_latency_floor split: prod.splits sum.split)
  moreover have "case r' of Inl e \<Rightarrow> True | Inr (t', st) \<Rightarrow> t' = T_List (concat (replicate (nat world) xs))"
    using assms(6) ok(2) by (auto simp: all_gather_def gathered_def Let_def result_simps split: prod.splits sum.splits option.splits)
  ultimately show ?thesis by simp
qed

text \<open>
  Reducing nothing fails late: for an empty buffer the zero-length write is sent and answered, and
  only then does \<open>all_reduce\<close> raise \<open>ZeroDivisionError\<close>, whatever latency the answer names.
\<close>

theorem empty_reduce_raises:
  assumes "ring_write 0 cs h = (h', f, Inr (JFloat x))" "\<bar>2 * (h_world h - 1)\<bar> \<le> 2 ^ 53"
  shows "all_reduce np (T_Bytes []) oper cs h = (h', f, Inl ZeroDivisionError)
    \<and> all_reduce np (T_List []) oper cs h = (h', f, Inl ZeroDivisionError)"
proof -
  have "\<bar>2 * (h_world h - 1)\<bar> < 2 ^ 1024 - 2 ^ 970" using assms(2) by simp
  then have "\<exists>y. float_of_int (2 * (h_world h - 1)) = Inr y" by (simp add: float_of_int_def)
  then have "reduce_latency (JFloat x) (h_world h) 0 0 = Inl ZeroDivisionError" by (auto simp: reduce_latency_def int_ratio_def)
  then show ?thesis using assms(1) by (simp add: all_reduce_def Let_def)
qed

section \<open>Sample contexts\<close>

definition sample_ok :: "int \<Rightarrow> packet" where
  "sample_ok s = ub_packet OP_RESP_OK 0 1 0 0 FLAG_NONE s zero_tag (JObj []) []"

lemma sample_ok_facts: "answers s (sample_ok s)" "wf_packet (sample_ok s)" "opcode (sample_ok s) = OP_RESP_OK"
  "s \<in> {1, 2, 3} \<Longrightarrow> \<exists>f. serialize (sample_ok s) = Inr f"
proof -
  show "\<exists>f. serialize (sample_ok s) = Inr f" if "s \<in> {1, 2, 3}"
    using that by (intro serialize_short; auto simp: sample_ok_def ub_packet_def meta_length)
  show "wf_packet (sample_ok s)" by (simp add: sample_ok_def wf_ub_packet FLAG_NONE_def)
  show "answers s (sample_ok s)" "opcode (sample_ok s) = OP_RESP_OK"
    by (simp_all add: sample_ok_def answers_def RESPONSE_OPCODES_def ub_packet_def)
qed

definition sample_hccl :: "int \<Rightarrow> hccl" where
  "sample_hccl r =
     \<lparr>h_rank = r, h_world = 2, h_node = r + 1,
      h_urma = \<lparr>u_node = r + 1, u_device = after_call (after_call sample_device), u_next_seg = 2, u_next_jetty = 2,
        u_segments = [(1, new_segment 1 SCRATCH_SIZE (4096 + r) ''RW'' (replicate (nat SCRATCH_SIZE) 0))],
        u_jetties = [(1, new_jetty 1 ((r + 1) mod 2 + 1) 1 (4096 + (r + 1) mod 2) None)]\<rparr>,
      h_next_rank = (r + 1) mod 2, h_prev_rank = (r - 1 + 2) mod 2, h_next_node = (r + 1) mod 2 + 1,
      h_prev_node = (r - 1 + 2) mod 2 + 1, h_scratch_size = SCRATCH_SIZE, h_scratch = 1, h_jetty = 1\<rparr>"

lemma float_repr_50: "float_repr 50 = ''50.0''"
  by code_simp

lemma init_frames:
  assumes "r \<in> {0, 1}"
  shows "\<exists>f. serialize (reg_seg_packet (new_context (r + 1) dev) 1 SCRATCH_SIZE (4096 + r) ''RW'' 1) = Inr f"
    "u_node ctx = r + 1 \<Longrightarrow> \<exists>f. serialize (jetty_packet ctx 1 ((r + 1) mod 2 + 1) 1 (4096 + (r + 1) mod 2) 2) = Inr f"
    "\<exists>f. serialize (write_packet (h_urma (sample_hccl r)) (ring_jetty (sample_hccl r)) 1 0 [] 3) = Inr f"
    "\<exists>f. serialize (write_completed (write_packet (h_urma (sample_hccl r)) (ring_jetty (sample_hccl r)) 1 0 [] 3) 50) = Inr f"
  using assms
  by (auto intro!: serialize_short simp: reg_seg_packet_def jetty_packet_def new_context_def ub_packet_def meta_length SCRATCH_SIZE_def
      write_packet_def sample_hccl_def ring_jetty_def new_jetty_def write_completed_def write_reply_opcode_def node_reply_def reply_packet_def float_repr_50)

lemma sample_hccl_init:
  assumes "r \<in> {0, 1}"
  shows "\<exists>cs1 cs2 bs. hccl_init r 2 sample_device cs1 cs2 = (bs, Inr (sample_hccl r))"
proof -
  have dev: "ready sample_device" "dev_seq sample_device = 1" "ready (after_call sample_device)" "dev_seq (after_call sample_device) = 2"
    by (simp_all add: sample_device_def new_device_def ready_def after_call_def)
  obtain a1 a2 where a: "serialize (sample_ok 1) = Inr a1" "serialize (sample_ok 2) = Inr a2" using sample_ok_facts(4) by blast
  obtain f1 where f1: "serialize (reg_seg_packet (new_context (r + 1) sample_device\<lparr>u_next_seg := 2\<rparr>) 1 SCRATCH_SIZE (4096 + r) ''RW'' 1) = Inr f1"
    using init_frames(1) [OF assms, of sample_device] by (auto simp: reg_seg_packet_def new_context_def)
  let ?ctx = "new_context (r + 1) sample_device\<lparr>u_next_seg := 2, u_device := after_call sample_device,
    u_segments := [(1, new_segment 1 SCRATCH_SIZE (4096 + r) ''RW'' (replicate (nat SCRATCH_SIZE) 0))]\<rparr>"
  obtain f2 where f2: "serialize (jetty_packet (?ctx\<lparr>u_next_jetty := 2\<rparr>) 1 ((r + 1) mod 2 + 1) 1 (4096 + (r + 1) mod 2) 2) = Inr f2"
    using init_frames(2) [OF assms, of "?ctx\<lparr>u_next_jetty := 2\<rparr>"] by (auto simp: new_context_def)
  have c1: "call_sync (reg_seg_packet (new_context (r + 1) sample_device\<lparr>u_next_seg := 2\<rparr>) 1 SCRATCH_SIZE (4096 + r) ''RW'') [a1] sample_device
      = (after_call sample_device, f1, Inr (sample_ok 1))"
    using dev f1 sample_ok_facts(1,2) [of 1] a(1) serialize_nonempty [OF a(1)]
    by (intro call_sync_answered [where p = "reg_seg_packet (new_context (r + 1) sample_device\<lparr>u_next_seg := 2\<rparr>) 1 SCRATCH_SIZE (4096 + r) ''RW'' 1"])
      (auto simp: reg_seg_packet_def ub_packet_def)
  have c2: "call_sync (jetty_packet (?ctx\<lparr>u_next_jetty := 2\<rparr>) 1 ((r + 1) mod 2 + 1) 1 (4096 + (r + 1) mod 2)) [a2] (after_call sample_device)
      = (after_call (after_call sample_device), f2, Inr (sample_ok 2))"
    using dev f2 sample_ok_facts(1,2) [of 2] a(2) serialize_nonempty [OF a(2)]
    by (intro call_sync_answered [where p = "jetty_packet (?ctx\<lparr>u_next_jetty := 2\<rparr>) 1 ((r + 1) mod 2 + 1) 1 (4096 + (r + 1) mod 2) 2"])
      (auto simp: jetty_packet_def ub_packet_def)
  have sz: "int (nat SCRATCH_SIZE) = SCRATCH_SIZE" "\<not> SCRATCH_SIZE < 0" by (simp_all add: SCRATCH_SIZE_def)
  have "u_register_segment (Seg_Size SCRATCH_SIZE) (4096 + r) ''RW'' [a1] (new_context (r + 1) sample_device) = (?ctx, f1, Inr 1)"
    using c1 sz sample_ok_facts(3) [of 1] by (simp add: u_register_segment_def new_context_def)
  moreover have "u_create_jetty ((r + 1) mod 2 + 1) 1 (4096 + (r + 1) mod 2) [a2] ?ctx = (h_urma (sample_hccl r), f2, Inr 1)"
    using c2 sample_ok_facts(3) [of 2] by (simp add: u_create_jetty_def new_context_def sample_hccl_def)
  ultimately have "hccl_init r 2 sample_device [a1] [a2] = (f1 @ f2, Inr (sample_hccl r))"
    by (simp add: hccl_init_def ring_context_def sample_hccl_def Let_def)
  then show ?thesis by blast
qed

theorem ring_write_granted_witness:
  "\<exists>j. dict_get (u_jetties (h_urma (sample_hccl 0))) 1 = Some j
    \<and> granted (write_packet (h_urma (sample_hccl 0)) j 1 0 [1, 2, 3] 5) 1 0 3 True
        (fst (process_packet sample_env (reg_seg_packet (new_context 2 sample_device) 1 SCRATCH_SIZE 4097 ''RW'' 1) None slow_fabric))"
proof -
  obtain cs1 cs2 bs cs1' cs2' bs' where i: "hccl_init 0 2 sample_device cs1 cs2 = (bs, Inr (sample_hccl 0))"
      "hccl_init ((0 + 1) mod 2) 2 sample_device cs1' cs2' = (bs', Inr (sample_hccl 1))"
    using sample_hccl_init [of 0] sample_hccl_init [of 1] by auto
  show ?thesis
    using ring_write_granted [OF i, where pay = "[1, 2, 3]" and q = "reg_seg_packet (new_context 2 sample_device) 1 SCRATCH_SIZE 4097 ''RW'' 1"
        and sq = 1 and s = 5 and en = sample_env and cur = None and fab = slow_fabric]
    by (simp add: sample_hccl_def SCRATCH_SIZE_def)
qed

theorem collectives_combine_nothing_witness:
  "fst (snd (all_reduce None (T_Bytes [1, 2] :: (int, unit) tensor) SUM_op [] (sample_hccl 0)))
    = fst (snd (call_sync (write_packet (h_urma (sample_hccl 0)) (ring_jetty (sample_hccl 0)) 1 0 [0, 0]) []
        (u_device (h_urma (sample_hccl 0)))))"
proof -
  obtain cs1 cs2 bs where i: "hccl_init 0 2 sample_device cs1 cs2 = (bs, Inr (sample_hccl 0))"
    using sample_hccl_init [of 0] by auto
  obtain h' f r where a: "all_reduce None (T_Bytes [1, 2] :: (int, unit) tensor) SUM_op [] (sample_hccl 0) = (h', f, r)"
    by (metis prod_cases3)
  obtain h'' f' r' where g: "all_gather None (T_List [] :: (int, unit) tensor) [] (sample_hccl 0) = (h'', f', r')"
    by (metis prod_cases3)
  have two: "replicate 2 0 = [0, 0 :: byte]" by (simp add: numeral_2_eq_2)
  show ?thesis
    using collectives_combine_nothing [OF i _ _ _ a g, where calls = "[]" and nb = 2] a by (simp add: two)
qed

lemma slow_time_0: "transfer_time 0 slow_fabric = Inr 50"
proof -
  have f: "float_of_int 0 = Inr 0" "float_of_int 1 = Inr 1" "fl 15 = 15" "fl 50 = 50"
    using fl_of_int [of 1] fl_of_int [of 15] fl_of_int [of 50] by (simp_all add: float_of_int_def)
  then show ?thesis
    by (simp add: transfer_time_def calculate_transfer_time_ns_def slow_fabric_def sample_fabric_def new_fabric_def fdiv_def fmul_def fadd_def)
qed

theorem empty_reduce_raises_witness:
  "\<exists>cs. snd (snd (all_reduce None (T_Bytes [] :: (int, unit) tensor) SUM_op cs (sample_hccl 0))) = Inl ZeroDivisionError"
proof -
  let ?h = "sample_hccl 0"
  let ?p = "write_packet (h_urma ?h) (ring_jetty ?h) 1 0 [] 3"
  obtain f a where f: "serialize ?p = Inr f" "serialize (write_completed ?p 50) = Inr a"
    using init_frames(3,4) [of 0] by auto
  have ok: "hccl_ok ?h" using sample_hccl_init [of 0] hccl_init_ok by blast
  have dev: "ready (u_device (h_urma ?h))" "dev_seq (u_device (h_urma ?h)) = 3"
    by (simp_all add: sample_hccl_def after_call_def ready_def) (simp_all add: sample_device_def new_device_def)
  have "local_bytes (scratch_segment ?h) 0 0 = []" using scratch_zeros [of 0 ?h] by (simp add: SCRATCH_SIZE_def)
  then have "u_write (h_jetty ?h) (h_scratch ?h) 0 1 0 0 [a] (h_urma ?h)
      = ((h_urma ?h)\<lparr>u_device := after_call (u_device (h_urma ?h))\<rparr>, f, Inr (JFloat 50))"
    using ok dev f serialize_nonempty [OF f(2)] slow_time_0 unfolding hccl_ok_def
    by (intro u_write_answered [where p = ?p and j = "ring_jetty ?h" and seg = "scratch_segment ?h" and n = 0 and fab = slow_fabric and a = a])
      simp_all
  then obtain h' where r: "ring_write 0 [a] ?h = (h', f, Inr (JFloat 50))" by (auto simp: ring_write_def)
  have "all_reduce None (T_Bytes [] :: (int, unit) tensor) SUM_op [a] ?h = (h', f, Inl ZeroDivisionError)"
    by (rule conjunct1 [OF empty_reduce_raises [OF r]]) (simp add: sample_hccl_def)
  then show ?thesis by (intro exI [where x = "[a]"]) simp
qed

end
