(* ===== verification/Py_Str.thy ===== *)
theory Py_Str
  imports Json
begin

text \<open>
  The methods of Python's \<open>str\<close> that the configuration readers use, on Latin-1 text: \<open>splitlines\<close>,
  \<open>strip\<close>, \<open>split(":", 1)\<close>, \<open>isdigit\<close>, and the conversions \<open>int(s)\<close> and \<open>float(s)\<close> with their white
  space, signs and underscores. The text of the \<open>ValueError\<close> they raise is shortened, and the limit
  of 4300 digits for \<open>int(s)\<close> is not modelled.
\<close>

section \<open>Lines and white space\<close>

text \<open>\<open>str.isspace\<close> and the line boundaries of \<open>splitlines\<close>.\<close>

definition is_space :: "char \<Rightarrow> bool" where
  "is_space c \<longleftrightarrow> (let n = of_char c :: int in 9 \<le> n \<and> n \<le> 13 \<or> 28 \<le> n \<and> n \<le> 32 \<or> n = 133 \<or> n = 160)"

definition is_line_break :: "char \<Rightarrow> bool" where
  "is_line_break c \<longleftrightarrow> (let n = of_char c :: int in 10 \<le> n \<and> n \<le> 13 \<or> 28 \<le> n \<and> n \<le> 30 \<or> n = 133)"

text \<open>The rest of the text after the line break it starts with: \<open>CR LF\<close> is one break.\<close>

definition drop_break :: "string \<Rightarrow> string" where
  "drop_break s = (if take 2 s = [CHR 0x0D, CHR 0x0A] then drop 2 s else drop 1 s)"

lemma drop_break_shorter: "s \<noteq> [] \<Longrightarrow> length (drop_break s) < length s"
  by (cases s) (auto simp: drop_break_def)

function splitlines :: "string \<Rightarrow> string list" where
  "splitlines s =
     (if s = [] then []
      else
        let l = takeWhile (\<lambda>c. \<not> is_line_break c) s;
            r = dropWhile (\<lambda>c. \<not> is_line_break c) s
        in if r = [] then [l] else l # splitlines (drop_break r))"
  by pat_completeness auto
termination
proof (relation "measure length")
  fix s l and r :: string
  assume "r = dropWhile (\<lambda>c. \<not> is_line_break c) s" "r \<noteq> []"
  then show "(drop_break r, s) \<in> measure length"
    using drop_break_shorter [of r] length_dropWhile_le [of "\<lambda>c. \<not> is_line_break c" s] by simp
qed simp

declare splitlines.simps [simp del]

definition strip_set :: "(char \<Rightarrow> bool) \<Rightarrow> string \<Rightarrow> string" where
  "strip_set P s = rev (dropWhile P (rev (dropWhile P s)))"

definition py_strip :: "string \<Rightarrow> string" where
  "py_strip s = strip_set is_space s"

definition strip_quotes :: "string \<Rightarrow> string" where
  "strip_quotes s = strip_set (\<lambda>c. c = CHR 0x22 \<or> c = CHR 0x27) s"

text \<open>\<open>len(s) - len(s.lstrip())\<close>.\<close>

definition indent_of :: "string \<Rightarrow> nat" where
  "indent_of s = length (takeWhile is_space s)"

text \<open>\<open>s.split(":", 1)\<close> where \<open>s\<close> has a colon.\<close>

definition before_colon :: "string \<Rightarrow> string" where
  "before_colon s = takeWhile (\<lambda>c. c \<noteq> CHR '':'') s"

definition after_colon :: "string \<Rightarrow> string" where
  "after_colon s = drop 1 (dropWhile (\<lambda>c. c \<noteq> CHR '':'') s)"

section \<open>Numbers\<close>

text \<open>\<open>str.isdigit\<close>: the superscripts one, two and three are digits, too, but not for \<open>int\<close>.\<close>

definition py_isdigit :: "string \<Rightarrow> bool" where
  "py_isdigit s \<longleftrightarrow> s \<noteq> [] \<and> list_all (\<lambda>c. is_digit c \<or> c = CHR 0xB2 \<or> c = CHR 0xB3 \<or> c = CHR 0xB9) s"

text \<open>The white space that \<open>int\<close> and \<open>float\<close> skip at both ends.\<close>

definition number_space :: "char \<Rightarrow> bool" where
  "number_space c \<longleftrightarrow> (let n = of_char c :: int in 9 \<le> n \<and> n \<le> 13 \<or> n = 32 \<or> n = 133 \<or> n = 160)"

text \<open>Underscores are dropped; each must stand between two digits. \<open>p\<close> is the character before.\<close>

fun drop_underscores :: "char \<Rightarrow> string \<Rightarrow> string option" where
  "drop_underscores p [] = (if p = CHR ''_'' then None else Some [])"
| "drop_underscores p (c # s) =
     (if c = CHR ''_'' then (if is_digit p then drop_underscores c s else None)
      else if p = CHR ''_'' \<and> \<not> is_digit c then None
      else map_option (Cons c) (drop_underscores c s))"

definition take_sign :: "string \<Rightarrow> bool \<times> string" where
  "take_sign s =
     (case s of
        c # r \<Rightarrow> if c = CHR ''-'' then (True, r) else if c = CHR ''+'' then (False, r) else (False, s)
      | [] \<Rightarrow> (False, s))"

definition all_digits :: "string \<Rightarrow> bool" where
  "all_digits s \<longleftrightarrow> s \<noteq> [] \<and> list_all is_digit s"

definition int_error :: "'a result" where
  "int_error = Inl (ValueError ''invalid literal for int() with base 10'')"

definition float_error :: "'a result" where
  "float_error = Inl (ValueError ''could not convert string to float'')"

definition py_int :: "string \<Rightarrow> int result" where
  "py_int s =
     (case take_sign (strip_set number_space s) of (neg, r) \<Rightarrow>
        (case drop_underscores (CHR 0x00) r of
           None \<Rightarrow> int_error
         | Some ds \<Rightarrow> if all_digits ds then Inr (if neg then - read_dec ds else read_dec ds) else int_error))"

definition ascii_lower :: "char \<Rightarrow> char" where
  "ascii_lower c = (let n = of_char c :: int in if 65 \<le> n \<and> n \<le> 90 then char_of (n + 32) else c)"

text \<open>An optional exponent that must use up the text.\<close>

definition read_exponent :: "string \<Rightarrow> int option" where
  "read_exponent s =
     (case s of
        [] \<Rightarrow> Some 0
      | c # r \<Rightarrow>
          if ascii_lower c = CHR ''e'' then
            (case take_sign r of (neg, d) \<Rightarrow>
               if all_digits d then Some (if neg then - read_dec d else read_dec d) else None)
          else None)"

text \<open>The unsigned decimal \<open>digits[.digits][e[+-]digits]\<close> with a digit somewhere before the exponent.\<close>

definition read_decimal :: "string \<Rightarrow> (int \<times> int) option" where
  "read_decimal s =
     (let ip = takeWhile is_digit s;
          r = dropWhile is_digit s;
          (fp, r2) = (if take 1 r = ''.'' then (takeWhile is_digit (drop 1 r), dropWhile is_digit (drop 1 r)) else ([], r))
      in if ip @ fp = [] then None
         else map_option (\<lambda>e. (read_dec (ip @ fp), e - int (length fp))) (read_exponent r2))"

definition FLOAT_LIMIT :: rat where
  "FLOAT_LIMIT = 2 ^ 1024 - 2 ^ 970"

definition py_float :: "string \<Rightarrow> pyfloat result" where
  "py_float s =
     (case drop_underscores (CHR 0x00) (strip_set number_space s) of
        None \<Rightarrow> float_error
      | Some t \<Rightarrow>
          (case take_sign t of (neg, r) \<Rightarrow>
             if map ascii_lower r \<in> {''inf'', ''infinity'', ''nan''} then Inl (Unmodelled ''non-finite float'')
             else
               (case read_decimal r of
                  None \<Rightarrow> float_error
                | Some (m, e) \<Rightarrow>
                    let x = of_int m * 10 powi e in
                    if neg \<and> m = 0 then Inl (Unmodelled ''negative zero'')
                    else if FLOAT_LIMIT \<le> x then Inl (Unmodelled ''non-finite float'')
                    else Inr (fl (if neg then - x else x)))))"

end
