(* ===== verification/Cluster_Config.thy ===== *)
theory Cluster_Config
  imports Py_Str Fabric_State
begin

text \<open>
  The cluster configuration: the YAML subset that the launcher (\<open>qemu/launcher.py\<close>) and the QEMU
  runner (\<open>qemu_environment/qemu_multi_vm_runner.py\<close>) read line by line, what a configuration means
  for the command lines both build, and the switch the launched daemon creates. The two readers are
  the same loop with two differences, which are its parameters; the equivalence and the round trip
  below are about both. PyYAML, used when it is installed, is not part of the repository and is a
  parameter of \<open>load_cluster_config\<close>.
\<close>

section \<open>Configurations\<close>

datatype scalar = C_Int int | C_Float pyfloat | C_Str string

type_synonym item = "(string, scalar) dict"

datatype entry = E_Scalar scalar | E_Section item | E_Items "item list"

text \<open>The key \<open>None\<close> is Python's \<open>None\<close>: the runner can file items under it.\<close>

type_synonym config = "(string option, entry) dict"

record reader =
  rd_result :: config
  rd_section :: "string option"
  rd_in_item :: bool

definition new_reader :: reader where
  "new_reader = \<lparr>rd_result = [], rd_section = None, rd_in_item = False\<rparr>"

text \<open>Whether \<open>current_section\<close> counts as true.\<close>

definition in_section :: "reader \<Rightarrow> bool" where
  "in_section st \<longleftrightarrow> rd_section st \<noteq> None \<and> rd_section st \<noteq> Some []"

section \<open>Values\<close>

text \<open>\<open>int(v) if v.isdigit()\<close>, otherwise \<open>float(v)\<close> or the text: the launcher everywhere, the runner in items.\<close>

definition number_or_text :: "string \<Rightarrow> scalar result" where
  "number_or_text v =
     (if py_isdigit v then rbind (py_int v) (\<lambda>i. Inr (C_Int i))
      else
        (case py_float v of
           Inr x \<Rightarrow> Inr (C_Float x)
         | Inl e \<Rightarrow> (case e of ValueError m \<Rightarrow> Inr (C_Str v) | _ \<Rightarrow> Inl e)))"

text \<open>The runner's top-level and section values.\<close>

definition digits_or_text :: "string \<Rightarrow> scalar result" where
  "digits_or_text v = (if py_isdigit v then rbind (py_int v) (\<lambda>i. Inr (C_Int i)) else Inr (C_Str v))"

section \<open>The reader\<close>

definition key_value :: "string \<Rightarrow> string \<times> string" where
  "key_value line = (py_strip (before_colon line), strip_quotes (py_strip (after_colon line)))"

text \<open>\<open>result[current_section].append({"id": i})\<close>, the item becoming the current one.\<close>

definition append_item :: "int \<Rightarrow> reader \<Rightarrow> reader result" where
  "append_item i st =
     (case dict_get (rd_result st) (rd_section st) of
        None \<Rightarrow> Inl (KeyError (case rd_section st of None \<Rightarrow> ''None'' | Some k \<Rightarrow> k))
      | Some (E_Items xs) \<Rightarrow>
          Inr (st\<lparr>rd_result := dict_set (rd_section st) (E_Items (xs @ [[(''id'', C_Int i)]])) (rd_result st), rd_in_item := True\<rparr>)
      | Some _ \<Rightarrow> Inl AttributeError)"

text \<open>\<open>current_item[k] = x\<close>: the current item is the last one of the current section.\<close>

definition set_item_field :: "string \<Rightarrow> scalar \<Rightarrow> reader \<Rightarrow> reader" where
  "set_item_field k x st =
     st\<lparr>rd_result := dict_adjust (rd_section st)
          (\<lambda>e. case e of E_Items xs \<Rightarrow> E_Items (butlast xs @ [dict_set k x (last xs)]) | _ \<Rightarrow> e) (rd_result st)\<rparr>"

definition set_section_field :: "string \<Rightarrow> scalar \<Rightarrow> reader \<Rightarrow> reader" where
  "set_section_field k x st =
     st\<lparr>rd_result := dict_adjust (rd_section st)
          (\<lambda>e. case e of E_Section d \<Rightarrow> E_Section (dict_set k x d) | _ \<Rightarrow> e) (rd_result st)\<rparr>"

definition open_section :: "string \<Rightarrow> reader \<Rightarrow> reader" where
  "open_section k st =
     st\<lparr>rd_section := Some k, rd_in_item := False,
        rd_result := dict_set (Some k) (if k = ''nodes'' then E_Items [] else E_Section []) (rd_result st)\<rparr>"

definition set_top :: "string \<Rightarrow> scalar \<Rightarrow> reader \<Rightarrow> reader" where
  "set_top k x st =
     st\<lparr>rd_section := None, rd_in_item := False, rd_result := dict_set (Some k) (E_Scalar x) (rd_result st)\<rparr>"

text \<open>
  One line. \<open>sc\<close> reads a top-level or section value; \<open>auto\<close> tells whether a list is created for the
  current section when it has no entry.
\<close>

definition read_line :: "(string \<Rightarrow> scalar result) \<Rightarrow> (reader \<Rightarrow> bool) \<Rightarrow> string \<Rightarrow> reader \<Rightarrow> reader result" where
  "read_line sc auto raw st =
     (let line = py_strip raw; (k, v) = key_value line in
      if line = [] \<or> take 1 line = ''#'' then Inr st
      else if take 5 line = ''- id:'' then
        let st1 = (if auto st \<and> dict_get (rd_result st) (rd_section st) = None
                   then st\<lparr>rd_result := dict_set (rd_section st) (E_Items []) (rd_result st)\<rparr> else st)
        in rbind (py_int (py_strip (after_colon line))) (\<lambda>i. append_item i st1)
      else if rd_in_item st \<and> 4 \<le> indent_of raw \<and> CHR '':'' \<in> set line then
        rbind (number_or_text v) (\<lambda>x. Inr (set_item_field k x st))
      else if indent_of raw = 0 \<and> CHR '':'' \<in> set line then
        (if v = [] then Inr (open_section k st) else rbind (sc v) (\<lambda>x. Inr (set_top k x st)))
      else if 0 < indent_of raw \<and> in_section st \<and> CHR '':'' \<in> set line then
        (case dict_get (rd_result st) (rd_section st) of
           Some (E_Section d) \<Rightarrow> rbind (sc v) (\<lambda>x. Inr (set_section_field k x st))
         | _ \<Rightarrow> Inr st)
      else Inr st)"

primrec read_lines :: "(string \<Rightarrow> scalar result) \<Rightarrow> (reader \<Rightarrow> bool) \<Rightarrow> string list \<Rightarrow> reader \<Rightarrow> reader result" where
  "read_lines sc auto [] st = Inr st"
| "read_lines sc auto (l # ls) st = rbind (read_line sc auto l st) (read_lines sc auto ls)"

definition launcher_parse :: "string \<Rightarrow> config result" where
  "launcher_parse text =
     rbind (read_lines number_or_text in_section (splitlines text) new_reader) (\<lambda>st. Inr (rd_result st))"

definition runner_parse :: "string \<Rightarrow> config result" where
  "runner_parse text =
     rbind (read_lines digits_or_text (\<lambda>st. True) (splitlines text) new_reader) (\<lambda>st. Inr (rd_result st))"

text \<open>\<open>load_cluster_config\<close> on the text of the file; \<open>yaml\<close> is \<open>yaml.safe_load\<close> where PyYAML is installed.\<close>

definition load_cluster_config :: "(string \<Rightarrow> config result) option \<Rightarrow> string \<Rightarrow> config result" where
  "load_cluster_config yaml text = (case yaml of Some safe_load \<Rightarrow> safe_load text | None \<Rightarrow> launcher_parse text)"

section \<open>What is launched\<close>

fun show_scalar :: "scalar \<Rightarrow> string" where
  "show_scalar (C_Int i) = show_int i"
| "show_scalar (C_Float x) = float_repr x"
| "show_scalar (C_Str s) = s"

text \<open>\<open>config.get(k, {})\<close> used as a dictionary.\<close>

definition section_of :: "string \<Rightarrow> config \<Rightarrow> item result" where
  "section_of k cfg =
     (case dict_get cfg (Some k) of None \<Rightarrow> Inr [] | Some (E_Section d) \<Rightarrow> Inr d | Some _ \<Rightarrow> Inl AttributeError)"

definition field_or :: "string \<Rightarrow> scalar \<Rightarrow> item \<Rightarrow> scalar" where
  "field_or k d it = (case dict_get it k of None \<Rightarrow> d | Some x \<Rightarrow> x)"

text \<open>The command line of the daemon; \<open>python\<close> is \<open>sys.executable\<close>.\<close>

definition fabric_command :: "string \<Rightarrow> string \<Rightarrow> config \<Rightarrow> string list result" where
  "fabric_command python socket cfg =
     rbind (section_of ''fabric'' cfg) (\<lambda>d.
       Inr [python, ''-m'', ''daemon.fabric'', ''--socket'', socket,
            ''--bw'', show_scalar (field_or ''bandwidth_gbps'' (C_Float 800) d),
            ''--latency'', show_scalar (field_or ''hop_latency_ns'' (C_Float 15) d)])"

text \<open>
  The daemon's own reading of \<open>--bw\<close> and \<open>--latency\<close>, declared \<open>type=float\<close>, and the switch it makes. What
  \<open>argparse\<close> does before is left out: it takes a negative number in exponent form, such as \<open>-1e-05\<close>, for an
  unknown option and ends the daemon, where this definition reads the number.
\<close>

definition daemon_fabric :: "string \<Rightarrow> string \<Rightarrow> fabric result" where
  "daemon_fabric bw latency =
     rbind (py_float bw) (\<lambda>b. rbind (py_float latency) (\<lambda>l. Inr (new_fabric b l)))"

section \<open>The virtual machines of the runner\<close>

text \<open>\<open>self.nodes\<close> as \<open>start_cluster\<close> uses it: a number has no length, the letters of a text no \<open>"id"\<close>.\<close>

definition cluster_nodes :: "config \<Rightarrow> item list result" where
  "cluster_nodes cfg =
     (case dict_get cfg (Some ''nodes'') of
        None \<Rightarrow> Inr []
      | Some (E_Items xs) \<Rightarrow> Inr xs
      | Some (E_Section d) \<Rightarrow> if d = [] then Inr [] else Inl TypeError
      | Some (E_Scalar x) \<Rightarrow> Inl TypeError)"

definition cluster_socket :: "config \<Rightarrow> scalar result" where
  "cluster_socket cfg =
     rbind (section_of ''fabric'' cfg) (\<lambda>d. Inr (field_or ''socket_path'' (C_Str ''/tmp/ub-fabric/silicon.sock'') d))"

text \<open>The shared memory file of a node, the position of its last byte, and the QEMU command line.\<close>

record node_plan =
  np_id :: scalar
  np_file :: string
  np_last :: int
  np_command :: "string list"

definition plan_node :: "string \<Rightarrow> item \<Rightarrow> node_plan result" where
  "plan_node socket node =
     (case dict_get node ''id'' of
        None \<Rightarrow> Inl (KeyError ''id'')
      | Some nid \<Rightarrow>
          let ty = show_scalar (field_or ''type'' (C_Str ''XPU'') node);
              vcpu = show_scalar (field_or ''vcpu'' (C_Int 2) node);
              mem = show_scalar (field_or ''memory_mb'' (C_Int 1024) node);
              shm = field_or ''shm_size_mb'' (C_Int 64) node;
              file = ''/dev/shm/ub_node_'' @ show_scalar nid @ ''_shm''
          in
          (case shm of
             C_Int sz \<Rightarrow>
               if sz \<le> 0 then Inl OSError
               else
               Inr \<lparr>np_id = nid, np_file = file, np_last = sz * 1024 * 1024 - 1,
                    np_command =
                      [''/usr/bin/qemu-system-x86_64'', ''-name'', ''UBPU-Node-'' @ show_scalar nid @ ''-'' @ ty,
                       ''-m'', mem, ''-smp'', vcpu, ''-nographic'',
                       ''-chardev'', ''socket,id=ub_sock0,path='' @ socket,
                       ''-device'', ''ivshmem-plain,memdev=shm0,id=ub_dev0'',
                       ''-object'', ''memory-backend-file,id=shm0,mem-path='' @ file @ '',size='' @ show_scalar shm @ ''M,share=on'',
                       ''-monitor'', ''none'', ''-serial'', ''none'']\<rparr>
           | _ \<Rightarrow> Inl TypeError))"

text \<open>As a dictionary key, a float with an integral value is the integer.\<close>

definition scalar_key :: "scalar \<Rightarrow> scalar" where
  "scalar_key x = (case x of C_Float f \<Rightarrow> if of_int \<lfloor>f\<rfloor> = f then C_Int \<lfloor>f\<rfloor> else x | _ \<Rightarrow> x)"

text \<open>
  The loop over the nodes: every planned node is started and filed under its id in \<open>qemu_procs\<close>, then
  its id is printed in hexadecimal, which raises for anything but an integer. The list holds all that
  was started, the dictionary what \<open>shutdown\<close> can reach. Creating a file is assumed to succeed if its size is
  positive; otherwise \<open>seek\<close> refuses the negative position.
\<close>

fun start_nodes ::
  "string \<Rightarrow> item list \<Rightarrow> (scalar, node_plan) dict \<Rightarrow> node_plan list \<times> (scalar, node_plan) dict \<times> unit result"
where
  "start_nodes socket [] procs = ([], procs, Inr ())"
| "start_nodes socket (node # rest) procs =
     (case plan_node socket node of
        Inl e \<Rightarrow> ([], procs, Inl e)
      | Inr p \<Rightarrow>
          let procs1 = dict_set (scalar_key (np_id p)) p procs in
          (case np_id p of
             C_Int i \<Rightarrow> (case start_nodes socket rest procs1 of (ps, procs2, r) \<Rightarrow> (p # ps, procs2, r))
           | _ \<Rightarrow> ([p], procs1, Inl (ValueError ''Unknown format code'')))) "

definition start_cluster :: "config \<Rightarrow> node_plan list \<times> (scalar, node_plan) dict \<times> unit result" where
  "start_cluster cfg =
     (case rbind (cluster_socket cfg) (\<lambda>s. rbind (cluster_nodes cfg) (\<lambda>xs. Inr (s, xs))) of
        Inl e \<Rightarrow> ([], [], Inl e)
      | Inr (s, xs) \<Rightarrow> start_nodes (show_scalar s) xs [])"

text \<open>What \<open>shutdown\<close> terminates.\<close>

definition shutdown_nodes :: "(scalar, node_plan) dict \<Rightarrow> node_plan list" where
  "shutdown_nodes procs = map snd procs"

end
