(* ===== verification/Str_Roundtrip.thy ===== *)
theory Str_Roundtrip
  imports Py_Str Float_Roundtrip
begin

text \<open>
  Numbers written by \<open>str\<close> read back: \<open>int(str(n))\<close> is \<open>n\<close> (\<open>py_int_show\<close>) and \<open>float(str(x))\<close> is \<open>x\<close>
  (\<open>py_float_float_repr\<close>), the latter from the round trip of the JSON scanner, whose numbers \<open>float\<close>
  accepts, too.
\<close>

definition number_char :: "char \<Rightarrow> bool" where
  "number_char c \<longleftrightarrow> is_digit c \<or> c \<in> {CHR ''.'', CHR ''-'', CHR ''+'', CHR ''e'', CHR ''E''}"

lemma lower_e: "ascii_lower c = CHR ''e'' \<longleftrightarrow> c = CHR ''e'' \<or> c = CHR ''E''"
proof
  assume a: "ascii_lower c = CHR ''e''"
  show "c = CHR ''e'' \<or> c = CHR ''E''"
  proof (cases "65 \<le> (of_char c :: int) \<and> (of_char c :: int) \<le> 90")
    case True
    then have "of_char (char_of (of_char c + 32 :: int)) = (of_char CHR ''e'' :: int)" using a by (simp add: ascii_lower_def Let_def)
    then have "of_char c = (of_char CHR ''E'' :: int)" using True by simp
    then show ?thesis by (simp only: of_char_eq_iff simp_thms)
  next
    case False
    then show ?thesis using a by (auto simp add: ascii_lower_def Let_def)
  qed
qed (use char_of_eq_iff [of 101 "CHR ''e''"] in \<open>auto simp: ascii_lower_def\<close>)

lemma digit_distinct:
  "is_digit c \<Longrightarrow> c \<noteq> CHR ''-''" "is_digit c \<Longrightarrow> c \<noteq> CHR ''+''" "is_digit c \<Longrightarrow> c \<noteq> CHR ''.''" "is_digit c \<Longrightarrow> c \<noteq> CHR ''e''" "is_digit c \<Longrightarrow> c \<noteq> CHR ''E''"
  by (auto simp: is_digit_def)

lemma scan_exp_digits_all: "scan_exp_digits neg d s = (ep, []) \<Longrightarrow> s \<noteq> [] \<Longrightarrow>
    all_digits d \<and> ep = Some (if neg then - read_dec d else read_dec d)"
  by (auto simp: scan_exp_digits_def all_digits_def list_all_iff takeWhile_eq_all_conv takeWhile_eq_all_conv [THEN iffD2] split: if_splits)

lemma exponent_read:
  assumes "scan_exp r = (ep, [])"
  shows "r = [] \<and> ep = None \<or> (\<exists>c sg d neg. r = c # sg @ d \<and> c \<in> {CHR ''e'', CHR ''E''} \<and> all_digits d
     \<and> sg = (if neg then ''-'' else sg) \<and> (neg \<or> sg \<in> {[], ''+''}) \<and> ep = Some (if neg then - read_dec d else read_dec d))"
proof (cases r)
  case (Cons c t)
  then have c: "c = CHR ''e'' \<or> c = CHR ''E''" using assms by (simp add: scan_exp_def split: if_splits)
  show ?thesis
  proof (cases t)
    case Nil
    then show ?thesis using assms Cons c by (auto simp: scan_exp_def)
  next
    case (Cons d t')
    note t = this
    have cons: "r = c # t" by fact
    consider "d = CHR ''-''" | "d = CHR ''+''" | "d \<noteq> CHR ''-''" "d \<noteq> CHR ''+''" by blast
    then show ?thesis
    proof cases
      case 1
      then have "all_digits t' \<and> ep = Some (- read_dec t')" using scan_exp_digits_all [of True t' r ep] assms c cons t by (auto simp: scan_exp_def)
      then show ?thesis using 1 c cons t by (intro disjI2 exI [where x = c] exI [where x = "''-''"] exI [where x = t'] exI [where x = True]) auto
    next
      case 2
      then have "all_digits t' \<and> ep = Some (read_dec t')" using scan_exp_digits_all [of False t' r ep] assms c cons t by (auto simp: scan_exp_def)
      then show ?thesis using 2 c cons t by (intro disjI2 exI [where x = c] exI [where x = "''+''"] exI [where x = t'] exI [where x = False]) auto
    next
      case 3
      then have "all_digits t \<and> ep = Some (read_dec t)" using scan_exp_digits_all [of False t r ep] assms c cons t by (auto simp: scan_exp_def)
      then show ?thesis using c cons by (intro disjI2 exI [where x = c] exI [where x = "[]"] exI [where x = t] exI [where x = False]) auto
    qed
  qed
qed (use assms in \<open>simp add: scan_exp_def\<close>)


lemma read_exponent_of_scan:
  assumes "scan_exp r = (ep, [])"
  shows "read_exponent r = Some (case ep of None \<Rightarrow> 0 | Some e \<Rightarrow> e)" "list_all number_char r"
    "r = [] \<or> hd r = CHR ''e'' \<or> hd r = CHR ''E''"
proof -
  consider "r = []" "ep = None"
    | c sg d neg where "r = c # sg @ d" "c = CHR ''e'' \<or> c = CHR ''E''" "all_digits d" "neg \<and> sg = ''-'' \<or> \<not> neg \<and> (sg = [] \<or> sg = ''+'')"
        "ep = Some (if neg then - read_dec d else read_dec d)"
    using exponent_read [OF assms] by (metis insertE empty_iff)
  then have "read_exponent r = Some (case ep of None \<Rightarrow> 0 | Some e \<Rightarrow> e) \<and> list_all number_char r
      \<and> (r = [] \<or> hd r = CHR ''e'' \<or> hd r = CHR ''E'')"
  proof cases
    case 2
    have ts: "take_sign (sg @ d) = (neg, d)"
      using 2(3,4) digit_distinct(1,2) [of "hd d"] by (cases d) (auto simp: take_sign_def all_digits_def)
    have "list_all number_char d" using 2(3) by (auto simp: all_digits_def list_all_iff number_char_def)
    then show ?thesis using 2 ts lower_e [of c] by (auto simp: read_exponent_def number_char_def)
  qed (simp add: read_exponent_def)
  then show "read_exponent r = Some (case ep of None \<Rightarrow> 0 | Some e \<Rightarrow> e)" "list_all number_char r"
    "r = [] \<or> hd r = CHR ''e'' \<or> hd r = CHR ''E''" by blast+
qed

lemma digits_split: "list_all is_digit d \<Longrightarrow> r = [] \<or> \<not> is_digit (hd r) \<Longrightarrow> takeWhile is_digit (d @ r) = d \<and> dropWhile is_digit (d @ r) = r"
  by (cases r) (auto simp: takeWhile_append dropWhile_append list_all_iff)

lemma zero_digit: "is_digit CHR ''0''"
  by (simp add: is_digit_def)

text \<open>What the JSON number scanner accepts in full, \<open>float\<close> reads, too.\<close>

lemma read_decimal_of_scan:
  assumes "scan_number neg s = Inr (JFloat x, [])"
  obtains m e where "read_decimal s = Some (m, e)" "x = fl (if neg then - (of_int m * 10 powi e) else of_int m * 10 powi e)"
    "\<not> (neg \<and> m = 0)" "list_all number_char s" "is_digit (hd s)" "s \<noteq> []"
proof -
  obtain ip s1 where ip: "scan_int_part s = Some (ip, s1)" using assms by (cases "scan_int_part s") (auto simp: scan_number_def json_error_def)
  obtain fp s2 where fp: "scan_frac s1 = (fp, s2)" by fastforce
  obtain ep s3 where ep: "scan_exp s2 = (ep, s3)" by fastforce
  have s3: "s3 = []" and fd: "float_of_decimal neg ip (case fp of None \<Rightarrow> [] | Some f \<Rightarrow> f) (case ep of None \<Rightarrow> 0 | Some e \<Rightarrow> e) = Inr x"
    using assms ip fp ep by (auto simp: scan_number_def result_simps split: if_splits)
  note ex = read_exponent_of_scan [OF ep [unfolded s3]]
  have ips: "s = ip @ s1" "ip \<noteq> []" "list_all is_digit ip"
    using ip zero_digit by (auto simp: scan_int_part_def list_all_iff split: list.splits if_splits dest: set_takeWhileD)
  let ?f = "case fp of None \<Rightarrow> [] | Some f \<Rightarrow> f"
  have fps: "s1 = (if fp = None then [] else CHR ''.'' # ?f) @ s2" "list_all is_digit ?f"
    using fp by (auto simp: scan_frac_def list_all_iff split: list.splits if_splits dest: set_takeWhileD)
  have no_digit: "s2 = [] \<or> \<not> is_digit (hd s2)" "take 1 s2 \<noteq> ''.''" using ex(3) by (cases s2; auto simp: is_digit_def)+
  have "s1 = [] \<or> \<not> is_digit (hd s1)" using fps(1) no_digit by (auto simp: is_digit_def)
  then have ws: "takeWhile is_digit s = ip" "dropWhile is_digit s = s1" using digits_split [OF ips(3), of s1] ips(1) by simp_all
  have fs: "(if take 1 s1 = ''.'' then (takeWhile is_digit (drop 1 s1), dropWhile is_digit (drop 1 s1)) else ([], s1)) = (?f, s2)"
    using fps no_digit digits_split [OF fps(2) no_digit(1)] by (cases fp) auto
  let ?e = "(case ep of None \<Rightarrow> 0 | Some e \<Rightarrow> e) - int (length ?f)"
  have rd: "read_decimal s = Some (read_dec (ip @ ?f), ?e)" using ws fs ips(2) ex(1) by (simp add: read_decimal_def)
  have "list_all number_char s"
    using ips(1,3) fps ex(2) by (auto simp: list_all_iff number_char_def split: option.splits)
  moreover have "is_digit (hd s)" "s \<noteq> []" using ips by (cases ip; simp)+
  moreover have "x = fl (if neg then - (of_int (read_dec (ip @ ?f)) * 10 powi ?e) else of_int (read_dec (ip @ ?f)) * 10 powi ?e)"
      "\<not> (neg \<and> read_dec (ip @ ?f) = 0)"
    using fd by (auto simp: float_of_decimal_def Let_def split: if_splits)
  ultimately show ?thesis using that rd by blast
qed

lemma no_underscore: "number_char c \<Longrightarrow> c \<noteq> CHR ''_''"
  by (auto simp: number_char_def is_digit_def)

lemma drop_underscores_none: "list_all number_char s \<Longrightarrow> p \<noteq> CHR ''_'' \<Longrightarrow> drop_underscores p s = Some s"
proof (induction s arbitrary: p)
  case (Cons c s)
  then have "c \<noteq> CHR ''_''" using no_underscore by simp
  then show ?case using Cons by simp
qed simp

lemma strip_set_id:
  assumes "s = [] \<or> \<not> P (hd s) \<and> \<not> P (last s)"
  shows "strip_set P s = s"
proof (cases "s = []")
  case False
  then have "dropWhile P s = s" using assms by (cases s) auto
  moreover have "dropWhile P (rev s) = rev s" using assms False by (cases s rule: rev_cases) auto
  ultimately show ?thesis by (simp add: strip_set_def)
qed (simp add: strip_set_def)

lemma number_char_space: "number_char c \<Longrightarrow> \<not> number_space c"
  by (auto simp: number_char_def number_space_def is_digit_def)


lemma strip_number: "list_all number_char s \<Longrightarrow> strip_set number_space s = s"
  by (rule strip_set_id) (auto simp: list_all_iff number_char_space)

lemma not_special: "s \<noteq> [] \<Longrightarrow> is_digit (hd s) \<Longrightarrow> map ascii_lower s \<notin> {''inf'', ''infinity'', ''nan''}"
  by (cases s) (auto simp: ascii_lower_def is_digit_def)

lemma fl_limit: "FLOAT_LIMIT \<le> y \<Longrightarrow> 2 ^ 1023 \<le> fl y"
  using fl_mono [of "2 ^ 1023" y] fl_exact [of 1 1023] by (simp add: FLOAT_LIMIT_def)

lemma py_float_of_scan:
  assumes "scan_number neg s = Inr (JFloat x, [])" "\<bar>x\<bar> < 2 ^ 1023"
  shows "py_float ((if neg then ''-'' else []) @ s) = Inr x"
proof -
  obtain m e where d: "read_decimal s = Some (m, e)" "x = fl (if neg then - (of_int m * 10 powi e) else of_int m * 10 powi e)"
      "\<not> (neg \<and> m = 0)" "list_all number_char s" "is_digit (hd s)" "s \<noteq> []"
    using read_decimal_of_scan [OF assms(1)] .
  let ?t = "(if neg then ''-'' else []) @ s"
  have "list_all number_char ?t" using d(4) by (simp add: number_char_def)
  then have t: "strip_set number_space ?t = ?t" "drop_underscores (CHR 0x00) ?t = Some ?t"
    by (simp_all add: strip_number drop_underscores_none del: drop_underscores.simps)
  have ts: "take_sign ?t = (neg, s)" using d(5,6) digit_distinct(1,2) [of "hd s"] by (cases s) (auto simp: take_sign_def)
  have "\<not> FLOAT_LIMIT \<le> of_int m * 10 powi e"
  proof
    assume "FLOAT_LIMIT \<le> of_int m * 10 powi e"
    then have "2 ^ 1023 \<le> fl (of_int m * 10 powi e)" by (rule fl_limit)
    moreover have "fl (of_int m * 10 powi e) \<le> \<bar>x\<bar>" unfolding d(2) by (simp add: fl_minus)
    ultimately show False using assms(2) by linarith
  qed
  then show ?thesis using t ts d not_special [OF d(6,5)] by (simp add: py_float_def Let_def)
qed

lemma py_float_float_repr:
  assumes "fl x = x" "\<bar>x\<bar> < 2 ^ 1023"
  shows "py_float (float_repr x) = Inr x"
proof -
  have "scan_atom (float_repr x) = Inr (JFloat x, [])" using scan_float_repr [OF assms(1), of "[]"] by (simp add: num_end_def)
  then consider "float_repr x = ''-'' @ drop 1 (float_repr x)" "scan_number True (drop 1 (float_repr x)) = Inr (JFloat x, [])"
    | "scan_number False (float_repr x) = Inr (JFloat x, [])"
    by (cases "float_repr x") (auto simp: scan_atom_def starts_with_def json_error_def split: if_splits)
  then show ?thesis using py_float_of_scan [OF _ assms(2)] by cases (fastforce, fastforce)
qed

lemma all_digits_show: "0 \<le> n \<Longrightarrow> list_all is_digit (show_base 10 n)"
  using show_base_digits by (simp add: list_all_iff)

lemma read_decimal_digits: "0 \<le> n \<Longrightarrow> read_decimal (show_base 10 n) = Some (n, 0)"
  using all_digits_show
  by (simp add: read_decimal_def read_exponent_def list_all_iff takeWhile_eq_all_conv [THEN iffD2] dropWhile_eq_Nil_conv [THEN iffD2])

lemma take_sign_digit: "s \<noteq> [] \<Longrightarrow> is_digit (hd s) \<Longrightarrow> take_sign s = (False, s)"
  using digit_distinct(1,2) [of "hd s"] by (cases s) (auto simp: take_sign_def)

lemma int_text:
  assumes "0 \<le> n"
  shows "strip_set number_space (show_base 10 n) = show_base 10 n" "drop_underscores (CHR 0x00) (show_base 10 n) = Some (show_base 10 n)"
    "take_sign (show_base 10 n) = (False, show_base 10 n)" "all_digits (show_base 10 n)"
proof -
  have "list_all number_char (show_base 10 n)" using all_digits_show [OF assms] by (auto simp: list_all_iff number_char_def)
  then show "strip_set number_space (show_base 10 n) = show_base 10 n" "drop_underscores (CHR 0x00) (show_base 10 n) = Some (show_base 10 n)"
    by (simp_all add: strip_number drop_underscores_none del: drop_underscores.simps)
  show "all_digits (show_base 10 n)" using all_digits_show [OF assms] by (simp add: all_digits_def)
  then show "take_sign (show_base 10 n) = (False, show_base 10 n)" by (intro take_sign_digit) (cases "show_base 10 n"; simp add: all_digits_def)+
qed

lemma py_int_show: "0 \<le> n \<Longrightarrow> py_int (show_base 10 n) = Inr n"
  using int_text by (simp add: py_int_def)

lemma py_float_show:
  assumes "0 \<le> n" "n < 2 ^ 1023"
  shows "py_float (show_base 10 n) = Inr (fl (of_int n))"
proof -
  note t = int_text [OF assms(1)]
  have "is_digit (hd (show_base 10 n))" using t(4) by (cases "show_base 10 n") (simp_all add: all_digits_def)
  moreover have "\<not> FLOAT_LIMIT \<le> of_int n"
  proof -
    have "(of_int n :: rat) < of_int (2 ^ 1023)" using assms(2) by (simp only: of_int_less_iff)
    then show ?thesis by (simp add: FLOAT_LIMIT_def)
  qed
  ultimately show ?thesis using t not_special [OF show_base_nonempty] read_decimal_digits [OF assms(1)] by (simp add: py_float_def)
qed

end
