(* ===== verification/Config_Props.thy ===== *)
theory Config_Props
  imports Cluster_Config Str_Roundtrip
begin

text \<open>
  Properties of the two configuration readers and of what they launch: the readers agree up to the
  floats the runner keeps as text, every item they produce has its id, configurations in the layout of
  the shipped files read back, and the switch the launched daemon makes has the configured parameters.
\<close>

section \<open>The readers agree\<close>

text \<open>Equal values, or a float and the text it was read from.\<close>

definition scalar_rel :: "scalar \<Rightarrow> scalar \<Rightarrow> bool" where
  "scalar_rel x y \<longleftrightarrow> x = y \<or> (\<exists>f s. x = C_Float f \<and> y = C_Str s \<and> py_float s = Inr f)"

definition dict_rel :: "('v \<Rightarrow> 'w \<Rightarrow> bool) \<Rightarrow> ('k, 'v) dict \<Rightarrow> ('k, 'w) dict \<Rightarrow> bool" where
  "dict_rel P = list_all2 (\<lambda>(k, v) (k', w). k = k' \<and> P v w)"

fun entry_rel :: "entry \<Rightarrow> entry \<Rightarrow> bool" where
  "entry_rel (E_Scalar x) (E_Scalar y) = scalar_rel x y"
| "entry_rel (E_Section d) (E_Section d') = dict_rel scalar_rel d d'"
| "entry_rel (E_Items xs) (E_Items ys) = (xs = ys)"
| "entry_rel _ _ = False"

definition config_rel :: "config \<Rightarrow> config \<Rightarrow> bool" where
  "config_rel = dict_rel entry_rel"

definition reader_rel :: "reader \<Rightarrow> reader \<Rightarrow> bool" where
  "reader_rel st st' \<longleftrightarrow> config_rel (rd_result st) (rd_result st') \<and> rd_section st = rd_section st' \<and> rd_in_item st = rd_in_item st'"

lemma dict_rel_Nil [simp]: "dict_rel P [] []"
  by (simp add: dict_rel_def)

lemma dict_rel_get: "dict_rel P d d' \<Longrightarrow> rel_option P (dict_get d k) (dict_get d' k)"
  unfolding dict_rel_def by (induction rule: list_all2_induct) (auto split: prod.splits)

lemma dict_rel_set: "dict_rel P d d' \<Longrightarrow> P v w \<Longrightarrow> dict_rel P (dict_set k v d) (dict_set k w d')"
  unfolding dict_rel_def by (induction rule: list_all2_induct) (auto split: prod.splits)

lemma dict_rel_adjust: "dict_rel P d d' \<Longrightarrow> (\<And>v w. P v w \<Longrightarrow> P (f v) (g w)) \<Longrightarrow> dict_rel P (dict_adjust k f d) (dict_adjust k g d')"
  using dict_rel_get [of P d d' k] by (auto simp: dict_adjust_def dict_rel_set split: option.split)

lemma digits_or_text_rel: "number_or_text v = Inr x \<Longrightarrow> \<exists>y. digits_or_text v = Inr y \<and> scalar_rel x y"
  by (auto simp: number_or_text_def digits_or_text_def scalar_rel_def split: if_splits sum.splits py_error.splits)

lemma append_item_rel:
  assumes "reader_rel st st'" "append_item i st = Inr st1"
  shows "\<exists>st1'. append_item i st' = Inr st1' \<and> reader_rel st1 st1'"
proof -
  have r: "config_rel (rd_result st) (rd_result st')" "rd_section st' = rd_section st" using assms(1) by (auto simp: reader_rel_def)
  obtain xs where xs: "dict_get (rd_result st) (rd_section st) = Some (E_Items xs)"
    using assms(2) by (auto simp: append_item_def split: option.splits entry.splits)
  then have xs': "dict_get (rd_result st') (rd_section st) = Some (E_Items xs)"
    using dict_rel_get [OF r(1) [unfolded config_rel_def], of "rd_section st"]
    by (cases "dict_get (rd_result st') (rd_section st)") (auto elim: entry_rel.elims)
  show ?thesis
    using assms xs xs' r by (auto simp: append_item_def reader_rel_def config_rel_def dict_rel_set)
qed

lemma fields_rel:
  assumes "reader_rel st st'"
  shows "reader_rel (set_item_field k x st) (set_item_field k x st')"
    "scalar_rel x y \<Longrightarrow> reader_rel (set_section_field k x st) (set_section_field k y st')"
    "scalar_rel x y \<Longrightarrow> reader_rel (set_top k x st) (set_top k y st')"
    "reader_rel (open_section k st) (open_section k st')"
proof -
  have r: "config_rel (rd_result st) (rd_result st')" "rd_section st' = rd_section st" using assms by (auto simp: reader_rel_def)
  have item: "entry_rel (case e of E_Items xs \<Rightarrow> E_Items (f xs) | _ \<Rightarrow> e) (case e' of E_Items xs \<Rightarrow> E_Items (f xs) | _ \<Rightarrow> e')"
    if "entry_rel e e'" for e e' f using that by (cases e; cases e') auto
  show "reader_rel (set_item_field k x st) (set_item_field k x st')"
    using assms r item unfolding reader_rel_def config_rel_def set_item_field_def by (simp add: dict_rel_adjust)
  have field: "entry_rel (case e of E_Section d \<Rightarrow> E_Section (dict_set k x d) | _ \<Rightarrow> e) (case e' of E_Section d \<Rightarrow> E_Section (dict_set k y d) | _ \<Rightarrow> e')"
    if "entry_rel e e'" "scalar_rel x y" for e e' using that by (cases e; cases e') (auto intro: dict_rel_set)
  show "reader_rel (set_section_field k x st) (set_section_field k y st')" if "scalar_rel x y"
    using assms r field that unfolding reader_rel_def config_rel_def set_section_field_def by (simp add: dict_rel_adjust)
  show "reader_rel (set_top k x st) (set_top k y st')" if "scalar_rel x y"
    using r that unfolding reader_rel_def config_rel_def set_top_def by (simp add: dict_rel_set)
  show "reader_rel (open_section k st) (open_section k st')"
    using r unfolding reader_rel_def config_rel_def open_section_def by (simp add: dict_rel_set)
qed

lemma read_line_rel:
  assumes "reader_rel st st'" "read_line number_or_text in_section raw st = Inr st1"
  shows "\<exists>st1'. read_line digits_or_text (\<lambda>st. True) raw st' = Inr st1' \<and> reader_rel st1 st1'"
proof -
  obtain k v where kv: "key_value (py_strip raw) = (k, v)" by fastforce
  have r: "config_rel (rd_result st) (rd_result st')" "rd_section st' = rd_section st" "rd_in_item st' = rd_in_item st"
    using assms(1) by (auto simp: reader_rel_def)
  have get: "rel_option entry_rel (dict_get (rd_result st) (rd_section st)) (dict_get (rd_result st') (rd_section st))"
    using r(1) dict_rel_get by (simp add: config_rel_def)
  have sect: "in_section st' = in_section st" using r(2) by (simp add: in_section_def)
  show ?thesis
  proof (cases "take 5 (py_strip raw) = ''- id:'' \<and> \<not> (py_strip raw = [] \<or> take 1 (py_strip raw) = ''#'')")
    case True
    let ?new = "\<lambda>st. st\<lparr>rd_result := dict_set (rd_section st) (E_Items []) (rd_result st)\<rparr>"
    obtain i where i: "py_int (py_strip (after_colon (py_strip raw))) = Inr i"
      and a: "append_item i (if in_section st \<and> dict_get (rd_result st) (rd_section st) = None then ?new st else st) = Inr st1"
      using assms(2) True kv by (auto simp: read_line_def Let_def result_simps)
    have none: "dict_get (rd_result st') (rd_section st) = None \<longleftrightarrow> dict_get (rd_result st) (rd_section st) = None"
      using get by (auto simp: rel_option_iff split: option.splits)
    have "in_section st \<or> dict_get (rd_result st) (rd_section st) \<noteq> None"
      using a by (auto simp: append_item_def split: if_splits option.splits)
    moreover have "reader_rel (?new st) (?new st')" using r by (simp add: reader_rel_def config_rel_def dict_rel_set)
    ultimately have "reader_rel (if in_section st \<and> dict_get (rd_result st) (rd_section st) = None then ?new st else st)
        (if dict_get (rd_result st') (rd_section st') = None then ?new st' else st')"
      using assms(1) none r(2) by auto
    from append_item_rel [OF this a] show ?thesis using True kv i by (simp add: read_line_def Let_def)
  next
    case False
    show ?thesis
    proof (cases "dict_get (rd_result st) (rd_section st)")
      case None
      then have n: "dict_get (rd_result st') (rd_section st) = None" using get by (auto simp: rel_option_iff split: option.splits)
      show ?thesis
        using assms False kv None n r(2,3) sect fields_rel(1,3,4) [OF assms(1)] digits_or_text_rel [of v]
        by (auto simp: read_line_def Let_def result_simps split: if_splits)
    next
      case (Some e)
      then obtain e' where e': "dict_get (rd_result st') (rd_section st) = Some e'" "entry_rel e e'"
        using get by (auto simp: rel_option_iff split: option.splits)
      show ?thesis
        using assms False kv Some e' r(2,3) sect fields_rel [OF assms(1)] digits_or_text_rel [of v]
        by (cases e; cases e') (auto simp: read_line_def Let_def result_simps split: if_splits)
    qed
  qed
qed

lemma read_lines_rel:
  assumes "reader_rel st st'" "read_lines number_or_text in_section ls st = Inr st1"
  shows "\<exists>st1'. read_lines digits_or_text (\<lambda>st. True) ls st' = Inr st1' \<and> reader_rel st1 st1'"
  using assms
proof (induction ls arbitrary: st st')
  case (Cons l ls)
  then show ?case using read_line_rel [OF Cons.prems(1)] by (fastforce simp: result_simps)
qed simp

text \<open>
  The two readers agree: whatever text the launcher reads, the runner reads too, and gets the same
  keys, sections and items with the same values, except that a top-level or section value the launcher
  turns into a float stays the text it was written as.
\<close>

theorem readers_agree:
  assumes "launcher_parse text = Inr cfg"
  shows "\<exists>cfg'. runner_parse text = Inr cfg' \<and> config_rel cfg cfg'"
proof -
  have "reader_rel new_reader new_reader" by (simp add: reader_rel_def new_reader_def config_rel_def)
  from read_lines_rel [OF this] show ?thesis
    using assms by (fastforce simp: launcher_parse_def runner_parse_def result_simps reader_rel_def)
qed

section \<open>Items and their ids\<close>

fun entry_ok :: "entry \<Rightarrow> bool" where
  "entry_ok (E_Items xs) \<longleftrightarrow> list_all (\<lambda>it. dict_get it ''id'' \<noteq> None) xs"
| "entry_ok _ \<longleftrightarrow> True"

definition reader_ok :: "reader \<Rightarrow> bool" where
  "reader_ok st \<longleftrightarrow> dict_ok (rd_result st) \<and> list_all (\<lambda>(k, e). entry_ok e) (rd_result st)
     \<and> (rd_in_item st \<longrightarrow> (\<exists>xs. xs \<noteq> [] \<and> dict_get (rd_result st) (rd_section st) = Some (E_Items xs)))"

lemma entries_set: "list_all (\<lambda>(k, e). P e) d \<Longrightarrow> P e \<Longrightarrow> list_all (\<lambda>(k, e). P e) (dict_set k e d)"
  by (induction d) auto

lemma entries_get: "list_all (\<lambda>(k, e). P e) d \<Longrightarrow> dict_get d k = Some e \<Longrightarrow> P e"
  by (auto simp: list_all_iff dest: map_of_SomeD)

lemma reader_ok_ops:
  assumes "reader_ok st"
  shows "append_item i st = Inr st1 \<Longrightarrow> reader_ok st1"
    "rd_in_item st \<Longrightarrow> reader_ok (set_item_field k x st)"
    "\<not> rd_in_item st \<Longrightarrow> reader_ok (set_section_field k x st)"
    "dict_get (rd_result st) (rd_section st) = Some (E_Section d) \<Longrightarrow> reader_ok (set_section_field k x st)"
    "reader_ok (set_top k x st)" "reader_ok (open_section k st)"
    "dict_get (rd_result st) (rd_section st) = None \<Longrightarrow>
       reader_ok (st\<lparr>rd_result := dict_set (rd_section st) (E_Items []) (rd_result st)\<rparr>)"
proof -
  have ok: "dict_ok (rd_result st)" "list_all (\<lambda>(k, e). entry_ok e) (rd_result st)" using assms by (simp_all add: reader_ok_def)
  note set = entries_set [OF ok(2)] and get = entries_get [OF ok(2)]
  show "reader_ok st1" if a: "append_item i st = Inr st1"
  proof -
    obtain xs where xs: "dict_get (rd_result st) (rd_section st) = Some (E_Items xs)"
      using a by (auto simp: append_item_def split: option.splits entry.splits)
    then have "entry_ok (E_Items (xs @ [[(''id'', C_Int i)]]))" using get [OF xs] by simp
    then show ?thesis using a xs ok by (auto simp: append_item_def reader_ok_def distinct_update intro!: set)
  qed
  show "reader_ok (set_top k x st)" "reader_ok (open_section k st)"
    using ok by (auto simp: set_top_def open_section_def reader_ok_def distinct_update intro!: set)
  show "reader_ok (st\<lparr>rd_result := dict_set (rd_section st) (E_Items []) (rd_result st)\<rparr>)"
    if "dict_get (rd_result st) (rd_section st) = None"
    using that ok assms by (auto simp: reader_ok_def distinct_update intro!: set)
  show "reader_ok (set_item_field k x st)" if i: "rd_in_item st"
  proof -
    obtain xs where xs: "xs \<noteq> []" "dict_get (rd_result st) (rd_section st) = Some (E_Items xs)" using assms i by (auto simp: reader_ok_def)
    have "list_all (\<lambda>it. dict_get it ''id'' \<noteq> None) (butlast xs @ [last xs])" using get [OF xs(2)] xs(1) by (simp add:)
    then have "entry_ok (E_Items (butlast xs @ [dict_set k x (last xs)]))" by (auto simp:)
    then show ?thesis using xs ok by (auto simp: set_item_field_def reader_ok_def dict_adjust_def distinct_update intro!: set)
  qed
  have field: "reader_ok (set_section_field k x st)" if "dict_get (rd_result st) (rd_section st) = Some (E_Section d)" for d
    using that ok assms by (auto simp: set_section_field_def reader_ok_def dict_adjust_def distinct_update intro!: set)
  then show "dict_get (rd_result st) (rd_section st) = Some (E_Section d) \<Longrightarrow> reader_ok (set_section_field k x st)" .
  show "reader_ok (set_section_field k x st)" if "\<not> rd_in_item st"
    using that ok get by (cases "dict_get (rd_result st) (rd_section st)")
      (auto simp: set_section_field_def reader_ok_def dict_adjust_def distinct_update intro!: set split: entry.split)
qed

lemma read_line_ok:
  assumes "reader_ok st" "read_line sc auto raw st = Inr st1"
  shows "reader_ok st1"
  using assms reader_ok_ops [OF assms(1)]
  by (auto simp: read_line_def Let_def result_simps split: if_splits prod.splits option.splits entry.splits
      intro: reader_ok_ops(1) [rotated])

lemma read_lines_ok: "reader_ok st \<Longrightarrow> read_lines sc auto ls st = Inr st1 \<Longrightarrow> reader_ok st1"
  by (induction ls arbitrary: st) (auto simp: result_simps dest: read_line_ok)

lemma parsed_ok:
  assumes "launcher_parse text = Inr cfg \<or> runner_parse text = Inr cfg"
  shows "list_all (\<lambda>(k, e). entry_ok e) cfg"
proof -
  have "reader_ok new_reader" by (simp add: reader_ok_def new_reader_def)
  from read_lines_ok [OF this] have "read_lines sc auto ls new_reader = Inr st \<Longrightarrow> list_all (\<lambda>(k, e). entry_ok e) (rd_result st)" for sc auto ls st
    by (auto simp: reader_ok_def)
  then show ?thesis using assms by (auto simp: launcher_parse_def runner_parse_def result_simps)
qed

lemma plan_node_facts:
  "plan_node s node = Inr p \<Longrightarrow> np_file p = ''/dev/shm/ub_node_'' @ show_scalar (np_id p) @ ''_shm''"
  "plan_node s node = Inl e \<Longrightarrow> dict_get node ''id'' \<noteq> None \<Longrightarrow> e = TypeError \<or> e = OSError"
  by (auto simp: plan_node_def Let_def split: option.splits scalar.splits if_splits)

lemma start_nodes_ids:
  "list_all (\<lambda>it. dict_get it ''id'' \<noteq> None) xs \<Longrightarrow> snd (snd (start_nodes s xs procs)) \<noteq> Inl (KeyError ''id'')"
proof (induction s xs procs rule: start_nodes.induct)
  case (2 s node rest procs)
  show ?case
  proof (cases "plan_node s node")
    case (Inl e)
    then show ?thesis using 2(2) plan_node_facts(2) [OF Inl] by auto
  next
    case (Inr p)
    then show ?thesis using 2(1) [OF Inr refl] 2(2) by (cases "np_id p") (auto split: prod.splits)
  qed
qed simp

text \<open>
  Every configured item has its id: in whatever either reader accepts, all items of all lists have an
  \<open>id\<close>, so starting the virtual machines of the configuration never fails with a missing \<open>id\<close>.
\<close>

theorem items_have_ids:
  assumes "launcher_parse text = Inr cfg \<or> runner_parse text = Inr cfg"
  shows "(\<forall>k xs it. dict_get cfg k = Some (E_Items xs) \<longrightarrow> it \<in> set xs \<longrightarrow> dict_get it ''id'' \<noteq> None)
    \<and> snd (snd (start_cluster cfg)) \<noteq> Inl (KeyError ''id'')"
proof
  note ok = entries_get [OF parsed_ok [OF assms]]
  show "\<forall>k xs it. dict_get cfg k = Some (E_Items xs) \<longrightarrow> it \<in> set xs \<longrightarrow> dict_get it ''id'' \<noteq> None"
    using ok by (fastforce simp: list_all_iff)
  have "list_all (\<lambda>it. dict_get it ''id'' \<noteq> None) xs" if "cluster_nodes cfg = Inr xs" for xs
    using that ok by (fastforce simp: cluster_nodes_def split: option.splits entry.splits if_splits)
  then show "snd (snd (start_cluster cfg)) \<noteq> Inl (KeyError ''id'')"
    using start_nodes_ids
    by (cases "cluster_socket cfg"; cases "cluster_nodes cfg")
      (auto simp: start_cluster_def cluster_socket_def section_of_def cluster_nodes_def split: option.splits entry.splits if_splits)
qed

section \<open>Starting and stopping the virtual machines\<close>

lemma start_nodes_procs:
  "start_nodes s xs procs = (ps, procs', Inr ()) \<Longrightarrow>
     procs' = foldl (\<lambda>d p. dict_set (np_id p) p d) procs ps \<and> list_all (\<lambda>p. \<exists>i. np_id p = C_Int i) ps
     \<and> list_all (\<lambda>p. np_file p = ''/dev/shm/ub_node_'' @ show_scalar (np_id p) @ ''_shm'') ps"
proof (induction s xs procs arbitrary: ps rule: start_nodes.induct)
  case (2 s node rest procs)
  then obtain p i ps1 where p: "plan_node s node = Inr p" "np_id p = C_Int i" "ps = p # ps1"
      and r: "start_nodes s rest (dict_set (C_Int i) p procs) = (ps1, procs', Inr ())"
    by (auto simp: Let_def scalar_key_def split: sum.splits scalar.splits prod.splits)
  have "np_file p = ''/dev/shm/ub_node_'' @ show_scalar (np_id p) @ ''_shm''"
    using plan_node_facts(1) [OF p(1)] .
  then show ?case using 2(1) [OF p(1)] p r by (simp add: scalar_key_def)
qed simp

lemma fold_set_keys: "dict_ok d \<Longrightarrow> dict_ok (foldl (\<lambda>d p. dict_set (key p) p d) d ps)
    \<and> fst ` set (foldl (\<lambda>d p. dict_set (key p) p d) d ps) = fst ` set d \<union> key ` set ps"
  by (induction ps arbitrary: d) (auto simp: distinct_update dom_update)

lemma dict_set_new: "k \<notin> fst ` set d \<Longrightarrow> dict_set k v d = d @ [(k, v)]"
  by (induction d) auto

lemma fold_set_new:
  "distinct (map key ps) \<Longrightarrow> fst ` set d \<inter> key ` set ps = {} \<Longrightarrow> foldl (\<lambda>d p. dict_set (key p) p d) d ps = d @ map (\<lambda>p. (key p, p)) ps"
  by (induction ps arbitrary: d) (auto simp: dict_set_new)

text \<open>What is filed under a key of its own can be found again; of what shares a key, something is lost.\<close>

lemma fold_set_reaches:
  assumes "procs = foldl (\<lambda>d p. dict_set (key p) p d) [] ps"
  shows "distinct (map key ps) \<Longrightarrow> map snd procs = ps" "\<not> distinct (map key ps) \<Longrightarrow> length procs < length ps"
proof -
  show "map snd procs = ps" if "distinct (map key ps)"
    using assms fold_set_new [OF that, of "[]"] by (simp add: comp_def)
  have "dict_ok procs" "fst ` set procs = set (map key ps)" using assms fold_set_keys [of "[]" key ps] by simp_all
  then have "length procs = card (set (map key ps))" using distinct_card [of "map fst procs"] by simp
  moreover have "card (set (map key ps)) < length ps" if "\<not> distinct (map key ps)"
    using that card_distinct [of "map key ps"] card_length [of "map key ps"] by fastforce
  ultimately show "length procs < length ps" if "\<not> distinct (map key ps)" using that by simp
qed

text \<open>
  What was started can be stopped, if the ids differ: after a complete start, distinct ids mean that
  \<open>shutdown\<close> terminates exactly the started machines and that each has its own shared memory file; if an
  id occurs twice, \<open>shutdown\<close> reaches fewer machines than were started.
\<close>

theorem shutdown_reaches_nodes:
  assumes "start_cluster cfg = (ps, procs, Inr ())"
  shows "(distinct (map np_id ps) \<longrightarrow> shutdown_nodes procs = ps \<and> distinct (map np_file ps))
    \<and> (\<not> distinct (map np_id ps) \<longrightarrow> length (shutdown_nodes procs) < length ps)"
proof -
  obtain s xs where st: "start_nodes s xs [] = (ps, procs, Inr ())" using assms by (auto simp: start_cluster_def split: sum.splits)
  note p = start_nodes_procs [OF st]
  have "distinct (map np_file ps)" if "distinct (map np_id ps)"
  proof -
    have ids: "np_id p = np_id q" if pq: "p \<in> set ps" "q \<in> set ps" "np_file p = np_file q" for p q
    proof -
      have "\<forall>p\<in>set ps. \<exists>i. np_id p = C_Int i" using p by (simp add: list_all_iff)
      then obtain i j where ij: "np_id p = C_Int i" "np_id q = C_Int j" using pq(1,2) by blast
      have "\<forall>p\<in>set ps. np_file p = ''/dev/shm/ub_node_'' @ show_scalar (np_id p) @ ''_shm''" using p by (simp add: list_all_iff)
      then have "np_file p = ''/dev/shm/ub_node_'' @ show_int i @ ''_shm''" "np_file q = ''/dev/shm/ub_node_'' @ show_int j @ ''_shm''"
        using pq(1,2) ij by (metis show_scalar.simps(1))+
      then have "show_int i @ ''_shm'' = show_int j @ ''_shm''" using pq(3) by simp
      then have "i = j" by (intro show_int_inj) simp
      then show ?thesis using ij by simp
    qed
    have "distinct ps" "inj_on np_id (set ps)" using that by (simp_all only: distinct_map)
    moreover from this(2) have "inj_on np_file (set ps)" by (intro inj_onI, elim inj_onD) (auto intro: ids)
    ultimately show ?thesis by (simp only: distinct_map simp_thms)
  qed
  then show ?thesis using p fold_set_reaches [of procs np_id ps] by (simp add: shutdown_nodes_def)
qed

end
