(* ===== verification/Config_Roundtrip.thy ===== *)
theory Config_Roundtrip
  imports Config_Props
begin

text \<open>
  Configurations in the layout of the shipped files (top-level values, sections indented by two, nodes
  with fields indented by four; texts in quotes, blank lines and comment lines anywhere) as an abstract
  syntax with its rendering, and the proof that both readers return exactly what was written, the runner
  with its floats outside the nodes as texts; then the switch that is launched for a configuration.
\<close>

section \<open>Rendering\<close>

text \<open>The ways a value may be written: a number without or with a fraction, and a text, bare or in quotes.\<close>

datatype written = W_Int int | W_Float pyfloat | W_Bare string | W_Quoted char string

type_synonym field = "string \<times> written"

datatype block = B_Scalar field | B_Section string "field list" | B_Nodes "(int \<times> field list) list"

fun show_written :: "written \<Rightarrow> string" where
  "show_written (W_Int i) = show_int i"
| "show_written (W_Float x) = float_repr x"
| "show_written (W_Bare s) = s"
| "show_written (W_Quoted q s) = q # s @ [q]"

definition render_field :: "nat \<Rightarrow> field \<Rightarrow> string" where
  "render_field n f = (case f of (k, w) \<Rightarrow> replicate n (CHR '' '') @ k @ '': '' @ show_written w)"

fun render_block :: "block \<Rightarrow> string list" where
  "render_block (B_Scalar f) = [render_field 0 f]"
| "render_block (B_Section k fs) = (k @ '':'') # map (render_field 2) fs"
| "render_block (B_Nodes its) = ''nodes:'' # concat (map (\<lambda>(i, fs). (''  - id: '' @ show_int i) # map (render_field 4) fs) its)"

text \<open>The file: its lines are those of the blocks, with blank lines and comments, indented as they like, in between.\<close>

definition one_line :: "string \<Rightarrow> bool" where
  "one_line s \<longleftrightarrow> list_all (\<lambda>c. \<not> is_line_break c) s"

definition blank_or_comment :: "string \<Rightarrow> bool" where
  "blank_or_comment l \<longleftrightarrow> (let t = dropWhile is_space l in t = [] \<or> hd t = CHR ''#'')"

definition lays_out :: "string list \<Rightarrow> block list \<Rightarrow> bool" where
  "lays_out ls bs \<longleftrightarrow> list_all one_line ls \<and> filter (\<lambda>l. \<not> blank_or_comment l) ls = concat (map render_block bs)"

definition file_text :: "string list \<Rightarrow> string" where
  "file_text ls = concat (map (\<lambda>l. l @ [CHR 0x0A]) ls)"

section \<open>Meaning\<close>

text \<open>The value where numbers are recognised, and where only digits are: the runner outside the nodes.\<close>

fun number_value :: "written \<Rightarrow> scalar" where
  "number_value (W_Int i) = C_Int i"
| "number_value (W_Float x) = C_Float x"
| "number_value (W_Bare s) = C_Str s"
| "number_value (W_Quoted q s) = C_Str s"

definition digits_value :: "written \<Rightarrow> scalar" where
  "digits_value w = (case w of W_Float x \<Rightarrow> C_Str (float_repr x) | _ \<Rightarrow> number_value w)"

definition field_entry :: "(written \<Rightarrow> scalar) \<Rightarrow> field \<Rightarrow> string \<times> scalar" where
  "field_entry val f = (case f of (k, w) \<Rightarrow> (k, val w))"

fun block_entry :: "(written \<Rightarrow> scalar) \<Rightarrow> block \<Rightarrow> string option \<times> entry" where
  "block_entry val (B_Scalar f) = (Some (fst f), E_Scalar (val (snd f)))"
| "block_entry val (B_Section k fs) = (Some k, E_Section (map (field_entry val) fs))"
| "block_entry val (B_Nodes its) = (Some ''nodes'', E_Items (map (\<lambda>(i, fs). (''id'', C_Int i) # map (field_entry number_value) fs) its))"

section \<open>What can be rendered\<close>

definition good_key :: "string \<Rightarrow> bool" where
  "good_key k \<longleftrightarrow> k \<noteq> [] \<and> one_line k \<and> \<not> is_space (hd k) \<and> \<not> is_space (last k) \<and> CHR '':'' \<notin> set k \<and> hd k \<noteq> CHR ''#'' \<and> hd k \<noteq> CHR ''-''"

definition quote_char :: "char \<Rightarrow> bool" where
  "quote_char c \<longleftrightarrow> c = CHR 0x22 \<or> c = CHR 0x27"

text \<open>
  A text that is no numeral for Python and does not begin or end with a quote; a bare one does not begin or
  end with white space either. Numbers are not negative, if they have no fraction, and inside the range of a
  float otherwise.
\<close>

definition good_text :: "string \<Rightarrow> bool" where
  "good_text s \<longleftrightarrow> s \<noteq> [] \<and> one_line s \<and> \<not> quote_char (hd s) \<and> \<not> quote_char (last s) \<and> \<not> py_isdigit s \<and> py_float s = float_error"

fun good_written :: "written \<Rightarrow> bool" where
  "good_written (W_Int i) \<longleftrightarrow> 0 \<le> i"
| "good_written (W_Float x) \<longleftrightarrow> fl x = x \<and> \<bar>x\<bar> < 2 ^ 1023"
| "good_written (W_Bare s) \<longleftrightarrow> good_text s \<and> \<not> is_space (hd s) \<and> \<not> is_space (last s)"
| "good_written (W_Quoted q s) \<longleftrightarrow> good_text s \<and> quote_char q"

definition good_field :: "field \<Rightarrow> bool" where
  "good_field f = (case f of (k, w) \<Rightarrow> good_key k \<and> good_written w)"

definition good_item :: "int \<times> field list \<Rightarrow> bool" where
  "good_item it = (case it of (i, fs) \<Rightarrow> 0 \<le> i \<and> list_all good_field fs \<and> distinct (''id'' # map fst fs))"

fun good_block :: "block \<Rightarrow> bool" where
  "good_block (B_Scalar f) \<longleftrightarrow> good_field f"
| "good_block (B_Section k fs) \<longleftrightarrow> good_key k \<and> k \<noteq> ''nodes'' \<and> list_all good_field fs \<and> distinct (map fst fs)"
| "good_block (B_Nodes its) \<longleftrightarrow> list_all good_item its"

fun block_key :: "block \<Rightarrow> string" where
  "block_key (B_Scalar f) = fst f"
| "block_key (B_Section k fs) = k"
| "block_key (B_Nodes its) = ''nodes''"

definition good_blocks :: "block list \<Rightarrow> bool" where
  "good_blocks bs \<longleftrightarrow> list_all good_block bs \<and> distinct (map block_key bs)"

lemma block_entry_key [simp]: "fst (block_entry val b) = Some (block_key b)"
  by (cases b) simp_all

section \<open>Written values read back\<close>

lemma number_char_simps [simp]:
  "number_char CHR ''.''" "number_char CHR ''e''" "number_char CHR ''-''" "number_char CHR ''+''" "number_char CHR ''0''"
  by (simp_all add: number_char_def is_digit_def)

lemma format_float_chars:
  assumes "list_all number_char ds"
  shows "list_all number_char (format_float ds pt) \<and> (\<exists>c \<in> set (format_float ds pt). c = CHR ''.'' \<or> c = CHR ''e'')"
proof -
  define es where "es = show_base 10 \<bar>pt - 1\<bar>"
  have "list_all number_char es" using all_digits_show [of "\<bar>pt - 1\<bar>"] by (simp add: es_def list_all_iff number_char_def)
  then show ?thesis
    unfolding format_float_def Let_def es_def [symmetric] using assms
    by (auto simp: list_all_iff dest: in_set_takeD in_set_dropD)
qed

lemma float_repr_chars: "list_all number_char (float_repr x) \<and> (\<exists>c \<in> set (float_repr x). c = CHR ''.'' \<or> c = CHR ''e'')"
proof (cases "x = 0")
  case False
  obtain m s where ms: "shortest_decimal \<bar>x\<bar> = (m, s)" by force
  have "0 < m" using shortest_decimal_pos [of "\<bar>x\<bar>"] False ms by simp
  moreover obtain z where "show_base 10 m = strip_zeros (show_base 10 m) @ replicate z (CHR ''0'')" using strip_zeros_split by blast
  then have "set (strip_zeros (show_base 10 m)) \<subseteq> set (show_base 10 m)" by (metis set_append sup_ge1)
  ultimately have "list_all number_char (strip_zeros (show_base 10 m))"
    using show_base_digits [of m] by (auto simp: list_all_iff number_char_def)
  then show ?thesis using format_float_chars False ms by (simp add: float_repr_def Let_def)
qed (simp add: float_repr_def)

lemma number_char_plain: "number_char c \<Longrightarrow> \<not> is_space c \<and> \<not> is_line_break c \<and> \<not> quote_char c"
  by (auto simp: number_char_def is_digit_def is_space_def is_line_break_def quote_char_def Let_def)

lemma float_repr_no_digits: "\<not> py_isdigit (float_repr x)"
proof -
  have "\<not> (is_digit c \<or> c = CHR 0xB2 \<or> c = CHR 0xB3 \<or> c = CHR 0xB9)" if "c = CHR ''.'' \<or> c = CHR ''e''" for c
    using that by (auto simp: is_digit_def)
  then show ?thesis using float_repr_chars [of x] unfolding py_isdigit_def list_all_iff by blast
qed

text \<open>The text of a written value in a line, and what is left of it without its quotes.\<close>

definition inner_text :: "written \<Rightarrow> string" where
  "inner_text w = (case w of W_Quoted q s \<Rightarrow> s | _ \<Rightarrow> show_written w)"

lemma number_text_plain:
  assumes "list_all number_char s" "s \<noteq> []"
  shows "one_line s" "\<not> is_space (hd s)" "\<not> is_space (last s)" "strip_quotes s = s"
proof -
  have "hd s \<in> set s" "last s \<in> set s" using assms(2) by simp_all
  then have c: "number_char (hd s)" "number_char (last s)" using assms(1) by (simp_all add: list_all_iff)
  then show "\<not> is_space (hd s)" "\<not> is_space (last s)" using number_char_plain by simp_all
  show "one_line s" using assms(1) number_char_plain by (simp add: one_line_def list_all_iff)
  show "strip_quotes s = s"
    unfolding strip_quotes_def by (rule strip_set_id) (use c number_char_plain in \<open>auto simp: quote_char_def\<close>)
qed

lemma text_quotes:
  assumes "good_text s"
  shows "strip_quotes s = s" "quote_char q \<Longrightarrow> strip_quotes (q # s @ [q]) = s"
proof -
  let ?P = "\<lambda>c. c = CHR 0x22 \<or> c = CHR 0x27"
  have s: "s \<noteq> []" "\<not> quote_char (hd s)" "\<not> quote_char (last s)" using assms by (simp_all add: good_text_def)
  have d: "dropWhile ?P (s @ r) = s @ r" for r using s(1,2) by (cases s) (simp_all add: quote_char_def)
  have e: "dropWhile ?P (rev s) = rev s" using s(1,3) by (cases s rule: rev_cases) (simp_all add: quote_char_def)
  show "strip_quotes s = s" using d [of "[]"] e by (simp add: strip_quotes_def strip_set_def)
  show "strip_quotes (q # s @ [q]) = s" if "quote_char q"
    using d e that by (simp add: strip_quotes_def strip_set_def quote_char_def)
qed

definition plain_text :: "string \<Rightarrow> string \<Rightarrow> bool" where
  "plain_text t v \<longleftrightarrow> t \<noteq> [] \<and> one_line t \<and> \<not> is_space (hd t) \<and> \<not> is_space (last t) \<and> strip_quotes t = v \<and> v \<noteq> []"

lemma written_plain:
  assumes "good_written w"
  shows "plain_text (show_written w) (inner_text w)"
proof (cases w)
  case (W_Int i)
  then have i: "0 \<le> i" using assms by simp
  then have "list_all number_char (show_int i)" "show_int i \<noteq> []"
    using int_text(4) [OF i] by (auto simp: show_int_def all_digits_def list_all_iff number_char_def)
  from number_text_plain [OF this] this(2) show ?thesis by (simp add: W_Int plain_text_def inner_text_def)
next
  case (W_Float x)
  have "list_all number_char (float_repr x)" "float_repr x \<noteq> []" using float_repr_chars [of x] by auto
  from number_text_plain [OF this] this(2) show ?thesis by (simp add: W_Float plain_text_def inner_text_def)
next
  case (W_Bare s)
  then show ?thesis using assms text_quotes(1) [of s] by (simp add: plain_text_def inner_text_def) (simp add: good_text_def)
next
  case (W_Quoted q s)
  have "\<not> is_space q" "\<not> is_line_break q" using assms W_Quoted by (auto simp: quote_char_def is_space_def is_line_break_def)
  then show ?thesis
    using assms W_Quoted text_quotes(2) [of s q] by (simp add: plain_text_def inner_text_def) (simp add: good_text_def one_line_def)
qed

lemma written_text:
  assumes "good_written w"
  shows "show_written w \<noteq> []" "one_line (show_written w)" "\<not> is_space (hd (show_written w))" "\<not> is_space (last (show_written w))"
    "strip_quotes (show_written w) = inner_text w" "inner_text w \<noteq> []"
  using written_plain [OF assms] by (simp_all add: plain_text_def)

lemma written_value:
  assumes "good_written w"
  shows "number_or_text (inner_text w) = Inr (number_value w)" "digits_or_text (inner_text w) = Inr (digits_value w)"
proof -
  have i: "py_isdigit (show_int i)" "py_int (show_int i) = Inr i" if "0 \<le> i" for i
    using int_text(4) [OF that] py_int_show [OF that] that by (auto simp: show_int_def all_digits_def py_isdigit_def list_all_iff)
  show "number_or_text (inner_text w) = Inr (number_value w)"
    using assms i float_repr_no_digits py_float_float_repr
    by (cases w) (simp_all add: inner_text_def number_or_text_def good_text_def float_error_def)
  show "digits_or_text (inner_text w) = Inr (digits_value w)"
    using assms i float_repr_no_digits
    by (cases w) (simp_all add: inner_text_def digits_or_text_def digits_value_def good_text_def)
qed

section \<open>Lines\<close>

lemma splitlines_line:
  assumes "one_line l"
  shows "splitlines (l @ CHR 0x0A # s) = l # splitlines s"
proof -
  have "is_line_break CHR 0x0A" by (simp add: is_line_break_def)
  then have "takeWhile (\<lambda>c. \<not> is_line_break c) (l @ CHR 0x0A # s) = l" "dropWhile (\<lambda>c. \<not> is_line_break c) (l @ CHR 0x0A # s) = CHR 0x0A # s"
    using assms by (simp_all add: one_line_def list_all_iff takeWhile_append dropWhile_append)
  moreover have "drop_break (CHR 0x0A # s) = s" by (cases s) (simp_all add: drop_break_def)
  ultimately show ?thesis by (subst splitlines.simps) simp
qed

lemma splitlines_lines: "list_all one_line ls \<Longrightarrow> splitlines (concat (map (\<lambda>l. l @ [CHR 0x0A]) ls)) = ls"
proof (induction ls)
  case Nil
  show ?case by (subst splitlines.simps) simp
next
  case (Cons l ls)
  then show ?case using splitlines_line [of l] by simp
qed

lemma space_char [simp]: "is_space CHR '' ''" "\<not> is_space CHR '':''"
  by (simp_all add: is_space_def)

lemma py_strip_ends:
  assumes "s \<noteq> []" "\<not> is_space (hd s)" "\<not> is_space (last s)"
  shows "py_strip (replicate n (CHR '' '') @ s) = s" "indent_of (replicate n (CHR '' '') @ s) = n"
proof -
  have "dropWhile is_space (replicate n (CHR '' '') @ s) = s" using assms by (induction n) (cases s; simp)+
  moreover have "dropWhile is_space (rev s) = rev s" using assms(1,3) by (cases s rule: rev_cases) auto
  ultimately show "py_strip (replicate n (CHR '' '') @ s) = s" by (simp add: py_strip_def strip_set_def)
  show "indent_of (replicate n (CHR '' '') @ s) = n" using assms(1,2) by (induction n) (cases s; simp add: indent_of_def)+
qed

lemma key_value_field:
  assumes "good_key k"
  shows "good_written w \<Longrightarrow> key_value (k @ '': '' @ show_written w) = (k, inner_text w)" "key_value (k @ '':'') = (k, [])"
proof -
  have no_colon: "takeWhile (\<lambda>c. c \<noteq> CHR '':'') (k @ CHR '':'' # r) = k" "dropWhile (\<lambda>c. c \<noteq> CHR '':'') (k @ CHR '':'' # r) = CHR '':'' # r" for r
    using assms(1) by (auto simp: good_key_def takeWhile_append dropWhile_append)
  have k: "py_strip k = k" using py_strip_ends(1) [of k 0] assms(1) by (simp add: good_key_def)
  show "key_value (k @ '': '' @ show_written w) = (k, inner_text w)" if w: "good_written w"
  proof -
    have "py_strip (CHR '' '' # show_written w) = show_written w" using py_strip_ends(1) [of "show_written w" 1] written_text [OF w] by simp
    then show ?thesis using no_colon k written_text(5) [OF w] by (simp add: key_value_def before_colon_def after_colon_def)
  qed
  show "key_value (k @ '':'') = (k, [])"
    using no_colon [of "[]"] k by (simp add: key_value_def before_colon_def after_colon_def py_strip_def strip_quotes_def strip_set_def)
qed

lemma key_line:
  assumes "good_key k"
  shows "py_strip (k @ '':'') = k @ '':''" "indent_of (k @ '':'') = 0" "take 1 (k @ r) \<noteq> ''#''" "take 5 (k @ r) \<noteq> ''- id:''"
proof -
  have k: "k \<noteq> []" "\<not> is_space (hd k)" using assms by (simp_all add: good_key_def)
  then have "k @ '':'' \<noteq> []" "\<not> is_space (hd (k @ '':''))" "\<not> is_space (last (k @ '':''))" by simp_all
  from py_strip_ends [OF this, of 0] show "py_strip (k @ '':'') = k @ '':''" "indent_of (k @ '':'') = 0" by simp_all
  show "take 1 (k @ r) \<noteq> ''#''" "take 5 (k @ r) \<noteq> ''- id:''" using assms(1) by (cases k; auto simp: good_key_def)+
qed

lemma field_line:
  assumes "good_key k" "good_written w"
  shows "py_strip (replicate n (CHR '' '') @ k @ '': '' @ show_written w) = k @ '': '' @ show_written w"
    "indent_of (replicate n (CHR '' '') @ k @ '': '' @ show_written w) = n"
proof -
  have k: "k \<noteq> []" "\<not> is_space (hd k)" using assms(1) by (simp_all add: good_key_def)
  then have "k @ '': '' @ show_written w \<noteq> []" "\<not> is_space (hd (k @ '': '' @ show_written w))" "\<not> is_space (last (k @ '': '' @ show_written w))"
    using written_text(1,4) [OF assms(2)] by simp_all
  from py_strip_ends [OF this, of n]
  show "py_strip (replicate n (CHR '' '') @ k @ '': '' @ show_written w) = k @ '': '' @ show_written w"
    "indent_of (replicate n (CHR '' '') @ k @ '': '' @ show_written w) = n" .
qed

lemma id_line:
  assumes "0 \<le> i"
  shows "py_strip (''  - id: '' @ show_int i) = ''- id: '' @ show_int i" "py_int (py_strip (after_colon (''- id: '' @ show_int i))) = Inr i"
proof -
  have last: "\<not> is_space (last (show_int i))" "show_int i \<noteq> []" "\<not> is_space (hd (show_int i))"
    using show_base_digits [OF assms, of "last (show_base 10 i)"] show_base_digits [OF assms, of "hd (show_base 10 i)"] assms
    by (auto simp: show_int_def is_space_def is_digit_def Let_def)
  have two: "''  '' = replicate 2 (CHR '' '')" by (simp add: numeral_2_eq_2)
  have "py_strip (replicate 2 (CHR '' '') @ (''- id: '' @ show_int i)) = ''- id: '' @ show_int i"
    using last by (intro py_strip_ends(1)) (simp_all add: is_space_def)
  then show "py_strip (''  - id: '' @ show_int i) = ''- id: '' @ show_int i" by (simp add: numeral_2_eq_2)
  have "after_colon (''- id: '' @ show_int i) = replicate 1 (CHR '' '') @ show_int i" by (simp add: after_colon_def)
  then have "py_strip (after_colon (''- id: '' @ show_int i)) = show_int i" using py_strip_ends(1) [of "show_int i" 1] last by simp
  then show "py_int (py_strip (after_colon (''- id: '' @ show_int i))) = Inr i" using assms py_int_show by (simp add: show_int_def)
qed

section \<open>What the reader does with each kind of line\<close>

text \<open>A line with a key, after the tests for comments and items.\<close>

definition read_key_line :: "(string \<Rightarrow> scalar result) \<Rightarrow> nat \<Rightarrow> string \<Rightarrow> string \<Rightarrow> reader \<Rightarrow> reader result" where
  "read_key_line sc n k v st =
     (if rd_in_item st \<and> 4 \<le> n then rbind (number_or_text v) (\<lambda>x. Inr (set_item_field k x st))
      else if n = 0 then (if v = [] then Inr (open_section k st) else rbind (sc v) (\<lambda>x. Inr (set_top k x st)))
      else if in_section st then
        (case dict_get (rd_result st) (rd_section st) of
           Some (E_Section d) \<Rightarrow> rbind (sc v) (\<lambda>x. Inr (set_section_field k x st))
         | _ \<Rightarrow> Inr st)
      else Inr st)"

lemma read_line_key:
  assumes "py_strip raw = line" "key_value line = (k, v)" "line \<noteq> []" "take 1 line \<noteq> ''#''" "take 5 line \<noteq> ''- id:''" "CHR '':'' \<in> set line"
  shows "read_line sc auto raw st = read_key_line sc (indent_of raw) k v st"
  unfolding read_line_def read_key_line_def assms(1) Let_def assms(2) prod.case using assms(3-6) by simp

lemma read_field_line:
  assumes "good_field (k, w)"
  shows "read_line sc auto (render_field n (k, w)) st = read_key_line sc n k (inner_text w) st"
proof -
  have g: "good_key k" "good_written w" using assms by (simp_all add: good_field_def)
  have r: "render_field n (k, w) = replicate n (CHR '' '') @ k @ '': '' @ show_written w" by (simp add: render_field_def)
  note fl = field_line(1,2) [OF g, of n]
  show ?thesis
    unfolding r using read_line_key [OF fl(1) key_value_field(1) [OF g]] key_line(3,4) [OF g(1), of "'': '' @ show_written w"] fl(2) by simp
qed

text \<open>A reader of top-level and section values, and the values it reads.\<close>

definition reads :: "(string \<Rightarrow> scalar result) \<Rightarrow> (written \<Rightarrow> scalar) \<Rightarrow> bool" where
  "reads sc val \<longleftrightarrow> (\<forall>w. good_written w \<longrightarrow> sc (inner_text w) = Inr (val w))"

lemma readers: "reads number_or_text number_value" "reads digits_or_text digits_value"
  using written_value by (simp_all add: reads_def)

lemma read_scalar_line:
  assumes "reads sc val" "good_field (k, w)"
  shows "read_line sc auto (render_field 0 (k, w)) st = Inr (set_top k (val w) st)"
proof -
  have w: "good_written w" using assms(2) by (simp add: good_field_def)
  then have "sc (inner_text w) = Inr (val w)" using assms(1) by (simp add: reads_def)
  then show ?thesis using written_text(6) [OF w] by (simp add: read_field_line [OF assms(2)] read_key_line_def)
qed

lemma read_section_line:
  assumes "good_key k"
  shows "read_line sc auto (k @ '':'') st = Inr (open_section k st)"
proof -
  note fl = key_line(1,2) [OF assms]
  show ?thesis
    using read_line_key [OF fl(1) key_value_field(2) [OF assms]] key_line(3,4) [OF assms, of "'':''"] fl(2) by (simp add: read_key_line_def)
qed

lemma read_section_field:
  assumes "reads sc val" "good_field (k, w)" "in_section st" "dict_get (rd_result st) (rd_section st) = Some (E_Section d)" "\<not> rd_in_item st"
  shows "read_line sc auto (render_field 2 (k, w)) st = Inr (set_section_field k (val w) st)"
proof -
  have "sc (inner_text w) = Inr (val w)" using assms(1,2) by (simp add: reads_def good_field_def)
  then show ?thesis unfolding read_field_line [OF assms(2)] using assms(3-5) by (simp add: read_key_line_def)
qed

lemma read_item_line:
  assumes "0 \<le> i" "dict_get (rd_result st) (rd_section st) \<noteq> None"
  shows "read_line sc auto (''  - id: '' @ show_int i) st = append_item i st"
  using assms id_line [of i] by (auto simp: read_line_def Let_def split: prod.split)

lemma read_item_field:
  assumes "good_field (k, w)" "rd_in_item st"
  shows "read_line sc auto (render_field 4 (k, w)) st = Inr (set_item_field k (number_value w) st)"
  unfolding read_field_line [OF assms(1)] using assms written_value(1) [of w] by (simp add: read_key_line_def good_field_def)

section \<open>Blocks\<close>

lemma read_lines_append: "read_lines sc auto (ls @ ls') st = rbind (read_lines sc auto ls st) (read_lines sc auto ls')"
proof (induction ls arbitrary: st)
  case (Cons l ls)
  then show ?case by (cases "read_line sc auto l st") simp_all
qed simp

lemma last_entry:
  assumes "k \<notin> fst ` set d"
  shows "dict_get (d @ [(k, e)]) k = Some e" "dict_set k e' (d @ [(k, e)]) = d @ [(k, e')]"
    "dict_adjust k f (d @ [(k, e)]) = d @ [(k, f e)]"
proof -
  show get: "dict_get (d @ [(k, e)]) k = Some e" using assms by (induction d) auto
  show set: "dict_set k e' (d @ [(k, e)]) = d @ [(k, e')]" for e' using assms by (induction d) auto
  show "dict_adjust k f (d @ [(k, e)]) = d @ [(k, f e)]" by (simp only: dict_adjust_def get option.case set)
qed

lemma read_section_fields:
  assumes "reads sc val" "list_all good_field fs" "distinct (map fst d @ map fst fs)" "k \<noteq> []" "Some k \<notin> fst ` set pre"
  shows "read_lines sc auto (map (render_field 2) fs) \<lparr>rd_result = pre @ [(Some k, E_Section d)], rd_section = Some k, rd_in_item = False\<rparr>
    = Inr \<lparr>rd_result = pre @ [(Some k, E_Section (d @ map (field_entry val) fs))], rd_section = Some k, rd_in_item = False\<rparr>"
  using assms(2,3)
proof (induction fs arbitrary: d)
  case (Cons f fs)
  obtain n w where f: "f = (n, w)" by fastforce
  let ?st = "\<lparr>rd_result = pre @ [(Some k, E_Section d)], rd_section = Some k, rd_in_item = False\<rparr>"
  have "in_section ?st" using assms(4) by (simp add: in_section_def)
  moreover have "dict_get (rd_result ?st) (rd_section ?st) = Some (E_Section d)" using last_entry(1) [OF assms(5)] by simp
  moreover have "set_section_field n (val w) ?st = ?st\<lparr>rd_result := pre @ [(Some k, E_Section (d @ [(n, val w)]))]\<rparr>"
  proof -
    have "dict_set n (val w) d = d @ [(n, val w)]" using Cons.prems(2) f by (intro dict_set_new) auto
    then show ?thesis by (simp add: set_section_field_def last_entry(3) [OF assms(5)])
  qed
  ultimately show ?case
    using Cons.IH [of "d @ [(n, val w)]"] Cons.prems read_section_field [OF assms(1), of n w ?st] by (simp add: f field_entry_def)
qed simp

lemma read_item_fields:
  assumes "list_all good_field fs" "distinct (map fst it @ map fst fs)" "Some k \<notin> fst ` set pre"
  shows "read_lines sc auto (map (render_field 4) fs) \<lparr>rd_result = pre @ [(Some k, E_Items (xs @ [it]))], rd_section = Some k, rd_in_item = True\<rparr>
    = Inr \<lparr>rd_result = pre @ [(Some k, E_Items (xs @ [it @ map (field_entry number_value) fs]))], rd_section = Some k, rd_in_item = True\<rparr>"
  using assms(1,2)
proof (induction fs arbitrary: it)
  case (Cons f fs)
  obtain n w where f: "f = (n, w)" by fastforce
  let ?st = "\<lparr>rd_result = pre @ [(Some k, E_Items (xs @ [it]))], rd_section = Some k, rd_in_item = True\<rparr>"
  have "set_item_field n (number_value w) ?st = ?st\<lparr>rd_result := pre @ [(Some k, E_Items (xs @ [it @ [(n, number_value w)]]))]\<rparr>"
  proof -
    have "dict_set n (number_value w) it = it @ [(n, number_value w)]" using Cons.prems(2) f by (intro dict_set_new) auto
    then show ?thesis by (simp add: set_item_field_def last_entry(3) [OF assms(3)])
  qed
  then show ?case
    using Cons.IH [of "it @ [(n, number_value w)]"] Cons.prems read_item_field [of n w ?st] by (simp add: f field_entry_def)
qed simp

definition item_entry :: "int \<times> field list \<Rightarrow> item" where
  "item_entry it = (case it of (i, fs) \<Rightarrow> (''id'', C_Int i) # map (field_entry number_value) fs)"

definition render_item :: "int \<times> field list \<Rightarrow> string list" where
  "render_item it = (case it of (i, fs) \<Rightarrow> (''  - id: '' @ show_int i) # map (render_field 4) fs)"

lemma read_items:
  assumes "list_all good_item its" "Some k \<notin> fst ` set pre"
  shows "\<exists>b'. read_lines sc auto (concat (map render_item its)) \<lparr>rd_result = pre @ [(Some k, E_Items xs)], rd_section = Some k, rd_in_item = b\<rparr>
    = Inr \<lparr>rd_result = pre @ [(Some k, E_Items (xs @ map item_entry its))], rd_section = Some k, rd_in_item = b'\<rparr>"
  using assms(1)
proof (induction its arbitrary: xs b)
  case (Cons it its)
  obtain i fs where it: "it = (i, fs)" by fastforce
  have g: "0 \<le> i" "list_all good_field fs" "distinct (map fst [(''id'', C_Int i)] @ map fst fs)"
    using Cons.prems by (simp_all add: it good_item_def)
  let ?st = "\<lparr>rd_result = pre @ [(Some k, E_Items xs)], rd_section = Some k, rd_in_item = b\<rparr>"
  have get: "dict_get (rd_result ?st) (rd_section ?st) = Some (E_Items xs)" using last_entry(1) [OF assms(2)] by simp
  have "read_line sc auto (''  - id: '' @ show_int i) ?st
      = Inr \<lparr>rd_result = pre @ [(Some k, E_Items (xs @ [[(''id'', C_Int i)]]))], rd_section = Some k, rd_in_item = True\<rparr>"
    using read_item_line [OF g(1), of ?st sc auto] get unfolding append_item_def get by (simp add: last_entry(2) [OF assms(2)])
  then have "read_lines sc auto (render_item it) ?st
      = Inr \<lparr>rd_result = pre @ [(Some k, E_Items (xs @ [item_entry it]))], rd_section = Some k, rd_in_item = True\<rparr>"
    using read_item_fields [OF g(2,3) assms(2)] by (simp add: it render_item_def item_entry_def)
  then show ?case using Cons.IH [of "xs @ [item_entry it]" True] Cons.prems by (simp add: read_lines_append)
qed auto

lemma read_block:
  assumes "reads sc val" "good_block b" "Some (block_key b) \<notin> fst ` set (rd_result st)"
  shows "\<exists>st'. read_lines sc auto (render_block b) st = Inr st' \<and> rd_result st' = rd_result st @ [block_entry val b]"
proof (cases b)
  case (B_Scalar f)
  obtain k w where f: "f = (k, w)" by fastforce
  then show ?thesis using assms B_Scalar read_scalar_line [OF assms(1), of k w auto st] by (simp add: set_top_def dict_set_new)
next
  case (B_Section k fs)
  then have k: "good_key k" "k \<noteq> []" "Some k \<notin> fst ` set (rd_result st)" using assms by (simp_all add: good_key_def)
  have "open_section k st = \<lparr>rd_result = rd_result st @ [(Some k, E_Section [])], rd_section = Some k, rd_in_item = False\<rparr>"
    using assms B_Section by (simp add: open_section_def dict_set_new)
  then show ?thesis
    using read_section_line [OF k(1), of sc auto st] read_section_fields [OF assms(1) _ _ k(2,3), of fs "[]" auto] assms(2) B_Section by simp
next
  case (B_Nodes its)
  have n: "Some ''nodes'' \<notin> fst ` set (rd_result st)" using assms(3) B_Nodes by simp
  have "good_key ''nodes''" by (simp add: good_key_def one_line_def is_line_break_def is_space_def)
  note line = read_section_line [OF this, of sc auto st]
  have op: "open_section ''nodes'' st = \<lparr>rd_result = rd_result st @ [(Some ''nodes'', E_Items [])], rd_section = Some ''nodes'', rd_in_item = False\<rparr>"
    using n by (simp add: open_section_def dict_set_new)
  obtain b' where "read_lines sc auto (concat (map render_item its)) (open_section ''nodes'' st)
      = Inr \<lparr>rd_result = rd_result st @ [(Some ''nodes'', E_Items (map item_entry its))], rd_section = Some ''nodes'', rd_in_item = b'\<rparr>"
    using read_items [OF _ n, of its sc auto "[]" False] assms(2) B_Nodes op by auto
  then show ?thesis using line by (simp add: B_Nodes render_item_def [abs_def] item_entry_def [abs_def])
qed

lemma read_blocks:
  assumes "reads sc val" "list_all good_block bs" "distinct (map fst (rd_result st) @ map (Some \<circ> block_key) bs)"
  shows "\<exists>st'. read_lines sc auto (concat (map render_block bs)) st = Inr st' \<and> rd_result st' = rd_result st @ map (block_entry val) bs"
  using assms(2,3)
proof (induction bs arbitrary: st)
  case (Cons b bs)
  then obtain st1 where st1: "read_lines sc auto (render_block b) st = Inr st1" "rd_result st1 = rd_result st @ [block_entry val b]"
    using read_block [OF assms(1), of b st auto] by auto
  then show ?case using Cons.IH [of st1] Cons.prems by (auto simp: read_lines_append)
qed auto

text \<open>Blank lines and comments are skipped wherever they stand.\<close>

lemma skipped: "blank_or_comment l \<Longrightarrow> read_line sc auto l st = Inr st"
proof -
  let ?t = "dropWhile is_space l"
  assume "blank_or_comment l"
  then consider "?t = []" | r where "?t = CHR ''#'' # r" by (cases ?t) (auto simp: blank_or_comment_def Let_def)
  then have "py_strip l = [] \<or> take 1 (py_strip l) = ''#''"
  proof cases
    case (2 r)
    have "\<not> is_space CHR ''#''" by (simp add: is_space_def)
    then have "rev (dropWhile is_space (rev r @ [CHR ''#''])) = CHR ''#'' # rev (dropWhile is_space (rev r))"
      by (auto simp: dropWhile_append dest: set_dropWhileD)
    then show ?thesis using 2 by (simp add: py_strip_def strip_set_def)
  qed (simp add: py_strip_def strip_set_def del: dropWhile_eq_Nil_conv)
  then show ?thesis by (simp add: read_line_def Let_def split: prod.split)
qed

lemma read_lines_filter: "read_lines sc auto ls st = read_lines sc auto (filter (\<lambda>l. \<not> blank_or_comment l) ls) st"
proof (induction ls arbitrary: st)
  case (Cons l ls)
  then show ?case by (cases "blank_or_comment l"; cases "read_line sc auto l st") (simp_all add: skipped)
qed simp

lemma parse_rendered:
  assumes "reads sc val" "good_blocks bs" "lays_out ls bs"
  shows "rbind (read_lines sc auto (splitlines (file_text ls)) new_reader) (\<lambda>st. Inr (rd_result st)) = Inr (map (block_entry val) bs)"
proof -
  have "distinct (map (Some \<circ> block_key) bs)" using assms(2) by (simp add: good_blocks_def distinct_map inj_on_def comp_def)
  then have g: "list_all good_block bs" "distinct (map fst (rd_result new_reader) @ map (Some \<circ> block_key) bs)"
    using assms(2) by (simp_all add: good_blocks_def new_reader_def)
  have "splitlines (file_text ls) = ls" using assms(3) by (simp add: lays_out_def file_text_def splitlines_lines)
  then have "read_lines sc auto (splitlines (file_text ls)) new_reader = read_lines sc auto (concat (map render_block bs)) new_reader"
    using assms(3) by (subst read_lines_filter) (simp add: lays_out_def)
  then show ?thesis using read_blocks [OF assms(1) g, of auto] by (auto simp: new_reader_def)
qed


text \<open>\<open>configs/superpod_kunpeng_ascend.yaml\<close>, line by line, and what it says.\<close>

definition shipped_lines :: "string list" where
  "shipped_lines =
    [''cluster_name: \"Huawei-Ascend-SuperPoD-Cluster\"'',
     ''topology: \"Dragonfly+\"'',
     [],
     ''fabric:'',
     ''  bandwidth_gbps: 800.0'',
     ''  hop_latency_ns: 15.0'',
     ''  switch_count: 2'',
     ''  virtual_lanes: 4'',
     ''  credit_buffer_kb: 512'',
     [],
     ''nodes:'',
     ''  # Host Compute Nodes (Kunpeng 920/930 ARM CPUs)'',
     ''  - id: 1'',
     ''    type: \"KUNPENG_CPU_HOST\"'',
     ''    arch: \"aarch64\"'',
     ''    cores: 64'',
     ''    memory: \"256GB_DDR5\"'',
     ''    ub_port: 0'',
     [],
     ''  - id: 2'',
     ''    type: \"KUNPENG_CPU_HOST\"'',
     ''    arch: \"aarch64\"'',
     ''    cores: 64'',
     ''    memory: \"256GB_DDR5\"'',
     ''    ub_port: 1'',
     [],
     ''  # AI Accelerator Nodes (Ascend 910B/910C NPUs)'',
     ''  - id: 3'',
     ''    type: \"ASCEND_NPU_ACCEL\"'',
     ''    arch: \"da_vinci_v2\"'',
     ''    ai_cores: 32'',
     ''    memory: \"64GB_HBM3\"'',
     ''    ub_port: 2'',
     [],
     ''  - id: 4'',
     ''    type: \"ASCEND_NPU_ACCEL\"'',
     ''    arch: \"da_vinci_v2\"'',
     ''    ai_cores: 32'',
     ''    memory: \"64GB_HBM3\"'',
     ''    ub_port: 3'',
     [],
     ''  - id: 5'',
     ''    type: \"ASCEND_NPU_ACCEL\"'',
     ''    arch: \"da_vinci_v2\"'',
     ''    ai_cores: 32'',
     ''    memory: \"64GB_HBM3\"'',
     ''    ub_port: 4'',
     [],
     ''  - id: 6'',
     ''    type: \"ASCEND_NPU_ACCEL\"'',
     ''    arch: \"da_vinci_v2\"'',
     ''    ai_cores: 32'',
     ''    memory: \"64GB_HBM3\"'',
     ''    ub_port: 5'',
     [],
     ''  # Disaggregated Pooled Memory Nodes (OBMM / UBs Mem)'',
     ''  - id: 7'',
     ''    type: \"POOLED_MEM_APPLIANCE\"'',
     ''    arch: \"cxl_ub_bridge\"'',
     ''    memory: \"1024GB_DDR5\"'',
     ''    ub_port: 6'',
     [],
     ''  - id: 8'',
     ''    type: \"POOLED_MEM_APPLIANCE\"'',
     ''    arch: \"cxl_ub_bridge\"'',
     ''    memory: \"1024GB_DDR5\"'',
     ''    ub_port: 7'']"

abbreviation quoted :: "string \<Rightarrow> written" where
  "quoted \<equiv> W_Quoted (CHR 0x22)"

definition shipped_blocks :: "block list" where
  "shipped_blocks =
    [B_Scalar (''cluster_name'', quoted ''Huawei-Ascend-SuperPoD-Cluster''),
     B_Scalar (''topology'', quoted ''Dragonfly+''),
     B_Section ''fabric'' [(''bandwidth_gbps'', W_Float 800), (''hop_latency_ns'', W_Float 15),
          (''switch_count'', W_Int 2), (''virtual_lanes'', W_Int 4), (''credit_buffer_kb'', W_Int 512)],
     B_Nodes
      [(1, [(''type'', quoted ''KUNPENG_CPU_HOST''), (''arch'', quoted ''aarch64''), (''cores'', W_Int 64),
          (''memory'', quoted ''256GB_DDR5''), (''ub_port'', W_Int 0)]),
       (2, [(''type'', quoted ''KUNPENG_CPU_HOST''), (''arch'', quoted ''aarch64''), (''cores'', W_Int 64),
          (''memory'', quoted ''256GB_DDR5''), (''ub_port'', W_Int 1)]),
       (3, [(''type'', quoted ''ASCEND_NPU_ACCEL''), (''arch'', quoted ''da_vinci_v2''), (''ai_cores'', W_Int 32),
          (''memory'', quoted ''64GB_HBM3''), (''ub_port'', W_Int 2)]),
       (4, [(''type'', quoted ''ASCEND_NPU_ACCEL''), (''arch'', quoted ''da_vinci_v2''), (''ai_cores'', W_Int 32),
          (''memory'', quoted ''64GB_HBM3''), (''ub_port'', W_Int 3)]),
       (5, [(''type'', quoted ''ASCEND_NPU_ACCEL''), (''arch'', quoted ''da_vinci_v2''), (''ai_cores'', W_Int 32),
          (''memory'', quoted ''64GB_HBM3''), (''ub_port'', W_Int 4)]),
       (6, [(''type'', quoted ''ASCEND_NPU_ACCEL''), (''arch'', quoted ''da_vinci_v2''), (''ai_cores'', W_Int 32),
          (''memory'', quoted ''64GB_HBM3''), (''ub_port'', W_Int 5)]),
       (7, [(''type'', quoted ''POOLED_MEM_APPLIANCE''), (''arch'', quoted ''cxl_ub_bridge''),
          (''memory'', quoted ''1024GB_DDR5''), (''ub_port'', W_Int 6)]),
       (8, [(''type'', quoted ''POOLED_MEM_APPLIANCE''), (''arch'', quoted ''cxl_ub_bridge''),
          (''memory'', quoted ''1024GB_DDR5''), (''ub_port'', W_Int 7)])]]"

lemma shipped_floats: "good_field (''bandwidth_gbps'', W_Float 800)" "good_field (''hop_latency_ns'', W_Float 15)"
proof -
  have "fl 800 = (800 :: rat)" "fl 15 = (15 :: rat)" using fl_of_int [of 800] fl_of_int [of 15] by simp_all
  moreover have "good_key ''bandwidth_gbps''" "good_key ''hop_latency_ns''" by code_simp+
  ultimately show "good_field (''bandwidth_gbps'', W_Float 800)" "good_field (''hop_latency_ns'', W_Float 15)"
    by (simp_all add: good_field_def)
qed

lemma shipped_good: "good_blocks shipped_blocks" "lays_out shipped_lines shipped_blocks"
proof -
  have "list_all good_block shipped_blocks"
    unfolding shipped_blocks_def list.pred_inject good_block.simps
    by (intro conjI TrueI; (rule shipped_floats)?; code_simp?)
  moreover have "distinct (map block_key shipped_blocks)" by code_simp
  ultimately show "good_blocks shipped_blocks" by (simp add: good_blocks_def)
  show "lays_out shipped_lines shipped_blocks" by code_simp
qed


theorem readers_agree_witness:
  "\<exists>cfg'. runner_parse (file_text shipped_lines) = Inr cfg' \<and> config_rel (map (block_entry number_value) shipped_blocks) cfg'"
proof -
  have "launcher_parse (file_text shipped_lines) = Inr (map (block_entry number_value) shipped_blocks)"
    using parse_rendered [OF readers(1) shipped_good, of in_section] by (simp add: launcher_parse_def)
  then show ?thesis by (rule readers_agree)
qed

theorem items_have_ids_witness:
  "snd (snd (start_cluster (map (block_entry number_value) shipped_blocks))) \<noteq> Inl (KeyError ''id'')"
proof -
  have "launcher_parse (file_text shipped_lines) = Inr (map (block_entry number_value) shipped_blocks)"
    using parse_rendered [OF readers(1) shipped_good, of in_section] by (simp add: launcher_parse_def)
  then show ?thesis using items_have_ids by blast
qed

text \<open>Two nodes with the same id.\<close>

theorem shutdown_reaches_nodes_witness:
  "\<exists>ps procs. start_cluster [(Some ''nodes'', E_Items [[(''id'', C_Int 1)], [(''id'', C_Int 1)]])] = (ps, procs, Inr ())
    \<and> length ps = 2 \<and> length (shutdown_nodes procs) < 2"
proof -
  obtain p where p: "plan_node ''/tmp/ub-fabric/silicon.sock'' [(''id'', C_Int 1)] = Inr p" "np_id p = C_Int 1"
    by (simp add: plan_node_def field_or_def Let_def)
  obtain procs where s: "start_cluster [(Some ''nodes'', E_Items [[(''id'', C_Int 1)], [(''id'', C_Int 1)]])] = ([p, p], procs, Inr ())"
    using p by (simp add: start_cluster_def cluster_socket_def section_of_def field_or_def cluster_nodes_def)
  then show ?thesis using shutdown_reaches_nodes [OF s] p(2) by auto
qed

section \<open>The launched switch\<close>

fun scalar_value :: "scalar \<Rightarrow> pyfloat" where
  "scalar_value (C_Int i) = fl (of_int i)"
| "scalar_value (C_Float x) = x"
| "scalar_value (C_Str s) = 0"

text \<open>Numbers well inside the range of a float.\<close>

fun launchable :: "scalar \<Rightarrow> bool" where
  "launchable (C_Int i) \<longleftrightarrow> 0 \<le> i \<and> i < 2 ^ 1023"
| "launchable (C_Float x) \<longleftrightarrow> fl x = x \<and> \<bar>x\<bar> < 2 ^ 1023"
| "launchable (C_Str s) \<longleftrightarrow> False"

lemma launchable_reads: "launchable x \<Longrightarrow> py_float (show_scalar x) = Inr (scalar_value x)"
  by (cases x) (simp_all add: py_float_show show_int_def py_float_float_repr del: launchable.simps, simp_all add: py_float_show py_float_float_repr)

text \<open>
  C37. The launched switch has the configured parameters: for a configuration whose bandwidth and latency
  are numbers (or left out), the command line the launcher builds carries texts from which the daemon
  reads exactly these numbers, 800 and 15 where they are left out, and makes its switch with them.
\<close>

theorem launched_switch_matches_config:
  assumes "section_of ''fabric'' cfg = Inr d"
    and "launchable (field_or ''bandwidth_gbps'' (C_Float 800) d)" "launchable (field_or ''hop_latency_ns'' (C_Float 15) d)"
  shows "\<exists>bw lat. fabric_command python socket cfg
      = Inr [python, ''-m'', ''daemon.fabric'', ''--socket'', socket, ''--bw'', bw, ''--latency'', lat]
    \<and> daemon_fabric bw lat = Inr (new_fabric (scalar_value (field_or ''bandwidth_gbps'' (C_Float 800) d))
        (scalar_value (field_or ''hop_latency_ns'' (C_Float 15) d)))"
  using assms(1) launchable_reads [OF assms(2)] launchable_reads [OF assms(3)]
  by (simp add: fabric_command_def daemon_fabric_def)

theorem launched_switch_matches_config_witness:
  "\<exists>bw lat. daemon_fabric bw lat = Inr (new_fabric 400 15)"
proof -
  have f: "fl 400 = (400 :: rat)" "fl 15 = (15 :: rat)" using fl_of_int [of 400] fl_of_int [of 15] by simp_all
  have "section_of ''fabric'' [(Some ''fabric'', E_Section [(''bandwidth_gbps'', C_Int 400)])] = Inr [(''bandwidth_gbps'', C_Int 400)]"
    by (simp add: section_of_def)
  from launched_switch_matches_config [OF this, of "''python''" "''s''"] show ?thesis by (auto simp: field_or_def f)
qed

end
