(* ===== verification/Monitoring.thy ===== *)
theory Monitoring
  imports Fabric_Guest
begin

text \<open>
  The monitoring tools: the command line viewer \<open>ubctl\<close> (\<open>unifiedbus/ubctl.py\<close>) with its number
  formats, its queries and the lines it prints, and the two data endpoints of the dashboard
  (\<open>visualizer/dashboard.py\<close>). Printing is the list of lines; the HTTP server of the library, with the files it
  serves, and the help text of the argument parser are parameters.
\<close>

section \<open>Formats\<close>

definition pad_left :: "nat \<Rightarrow> string \<Rightarrow> string" where
  "pad_left w s = replicate (w - length s) (CHR '' '') @ s"

definition pad_right :: "nat \<Rightarrow> string \<Rightarrow> string" where
  "pad_right w s = s @ replicate (w - length s) (CHR '' '')"

definition zero_pad :: "nat \<Rightarrow> string \<Rightarrow> string" where
  "zero_pad w s = replicate (w - length s) (CHR ''0'') @ s"

text \<open>\<open>{x:.df}\<close> for \<open>d\<close> at least 1: the exact value rounded half to even.\<close>

definition show_fixed :: "nat \<Rightarrow> pyfloat \<Rightarrow> string" where
  "show_fixed d x =
     (let m = round_half_even (\<bar>x\<bar> * 10 ^ d)
      in (if x < 0 then ''-'' else []) @ show_base 10 (m div 10 ^ d) @ ''.'' @ zero_pad d (show_base 10 (m mod 10 ^ d)))"

text \<open>\<open>{n:0wX}\<close>: the sign counts for the width.\<close>

definition show_hex_pad :: "nat \<Rightarrow> int \<Rightarrow> string" where
  "show_hex_pad w n = (if n < 0 then ''-'' @ zero_pad (w - 1) (show_base 16 (- n)) else zero_pad w (show_base 16 n))"

text \<open>\<open>{n:,}\<close>.\<close>

fun group_thousands :: "string \<Rightarrow> string" where
  "group_thousands (a # b # c # d # r) = a # b # c # CHR '','' # group_thousands (d # r)"
| "group_thousands s = s"

definition show_grouped :: "int \<Rightarrow> string" where
  "show_grouped n = (if n < 0 then ''-'' else []) @ rev (group_thousands (rev (show_base 10 \<bar>n\<bar>)))"

text \<open>The loop of \<open>format_bytes\<close> once the number is a float.\<close>

fun format_units :: "string list \<Rightarrow> pyfloat \<Rightarrow> string" where
  "format_units [] x = show_fixed 1 x @ '' PB''"
| "format_units (u # us) x =
     (if \<bar>x\<bar> < 1024 then pad_left 3 (show_fixed 1 x) @ '' '' @ u else format_units us (fl (x / 1024)))"

definition format_bytes :: "int \<Rightarrow> string result" where
  "format_bytes n =
     (if \<bar>n\<bar> < 1024 then Inr (pad_left 3 (show_fixed 1 (of_int n)) @ '' B'')
      else rbind (float_of_int n) (\<lambda>x. Inr (format_units [''KB'', ''MB'', ''GB'', ''TB''] (fl (x / 1024)))))"

section \<open>Fields of decoded objects\<close>

text \<open>\<open>v[k]\<close>; \<open>format_bytes\<close> and the hexadecimal formats get integers.\<close>

definition field_of :: "string \<Rightarrow> json \<Rightarrow> json result" where
  "field_of k v =
     (case v of
        JObj ms \<Rightarrow> (case dict_get ms k of None \<Rightarrow> Inl (KeyError k) | Some x \<Rightarrow> Inr x)
      | _ \<Rightarrow> Inl TypeError)"

definition int_field :: "string \<Rightarrow> json \<Rightarrow> int result" where
  "int_field k v = rbind (field_of k v) as_int"

definition text_field :: "string \<Rightarrow> json \<Rightarrow> string result" where
  "text_field k v = rbind (field_of k v) py_str"

text \<open>\<open>meta.get(k, [])\<close> as the list to loop over.\<close>

definition list_get :: "string \<Rightarrow> packet \<Rightarrow> json list result" where
  "list_get k p =
     rbind (meta_get k (JList []) p) (\<lambda>v. case v of JList vs \<Rightarrow> Inr vs | _ \<Rightarrow> Inl (Unmodelled ''field is no list''))"

definition text_get :: "string \<Rightarrow> json \<Rightarrow> packet \<Rightarrow> string result" where
  "text_get k d p = rbind (meta_get k d p) py_str"

text \<open>The rows of a loop, in order; the first error ends it.\<close>

primrec rows :: "('a \<Rightarrow> string list result) \<Rightarrow> 'a list \<Rightarrow> string list result" where
  "rows f [] = Inr []"
| "rows f (x # xs) = rbind (f x) (\<lambda>ls. rbind (rows f xs) (\<lambda>rest. Inr (ls @ rest)))"

definition rule_line :: "nat \<Rightarrow> char \<Rightarrow> string" where
  "rule_line n c = replicate n c"

section \<open>The topology view\<close>

definition UBCTL_NODE :: int where
  "UBCTL_NODE = 65534"

definition query_packet :: "int \<Rightarrow> int \<Rightarrow> int \<Rightarrow> packet" where
  "query_packet opc src seq = ub_packet opc src 0 0 0 FLAG_NONE seq zero_tag (JObj []) []"

definition node_row :: "json \<Rightarrow> string list result" where
  "node_row n =
     rbind (int_field ''node_id'' n) (\<lambda>i.
       if i = UBCTL_NODE then Inr []
       else
         rbind (rbind (field_of ''node_type'' n) as_str) (\<lambda>ty.
         rbind (rbind (int_field ''tx_bytes'' n) format_bytes) (\<lambda>tx.
         rbind (rbind (int_field ''rx_bytes'' n) format_bytes) (\<lambda>rx.
         rbind (text_field ''uptime_sec'' n) (\<lambda>up.
           Inr [''  0x'' @ show_hex_pad 4 i @ ''    '' @ pad_right 18 ty @ '' '' @ pad_right 14 tx @ '' '' @ pad_right 14 rx @ '' '' @ up @ ''s''])))))"

definition pool_row :: "json \<Rightarrow> string list result" where
  "pool_row p =
     rbind (int_field ''pool_id'' p) (\<lambda>i.
     rbind (int_field ''owner_node'' p) (\<lambda>ow.
     rbind (rbind (int_field ''size_bytes'' p) format_bytes) (\<lambda>sz.
     rbind (int_field ''token_id'' p) (\<lambda>tok.
     rbind (text_field ''permissions'' p) (\<lambda>perm.
       Inr [''  0x'' @ show_hex_pad 4 i @ ''      Node '' @ pad_right 5 (show_int ow) @ '' '' @ pad_right 14 sz @ '' 0x''
            @ show_hex_pad 8 tok @ ''     '' @ perm])))))"

definition topology_head :: "string \<Rightarrow> string \<Rightarrow> bool \<Rightarrow> string list" where
  "topology_head sw bw no_nodes =
     [rule_line 75 (CHR ''=''), '' UnifiedBus (UB) SuperPoD Topology Viewer - '' @ sw,
      '' Fabric Bandwidth: '' @ bw @ '' Gbps | Link Status: ACTIVE'', rule_line 75 (CHR ''=''),
      pad_right 10 ''Node ID'' @ '' '' @ pad_right 18 ''Type'' @ '' '' @ pad_right 14 ''TX Traffic'' @ '' ''
        @ pad_right 14 ''RX Traffic'' @ '' '' @ pad_right 10 ''Uptime'', rule_line 75 (CHR ''-'')]
     @ (if no_nodes then [''  No nodes currently attached to the UB fabric.''] else [])"

definition pool_head :: "bool \<Rightarrow> string list" where
  "pool_head no_pools =
     (if no_pools then []
      else [[], rule_line 75 (CHR ''=''), '' Active UB Memory Pools (OBMM / Disaggregated Memory)'', rule_line 75 (CHR ''=''),
            pad_right 12 ''Pool ID'' @ '' '' @ pad_right 10 ''Owner'' @ '' '' @ pad_right 14 ''Size'' @ '' ''
              @ pad_right 14 ''TokenID'' @ '' '' @ pad_right 10 ''Permissions'', rule_line 75 (CHR ''-'')])"

definition topology_lines :: "packet \<Rightarrow> string list result" where
  "topology_lines resp =
     rbind (text_get ''switch'' (JStr ''UB-Switch'') resp) (\<lambda>sw.
     rbind (text_get ''link_bw_gbps'' (JFloat 800) resp) (\<lambda>bw.
     rbind (list_get ''nodes'' resp) (\<lambda>ns.
     rbind (rows node_row ns) (\<lambda>nrows.
     rbind (list_get ''memory_pools'' resp) (\<lambda>ps.
     rbind (rows pool_row ps) (\<lambda>prows.
       Inr (topology_head sw bw (ns = []) @ nrows @ pool_head (ps = []) @ prows @ [rule_line 75 (CHR ''='')])))))))"

text \<open>The command on a connected device, which it closes after the answer; an exception of the call leaves it open.\<close>

definition query :: "int \<Rightarrow> int \<Rightarrow> bytes list \<Rightarrow> ub_device \<Rightarrow> ub_device \<times> bytes \<times> packet result" where
  "query opc src cs dev =
     (case get_seq dev of (dev1, seq) \<Rightarrow>
        (case send_sync (query_packet opc src seq) cs dev1 of
           (dev2, bs, Inl e) \<Rightarrow> (dev2, bs, Inl e)
         | (dev2, bs, Inr resp) \<Rightarrow> (close_device dev2, bs, Inr resp)))"

definition cmd_topology :: "bytes list \<Rightarrow> ub_device \<Rightarrow> ub_device \<times> bytes \<times> string list result" where
  "cmd_topology cs dev =
     (case query OP_QUERY_TOPOLOGY UBCTL_NODE cs dev of (dev1, bs, r) \<Rightarrow>
        (dev1, bs, rbind r (\<lambda>resp.
          if opcode resp \<noteq> OP_RESP_OK then Inr [''[Error] Failed to retrieve topology information.'']
          else topology_lines resp)))"

section \<open>The statistics view\<close>

text \<open>\<open>clock\<close> is \<open>time.strftime('%H:%M:%S', time.localtime(t))\<close> in the viewer's time zone.\<close>

definition event_row :: "(json \<Rightarrow> string result) \<Rightarrow> json \<Rightarrow> string list result" where
  "event_row clock ev =
     rbind (rbind (field_of ''time'' ev) clock) (\<lambda>t.
     rbind (rbind (field_of ''type'' ev) as_str) (\<lambda>ty.
     rbind (text_field ''src'' ev) (\<lambda>src.
     rbind (text_field ''dst'' ev) (\<lambda>dst.
     rbind (rbind (int_field ''size'' ev) format_bytes) (\<lambda>sz.
     rbind (text_field ''latency_ns'' ev) (\<lambda>lat.
     rbind (text_field ''desc'' ev) (\<lambda>desc.
       Inr [''  ['' @ t @ ''] '' @ pad_right 12 ty @ '' Node '' @ src @ '' -> Node '' @ dst @ '' | '' @ sz @ '' ('' @ lat @ '' ns) | '' @ desc])))))))"

definition stats_lines :: "(json \<Rightarrow> string result) \<Rightarrow> packet \<Rightarrow> string list result" where
  "stats_lines clock resp =
     rbind (int_get ''total_packets'' 0 resp) (\<lambda>packets.
     rbind (int_get ''total_flits'' 0 resp) (\<lambda>flits.
     rbind (rbind (int_get ''total_bytes'' 0 resp) format_bytes) (\<lambda>bytes.
     rbind (text_get ''active_nodes'' (JInt 0) resp) (\<lambda>active.
     rbind (list_get ''recent_events'' resp) (\<lambda>evs.
     rbind (rows (event_row clock) (py_slice_from evs (- 10))) (\<lambda>erows.
       Inr ([rule_line 70 (CHR ''=''), '' UnifiedBus (UB) Interconnect Telemetry & Performance Counters'', rule_line 70 (CHR ''=''),
             '' Total Routed Packets:     '' @ show_grouped packets, '' Total Routed Flits (64B): '' @ show_grouped flits,
             '' Total Fabric Throughput:  '' @ bytes, '' Active Connected Nodes:   '' @ active,
             rule_line 70 (CHR ''-''), '' Recent Event Log:'']
            @ erows @ [rule_line 70 (CHR ''='')])))))))"

definition cmd_stats :: "(json \<Rightarrow> string result) \<Rightarrow> bytes list \<Rightarrow> ub_device \<Rightarrow> ub_device \<times> bytes \<times> string list result" where
  "cmd_stats clock cs dev =
     (case query OP_QUERY_STATS UBCTL_NODE cs dev of (dev1, bs, r) \<Rightarrow>
        (dev1, bs, rbind r (\<lambda>resp.
          if opcode resp \<noteq> OP_RESP_OK then Inr [''[Error] Failed to retrieve fabric statistics.'']
          else stats_lines clock resp)))"

section \<open>The dashboard\<close>

definition DASHBOARD_NODE :: int where
  "DASHBOARD_NODE = 65533"

text \<open>
  The body of the two endpoints: the metadata of the answer, or, for an exception of connecting or
  asking, its text (\<open>describe\<close> is \<open>str(e)\<close>) with empty lists. \<open>conn\<close> is the connected device or what
  connecting raised; the device is closed after the answer.
\<close>

definition ask_switch :: "int \<Rightarrow> bytes list \<Rightarrow> ub_device result \<Rightarrow> packet result" where
  "ask_switch opc cs conn = rbind conn (\<lambda>dev. snd (snd (query opc DASHBOARD_NODE cs dev)))"

definition api_topology :: "(py_error \<Rightarrow> string) \<Rightarrow> bytes list \<Rightarrow> ub_device result \<Rightarrow> bytes" where
  "api_topology describe cs conn =
     encode_utf8 (dumps
       (case ask_switch OP_QUERY_TOPOLOGY cs conn of
          Inl e \<Rightarrow> JObj [(''error'', JStr (describe e)), (''nodes'', JList []), (''memory_pools'', JList [])]
        | Inr resp \<Rightarrow> metadata resp))"

definition api_stats :: "(py_error \<Rightarrow> string) \<Rightarrow> bytes list \<Rightarrow> ub_device result \<Rightarrow> bytes" where
  "api_stats describe cs conn =
     encode_utf8 (dumps
       (case ask_switch OP_QUERY_STATS cs conn of
          Inl e \<Rightarrow> JObj [(''error'', JStr (describe e))]
        | Inr resp \<Rightarrow> metadata resp))"

text \<open>\<open>do_GET\<close>: any other path is left to the file server of the library (\<open>files\<close>).\<close>

record http_response =
  hr_status :: int
  hr_headers :: "(string \<times> string) list"
  hr_body :: bytes

definition json_response :: "bytes \<Rightarrow> http_response" where
  "json_response body =
     \<lparr>hr_status = 200, hr_headers = [(''Content-Type'', ''application/json''), (''Access-Control-Allow-Origin'', ''*'')], hr_body = body\<rparr>"

definition do_GET ::
  "(string \<Rightarrow> http_response) \<Rightarrow> (py_error \<Rightarrow> string) \<Rightarrow> bytes list \<Rightarrow> ub_device result \<Rightarrow> string \<Rightarrow> http_response"
where
  "do_GET files describe cs conn path =
     (if path = ''/api/topology'' then json_response (api_topology describe cs conn)
      else if path = ''/api/stats'' then json_response (api_stats describe cs conn)
      else files path)"

section \<open>The commands of the viewer\<close>

text \<open>\<open>main\<close> after the arguments are parsed, with the help text of the parser; without a command no device connects.\<close>

definition ubctl_main ::
  "string list \<Rightarrow> (json \<Rightarrow> string result) \<Rightarrow> string option \<Rightarrow> bytes list \<Rightarrow> ub_device \<Rightarrow> ub_device \<times> bytes \<times> string list result"
where
  "ubctl_main help clock command cs dev =
     (if command = Some ''topology'' \<or> command = Some ''mem'' then cmd_topology cs dev
      else if command = Some ''stats'' then cmd_stats clock cs dev
      else (dev, [], Inr help))"

section \<open>The viewer shows the switch's answer\<close>

definition format_ok :: "int \<Rightarrow> bool" where
  "format_ok n \<longleftrightarrow> \<bar>n\<bar> < 2 ^ 1023"

lemma format_bytes_ok: "format_ok n \<Longrightarrow> \<exists>t. format_bytes n = Inr t"
  by (auto simp: format_ok_def format_bytes_def float_of_int_def)

text \<open>The row of a node and of a pool.\<close>

definition shows_node :: "env \<Rightarrow> int \<times> ub_conn \<Rightarrow> string \<Rightarrow> bool" where
  "shows_node en nc row \<longleftrightarrow>
     (case nc of (n, c) \<Rightarrow>
        \<exists>ty tx rx. node_type c = JStr ty \<and> format_bytes (tx_bytes c) = Inr tx \<and> format_bytes (rx_bytes c) = Inr rx
          \<and> row = ''  0x'' @ show_hex_pad 4 n @ ''    '' @ pad_right 18 ty @ '' '' @ pad_right 14 tx @ '' '' @ pad_right 14 rx @ '' ''
              @ float_repr (fround 1 (fsub (now en) (connected_at c))) @ ''s'')"

definition shows_pool :: "int \<times> ub_segment \<Rightarrow> string \<Rightarrow> bool" where
  "shows_pool pp row \<longleftrightarrow>
     (case pp of (pid, seg) \<Rightarrow>
        \<exists>sz. format_bytes (seg_size seg) = Inr sz
          \<and> row = ''  0x'' @ show_hex_pad 4 pid @ ''      Node '' @ pad_right 5 (show_int (seg_node seg)) @ '' '' @ pad_right 14 sz @ '' 0x''
              @ show_hex_pad 8 (seg_token seg) @ ''     '' @ permissions seg)"

lemma node_row_shows:
  assumes "node_type c = JStr ty" "format_ok (tx_bytes c)" "format_ok (rx_bytes c)"
  shows "\<exists>ls. node_row (topology_node en (n, c)) = Inr ls \<and> (if n = UBCTL_NODE then ls = [] else (\<exists>row. ls = [row] \<and> shows_node en (n, c) row))"
  using format_bytes_ok [OF assms(2)] format_bytes_ok [OF assms(3)] assms(1)
  by (auto simp: node_row_def topology_node_def int_field_def text_field_def field_of_def shows_node_def)

lemma pool_row_shows:
  assumes "format_ok (seg_size seg)"
  shows "\<exists>row. pool_row (topology_pool (pid, seg)) = Inr [row] \<and> shows_pool (pid, seg) row"
  using format_bytes_ok [OF assms]
  by (auto simp: pool_row_def topology_pool_def int_field_def text_field_def field_of_def shows_pool_def)

lemma node_rows:
  assumes "\<forall>(n, c) \<in> set ns. (\<exists>ty. node_type c = JStr ty) \<and> format_ok (tx_bytes c) \<and> format_ok (rx_bytes c)"
  shows "\<exists>ls. rows node_row (map (topology_node en) ns) = Inr ls \<and> list_all2 (shows_node en) (filter (\<lambda>(n, c). n \<noteq> UBCTL_NODE) ns) ls"
  using assms
proof (induction ns)
  case (Cons nc ns)
  obtain n c where nc: "nc = (n, c)" by fastforce
  obtain ty where "node_type c = JStr ty" "format_ok (tx_bytes c)" "format_ok (rx_bytes c)" using Cons.prems nc by auto
  from node_row_shows [OF this, of en n] Cons show ?case by (auto simp: nc split: if_splits)
qed simp

lemma pool_rows:
  assumes "\<forall>(pid, seg) \<in> set ps. format_ok (seg_size seg)"
  shows "\<exists>ls. rows pool_row (map topology_pool ps) = Inr ls \<and> list_all2 shows_pool ps ls"
  using assms
proof (induction ps)
  case (Cons pp ps)
  obtain pid seg where pp: "pp = (pid, seg)" by fastforce
  from pool_row_shows [of seg pid] Cons show ?case by (auto simp: pp)
qed simp

text \<open>
  C40. The viewer shows what is attached: for the switch's own answer to a topology query (with node types
  that are texts and sizes a float can hold), the output of \<open>ubctl\<close> is the heading with the switch's name and
  bandwidth, exactly one row for every attached node except its own, in the order of attachment, with the
  node's id, type, traffic and uptime, then, if there are pools, their heading and exactly one row for every
  memory pool, with its id, owner, size, token and permissions, and the closing rule.
\<close>

theorem topology_shown:
  assumes "snd (snd (handle_topology en p cur fab)) = Inr (Some r, cur')"
    and "\<forall>(n, c) \<in> set (nodes fab). (\<exists>ty. node_type c = JStr ty) \<and> format_ok (tx_bytes c) \<and> format_ok (rx_bytes c)"
    and "\<forall>(pid, seg) \<in> set (memory_pools (switch_table fab)). format_ok (seg_size seg)"
  shows "\<exists>nrows prows. topology_lines r = Inr (topology_head ''UB-SuperPoD-Switch-0'' (float_repr (link_bw_gbps fab)) (nodes fab = [])
        @ nrows @ pool_head (memory_pools (switch_table fab) = []) @ prows @ [rule_line 75 (CHR ''='')])
    \<and> list_all2 (shows_node en) (filter (\<lambda>(n, c). n \<noteq> UBCTL_NODE) (nodes fab)) nrows
    \<and> list_all2 shows_pool (memory_pools (switch_table fab)) prows"
proof -
  obtain nrows where n: "rows node_row (map (topology_node en) (nodes fab)) = Inr nrows"
      "list_all2 (shows_node en) (filter (\<lambda>(n, c). n \<noteq> UBCTL_NODE) (nodes fab)) nrows"
    using node_rows [OF assms(2)] by blast
  obtain prows where p: "rows pool_row (map topology_pool (memory_pools (switch_table fab))) = Inr prows"
      "list_all2 shows_pool (memory_pools (switch_table fab)) prows"
    using pool_rows [OF assms(3)] by blast
  have r: "metadata r = JObj [(''switch'', JStr ''UB-SuperPoD-Switch-0''), (''link_bw_gbps'', JFloat (link_bw_gbps fab)),
      (''nodes'', JList (map (topology_node en) (nodes fab))), (''memory_pools'', JList (map topology_pool (memory_pools (switch_table fab))))]"
    using assms(1) by (auto simp: handle_topology_def switch_reply_def reply_packet_def ub_packet_def)
  have "topology_lines r = Inr (topology_head ''UB-SuperPoD-Switch-0'' (float_repr (link_bw_gbps fab)) (nodes fab = [])
      @ nrows @ pool_head (memory_pools (switch_table fab) = []) @ prows @ [rule_line 75 (CHR ''='')])"
    unfolding topology_lines_def text_get_def list_get_def meta_get_def r
    by (simp add: n(1) p(1))
  then show ?thesis using n(2) p(2) by blast
qed

theorem topology_shown_witness:
  "\<exists>r row. snd (snd (handle_topology sample_env (query_packet OP_QUERY_TOPOLOGY UBCTL_NODE 1) None sample_fabric)) = Inr (Some r, None)
    \<and> shows_node sample_env (2, sample_conn) row
    \<and> topology_lines r = Inr (topology_head ''UB-SuperPoD-Switch-0'' (float_repr (link_bw_gbps sample_fabric)) False
        @ [row, rule_line 75 (CHR ''='')])"
proof -
  let ?fab = "sample_fabric"
  obtain r where r: "snd (snd (handle_topology sample_env (query_packet OP_QUERY_TOPOLOGY UBCTL_NODE 1) None ?fab)) = Inr (Some r, None)"
    by (simp add: handle_topology_def)
  have nodes: "nodes ?fab = [(2, sample_conn)]" "memory_pools (switch_table ?fab) = []"
    by (simp_all add: sample_fabric_def new_switch_def)
  have "\<forall>(n, c) \<in> set (nodes ?fab). (\<exists>ty. node_type c = JStr ty) \<and> format_ok (tx_bytes c) \<and> format_ok (rx_bytes c)"
    "\<forall>(pid, seg) \<in> set (memory_pools (switch_table ?fab)). format_ok (seg_size seg)"
    using nodes by (simp_all add: sample_conn_def format_ok_def)
  from topology_shown [OF r this] obtain nrows prows where
    l: "topology_lines r = Inr (topology_head ''UB-SuperPoD-Switch-0'' (float_repr (link_bw_gbps ?fab)) (nodes ?fab = [])
        @ nrows @ pool_head (memory_pools (switch_table ?fab) = []) @ prows @ [rule_line 75 (CHR ''='')])"
      "list_all2 (shows_node sample_env) (filter (\<lambda>(n, c). n \<noteq> UBCTL_NODE) (nodes ?fab)) nrows"
      "list_all2 shows_pool (memory_pools (switch_table ?fab)) prows" by blast
  then obtain row where "nrows = [row]" "shows_node sample_env (2, sample_conn) row" "prows = []"
    using nodes by (auto simp: UBCTL_NODE_def list_all2_Cons1)
  then show ?thesis using r l(1) nodes by (auto simp: pool_head_def)
qed

end
