(* ===== verification/Launch.thy ===== *)
theory Launch
  imports Config_Props
begin

text \<open>
  The life of a launched cluster: \<open>UBClusterOrchestrator\<close> and \<open>main\<close> of \<open>qemu/launcher.py\<close>, and \<open>main\<close> of
  \<open>qemu_multi_vm_runner.py\<close>. The operating system is a parameter: which programs can be started, when the
  socket file is seen, what the clock says, how processes end. What is printed is left out, except the
  rows of the summary, which can raise. The runner is given twice, as one function and in the steps between
  which the interrupt can come; the function is where the steps end.
\<close>

section \<open>Processes\<close>

datatype proc_state = Running | Stopped | Killed | Ended int

text \<open>
  \<open>h_spawn cmd\<close> is the exception of starting \<open>cmd\<close>, \<open>h_exists i\<close> the answer to the \<open>i\<close>-th look for the
  socket file, \<open>h_clock i\<close> the \<open>i\<close>-th reading of the clock, \<open>h_stops p\<close> whether process \<open>p\<close> ends within
  the timeout of \<open>wait\<close> after \<open>terminate\<close>, \<open>h_ends p\<close> its exit code, if it ends by itself.
\<close>

record host =
  h_spawn :: "string list \<Rightarrow> py_error option"
  h_exists :: "nat \<Rightarrow> bool"
  h_clock :: "nat \<Rightarrow> pyfloat"
  h_stops :: "nat \<Rightarrow> bool"
  h_ends :: "nat \<Rightarrow> int option"



text \<open>\<open>terminate\<close> and \<open>wait\<close> with a timeout, whose exception leads to \<open>kill\<close>.\<close>

definition stop_process :: "host \<Rightarrow> nat \<Rightarrow> (string list \<times> proc_state) list \<Rightarrow> (string list \<times> proc_state) list" where
  "stop_process h p ps = (if p < length ps then ps[p := (fst (ps ! p), if h_stops h p then Stopped else Killed)] else ps)"


section \<open>The launcher\<close>

text \<open>
  The loop that waits for the socket: the clock is read before every look. The value is the next reading
  and the next look; without an end of the five seconds there is none.
\<close>

partial_function (option) wait_socket :: "host \<Rightarrow> pyfloat \<Rightarrow> nat \<Rightarrow> nat \<Rightarrow> (nat \<times> nat) option" where
  "wait_socket h start t i =
     (if fsub (h_clock h t) start < 5
      then (if h_exists h i then Some (t + 1, i + 1) else wait_socket h start (t + 1) (i + 1))
      else Some (t + 1, i))"

declare wait_socket.simps [code]






text \<open>
  How \<open>main\<close> goes: it exits, an exception outside the \<open>try\<close> block ends it, or it is left in one of its two
  endless waits, for the interrupt or for the workload. The mode \<open>qemu\<close> differs from \<open>virtual\<close> in what is printed only:
  the ids it prints were formatted by the summary before.
\<close>

datatype main_end = Exit int | Uncaught py_error | Serving | Awaiting_Workload




section \<open>The runner\<close>

text \<open>
  The state of \<open>MultiQEMUCluster\<close>: the machines whose process was started, the dictionary \<open>qemu_procs\<close>, the
  machines that \<open>shutdown\<close> has stopped, and the demonstrator. \<open>shutdown\<close> reaches what is in the dictionary.
\<close>

record runner =
  rn_started :: "node_plan list"
  rn_procs :: "(scalar, node_plan) dict"
  rn_stopped :: "node_plan list"
  rn_demo :: "proc_state option"

definition new_runner :: runner where
  "new_runner = \<lparr>rn_started = [], rn_procs = [], rn_stopped = [], rn_demo = None\<rparr>"

definition runner_shutdown :: "runner \<Rightarrow> runner" where
  "runner_shutdown st = st\<lparr>rn_stopped := shutdown_nodes (rn_procs st)\<rparr>"

text \<open>\<open>main\<close> as a whole, when it is not interrupted.\<close>

definition runner_boot :: "string \<Rightarrow> config result" where
  "runner_boot text = rbind (runner_parse text) (\<lambda>cfg. rbind (cluster_socket cfg) (\<lambda>s. Inr cfg))"

definition runner_main :: "host \<Rightarrow> string option \<Rightarrow> string \<Rightarrow> main_end \<times> runner" where
  "runner_main h demo text =
     (case runner_boot text of
        Inl e \<Rightarrow> (Uncaught e, new_runner)
      | Inr cfg \<Rightarrow>
          (case start_cluster cfg of
             (ps, procs, r) \<Rightarrow>
               let st = new_runner\<lparr>rn_started := ps, rn_procs := procs\<rparr> in
               (case r of
                  Inl e \<Rightarrow> (Exit 1, runner_shutdown st)
                | Inr _ \<Rightarrow>
                    (case demo of
                       None \<Rightarrow> (Serving, st)
                     | Some binary \<Rightarrow>
                         (case h_spawn h [binary] of
                            Some e \<Rightarrow> (Exit 1, runner_shutdown st)
                          | None \<Rightarrow>
                              (case h_ends h (length ps) of
                                 None \<Rightarrow> (Awaiting_Workload, st\<lparr>rn_demo := Some Running\<rparr>)
                               | Some c \<Rightarrow> (Exit c, runner_shutdown (st\<lparr>rn_demo := Some (Ended c)\<rparr>))))))))"

text \<open>
  The same program in the steps between which the interrupt can come: the next machine is started, the
  started one is filed in the dictionary (and its row printed), the demonstrator is started, it ends.
\<close>

datatype runner_pc = Next_Node "item list" | File_Node node_plan "item list" | At main_end

fun runner_step :: "host \<Rightarrow> string option \<Rightarrow> string \<Rightarrow> runner_pc \<times> runner \<Rightarrow> runner_pc \<times> runner" where
  "runner_step h demo socket (Next_Node (node # rest), st) =
     (case plan_node socket node of
        Inl e \<Rightarrow> (At (Exit 1), runner_shutdown st)
      | Inr p \<Rightarrow> (File_Node p rest, st\<lparr>rn_started := rn_started st @ [p]\<rparr>))"
| "runner_step h demo socket (File_Node p rest, st) =
     (let st1 = st\<lparr>rn_procs := dict_set (scalar_key (np_id p)) p (rn_procs st)\<rparr> in
      case np_id p of C_Int i \<Rightarrow> (Next_Node rest, st1) | _ \<Rightarrow> (At (Exit 1), runner_shutdown st1))"
| "runner_step h demo socket (Next_Node [], st) =
     (case demo of
        None \<Rightarrow> (At Serving, st)
      | Some binary \<Rightarrow>
          (case h_spawn h [binary] of
             Some e \<Rightarrow> (At (Exit 1), runner_shutdown st)
           | None \<Rightarrow> (At Awaiting_Workload, st\<lparr>rn_demo := Some Running\<rparr>)))"
| "runner_step h demo socket (At Awaiting_Workload, st) =
     (case h_ends h (length (rn_started st)) of
        None \<Rightarrow> (At Awaiting_Workload, st)
      | Some c \<Rightarrow> (At (Exit c), runner_shutdown (st\<lparr>rn_demo := Some (Ended c)\<rparr>)))"
| "runner_step h demo socket (At e, st) = (At e, st)"

definition runner_start :: "string \<Rightarrow> string \<times> runner_pc" where
  "runner_start text =
     (case runner_boot text of
        Inl e \<Rightarrow> ([], At (Uncaught e))
      | Inr cfg \<Rightarrow>
          (case rbind (cluster_socket cfg) (\<lambda>s. rbind (cluster_nodes cfg) (\<lambda>xs. Inr (show_scalar s, Next_Node xs))) of
             Inl e \<Rightarrow> ([], At (Exit 1))
           | Inr r \<Rightarrow> r))"

definition runner_at :: "host \<Rightarrow> string option \<Rightarrow> string \<Rightarrow> nat \<Rightarrow> runner_pc \<times> runner" where
  "runner_at h demo text k =
     (case runner_start text of (socket, pc) \<Rightarrow> (runner_step h demo socket ^^ k) (pc, new_runner))"

text \<open>\<open>sigint_handler\<close>, in a process that has not ended.\<close>

definition ended :: "runner_pc \<Rightarrow> bool" where
  "ended pc \<longleftrightarrow> (case pc of At (Exit c) \<Rightarrow> True | At (Uncaught e) \<Rightarrow> True | _ \<Rightarrow> False)"

definition runner_sigint :: "runner \<Rightarrow> runner_pc \<times> runner" where
  "runner_sigint st = (At (Exit 0), runner_shutdown st)"

section \<open>Waiting for the socket\<close>

lemma wait_socket_result:
  assumes "wait_socket h start t i = Some (t', i')"
  shows "i \<le> i' \<and> (i < i' \<and> h_exists h (i' - 1) \<or> (\<forall>k. i \<le> k \<longrightarrow> k < i' \<longrightarrow> \<not> h_exists h k))"
proof (rule wait_socket.raw_induct [OF _ assms, of "\<lambda>h start t i r. case r of (t', i') \<Rightarrow>
      i \<le> i' \<and> (i < i' \<and> h_exists h (i' - 1) \<or> (\<forall>k. i \<le> k \<longrightarrow> k < i' \<longrightarrow> \<not> h_exists h k))", simplified prod.case])
  fix ws :: "host \<Rightarrow> pyfloat \<Rightarrow> nat \<Rightarrow> nat \<Rightarrow> (nat \<times> nat) option" and h start t i r
  assume IH: "\<And>h start t i r. ws h start t i = Some r \<Longrightarrow> case r of (t', i') \<Rightarrow>
      i \<le> i' \<and> (i < i' \<and> h_exists h (i' - 1) \<or> (\<forall>k. i \<le> k \<longrightarrow> k < i' \<longrightarrow> \<not> h_exists h k))"
    and r: "(if fsub (h_clock h t) start < 5 then if h_exists h i then Some (t + 1, i + 1) else ws h start (t + 1) (i + 1)
      else Some (t + 1, i)) = Some r"
  obtain t' i' where ti: "r = (t', i')" by fastforce
  have "i \<le> i' \<and> (i < i' \<and> h_exists h (i' - 1) \<or> (\<forall>k. i \<le> k \<longrightarrow> k < i' \<longrightarrow> \<not> h_exists h k))"
  proof (cases "fsub (h_clock h t) start < 5 \<and> \<not> h_exists h i")
    case True
    then have "ws h start (t + 1) (i + 1) = Some (t', i')" using r ti by simp
    then have "i + 1 \<le> i' \<and> (i + 1 < i' \<and> h_exists h (i' - 1) \<or> (\<forall>k. i + 1 \<le> k \<longrightarrow> k < i' \<longrightarrow> \<not> h_exists h k))" using IH by fastforce
    then show ?thesis using True by (metis Suc_eq_plus1 Suc_leI Suc_le_lessD le_neq_implies_less less_imp_le_nat)
  next
    case False
    then show ?thesis using r ti by (auto split: if_splits)
  qed
  then show "case r of (t', i') \<Rightarrow> i \<le> i' \<and> (i < i' \<and> h_exists h (i' - 1) \<or> (\<forall>k. i \<le> k \<longrightarrow> k < i' \<longrightarrow> \<not> h_exists h k))" by (simp add: ti)
qed


section \<open>What a launch leaves behind\<close>

text \<open>What the orchestrator has at most started: the daemon, and then the workload.\<close>

lemma stop_process_simps [simp]:
  "stop_process h 0 [(cmd, s)] = [(cmd, if h_stops h 0 then Stopped else Killed)]"
  "stop_process h 0 [(cmd, s), y] = [(cmd, if h_stops h 0 then Stopped else Killed), y]"
  by (simp_all add: stop_process_def)










definition sample_host :: host where
  "sample_host = \<lparr>h_spawn = (\<lambda>cmd. None), h_exists = (\<lambda>i. 3 \<le> i), h_clock = of_nat, h_stops = (\<lambda>p. True), h_ends = (\<lambda>p. Some 7)\<rparr>"


section \<open>What the runner leaves behind\<close>

abbreviation node_key :: "node_plan \<Rightarrow> scalar" where
  "node_key p \<equiv> scalar_key (np_id p)"

abbreviation filed :: "node_plan list \<Rightarrow> (scalar, node_plan) dict" where
  "filed ps \<equiv> foldl (\<lambda>d p. dict_set (node_key p) p d) [] ps"

text \<open>Where \<open>main\<close> is, the dictionary holds what was started, except for a machine that is not filed yet.\<close>

definition books_ok :: "runner_pc \<Rightarrow> runner \<Rightarrow> bool" where
  "books_ok pc st \<longleftrightarrow>
     (case pc of
        File_Node p rest \<Rightarrow> \<exists>ps. rn_started st = ps @ [p] \<and> rn_procs st = filed ps
      | _ \<Rightarrow> rn_procs st = filed (rn_started st))
     \<and> (case pc of
          At (Exit c) \<Rightarrow> rn_stopped st = shutdown_nodes (rn_procs st) \<and> rn_demo st \<noteq> Some Running
        | At (Uncaught e) \<Rightarrow> rn_started st = [] \<and> rn_stopped st = [] \<and> rn_demo st = None
        | At Awaiting_Workload \<Rightarrow> rn_stopped st = [] \<and> rn_demo st = Some Running
        | _ \<Rightarrow> rn_stopped st = [] \<and> rn_demo st = None)"

lemma runner_step_books: "books_ok pc st \<Longrightarrow> runner_step h demo s (pc, st) = (pc', st') \<Longrightarrow> books_ok pc' st'"
  by (cases "(h, demo, s, (pc, st))" rule: runner_step.cases)
    (auto simp: books_ok_def runner_shutdown_def Let_def split: sum.splits option.splits scalar.splits)

lemma runner_at_books: "runner_at h demo text k = (pc, st) \<Longrightarrow> books_ok pc st"
proof (induction k arbitrary: pc st)
  case 0
  then show ?case
    by (auto simp: runner_at_def runner_start_def books_ok_def new_runner_def shutdown_nodes_def runner_boot_def result_simps
        split: prod.splits sum.splits)
next
  case (Suc k)
  obtain pc0 st0 where "runner_at h demo text k = (pc0, st0)" by fastforce
  with Suc runner_step_books show ?case by (fastforce simp: runner_at_def split: prod.splits)
qed

lemma shutdown_reaches:
  assumes "rn_procs st = filed ps"
  shows "distinct (map node_key ps) \<Longrightarrow> rn_stopped (runner_shutdown st) = ps"
    "\<not> distinct (map node_key ps) \<Longrightarrow> length (rn_stopped (runner_shutdown st)) < length ps"
  using fold_set_reaches [OF assms] by (simp_all add: runner_shutdown_def shutdown_nodes_def)

text \<open>Starting the machines step by step is \<open>start_nodes\<close>.\<close>

lemma runner_nodes:
  assumes "start_nodes s xs (rn_procs st) = (ps, procs, r)"
  shows "\<exists>k. (runner_step h demo s ^^ k) (Next_Node xs, st) =
    (let st1 = st\<lparr>rn_started := rn_started st @ ps, rn_procs := procs\<rparr> in
     case r of Inl e \<Rightarrow> (At (Exit 1), runner_shutdown st1) | Inr _ \<Rightarrow> (Next_Node [], st1))"
  using assms
proof (induction xs arbitrary: st ps)
  case Nil
  then show ?case by (intro exI [where x = 0]) (auto simp: Let_def)
next
  case (Cons node rest)
  show ?case
  proof (cases "plan_node s node")
    case (Inl e)
    then show ?thesis using Cons.prems by (intro exI [where x = 1]) (auto simp: Let_def)
  next
    case (Inr p)
    let ?st1 = "st\<lparr>rn_started := rn_started st @ [p], rn_procs := dict_set (node_key p) p (rn_procs st)\<rparr>"
    have two: "(runner_step h demo s ^^ Suc (Suc k)) (Next_Node (node # rest), st)
        = (runner_step h demo s ^^ k) (case np_id p of C_Int i \<Rightarrow> (Next_Node rest, ?st1) | _ \<Rightarrow> (At (Exit 1), runner_shutdown ?st1))" for k
      by (simp only: funpow_Suc_right comp_apply) (simp add: Inr split: scalar.split)
    show ?thesis
    proof (cases "np_id p")
      case (C_Int i)
      obtain ps1 where ps1: "start_nodes s rest (rn_procs ?st1) = (ps1, procs, r)" "ps = p # ps1"
        using Cons.prems Inr C_Int by (auto split: prod.splits)
      from Cons.IH [OF this(1)] obtain k where
        "(runner_step h demo s ^^ k) (Next_Node rest, ?st1) = (let st1 = ?st1\<lparr>rn_started := rn_started ?st1 @ ps1, rn_procs := procs\<rparr> in
           case r of Inl e \<Rightarrow> (At (Exit 1), runner_shutdown st1) | Inr _ \<Rightarrow> (Next_Node [], st1))" by blast
      then show ?thesis using two [of k] ps1(2) C_Int by (intro exI [where x = "Suc (Suc k)"]) (simp only: scalar.case, simp)
    qed (use two [of 0] Cons.prems Inr in \<open>intro exI [where x = 2], auto simp: numeral_2_eq_2 Let_def\<close>)+
  qed
qed


definition settled :: "host \<Rightarrow> runner_pc \<times> runner \<Rightarrow> bool" where
  "settled h x \<longleftrightarrow> (case x of (At Awaiting_Workload, st) \<Rightarrow> h_ends h (length (rn_started st)) = None | (At e, st) \<Rightarrow> True | _ \<Rightarrow> False)"

lemma settled_stays: "settled h x \<Longrightarrow> (runner_step h demo s ^^ n) x = x"
proof (induction n)
  case (Suc n)
  have "runner_step h demo s x = x"
    using Suc.prems by (cases "(h, demo, s, x)" rule: runner_step.cases) (auto simp: settled_def)
  then show ?case using Suc by simp
qed simp

lemma runner_at_settled:
  assumes "settled h (runner_at h demo text n)" "n \<le> m"
  shows "runner_at h demo text m = runner_at h demo text n"
proof -
  obtain s pc where start: "runner_start text = (s, pc)" by fastforce
  have "runner_at h demo text m = (runner_step h demo s ^^ (m - n)) (runner_at h demo text n)"
    using assms(2) funpow_add [of "m - n" n "runner_step h demo s"] by (simp add: runner_at_def start)
  then show ?thesis using settled_stays [OF assms(1)] by simp
qed

lemma runner_demo:
  "\<exists>k. settled h ((runner_step h demo s ^^ k) (Next_Node [], st)) \<and> (runner_step h demo s ^^ k) (Next_Node [], st)
    = (case demo of
         None \<Rightarrow> (At Serving, st)
       | Some binary \<Rightarrow>
           (case h_spawn h [binary] of
              Some e \<Rightarrow> (At (Exit 1), runner_shutdown st)
            | None \<Rightarrow>
                (case h_ends h (length (rn_started st)) of
                   None \<Rightarrow> (At Awaiting_Workload, st\<lparr>rn_demo := Some Running\<rparr>)
                 | Some c \<Rightarrow> (At (Exit c), runner_shutdown (st\<lparr>rn_demo := Some (Ended c)\<rparr>)))))"
  by (intro exI [where x = 2]) (auto simp: numeral_2_eq_2 settled_def split: option.split)

text \<open>Every run settles, in the end and the state of \<open>runner_main\<close>.\<close>

lemma runner_main_reached:
  "\<exists>n. \<forall>m \<ge> n. runner_at h demo text m = (case runner_main h demo text of (e, st) \<Rightarrow> (At e, st))"
proof -
  have "\<exists>n. settled h (runner_at h demo text n) \<and> runner_at h demo text n = (case runner_main h demo text of (e, st) \<Rightarrow> (At e, st))"
  proof (cases "runner_boot text")
    case (Inl e)
    then show ?thesis by (intro exI [where x = 0]) (simp add: runner_at_def runner_start_def runner_main_def settled_def)
  next
    case (Inr cfg)
    show ?thesis
    proof (cases "rbind (cluster_socket cfg) (\<lambda>s. rbind (cluster_nodes cfg) (\<lambda>xs. Inr (s, xs)))")
      case (Inl e)
      then show ?thesis using Inr
        by (intro exI [where x = 0])
          (auto simp: runner_at_def runner_start_def runner_main_def start_cluster_def settled_def new_runner_def runner_shutdown_def
            shutdown_nodes_def result_simps)
    next
      case sx: (Inr y)
      obtain sc xs where y: "y = (sc, xs)" by fastforce
      then have r: "runner_start text = (show_scalar sc, Next_Node xs)" using sx Inr by (auto simp: runner_start_def result_simps)
      obtain ps procs r' where sn: "start_nodes (show_scalar sc) xs [] = (ps, procs, r')" using prod_cases3 by blast
      then have sc: "start_cluster cfg = (ps, procs, r')" using sx y by (simp add: start_cluster_def)
      let ?st = "new_runner\<lparr>rn_started := ps, rn_procs := procs\<rparr>"
      have new: "rn_started new_runner = []" "rn_procs new_runner = []" by (simp_all add: new_runner_def)
      obtain k where k: "(runner_step h demo (show_scalar sc) ^^ k) (Next_Node xs, new_runner)
          = (case r' of Inl e \<Rightarrow> (At (Exit 1), runner_shutdown ?st) | Inr _ \<Rightarrow> (Next_Node [], ?st))"
        using runner_nodes [of "show_scalar sc" xs new_runner ps procs r' h demo, unfolded new] sn by (auto simp: Let_def)
      show ?thesis
      proof (cases r')
        case (Inl e)
        then show ?thesis using k r sc Inr by (intro exI [where x = k]) (simp add: runner_at_def runner_main_def settled_def)
      next
        case ok: (Inr u)
        obtain k' where k': "settled h ((runner_step h demo (show_scalar sc) ^^ k') (Next_Node [], ?st))"
          "(runner_step h demo (show_scalar sc) ^^ k') (Next_Node [], ?st)
            = (case runner_main h demo text of (e, st) \<Rightarrow> (At e, st))"
          using runner_demo [of h demo "show_scalar sc" ?st] sc Inr ok
          by (auto simp: runner_main_def Let_def split: option.splits)
        then have "runner_at h demo text (k' + k) = (runner_step h demo (show_scalar sc) ^^ k') (Next_Node [], ?st)"
          using k r ok by (simp add: runner_at_def funpow_add)
        then show ?thesis using k' by (intro exI [where x = "k' + k"]) simp
      qed
    qed
  qed
  then show ?thesis using runner_at_settled by metis
qed

text \<open>
  C39. The runner stops what it starts, if the ids of its machines differ and it is not interrupted at the
  wrong moment. Its steps end as \<open>main\<close> does. Wherever \<open>main\<close> exits by itself, after a complete start or one
  that failed halfway, distinct ids mean that exactly the machines that were started are stopped, and no
  demonstrator is running. An interrupt after any number of steps, while \<open>main\<close> has not ended, exits with 0
  after stopping all started machines, if their ids differ, except one that is not yet filed in the dictionary,
  which is left running; a demonstrator that is running is left running. In both cases two machines with the
  same id mean that one is left running.
\<close>

theorem runner_stops_what_it_starts:
  assumes "runner_at h demo text k = (pc, st)"
  shows "(\<exists>n. \<forall>m \<ge> n. runner_at h demo text m = (case runner_main h demo text of (e, st) \<Rightarrow> (At e, st)))
    \<and> (pc = At (Exit c) \<longrightarrow> rn_demo st \<noteq> Some Running
        \<and> (distinct (map node_key (rn_started st)) \<longrightarrow> rn_stopped st = rn_started st)
        \<and> (\<not> distinct (map node_key (rn_started st)) \<longrightarrow> length (rn_stopped st) < length (rn_started st)))
    \<and> (\<not> ended pc \<longrightarrow> (\<exists>st'. runner_sigint st = (At (Exit 0), st') \<and> rn_started st' = rn_started st
        \<and> rn_demo st' = (if pc = At Awaiting_Workload then Some Running else None)
        \<and> (distinct (map node_key (rn_started st)) \<longrightarrow>
             rn_stopped st' = (case pc of File_Node p rest \<Rightarrow> butlast (rn_started st) | _ \<Rightarrow> rn_started st))
        \<and> (\<not> distinct (map node_key (rn_started st)) \<longrightarrow> length (rn_stopped st') < length (rn_started st))))"
proof (intro conjI)
  have b: "books_ok pc st" by (rule runner_at_books [OF assms])
  show "\<exists>n. \<forall>m \<ge> n. runner_at h demo text m = (case runner_main h demo text of (e, st) \<Rightarrow> (At e, st))"
    by (rule runner_main_reached)
  show "pc = At (Exit c) \<longrightarrow> rn_demo st \<noteq> Some Running
        \<and> (distinct (map node_key (rn_started st)) \<longrightarrow> rn_stopped st = rn_started st)
        \<and> (\<not> distinct (map node_key (rn_started st)) \<longrightarrow> length (rn_stopped st) < length (rn_started st))"
    using b shutdown_reaches [of st "rn_started st"] by (auto simp: books_ok_def runner_shutdown_def)
  show "\<not> ended pc \<longrightarrow> (\<exists>st'. runner_sigint st = (At (Exit 0), st') \<and> rn_started st' = rn_started st
        \<and> rn_demo st' = (if pc = At Awaiting_Workload then Some Running else None)
        \<and> (distinct (map node_key (rn_started st)) \<longrightarrow>
             rn_stopped st' = (case pc of File_Node p rest \<Rightarrow> butlast (rn_started st) | _ \<Rightarrow> rn_started st))
        \<and> (\<not> distinct (map node_key (rn_started st)) \<longrightarrow> length (rn_stopped st') < length (rn_started st)))"
  proof (cases pc)
    case (File_Node p rest)
    then obtain ps where ps: "rn_started st = ps @ [p]" "rn_procs st = filed ps" "rn_demo st = None" using b by (auto simp: books_ok_def)
    have "length (filed ps) \<le> length ps"
      using fold_set_reaches [of "filed ps" node_key ps] length_map [of snd "filed ps"] by (cases "distinct (map node_key ps)") force+
    then show ?thesis using File_Node ps shutdown_reaches(1) [OF ps(2)]
      by (auto simp: runner_sigint_def runner_shutdown_def shutdown_nodes_def)
  next
    case (Next_Node ns)
    then show ?thesis using b shutdown_reaches [of st "rn_started st"]
      by (auto simp: books_ok_def runner_sigint_def) (simp_all add: runner_shutdown_def)
  next
    case (At e)
    then show ?thesis using b shutdown_reaches [of st "rn_started st"]
      by (cases e) (auto simp: books_ok_def runner_sigint_def ended_def, simp_all add: runner_shutdown_def)
  qed
qed

definition sample_cluster :: string where
  "sample_cluster = ''nodes:'' @ [CHR 0x0A] @ ''  - id: 1'' @ [CHR 0x0A] @ ''  - id: 1''"

theorem runner_stops_what_it_starts_witness:
  "\<exists>st. runner_main sample_host (Some ''demo'') sample_cluster = (Exit 7, st) \<and> length (rn_started st) = 2 \<and> length (rn_stopped st) < 2"
proof -
  have "runner_parse sample_cluster = Inr [(Some ''nodes'', E_Items [[(''id'', C_Int 1)], [(''id'', C_Int 1)]])]" by code_simp
  moreover obtain p where p: "plan_node ''/tmp/ub-fabric/silicon.sock'' [(''id'', C_Int 1)] = Inr p" "np_id p = C_Int 1"
    by (simp add: plan_node_def field_or_def Let_def)
  ultimately obtain st where s: "runner_main sample_host (Some ''demo'') sample_cluster = (Exit 7, st)" "rn_started st = [p, p]"
    by (simp add: runner_main_def runner_boot_def start_cluster_def cluster_socket_def section_of_def field_or_def cluster_nodes_def sample_host_def
        runner_shutdown_def)
  obtain k where k: "runner_at sample_host (Some ''demo'') sample_cluster k = (At (Exit 7), st)"
    using runner_main_reached [of sample_host "Some ''demo''" sample_cluster] s(1) by auto
  show ?thesis using runner_stops_what_it_starts [OF k, of 7] s by auto
qed

end
