(* ===== verification/Switch_View.thy ===== *)
theory Switch_View
  imports Obmm
begin

text \<open>
  An abstract view of the switch (\<open>daemon/fabric.py\<close> with \<open>daemon/router.py\<close>): which node has which
  segment, which pools exist, what every attached node's memory holds and over which connection it is
  reached, and the CIP engine. Counters, logs and jetties are forgotten. For every request of the SDK the
  answer of \<open>process_packet\<close> is a function of this view, and so is its effect on it.
\<close>

section \<open>The view\<close>

record switch_view =
  v_segment :: "int \<Rightarrow> int \<Rightarrow> ub_segment option"
  v_pool :: "int \<Rightarrow> ub_segment option"
  v_next_pool :: int
  v_memory :: "int \<Rightarrow> bytes option"
  v_conn :: "int \<Rightarrow> nat option"
  v_bandwidth :: pyfloat
  v_hop :: pyfloat
  v_cip :: cip_engine
  v_running :: bool

definition segment_at :: "ub_switch \<Rightarrow> int \<Rightarrow> int \<Rightarrow> ub_segment option" where
  "segment_at sw n i = Option.bind (dict_get (segments sw) n) (\<lambda>segs. dict_get segs i)"

definition conn_of :: "fabric \<Rightarrow> int \<Rightarrow> nat option" where
  "conn_of fab n = map_option conn_id (dict_get (nodes fab) n)"

definition view :: "fabric \<Rightarrow> switch_view" where
  "view fab =
     \<lparr>v_segment = segment_at (switch_table fab), v_pool = dict_get (memory_pools (switch_table fab)),
      v_next_pool = next_pool_id (switch_table fab), v_memory = mem_of fab, v_conn = conn_of fab,
      v_bandwidth = link_bw_gbps fab, v_hop = hop_latency_ns fab,
      v_cip = cip fab, v_running = running fab\<rparr>"

text \<open>What the requests do to the view.\<close>

definition add_segment :: "ub_segment \<Rightarrow> switch_view \<Rightarrow> switch_view" where
  "add_segment seg v = v\<lparr>v_segment := (v_segment v)(seg_node seg := (v_segment v (seg_node seg))(segment_id seg \<mapsto> seg))\<rparr>"

definition attach :: "int \<Rightarrow> nat \<Rightarrow> switch_view \<Rightarrow> switch_view" where
  "attach n cid v = v\<lparr>v_memory := (v_memory v)(n \<mapsto> replicate LOCAL_MEMORY_SIZE 0), v_conn := (v_conn v)(n \<mapsto> cid)\<rparr>"

definition store :: "int \<Rightarrow> int \<Rightarrow> bytes \<Rightarrow> switch_view \<Rightarrow> switch_view" where
  "store n off bs v = v\<lparr>v_memory := (v_memory v)(n := map_option (\<lambda>m. mem_write m off bs) (v_memory v n))\<rparr>"

definition add_pool :: "ub_segment \<Rightarrow> switch_view \<Rightarrow> switch_view" where
  "add_pool seg v = (add_segment seg v)\<lparr>v_pool := (v_pool v)(segment_id seg \<mapsto> seg), v_next_pool := v_next_pool v + 1\<rparr>"

text \<open>The nodes of a detached connection, its segments included, are gone; its pools stay.\<close>

definition detach :: "int \<Rightarrow> switch_view \<Rightarrow> switch_view" where
  "detach n v = v\<lparr>v_memory := (v_memory v)(n := None), v_conn := (v_conn v)(n := None), v_segment := (v_segment v)(n := (\<lambda>i. None))\<rparr>"

text \<open>The latency the switch reports, as a function of the view.\<close>

definition view_latency :: "int \<Rightarrow> switch_view \<Rightarrow> pyfloat" where
  "view_latency n v = fadd (fadd (fl (fmul (fl (of_int n)) 8 / v_bandwidth v)) (fmul 1 (v_hop v))) 35"

definition view_grants :: "switch_view \<Rightarrow> int \<Rightarrow> int \<Rightarrow> int \<Rightarrow> int \<Rightarrow> bool \<Rightarrow> int \<Rightarrow> bool" where
  "view_grants v n sid off len w token \<longleftrightarrow>
     (case v_segment v n sid of None \<Rightarrow> False | Some seg \<Rightarrow> contains seg off len \<and> check_permission seg w token)"

section \<open>Reading the view\<close>

lemma view_simps [simp]:
  "v_segment (view fab) = segment_at (switch_table fab)" "v_pool (view fab) = dict_get (memory_pools (switch_table fab))"
  "v_next_pool (view fab) = next_pool_id (switch_table fab)" "v_memory (view fab) = mem_of fab" "v_conn (view fab) = conn_of fab"
  "v_bandwidth (view fab) = link_bw_gbps fab" "v_hop (view fab) = hop_latency_ns fab" "v_running (view fab) = running fab"
  "v_cip (view fab) = cip fab"
  by (simp_all add: view_def)

lemma view_eqI:
  assumes "v_segment a = v_segment b" "v_pool a = v_pool b" "v_next_pool a = v_next_pool b" "v_memory a = v_memory b"
    and "v_conn a = v_conn b" "v_bandwidth a = v_bandwidth b" "v_hop a = v_hop b" "v_running a = v_running b" "v_cip a = v_cip b"
  shows "a = (b :: switch_view)"
  using assms by (intro switch_view.equality) simp_all

lemma view_grants_granted: "granted p sid off len w fab \<longleftrightarrow> view_grants (view fab) (dst_node p) sid off len w (token_id p)"
  by (auto simp: granted_def validate_access_granted view_grants_def segment_at_def bind_eq_Some_conv split: option.splits)

lemma view_transfer_time:
  "v_bandwidth (view fab) \<noteq> 0 \<Longrightarrow> 0 \<le> n \<Longrightarrow> n < 256 ^ 4 \<Longrightarrow> transfer_time n fab = Inr (view_latency n (view fab))"
  using transfer_time_small [of fab n] by (simp add: latency_of_def view_latency_def)

lemma conn_of_count [simp]:
  "conn_of (count_packet p fab) = conn_of fab" "conn_of (count_tx en p fab) = conn_of fab"
  "conn_of (record_event en ty s d n lat desc fab) = conn_of fab"
  by (auto simp: conn_of_def count_tx_def fun_eq_iff map_option_case split: option.split)

lemma running_count [simp]:
  "running (count_packet p fab) = running fab" "running (count_tx en p fab) = running fab"
  "running (record_event en ty s d n lat desc fab) = running fab"
  "link_bw_gbps (record_event en ty s d n lat desc fab) = link_bw_gbps fab"
  "hop_latency_ns (record_event en ty s d n lat desc fab) = hop_latency_ns fab"
  by (simp_all add: count_packet_def count_tx_def record_event_def)

lemma view_switch [simp]:
  "view (fab\<lparr>switch_table := sw\<rparr>) =
     (view fab)\<lparr>v_segment := segment_at sw, v_pool := dict_get (memory_pools sw), v_next_pool := next_pool_id sw\<rparr>"
  by (intro view_eqI) (auto simp: mem_of_def conn_of_def fun_eq_iff)

lemma view_count [simp]:
  "view (count_packet p fab) = view fab" "view (count_tx en p fab) = view fab" "view (record_event en ty s d n lat desc fab) = view fab"
  by (simp_all add: view_def)

section \<open>Registration\<close>

definition registered_reply :: "packet \<Rightarrow> fabric \<Rightarrow> packet" where
  "registered_reply p fab = switch_reply p OP_RESP_OK
     [(''status'', JStr ''REGISTERED''), (''link_bw_gbps'', JFloat (link_bw_gbps fab)), (''credits'', JInt 1024)]"

lemma register_node_segments [simp]: "segment_at (register_node n sw) = segment_at sw"
  by (auto simp: segment_at_def register_node_def fun_eq_iff)

lemma register_packet_simps [simp]:
  "opcode (register_packet dev s) = OP_REG_NODE" "src_node (register_packet dev s) = dev_node dev" "seq_num (register_packet dev s) = s"
  "\<not> is_cip_encrypted (register_packet dev s)" "meta_get ''node_type'' d (register_packet dev s) = Inr (JStr (dev_type dev))"
  by (simp_all add: register_packet_def reply_packet_def ub_packet_def is_cip_encrypted_def FLAG_NONE_def meta_get_def)

lemma registration_wf [simp]: "wf_packet (register_packet dev s)" "wf_packet (reg_seg_packet ctx sid sz token perm s)"
  "wf_packet (jetty_packet ctx lid rn rid token s)" "wf_packet (export_packet cl sz token perm s)" "wf_packet (import_packet cl pid token s)"
  by (simp_all add: register_packet_def reply_packet_def reg_seg_packet_def jetty_packet_def export_packet_def import_packet_def
      wf_ub_packet FLAG_NONE_def)

lemma served_register_node:
  "\<exists>fab1. process_packet en (register_packet dev s) cur fab
     = (fab1, [], Inr (Some (registered_reply (register_packet dev s) fab), Some (dev_node dev)))
   \<and> view fab1 = attach (dev_node dev) (me en) (view fab)"
proof -
  let ?p = "register_packet dev s"
  let ?fab = "count_packet ?p fab"
  let ?c = "new_conn (dev_node dev) (JStr (dev_type dev)) (me en) (now en)"
  let ?fab1 = "?fab\<lparr>nodes := dict_set (dev_node dev) ?c (nodes ?fab), switch_table := register_node (dev_node dev) (switch_table ?fab)\<rparr>"
  have "process_packet en ?p cur fab = (?fab1, [], Inr (Some (registered_reply ?p fab), Some (dev_node dev)))"
    unfolding process_packet_open [OF register_packet_simps(4)]
    by (simp add: process_plain_def handle_reg_node_def registered_reply_def Let_def) (simp add: new_conn_def)
  moreover have "view ?fab1 = attach (dev_node dev) (me en) (view fab)"
    using running_count(1) [of ?p fab] by (intro view_eqI) (auto simp: attach_def mem_of_def conn_of_def fun_eq_iff new_conn_def)
  ultimately show ?thesis by blast
qed

definition new_ub_segment :: "int \<Rightarrow> int \<Rightarrow> int \<Rightarrow> int \<Rightarrow> string \<Rightarrow> pyfloat \<Rightarrow> ub_segment" where
  "new_ub_segment sid n sz token up tm =
     \<lparr>segment_id = sid, seg_node = n, base_addr = 0, seg_size = sz, seg_token = token, permissions = up, created_at = tm\<rparr>"

lemma new_ub_segment_fields [simp]:
  "segment_id (new_ub_segment sid n sz token up tm) = sid" "seg_node (new_ub_segment sid n sz token up tm) = n"
  "seg_size (new_ub_segment sid n sz token up tm) = sz" "seg_token (new_ub_segment sid n sz token up tm) = token"
  "permissions (new_ub_segment sid n sz token up tm) = up"
  by (simp_all add: new_ub_segment_def)

lemma register_segment_view:
  assumes "py_upper perm = Inr up" "seg = new_ub_segment sid n sz token up tm"
  shows "snd (register_segment n sid 0 sz token perm tm sw) = Inr seg"
    "segment_at (fst (register_segment n sid 0 sz token perm tm sw)) = (segment_at sw)(n := (segment_at sw n)(sid \<mapsto> seg))"
proof -
  have i: "ub_segment_init sid n 0 sz token perm tm = Inr seg" using assms by (simp add: ub_segment_init_def new_ub_segment_def)
  then show "snd (register_segment n sid 0 sz token perm tm sw) = Inr seg" by (simp add: register_segment_def Let_def)
  obtain segs where "dict_get (segments (register_node n sw)) n = Some segs"
    by (cases "dict_get (segments sw) n") (simp_all add: register_node_def)
  then have "segment_at (fst (register_segment n sid 0 sz token perm tm sw)) m j
      = ((segment_at (register_node n sw))(n := (segment_at (register_node n sw) n)(sid \<mapsto> seg))) m j" for m j
    using i by (simp add: register_segment_def segment_at_def Let_def del: register_node_segments)
  then show "segment_at (fst (register_segment n sid 0 sz token perm tm sw)) = (segment_at sw)(n := (segment_at sw n)(sid \<mapsto> seg))"
    by (simp add: fun_eq_iff)
qed

definition segment_reply :: "packet \<Rightarrow> int \<Rightarrow> packet" where
  "segment_reply p sid = switch_reply p OP_RESP_OK [(''status'', JStr ''SEGMENT_REGISTERED''), (''segment_id'', JInt sid)]"

lemma served_register_segment:
  assumes "py_upper perm = Inr up"
  shows "\<exists>fab1. process_packet en (reg_seg_packet ctx sid sz token perm s) cur fab
      = (fab1, [], Inr (Some (segment_reply (reg_seg_packet ctx sid sz token perm s) sid), cur))
    \<and> view fab1 = add_segment (new_ub_segment sid (u_node ctx) sz token up (now en)) (view fab)"
proof -
  let ?p = "reg_seg_packet ctx sid sz token perm s"
  let ?fab = "count_tx en ?p (count_packet ?p fab)"
  let ?r = "register_segment (u_node ctx) sid 0 sz token perm (now en) (switch_table fab)"
  let ?seg = "new_ub_segment sid (u_node ctx) sz token up (now en)"
  have r: "snd ?r = Inr ?seg"
    "segment_at (fst ?r) = (segment_at (switch_table fab))(u_node ctx := (segment_at (switch_table fab) (u_node ctx))(sid \<mapsto> ?seg))"
    using register_segment_view [OF assms refl] by simp_all
  obtain sw where sw: "?r = (sw, Inr ?seg)" using r(1) by (metis prod.collapse)
  have "process_packet en ?p cur fab = (?fab\<lparr>switch_table := sw\<rparr>, [], Inr (Some (segment_reply ?p sid), cur))"
    unfolding process_packet_open [OF reg_seg_packet_simps(5)]
    using sw by (simp add: process_plain_def dispatch_def handle_reg_seg_def segment_reply_def Let_def)
  moreover have "view (?fab\<lparr>switch_table := sw\<rparr>) = add_segment ?seg (view fab)"
    using r(2) sw register_segment_rest(2,3) [of "u_node ctx" sid 0 sz token perm "now en" "switch_table fab"]
    by (intro view_eqI) (simp_all add: add_segment_def)
  ultimately show ?thesis by blast
qed

definition jetty_reply :: "packet \<Rightarrow> int \<Rightarrow> packet" where
  "jetty_reply p lid = switch_reply p OP_RESP_OK [(''status'', JStr ''JETTY_CREATED''), (''jetty_id'', JInt lid)]"

lemma jetty_packet_simps [simp]:
  "opcode (jetty_packet ctx lid rn rid token s) = OP_CREATE_JETTY" "src_node (jetty_packet ctx lid rn rid token s) = u_node ctx"
  "seq_num (jetty_packet ctx lid rn rid token s) = s" "token_id (jetty_packet ctx lid rn rid token s) = token"
  "\<not> is_cip_encrypted (jetty_packet ctx lid rn rid token s)" "int_index ''local_jetty_id'' (jetty_packet ctx lid rn rid token s) = Inr lid"
  "int_index ''remote_node'' (jetty_packet ctx lid rn rid token s) = Inr rn"
  "int_index ''remote_jetty_id'' (jetty_packet ctx lid rn rid token s) = Inr rid"
  by (simp_all add: jetty_packet_def ub_packet_def is_cip_encrypted_def FLAG_NONE_def meta_index_def int_index_def)

lemma create_jetty_view: "segment_at (create_jetty l i rn rid token sw) = segment_at sw"
  "memory_pools (create_jetty l i rn rid token sw) = memory_pools sw" "next_pool_id (create_jetty l i rn rid token sw) = next_pool_id sw"
  by (simp_all add: create_jetty_def segment_at_def fun_eq_iff)

lemma served_create_jetty:
  "\<exists>fab1. process_packet en (jetty_packet ctx lid rn rid token s) cur fab
      = (fab1, [], Inr (Some (jetty_reply (jetty_packet ctx lid rn rid token s) lid), cur))
    \<and> view fab1 = view fab"
proof -
  let ?p = "jetty_packet ctx lid rn rid token s"
  let ?fab = "count_tx en ?p (count_packet ?p fab)"
  let ?fab1 = "?fab\<lparr>switch_table := create_jetty (u_node ctx) lid rn rid token (switch_table fab)\<rparr>"
  have "process_packet en ?p cur fab = (?fab1, [], Inr (Some (jetty_reply ?p lid), cur))"
    unfolding process_packet_open [OF jetty_packet_simps(5)]
    by (simp add: process_plain_def dispatch_def handle_create_jetty_def jetty_reply_def Let_def)
  moreover have "view ?fab1 = view fab" by (intro view_eqI) (simp_all add: create_jetty_view)
  ultimately show ?thesis by blast
qed

section \<open>Memory\<close>

lemma view_set_node:
  assumes "dict_get (nodes fab) n = Some c" "conn_id c' = conn_id c"
  shows "view (fab\<lparr>nodes := dict_set n c' (nodes fab)\<rparr>) = (view fab)\<lparr>v_memory := (mem_of fab)(n \<mapsto> local_memory c')\<rparr>"
  using assms by (intro view_eqI) (auto simp: mem_of_def conn_of_def fun_eq_iff)

lemma handle_write_view:
  assumes "names_range p sid off" "len = int (length (payload p))" "granted p sid off len True fab" "transfer_time len fab = Inr lat"
    and "mem_of fab (dst_node p) = Some m" "off + len \<le> int (length m)" "length plain = length (payload p)"
    and "conn_of fab (dst_node p) = Some cid" "\<not> lost en cid" "serialize p = Inr f"
  shows "\<exists>fab1. handle_write en p plain cur fab = (fab1, [(cid, f)], Inr (Some (write_completed p lat), cur))
    \<and> view fab1 = store (dst_node p) off plain (view fab)"
proof -
  obtain c where c: "dict_get (nodes fab) (dst_node p) = Some c" "local_memory c = m" "conn_id c = cid"
    using assms(5,8) by (auto simp: mem_of_def conn_of_def)
  let ?c = "(count_rx p c)\<lparr>local_memory := mem_write m off plain\<rparr>"
  let ?fab1 = "fab\<lparr>nodes := dict_set (dst_node p) ?c (nodes fab)\<rparr>"
  let ?fab2 = "record_event en (if opcode p = OP_URMA_WRITE then ''URMA_WRITE'' else ''CDMA_WRITE'') (src_node p) (dst_node p) len lat
      (''Write seg '' @ show_int sid @ '' offset '' @ show_int off) ?fab1"
  obtain msg where v: "validate_access (dst_node p) sid off len True (token_id p) (switch_table fab) = (True, msg)"
    using granted_validate [OF assms(3)] by blast
  have q: "send_quiet en cid p = [(cid, f)]" using assms(9,10) by (simp add: send_quiet_def send_raising_def)
  have "handle_write en p plain cur fab = (?fab2, [(cid, f)], Inr (Some (write_completed p lat), cur))"
    using assms(1,2,4,6,7) v c q
    by (simp add: handle_write_def names_range_def Let_def write_completed_def write_reply_opcode_def mem_write_def count_rx_def)
  moreover have "view ?fab2 = store (dst_node p) off plain (view fab)"
    using view_set_node [OF c(1), of ?c] assms(5) c by (simp add: store_def count_rx_def)
  ultimately show ?thesis by blast
qed

text \<open>A granted plain write: the answer, the relayed frame and the new memory.\<close>

lemma served_write:
  assumes "opcode p = OP_URMA_WRITE \<or> opcode p = OP_CDMA_SUBMIT" "\<not> is_cip_encrypted p" "names_range p sid off"
    and "len = int (length (payload p))" "view_grants (view fab) (dst_node p) sid off len True (token_id p)" "v_bandwidth (view fab) \<noteq> 0"
    and "v_memory (view fab) (dst_node p) = Some m" "off + len \<le> int (length m)" "len < 256 ^ 4"
    and "v_conn (view fab) (dst_node p) = Some cid" "\<not> lost en cid" "serialize p = Inr f"
  shows "\<exists>fab1. process_packet en p cur fab = (fab1, [(cid, f)], Inr (Some (write_completed p (view_latency len (view fab))), cur))
    \<and> view fab1 = store (dst_node p) off (payload p) (view fab)"
proof -
  let ?fab = "count_tx en p (count_packet p fab)"
  have op: "opcode p \<in> write_opcodes" using assms(1) by (auto simp: write_opcodes_def)
  have v: "view ?fab = view fab" by simp
  have t: "transfer_time len ?fab = Inr (view_latency len (view fab))"
    using view_transfer_time [of ?fab len] assms(4,6,9) unfolding v by simp
  have g: "granted p sid off len True ?fab" using assms(5) unfolding view_grants_granted v .
  have m: "mem_of ?fab (dst_node p) = Some m" "conn_of ?fab (dst_node p) = Some cid" using assms(7,10) by simp_all
  show ?thesis
    unfolding process_packet_open [OF assms(2)] to_handler(1) [OF op]
    using handle_write_view [OF assms(3,4) g t m(1) assms(8) refl m(2) assms(11,12)] unfolding v .
qed

lemma served_read:
  assumes "opcode p = OP_URMA_READ" "\<not> is_cip_encrypted p" "names_range p sid off" "int_get ''length'' 0 p = Inr len"
    and "view_grants (view fab) (dst_node p) sid off len False (token_id p)" "v_bandwidth (view fab) \<noteq> 0"
    and "v_memory (view fab) (dst_node p) = Some m" "off + len \<le> int (length m)" "0 \<le> len" "len < 256 ^ 4"
  shows "\<exists>fab1. process_packet en p cur fab
      = (fab1, [], Inr (Some (read_completed p (view_latency len (view fab)) (mem_read m off len)), cur))
    \<and> view fab1 = view fab"
proof -
  let ?fab = "count_tx en p (count_packet p fab)"
  have op: "opcode p \<in> read_opcodes" using assms(1) by (simp add: read_opcodes_def)
  have v: "view ?fab = view fab" by simp
  have t: "transfer_time len ?fab = Inr (view_latency len (view fab))"
    using view_transfer_time [of ?fab len] assms(6,9,10) unfolding v by simp
  have "granted p sid off len False ?fab" using assms(5) unfolding view_grants_granted v .
  then obtain msg where g: "validate_access (dst_node p) sid off len False (token_id p) (switch_table fab) = (True, msg)"
    using granted_validate by fastforce
  have m: "mem_of ?fab (dst_node p) = Some m" using assms(7) by simp
  obtain c where c: "dict_get (nodes ?fab) (dst_node p) = Some c" "local_memory c = m"
    using m unfolding mem_of_def by auto
  let ?fab1 = "record_event en ''URMA_READ'' (src_node p) (dst_node p) len (view_latency len (view fab))
      (''Read seg '' @ show_int sid @ '' offset '' @ show_int off) ?fab"
  have "process_packet en p cur fab
      = (?fab1, [], Inr (Some (read_completed p (view_latency len (view fab)) (mem_read m off len)), cur))"
    unfolding process_packet_open [OF assms(2)] to_handler(2) [OF op]
    using assms(1,3,4,8) t g c by (simp add: handle_read_def names_range_def Let_def read_completed_def mem_read_def)
  then show ?thesis by fastforce
qed

section \<open>Protected packets\<close>

lemma view_cip [simp]:
  "view (fab\<lparr>cip := eng\<rparr>) = (view fab)\<lparr>v_cip := eng\<rparr>" "view_grants (v\<lparr>v_cip := eng\<rparr>) = view_grants v"
  "view_latency n (v\<lparr>v_cip := eng\<rparr>) = view_latency n v" "conn_of (fab\<lparr>cip := eng\<rparr>) = conn_of fab"
  "v_cip (store n off bs v) = v_cip v"
  by (intro view_eqI, auto simp: mem_of_def conn_of_def fun_eq_iff view_grants_def view_latency_def store_def)

lemma count_packet_cip [simp]: "cip (count_packet p fab) = cip fab"
  by (simp add: count_packet_def)

text \<open>A granted write that the engine accepts: the plaintext is stored, the packet is relayed as it came.\<close>

lemma served_protected_write:
  assumes "opcode p = OP_URMA_WRITE" "is_cip_encrypted p" "names_range p sid off" "len = int (length (payload p))"
    and "decrypt_and_verify (v_cip (view fab)) (payload p) (auth_tag p) (token_id p) (seq_num p) (src_node p) = (eng, Inr (True, plain, msg))"
    and "view_grants (view fab) (dst_node p) sid off len True (token_id p)" "v_bandwidth (view fab) \<noteq> 0"
    and "v_memory (view fab) (dst_node p) = Some m" "off + len \<le> int (length m)" "len < 256 ^ 4"
    and "v_conn (view fab) (dst_node p) = Some cid" "\<not> lost en cid" "serialize p = Inr f"
  shows "\<exists>fab1. process_packet en p cur fab = (fab1, [(cid, f)], Inr (Some (write_completed p (view_latency len (view fab))), cur))
    \<and> view fab1 = store (dst_node p) off plain ((view fab)\<lparr>v_cip := eng\<rparr>)"
proof -
  let ?fab = "count_tx en p ((count_packet p fab)\<lparr>cip := eng\<rparr>)"
  have op: "opcode p \<in> write_opcodes" using assms(1) by (simp add: write_opcodes_def)
  have d: "decrypt_and_verify (cip fab) (payload p) (auth_tag p) (token_id p) (seq_num p) (src_node p) = (eng, Inr (True, plain, msg))"
    using assms(5) by simp
  have v: "view ?fab = (view fab)\<lparr>v_cip := eng\<rparr>" by simp
  have "transfer_time len ?fab = Inr (view_latency len (view ?fab))" unfolding v using assms(4,7,10) by (intro view_transfer_time [of ?fab, unfolded v]) simp_all
  then have t: "transfer_time len ?fab = Inr (view_latency len (view fab))" by simp
  have g: "granted p sid off len True ?fab" unfolding view_grants_granted v using assms(6) by simp
  have m: "mem_of ?fab (dst_node p) = Some m" "conn_of ?fab (dst_node p) = Some cid" using assms(8,11) by simp_all
  show ?thesis
    unfolding process_protected [OF assms(2) d] to_handler(1) [OF op]
    using handle_write_view [OF assms(3,4) g t m(1) assms(9) decrypt_accepted_length [OF d] m(2) assms(12,13)] unfolding v .
qed

text \<open>A packet that the engine refuses changes the engine only.\<close>

lemma served_refusal:
  assumes "is_cip_encrypted p"
    and "decrypt_and_verify (v_cip (view fab)) (payload p) (auth_tag p) (token_id p) (seq_num p) (src_node p) = (eng, Inr (False, plain, msg))"
  shows "\<exists>fab1. process_packet en p cur fab = (fab1, [], Inr (Some (error_reply p msg), cur)) \<and> view fab1 = (view fab)\<lparr>v_cip := eng\<rparr>"
  using assms by (simp add: process_packet_def Let_def)

section \<open>Pools\<close>

definition export_reply :: "packet \<Rightarrow> int \<Rightarrow> int \<Rightarrow> packet" where
  "export_reply p pid sz = switch_reply p OP_RESP_OK [(''pool_id'', JInt pid), (''size'', JInt sz)]"

lemma export_packet_simps [simp]:
  "opcode (export_packet cl sz token perm s) = OP_OBMM_EXPORT" "src_node (export_packet cl sz token perm s) = o_node cl"
  "seq_num (export_packet cl sz token perm s) = s" "token_id (export_packet cl sz token perm s) = token"
  "\<not> is_cip_encrypted (export_packet cl sz token perm s)" "int_index ''size'' (export_packet cl sz token perm s) = Inr sz"
  "str_get ''permissions'' e (export_packet cl sz token perm s) = Inr perm"
  by (simp_all add: export_packet_def ub_packet_def is_cip_encrypted_def FLAG_NONE_def meta_get_def meta_index_def int_index_def str_get_def)

lemma segment_at_next_pool [simp]: "segment_at (sw\<lparr>next_pool_id := k\<rparr>) = segment_at sw" "segment_at (sw\<lparr>memory_pools := ps\<rparr>) = segment_at sw"
  by (simp_all add: segment_at_def fun_eq_iff)

lemma export_pool_view:
  assumes "py_upper perm = Inr up" "seg = new_ub_segment (next_pool_id sw) n sz token up tm"
  shows "\<exists>sw1. export_memory_pool n sz token perm tm sw = (sw1, Inr (next_pool_id sw))
    \<and> segment_at sw1 = (segment_at sw)(n := (segment_at sw n)(next_pool_id sw \<mapsto> seg))
    \<and> dict_get (memory_pools sw1) = (dict_get (memory_pools sw))(next_pool_id sw \<mapsto> seg) \<and> next_pool_id sw1 = next_pool_id sw + 1"
proof -
  let ?sw = "sw\<lparr>next_pool_id := next_pool_id sw + 1\<rparr>"
  note r = register_segment_view [OF assms, of ?sw] and rest = register_segment_rest [of n "next_pool_id sw" 0 sz token perm tm ?sw]
  obtain sw1 where "register_segment n (next_pool_id sw) 0 sz token perm tm ?sw = (sw1, Inr seg)" using r(1) by (metis prod.collapse)
  then show ?thesis
    using r(2) rest
    by (intro exI [of _ "sw1\<lparr>memory_pools := dict_set (next_pool_id sw) seg (memory_pools sw1)\<rparr>"]) (simp add: export_memory_pool_def fun_eq_iff Let_def)
qed

lemma served_export:
  assumes "py_upper perm = Inr up" "megabytes_finite sz"
  shows "\<exists>fab1. process_packet en (export_packet cl sz token perm s) cur fab
      = (fab1, [], Inr (Some (export_reply (export_packet cl sz token perm s) (v_next_pool (view fab)) sz), cur))
    \<and> view fab1 = add_pool (new_ub_segment (v_next_pool (view fab)) (o_node cl) sz token up (now en)) (view fab)"
proof -
  let ?p = "export_packet cl sz token perm s"
  let ?fab = "count_tx en ?p (count_packet ?p fab)"
  let ?pid = "next_pool_id (switch_table fab)"
  let ?seg = "new_ub_segment ?pid (o_node cl) sz token up (now en)"
  obtain sw where sw: "export_memory_pool (o_node cl) sz token perm (now en) (switch_table fab) = (sw, Inr ?pid)"
      "segment_at sw = (segment_at (switch_table fab))(o_node cl := (segment_at (switch_table fab) (o_node cl))(?pid \<mapsto> ?seg))"
      "dict_get (memory_pools sw) = (dict_get (memory_pools (switch_table fab)))(?pid \<mapsto> ?seg)" "next_pool_id sw = ?pid + 1"
    using export_pool_view [OF assms(1) refl] by blast
  have "process_packet en ?p cur fab = (?fab\<lparr>switch_table := sw\<rparr>, [], Inr (Some (export_reply ?p ?pid sz), cur))"
    unfolding process_packet_open [OF export_packet_simps(5)]
    using sw(1) assms(2) by (simp add: process_plain_def dispatch_def handle_export_def export_reply_def Let_def)
  moreover have "view (?fab\<lparr>switch_table := sw\<rparr>) = add_pool ?seg (view fab)"
    using sw(2-4) by (intro view_eqI) (simp_all add: add_pool_def add_segment_def fun_eq_iff)
  ultimately show ?thesis by simp
qed

text \<open>The pool a borrower gets from the view.\<close>

definition view_import :: "switch_view \<Rightarrow> int \<Rightarrow> int \<Rightarrow> ub_segment option" where
  "view_import v pid token =
     (case v_pool v pid of None \<Rightarrow> None | Some seg \<Rightarrow> if seg_token seg \<noteq> 0 \<and> seg_token seg \<noteq> token then None else Some seg)"

lemma served_import:
  "\<exists>fab1. process_packet en (import_packet cl pid token s) cur fab
      = (fab1, [], Inr (Some (case view_import (view fab) pid token of
            None \<Rightarrow> import_refusal (import_packet cl pid token s) pid
          | Some seg \<Rightarrow> import_reply (import_packet cl pid token s) pid seg), cur))
    \<and> view fab1 = view fab"
proof -
  let ?p = "import_packet cl pid token s"
  let ?fab = "count_tx en ?p (count_packet ?p fab)"
  have "process_packet en ?p cur fab = (?fab, [], Inr (Some (case view_import (view fab) pid token of
      None \<Rightarrow> import_refusal ?p pid | Some seg \<Rightarrow> import_reply ?p pid seg), cur))"
    unfolding process_packet_open [OF import_packet_simps(5)]
    by (simp add: process_plain_def dispatch_def Let_def handle_import_def import_reply_def import_refusal_def view_import_def
        import_memory_pool_def split: option.split)
  then show ?thesis by fastforce
qed

section \<open>Hanging up\<close>

lemma unregister_node_view: "segment_at (unregister_node n sw) = (segment_at sw)(n := (\<lambda>i. None))"
  by (auto simp: segment_at_def unregister_node_def fun_eq_iff)

lemma cleanup_view:
  assumes "v_conn (view fab) n \<noteq> None"
  shows "view (client_cleanup \<lparr>client_buffer = b, current_node = Some n\<rparr> fab) = detach n (view fab)"
proof -
  have "dict_get (nodes fab) n \<noteq> None" using assms by (simp add: conn_of_def)
  then have c: "client_cleanup \<lparr>client_buffer = b, current_node = Some n\<rparr> fab
      = fab\<lparr>nodes := dict_del n (nodes fab), switch_table := unregister_node n (switch_table fab)\<rparr>"
    by (auto simp: client_cleanup_def)
  have "mem_of (fab\<lparr>nodes := dict_del n (nodes fab)\<rparr>) = (mem_of fab)(n := None)"
    "conn_of (fab\<lparr>nodes := dict_del n (nodes fab)\<rparr>) = (conn_of fab)(n := None)"
    by (simp_all add: mem_of_def conn_of_def fun_eq_iff)
  then show ?thesis
    unfolding c by (intro view_eqI) (simp_all add: detach_def unregister_node_view, simp_all add: unregister_node_def)
qed

end
