(* ===== verification/Wire_Sizes.thy ===== *)
theory Wire_Sizes
  imports Switch_View
begin

text \<open>
  Sizes on the wire: the length of the texts that \<open>json.dumps\<close> makes of numbers and strings, and from it
  that every request of the SDK with ids in the range of its header field, and every answer of the switch
  to it, can be serialized.
\<close>

section \<open>Lengths of numbers and strings\<close>

lemma length_show_base:
  assumes "2 \<le> b" "0 \<le> n" "n < b ^ k" "0 < k"
  shows "length (show_base b n) \<le> k"
  using assms(2-4)
proof (induction k arbitrary: n)
  case (Suc k)
  show ?case
  proof (cases "n < b")
    case True
    then show ?thesis using assms(1) Suc.prems by (subst show_base.simps) simp
  next
    case False
    then have k: "0 < k" using Suc.prems(2) by (cases k) simp_all
    have "n div b < b ^ k"
    proof (rule ccontr)
      assume "\<not> n div b < b ^ k"
      then have "b * b ^ k \<le> b * (n div b)" using assms(1) by (intro mult_left_mono) simp_all
      moreover have "b * (n div b) + n mod b = n" "0 \<le> n mod b" using assms(1) by simp_all
      moreover have "n < b * b ^ k" using Suc.prems(2) by simp
      ultimately show False by linarith
    qed
    moreover have "0 \<le> n div b" using assms(1) Suc.prems(1) by (simp add: pos_imp_zdiv_nonneg_iff)
    ultimately have "length (show_base b (n div b)) \<le> k" using Suc.IH [of "n div b"] k by simp
    then show ?thesis using assms(1) False by (subst show_base.simps) simp
  qed
qed simp

lemma length_show_int: "0 \<le> n \<Longrightarrow> n < 10 ^ k \<Longrightarrow> 0 < k \<Longrightarrow> length (show_int n) \<le> k"
  using length_show_base [of 10 n k] by (simp add: show_int_def)

lemma length_concat_map:
  assumes "\<And>c. length (f c) \<le> k"
  shows "length (concat (map f s)) \<le> k * length s"
proof (induction s)
  case (Cons c s)
  then show ?case using assms [of c] by simp
qed simp

lemma length_quote_str: "length (quote_str s) \<le> 6 * length s + 2"
proof -
  have "length (escape_char c) \<le> 6" for c by (auto simp: escape_char_def Let_def)
  from length_concat_map [of escape_char, OF this] show ?thesis by (simp add: quote_str_def)
qed

lemma length_encode_utf8: "length (encode_utf8 s) \<le> 2 * length s"
proof -
  have "length (utf8_char c) \<le> 2" for c by (simp add: utf8_char_def Let_def)
  from length_concat_map [of utf8_char, OF this] show ?thesis by (simp add: encode_utf8_def)
qed

lemma round_half_even_upper: "of_int (round_half_even x) \<le> x + 1 / 2"
  by (simp add: round_half_even_def Let_def) linarith

text \<open>The decimal that is printed for a positive float has at most 18 digits.\<close>

lemma shortest_decimal_bounds:
  assumes "0 < x" "shortest_decimal x = (m, s)"
  shows "0 < m" "m < 10 ^ 18" "ilog 10 x - 16 \<le> s" "s \<le> ilog 10 x"
proof -
  obtain n where n: "1 \<le> n" "n \<le> 17" "(m, s) = dec_candidate x n"
  proof (cases "find (\<lambda>n. fl (dec_value (dec_candidate x n)) = x) [1..<17]")
    case None
    then show ?thesis using assms(2) that [of 17] by (simp add: shortest_decimal_def)
  next
    case (Some k)
    then have "k \<in> set [1..<17]" by (metis find_Some_iff nth_mem)
    then show ?thesis using Some assms(2) that [of k] by (simp add: shortest_decimal_def)
  qed
  show "ilog 10 x - 16 \<le> s" "s \<le> ilog 10 x" using n by (simp_all add: dec_candidate_def Let_def)
  show "0 < m" using shortest_decimal_pos [OF assms(1)] assms(2) by simp
  let ?s = "ilog 10 x - int n + 1"
  have "x < 10 powi (ilog 10 x + 1)" using ilog_bounds(2) [of 10 x] assms(1) by simp
  also have "ilog 10 x + 1 = int n + ?s" by simp
  also have "(10 :: rat) powi (int n + ?s) = 10 powi int n * 10 powi ?s" by (rule power_int_add) simp
  finally have "x / 10 powi ?s < 10 ^ n" by (simp add: pos_divide_less_eq)
  then have "of_int (round_half_even (x / 10 powi ?s)) < (10 :: rat) ^ n + 1"
    using round_half_even_upper [of "x / 10 powi ?s"] by linarith
  moreover have "(10 :: rat) ^ n \<le> 10 ^ 17" using n(2) by (intro power_increasing) simp_all
  ultimately have "of_int m < (of_int (10 ^ 17 + 1) :: rat)" using n(3) by (simp add: dec_candidate_def Let_def)
  then have "m < 10 ^ 17 + 1" by (simp only: of_int_less_iff)
  then show "m < 10 ^ 18" by simp
qed

lemma length_strip_zeros: "length (strip_zeros s) \<le> length s"
  by (simp add: strip_zeros_def) (metis length_dropWhile_le length_rev)

lemma length_format_float:
  assumes "\<bar>pt - 1\<bar> < 100"
  shows "length (format_float ds pt) \<le> 2 * length ds + 25"
proof -
  have "length (show_base 10 \<bar>pt - 1\<bar>) \<le> 2" using assms by (intro length_show_base) simp_all
  then show ?thesis by (auto simp: format_float_def Let_def min_def)
qed

lemma length_float_repr:
  assumes "1 \<le> x" "x < 10 ^ 20"
  shows "length (float_repr x) \<le> 61"
proof -
  obtain m s where ms: "shortest_decimal x = (m, s)" by fastforce
  have x: "0 < x" using assms(1) by linarith
  note b = shortest_decimal_bounds [OF x ms]
  have "(10::rat) powi 0 < 10 powi (ilog 10 x + 1)" "(10::rat) powi (ilog 10 x) < 10 powi 20"
    using ilog_bounds [of 10 x] x assms by simp_all
  then have l: "0 < ilog 10 x + 1" "ilog 10 x < 20"
    by (metis not_less power_int_increasing one_le_numeral)+
  let ?t = "show_base 10 m"
  have t: "length ?t \<le> 18" using b(1,2) by (intro length_show_base) simp_all
  then have "length (format_float (strip_zeros ?t) (int (length ?t) + s)) \<le> 2 * length (strip_zeros ?t) + 25"
    using b l by (intro length_format_float) linarith
  then have "length (format_float (strip_zeros ?t) (int (length ?t) + s)) \<le> 61"
    using length_strip_zeros [of ?t] t by linarith
  then show ?thesis using x ms by (simp add: float_repr_def Let_def)
qed

section \<open>Packets that can be serialized\<close>

text \<open>Ids of nodes have 16 bits, sequence numbers and tokens 32.\<close>

definition u16 :: "int \<Rightarrow> bool" where
  "u16 n \<longleftrightarrow> 0 \<le> n \<and> n < 65536"

definition u32 :: "int \<Rightarrow> bool" where
  "u32 n \<longleftrightarrow> 0 \<le> n \<and> n < 2 ^ 32"

lemma u_bounds: "u16 n \<Longrightarrow> 0 \<le> n \<and> n < 65536" "u32 n \<Longrightarrow> 0 \<le> n \<and> n < 2 ^ 32"
  by (simp_all add: u16_def u32_def)

lemma length_meta_bytes: "length (meta_bytes p) \<le> 2 * length (dumps (metadata p)) + 2"
  using length_encode_utf8 [of "dumps (metadata p)"] by (simp add: meta_bytes_def)

lemma serialize_fits:
  assumes "length (dumps (metadata p)) < 10 ^ 9" "length (payload p) < 2 ^ 32" "opcode p \<in> {0..<256}"
    and "u16 (src_node p)" "u16 (dst_node p)" "u32 (token_id p)" "u32 (seq_num p)"
  shows "\<exists>f. serialize p = Inr f"
  using assms flags_vl_range [of "flags p" "virtual_lane p"] length_meta_bytes [of p] crc32_bounds
  by (simp add: serialize_Inr header_in_range_def packet_header_def u16_def u32_def)

end
