(* ===== verification/Platform.thy ===== *)
theory Platform
  imports Wire_Sizes
begin

text \<open>
  The guest SDK and the switch as one system: the daemon with its connections (\<open>daemon/fabric.py\<close>), what
  it has written to connections whose owners have not read it yet, and a call of the SDK as one exchange
  with it. A call sends its request, the daemon serves it, and the caller then receives what lies on its
  connection; calls of different programs follow one another, which is the schedule of a program that
  waits for every call. A program is a sequence of calls that an exception ends.
\<close>

section \<open>State and calls\<close>

text \<open>\<open>p_clock i\<close> is the time the daemon reads during the \<open>i\<close>-th exchange.\<close>

record platform =
  p_server :: server
  p_mail :: "sent list"
  p_clock :: "nat \<Rightarrow> pyfloat"
  p_calls :: nat
  p_sockets :: nat

definition new_platform :: "pyfloat \<Rightarrow> pyfloat \<Rightarrow> (nat \<Rightarrow> pyfloat) \<Rightarrow> platform" where
  "new_platform bw hop clock =
     \<lparr>p_server = fst (server_step (new_server bw hop) Start), p_mail = [], p_clock = clock, p_calls = 0, p_sockets = 0\<rparr>"

text \<open>A connection that has no handler any more is gone.\<close>

definition gone :: "server \<Rightarrow> nat \<Rightarrow> bool" where
  "gone sv cid \<longleftrightarrow> dict_get (clients sv) cid = None"

text \<open>
  A call: what it sends does not depend on what it will receive (\<open>call_sends\<close> below), so the request is
  read off the call with nothing received. A call that sends nothing does not reach the switch.
\<close>

type_synonym ('c, 'a) sdk_call = "bytes list \<Rightarrow> 'c \<Rightarrow> 'c \<times> bytes \<times> 'a result"

definition exchange :: "nat \<Rightarrow> ('c, 'a) sdk_call \<Rightarrow> 'c \<Rightarrow> platform \<Rightarrow> platform \<times> 'c \<times> 'a result" where
  "exchange cid op ctx pf =
     (let (ctx0, request, r0) = op [] ctx in
      if request = [] then (pf, ctx0, r0)
      else
        let (sv, out) = server_step (p_server pf) (Receive cid request (p_clock pf (p_calls pf)) (gone (p_server pf)));
            mail = p_mail pf @ out;
            (ctx1, _, r) = op (map snd (filter (\<lambda>m. fst m = cid) mail)) ctx
        in (pf\<lparr>p_server := sv, p_mail := filter (\<lambda>m. fst m \<noteq> cid) mail, p_calls := p_calls pf + 1\<rparr>, ctx1, r))"

text \<open>\<open>UBDevice(...)\<close>: a new socket, which the daemon accepts at the first attempt, and the registration.\<close>

definition connect_device :: "int \<Rightarrow> string \<Rightarrow> platform \<Rightarrow> platform \<times> nat \<times> ub_device result" where
  "connect_device n ty pf =
     (let cid = p_sockets pf;
          pf1 = pf\<lparr>p_server := fst (server_step (p_server pf) (Connect cid)), p_sockets := cid + 1\<rparr>;
          (pf2, dev, r) = exchange cid (connect_and_register [None] ''/tmp/ub-fabric/fabric.sock'') (new_device n ty) pf1
      in (pf2, cid, rbind r (\<lambda>_. Inr dev)))"

text \<open>\<open>close()\<close>: the daemon reads the end of the stream.\<close>

definition hang_up :: "nat \<Rightarrow> platform \<Rightarrow> platform" where
  "hang_up cid pf =
     pf\<lparr>p_server := fst (server_step (p_server pf) (Receive cid [] (p_clock pf (p_calls pf)) (gone (p_server pf))))\<rparr>"

text \<open>A step of a program: an exception ends it.\<close>

definition run_call ::
  "nat \<Rightarrow> ('c, 'a) sdk_call \<Rightarrow> 'c \<Rightarrow> ('c \<Rightarrow> 'a \<Rightarrow> platform \<Rightarrow> platform \<times> 'b result) \<Rightarrow> platform \<Rightarrow> platform \<times> 'b result"
where
  "run_call cid op ctx k pf =
     (case exchange cid op ctx pf of (pf1, ctx1, r) \<Rightarrow> (case r of Inl e \<Rightarrow> (pf1, Inl e) | Inr v \<Rightarrow> k ctx1 v pf1))"

definition run_connect ::
  "int \<Rightarrow> string \<Rightarrow> (nat \<Rightarrow> ub_device \<Rightarrow> platform \<Rightarrow> platform \<times> 'b result) \<Rightarrow> platform \<Rightarrow> platform \<times> 'b result"
where
  "run_connect n ty k pf =
     (case connect_device n ty pf of (pf1, cid, r) \<Rightarrow> (case r of Inl e \<Rightarrow> (pf1, Inl e) | Inr dev \<Rightarrow> k cid dev pf1))"

section \<open>The view of a platform\<close>

record world =
  w_switch :: switch_view
  w_links :: "nat \<Rightarrow> client option"
  w_mail :: "sent list"
  w_time :: "nat \<Rightarrow> pyfloat"
  w_calls :: nat
  w_sockets :: nat

definition world :: "platform \<Rightarrow> world" where
  "world pf =
     \<lparr>w_switch = view (daemon (p_server pf)), w_links = dict_get (clients (p_server pf)), w_mail = p_mail pf,
      w_time = p_clock pf, w_calls = p_calls pf, w_sockets = p_sockets pf\<rparr>"

lemma world_simps [simp]:
  "w_switch (world pf) = view (daemon (p_server pf))" "w_links (world pf) = dict_get (clients (p_server pf))" "w_mail (world pf) = p_mail pf"
  "w_time (world pf) = p_clock pf" "w_calls (world pf) = p_calls pf" "w_sockets (world pf) = p_sockets pf"
  by (simp_all add: world_def)

definition handler :: "int option \<Rightarrow> client" where
  "handler cur = \<lparr>client_buffer = [], current_node = cur\<rparr>"

text \<open>A connection on which nothing is unread, in either direction, of a running daemon.\<close>

definition online :: "nat \<Rightarrow> int option \<Rightarrow> world \<Rightarrow> bool" where
  "online cid cur w \<longleftrightarrow> w_links w cid = Some (handler cur) \<and> v_running (w_switch w) \<and> cid \<notin> fst ` set (w_mail w)"

text \<open>The world after a served exchange.\<close>

definition served :: "nat \<Rightarrow> int option \<Rightarrow> sent list \<Rightarrow> switch_view \<Rightarrow> world \<Rightarrow> world" where
  "served cid cur out v w =
     w\<lparr>w_switch := v, w_links := (w_links w)(cid \<mapsto> handler cur), w_mail := w_mail w @ out, w_calls := w_calls w + 1\<rparr>"

lemma served_simps [simp]:
  "w_switch (served cid cur out v w) = v" "w_links (served cid cur out v w) = (w_links w)(cid \<mapsto> handler cur)"
  "w_mail (served cid cur out v w) = w_mail w @ out" "w_time (served cid cur out v w) = w_time w"
  "w_calls (served cid cur out v w) = w_calls w + 1" "w_sockets (served cid cur out v w) = w_sockets w"
  by (simp_all add: served_def)

definition exchange_env :: "nat \<Rightarrow> platform \<Rightarrow> env" where
  "exchange_env cid pf = \<lparr>now = p_clock pf (p_calls pf), me = cid, lost = gone (p_server pf)\<rparr>"

lemma exchange_env_simps [simp]:
  "now (exchange_env cid pf) = w_time (world pf) (w_calls (world pf))" "me (exchange_env cid pf) = cid"
  "lost (exchange_env cid pf) c \<longleftrightarrow> w_links (world pf) c = None"
  by (simp_all add: exchange_env_def gone_def)

section \<open>One served exchange\<close>

text \<open>What lies unread on the connection comes before the answer.\<close>

definition unread :: "nat \<Rightarrow> world \<Rightarrow> bytes list" where
  "unread cid w = map snd (filter (\<lambda>m. fst m = cid) (w_mail w))"

lemma exchange_after_mail:
  assumes "fst (snd (op [] ctx)) = f" "wf_packet p" "serialize p = Inr f"
    and "w_links (world pf) cid = Some (handler cur)" "v_running (w_switch (world pf))"
    and "process_packet (exchange_env cid pf) p cur (daemon (p_server pf)) = (fab1, out, Inr (Some r, cur1))"
    and "serialize r = Inr a" "cid \<notin> fst ` set out" "running fab1" "op (unread cid (world pf) @ [a]) ctx = (ctx1, f, v)"
  shows "\<exists>pf1. exchange cid op ctx pf = (pf1, ctx1, v)
    \<and> world pf1 = (served cid cur1 out (view fab1) (world pf))\<lparr>w_mail := filter (\<lambda>m. fst m \<noteq> cid) (w_mail (world pf)) @ out\<rparr>"
proof -
  have o: "dict_get (clients (p_server pf)) cid = Some \<lparr>client_buffer = [], current_node = cur\<rparr>"
    using assms(4) by (simp add: handler_def)
  have f: "f \<noteq> []" using serialize_nonempty [OF assms(3)] .
  let ?sv = "(p_server pf)\<lparr>daemon := fab1, clients := dict_set cid \<lparr>client_buffer = [], current_node = cur1\<rparr> (clients (p_server pf))\<rparr>"
  have "client_chunk (exchange_env cid pf) f \<lparr>client_buffer = [], current_node = cur\<rparr> (daemon (p_server pf))
      = (fab1, out @ [(cid, a)], \<lparr>client_buffer = [], current_node = cur1\<rparr>, None)"
    using request_served [OF assms(2,3,6,7)] assms(5) o by simp
  then have s: "server_step (p_server pf) (Receive cid f (p_clock pf (p_calls pf)) (gone (p_server pf))) = (?sv, out @ [(cid, a)])"
    using o f assms(9) by (simp add: exchange_env_def Let_def)
  have "filter (\<lambda>m. fst m = cid) out = []" using assms(8) by (force simp: filter_empty_conv)
  then have m: "map snd (filter (\<lambda>m. fst m = cid) (p_mail pf @ out @ [(cid, a)])) = unread cid (world pf) @ [a]" by (simp add: unread_def)
  have "filter (\<lambda>m. fst m \<noteq> cid) out = out" using assms(8) by (force simp: filter_id_conv)
  then have k: "filter (\<lambda>m. fst m \<noteq> cid) (p_mail pf @ out @ [(cid, a)]) = filter (\<lambda>m. fst m \<noteq> cid) (p_mail pf) @ out" by simp
  let ?pf1 = "pf\<lparr>p_server := ?sv, p_mail := filter (\<lambda>m. fst m \<noteq> cid) (p_mail pf) @ out, p_calls := p_calls pf + 1\<rparr>"
  obtain c0 r0 where o0: "op [] ctx = (c0, f, r0)" using assms(1) by (metis prod.collapse)
  have "exchange cid op ctx pf = (?pf1, ctx1, v)"
    unfolding exchange_def Let_def o0 prod.case s m k assms(10) using f by simp
  moreover have "world ?pf1 = (served cid cur1 out (view fab1) (world pf))\<lparr>w_mail := filter (\<lambda>m. fst m \<noteq> cid) (w_mail (world pf)) @ out\<rparr>"
    by (simp add: world_def served_def handler_def fun_eq_iff)
  ultimately show ?thesis by blast
qed

text \<open>A connection on which nothing is unread.\<close>

lemma online_mail:
  assumes "online cid cur w"
  shows "unread cid w = []" "(served cid cur1 out v w)\<lparr>w_mail := filter (\<lambda>m. fst m \<noteq> cid) (w_mail w) @ out\<rparr> = served cid cur1 out v w"
proof -
  have "cid \<notin> fst ` set (w_mail w)" using assms by (simp add: online_def)
  then have "filter (\<lambda>m. fst m = cid) (w_mail w) = []" "filter (\<lambda>m. fst m \<noteq> cid) (w_mail w) = w_mail w"
    by (force simp: filter_empty_conv filter_id_conv)+
  then show "unread cid w = []" "(served cid cur1 out v w)\<lparr>w_mail := filter (\<lambda>m. fst m \<noteq> cid) (w_mail w) @ out\<rparr> = served cid cur1 out v w"
    by (simp_all add: unread_def served_def)
qed

lemma exchange_served:
  assumes "fst (snd (op [] ctx)) = f" "wf_packet p" "serialize p = Inr f"
    and "online cid cur (world pf)"
    and "process_packet (exchange_env cid pf) p cur (daemon (p_server pf)) = (fab1, out, Inr (Some r, cur1))"
    and "serialize r = Inr a" "cid \<notin> fst ` set out" "running fab1" "op [a] ctx = (ctx1, f, v)"
  shows "\<exists>pf1. exchange cid op ctx pf = (pf1, ctx1, v) \<and> world pf1 = served cid cur1 out (view fab1) (world pf)"
  using exchange_after_mail [where op = op, OF assms(1-3) _ _ assms(5-8)] assms(4,9) online_mail [OF assms(4)]
  by (simp add: online_def)

text \<open>What a call sends is the same whatever it receives.\<close>

lemma send_sync_bytes:
  "fst (snd (send_sync p cs dev)) = (case serialize p of Inl e \<Rightarrow> [] | Inr bs \<Rightarrow> if sock_open dev then bs else [])"
  by (simp add: send_sync_def Let_def split: sum.split prod.split)

lemma call_sync_bytes:
  "fst (snd (call_sync mk cs dev)) = (case serialize (mk (dev_seq dev)) of Inl e \<Rightarrow> [] | Inr bs \<Rightarrow> if sock_open dev then bs else [])"
  by (simp add: call_sync_def get_seq_def send_sync_bytes split: sum.split)

text \<open>A call whose outcome is a function of the answer to one packet.\<close>

lemma exchange_send_after_mail:
  assumes "\<And>cs. op cs ctx = (case send_sync p cs dev of (dev1, bs, r) \<Rightarrow> (g dev1 r, bs, h r))"
    and "ready dev" "wf_packet p" "serialize p = Inr f" "w_links (world pf) cid = Some (handler cur)" "v_running (w_switch (world pf))"
    and "process_packet (exchange_env cid pf) p cur (daemon (p_server pf)) = (fab1, out, Inr (Some r, cur1))" "view fab1 = v" "v_running v"
    and "wf_packet r" "serialize r = Inr a" "cid \<notin> fst ` set out"
    and "list_all2 (\<lambda>q f. wf_packet q \<and> serialize q = Inr f) qs (unread cid (world pf))" "list_all (\<lambda>q. \<not> answers (seq_num p) q) qs"
    and "rx_all qs (dev\<lparr>pending_replies := dict_set (seq_num p) None (pending_replies dev)\<rparr>) = Inr dev'"
    and "dev1 = dev'\<lparr>pending_replies := dict_del (seq_num p) (pending_replies dev')\<rparr>"
  shows "\<exists>pf1. exchange cid op ctx pf = (pf1, g dev1 (Inr r), h (Inr r))
    \<and> world pf1 = (served cid cur1 out v (world pf))\<lparr>w_mail := filter (\<lambda>m. fst m \<noteq> cid) (w_mail (world pf)) @ out\<rparr>"
proof -
  have "sock_open dev" using assms(2) by (simp add: ready_def)
  then have sends: "fst (snd (op [] ctx)) = f" using send_sync_bytes [of p "[]" dev] assms(1,4) by (auto split: prod.split)
  have l: "list_all2 (\<lambda>q f. wf_packet q \<and> serialize q = Inr f) (qs @ [r]) (unread cid (world pf) @ [a])"
    using assms(10,11,13) by (simp add: list_all2_appendI)
  have "[] \<notin> set (unread cid (world pf))"
    using assms(13) serialize_nonempty by (fastforce simp: list_all2_conv_all_nth in_set_conv_nth)
  then have "send_sync p (unread cid (world pf) @ [a]) dev = (dev1, f, Inr r)"
    using send_sync_stream [OF l refl _ assms(2,4,14) reply_answers [OF process_reply [OF assms(7)]] assms(15)] serialize_nonempty [OF assms(11)] assms(16)
    by simp
  then have op: "op (unread cid (world pf) @ [a]) ctx = (g dev1 (Inr r), f, h (Inr r))" using assms(1) by simp
  have "running fab1" using assms(8,9) by auto
  then show ?thesis using exchange_after_mail [where op = op, OF sends assms(3-7,11,12) _ op] assms(8) by simp
qed

lemma exchange_send:
  assumes "\<And>cs. op cs ctx = (case send_sync p cs dev of (dev1, bs, r) \<Rightarrow> (g dev1 r, bs, h r))"
    and "ready dev" "wf_packet p" "serialize p = Inr f" "online cid cur (world pf)"
    and "process_packet (exchange_env cid pf) p cur (daemon (p_server pf)) = (fab1, out, Inr (Some r, cur1))" "view fab1 = v" "v_running v"
    and "wf_packet r" "serialize r = Inr a" "cid \<notin> fst ` set out"
    and "dev1 = dev\<lparr>pending_replies := dict_del (seq_num p) (pending_replies dev)\<rparr>"
  shows "\<exists>pf1. exchange cid op ctx pf = (pf1, g dev1 (Inr r), h (Inr r)) \<and> world pf1 = served cid cur1 out v (world pf)"
  using exchange_send_after_mail [where op = op and qs = "[]" and g = g and h = h
      and dev' = "dev\<lparr>pending_replies := dict_set (seq_num p) None (pending_replies dev)\<rparr>", OF assms(1-4) _ _ assms(6-11)]
    assms(5,12) online_mail [OF assms(5)]
  by (simp add: online_def delete_update_same)

text \<open>The same for a request with the next sequence number.\<close>

lemma exchange_call:
  assumes "\<And>cs. op cs ctx = (case call_sync mk cs dev of (dev1, bs, r) \<Rightarrow> (g dev1 r, bs, h r))"
    and "ready dev" "p = mk (dev_seq dev)" "seq_num p = dev_seq dev" "wf_packet p" "serialize p = Inr f"
    and "online cid cur (world pf)"
    and "process_packet (exchange_env cid pf) p cur (daemon (p_server pf)) = (fab1, out, Inr (Some r, cur1))" "view fab1 = v" "v_running v"
    and "wf_packet r" "serialize r = Inr a" "cid \<notin> fst ` set out"
  shows "\<exists>pf1. exchange cid op ctx pf = (pf1, g (after_call dev) (Inr r), h (Inr r)) \<and> world pf1 = served cid cur1 out v (world pf)"
proof (rule exchange_send [OF _ _ assms(5-13)])
  show "op cs ctx = (case send_sync p cs (dev\<lparr>dev_seq := dev_seq dev + 1\<rparr>) of (dev1, bs, r) \<Rightarrow> (g dev1 r, bs, h r))" for cs
    using assms(1,3) by (simp add: call_sync_def get_seq_def)
  show "ready (dev\<lparr>dev_seq := dev_seq dev + 1\<rparr>)" using assms(2) by (simp add: ready_def)
qed (use assms(4) in \<open>simp add: after_call_def\<close>)

text \<open>The same for a call that a program makes: the program goes on with its value.\<close>

lemma run_call_goes_on:
  assumes "\<exists>pf1. exchange cid op ctx pf = (pf1, ctx1, Inr v) \<and> world pf1 = w" "\<And>pf1. world pf1 = w \<Longrightarrow> P (k ctx1 v pf1)"
  shows "P (run_call cid op ctx k pf)"
  using assms by (auto simp: run_call_def)

section \<open>Connecting and hanging up\<close>

lemma new_platform_world:
  "world (new_platform bw hop clock) =
     \<lparr>w_switch = view ((new_fabric bw hop)\<lparr>running := True\<rparr>), w_links = Map.empty, w_mail = [], w_time = clock, w_calls = 0, w_sockets = 0\<rparr>"
  by (simp add: new_platform_def world_def new_server_def)

text \<open>A device that has answered nothing and is waiting for nothing, before its \<open>s\<close>-th request.\<close>

definition device_at :: "int \<Rightarrow> string \<Rightarrow> int \<Rightarrow> ub_device" where
  "device_at n ty s = (new_device n ty)\<lparr>dev_running := True, rx_alive := True, sock_open := True, dev_seq := s\<rparr>"

lemma device_at_simps [simp]:
  "ready (device_at n ty s)" "dev_seq (device_at n ty s) = s" "dev_node (device_at n ty s) = n" "after_call (device_at n ty s) = device_at n ty (s + 1)"
  by (simp_all add: device_at_def new_device_def ready_def after_call_def)

lemma connect_served:
  assumes "online cid None (world pf)" "serialize (register_packet (new_device n ty) 1) = Inr f"
    and "serialize (registered_reply (register_packet (new_device n ty) 1) (daemon (p_server pf))) = Inr a"
    and "fl (link_bw_gbps (daemon (p_server pf))) = link_bw_gbps (daemon (p_server pf))"
  shows "\<exists>pf1. exchange cid (connect_and_register [None] path) (new_device n ty) pf = (pf1, device_at n ty 2, Inr ())
    \<and> world pf1 = served cid (Some n) [] (attach n cid (w_switch (world pf))) (world pf)"
proof -
  let ?dev = "device_at n ty 1"
  let ?p = "register_packet (new_device n ty) 1"
  let ?r = "registered_reply ?p (daemon (p_server pf))"
  obtain fab1 where fab1: "process_packet (exchange_env cid pf) ?p None (daemon (p_server pf)) = (fab1, [], Inr (Some ?r, Some n))"
      "view fab1 = attach n cid (view (daemon (p_server pf)))"
    using served_register_node [of "exchange_env cid pf" "new_device n ty" 1 None "daemon (p_server pf)"] by (auto simp: new_device_def)
  have p: "register_packet (device_at n ty 2) 1 = ?p" by (simp add: register_packet_def device_at_def new_device_def)
  have op: "connect_and_register [None] path cs (new_device n ty) =
      (case send_sync ?p cs (device_at n ty 2) of (dev, bs, r) \<Rightarrow> (dev, bs, rbind r (\<lambda>resp.
        if opcode resp \<noteq> OP_RESP_OK then Inl (RuntimeError (''Failed to register Node '' @ show_int n @ '' on UB Fabric'')) else Inr ())))" for cs
  proof -
    have "get_seq ((new_device n ty)\<lparr>dev_running := True, rx_alive := True, sock_open := True\<rparr>) = (device_at n ty 2, 1)"
      by (simp add: get_seq_def device_at_def new_device_def)
    then show ?thesis
      using p by (simp add: connect_and_register_def Let_def) (simp add: new_device_def split: prod.split sum.split)
  qed
  have so: "sock_open (device_at n ty 2)" by (simp add: device_at_def)
  have r: "wf_packet ?r" using assms(4) by (simp add: registered_reply_def switch_reply_def reply_packet_def wf_ub_packet FLAG_NONE_def)
  have ok: "opcode ?r = OP_RESP_OK" by (simp add: registered_reply_def switch_reply_def reply_packet_def ub_packet_def)
  have "send_sync ?p [a] (device_at n ty 2) = (device_at n ty 2, f, Inr ?r)"
  proof -
    have "answers (seq_num ?p) ?r" using reply_answers [OF process_reply [OF fab1(1)]] .
    then show ?thesis
      using send_sync_answered [OF device_at_simps(1) assms(2) _ r assms(3), of "[a]"] serialize_nonempty [OF assms(3)]
      by (simp add: device_at_def new_device_def)
  qed
  then have c: "connect_and_register [None] path [a] (new_device n ty) = (device_at n ty 2, f, Inr ())" using op ok by simp
  have b: "fst (snd (connect_and_register [None] path [] (new_device n ty))) = f"
    unfolding op using send_sync_bytes [of ?p "[]" "device_at n ty 2"] assms(2) so by (auto split: prod.split)
  have "running fab1" using arg_cong [OF fab1(2), of v_running] assms(1) by (simp add: attach_def online_def)
  then show ?thesis
    using exchange_served [where op = "connect_and_register [None] path", OF b registration_wf(1) assms(2,1) fab1(1) assms(3) _ _ c] fab1(2) by simp
qed

text \<open>A link of 1 to \<open>10\<^sup>15\<close> Gbps and a hop of at most a second: every latency has a short decimal.\<close>

definition link_ok :: "switch_view \<Rightarrow> bool" where
  "link_ok v \<longleftrightarrow> fl (v_bandwidth v) = v_bandwidth v \<and> 1 \<le> v_bandwidth v \<and> v_bandwidth v < 10 ^ 15 \<and> 0 \<le> v_hop v \<and> v_hop v \<le> 2 ^ 30"

lemma fl_le_power: "x \<le> 2 ^ k \<Longrightarrow> k < 53 \<Longrightarrow> fl x \<le> 2 ^ k"
  using fl_mono [of x "2 ^ k"] fl_of_int [of "2 ^ k"] power_strict_increasing [of k 53 "2 :: int"] by simp

lemma view_latency_bounds:
  assumes "link_ok v" "0 \<le> n" "n < 2 ^ 32"
  shows "1 \<le> view_latency n v" "view_latency n v < 10 ^ 20" "fl (view_latency n v) = view_latency n v"
proof -
  let ?b = "fl (of_int n)"
  let ?w = "fl (fmul ?b 8 / v_bandwidth v)"
  let ?h = "fmul 1 (v_hop v)"
  have v: "1 \<le> v_bandwidth v" "0 \<le> v_hop v" "v_hop v \<le> 2 ^ 30" using assms(1) by (simp_all add: link_ok_def)
  have n: "(of_int n :: rat) \<le> 2 ^ 32" using assms(3) by (metis of_int_le_iff of_int_numeral of_int_power less_imp_le)
  have b: "0 \<le> ?b" "?b \<le> 2 ^ 32" using assms(2) n fl_le_power [of "of_int n" 32] fl_nonneg by simp_all
  have m: "0 \<le> fmul ?b 8" "fmul ?b 8 \<le> 2 ^ 35" using b fl_le_power [of "?b * 8" 35] by (simp_all add: fmul_def fl_nonneg)
  have "fmul ?b 8 / v_bandwidth v \<le> fmul ?b 8" using v(1) m(1) by (simp add: divide_le_eq mult_left_mono [of 1 "v_bandwidth v" "fmul ?b 8", simplified])
  then have w: "0 \<le> ?w" "?w \<le> 2 ^ 35" using m v(1) fl_le_power [of "fmul ?b 8 / v_bandwidth v" 35] by (simp_all add: fl_nonneg)
  have h: "0 \<le> ?h" "?h \<le> 2 ^ 30" using v(2,3) fl_le_power [of "v_hop v" 30] by (simp_all add: fmul_def fl_nonneg)
  have s: "0 \<le> fadd ?w ?h" "fadd ?w ?h \<le> 2 ^ 36" using w h fl_le_power [of "?w + ?h" 36] by (simp_all add: fadd_def fl_nonneg)
  have "view_latency n v \<le> 2 ^ 37" using s fl_le_power [of "fadd ?w ?h + 35" 37] by (simp add: view_latency_def fadd_def)
  then show "view_latency n v < 10 ^ 20" by simp
  have "fl 1 \<le> view_latency n v" unfolding view_latency_def fadd_def [of "fadd ?w ?h"] using s(1) by (intro fl_mono) simp
  then show "1 \<le> view_latency n v" using fl_of_int [of 1] by simp
  show "fl (view_latency n v) = view_latency n v" by (simp add: view_latency_def fadd_def)
qed

section \<open>The daemon at the end of a connection\<close>

lemma hang_up_world:
  assumes "w_links (world pf) cid = Some (handler (Some n))" "v_conn (w_switch (world pf)) n \<noteq> None"
  shows "world (hang_up cid pf)
    = (world pf)\<lparr>w_switch := detach n (w_switch (world pf)), w_links := (w_links (world pf))(cid := None)\<rparr>"
proof -
  have c: "dict_get (clients (p_server pf)) cid = Some (handler (Some n))" using assms(1) by simp
  have "view (client_cleanup (handler (Some n)) (daemon (p_server pf))) = detach n (view (daemon (p_server pf)))"
    using cleanup_view [of "daemon (p_server pf)" n] assms(2) by (simp add: handler_def)
  then show ?thesis using c by (simp add: hang_up_def close_client_def world_def fun_eq_iff)
qed

text \<open>Connections not yet made are unknown and have no mail.\<close>

definition sockets_ok :: "world \<Rightarrow> bool" where
  "sockets_ok w \<longleftrightarrow> (\<forall>c. w_sockets w \<le> c \<longrightarrow> w_links w c = None \<and> c \<notin> fst ` set (w_mail w))"

lemma serialize_registration:
  assumes "u16 n" "length ty \<le> 100"
  shows "\<exists>f. serialize (register_packet (new_device n ty) 1) = Inr f"
  using assms length_quote_str [of ty]
  by (intro serialize_fits) (simp_all add: register_packet_def reply_packet_def ub_packet_def new_device_def u16_def u32_def
      quote_str_def escape_char_def)

lemma serialize_registered:
  assumes "u16 n" "link_ok (view fab)"
  shows "\<exists>a. serialize (registered_reply (register_packet (new_device n ty) 1) fab) = Inr a"
proof -
  have "length (float_repr (link_bw_gbps fab)) \<le> 61" using assms(2) by (intro length_float_repr) (simp_all add: link_ok_def)
  moreover have "length (show_int 1024) \<le> 4" by (rule length_show_int) simp_all
  ultimately show ?thesis
    using assms(1) by (intro serialize_fits) (simp_all add: registered_reply_def switch_reply_def register_packet_def reply_packet_def
        ub_packet_def new_device_def u16_def u32_def quote_str_def escape_char_def)
qed

text \<open>Connecting to a running daemon always succeeds and attaches the node.\<close>

lemma connect_device_served:
  assumes "sockets_ok (world pf)" "v_running (w_switch (world pf))" "link_ok (w_switch (world pf))" "u16 n" "length ty \<le> 100"
    and "cid = w_sockets (world pf)"
  shows "\<exists>pf1. connect_device n ty pf = (pf1, cid, Inr (device_at n ty 2))
    \<and> world pf1 = (served cid (Some n) [] (attach n cid (w_switch (world pf))) (world pf))\<lparr>w_sockets := cid + 1\<rparr>"
proof -
  let ?pf = "pf\<lparr>p_server := fst (server_step (p_server pf) (Connect cid)), p_sockets := cid + 1\<rparr>"
  have new: "dict_get (clients (p_server pf)) cid = None" "cid \<notin> fst ` set (p_mail pf)" "running (daemon (p_server pf))"
    using assms(1,2,6) by (auto simp: sockets_ok_def)
  then have w: "world ?pf = (world pf)\<lparr>w_links := (w_links (world pf))(cid \<mapsto> handler None), w_sockets := cid + 1\<rparr>"
    "daemon (p_server ?pf) = daemon (p_server pf)"
    by (simp_all add: world_def fun_eq_iff new_client_def handler_def)
  have o: "online cid None (world ?pf)" unfolding w(1) using new by (simp add: online_def)
  obtain f a where fa: "serialize (register_packet (new_device n ty) 1) = Inr f"
      "serialize (registered_reply (register_packet (new_device n ty) 1) (daemon (p_server ?pf))) = Inr a"
    using serialize_registration [OF assms(4,5)] serialize_registered [OF assms(4)] assms(3) unfolding w(2) by fastforce
  have "fl (link_bw_gbps (daemon (p_server ?pf))) = link_bw_gbps (daemon (p_server ?pf))"
    unfolding w(2) using assms(3) by (simp add: link_ok_def)
  from connect_served [OF o fa this, of "''/tmp/ub-fabric/fabric.sock''"] obtain pf1 where
    "exchange cid (connect_and_register [None] ''/tmp/ub-fabric/fabric.sock'') (new_device n ty) ?pf = (pf1, device_at n ty 2, Inr ())"
    "world pf1 = served cid (Some n) [] (attach n cid (w_switch (world ?pf))) (world ?pf)"
    by blast
  moreover from this(2) have "world pf1 = (served cid (Some n) [] (attach n cid (w_switch (world pf))) (world pf))\<lparr>w_sockets := cid + 1\<rparr>"
    unfolding w(1) by (simp add: served_def)
  ultimately show ?thesis using assms(6) by (simp add: connect_device_def Let_def)
qed

end
