(* ===== verification/Remote_Calls.thy ===== *)
theory Remote_Calls
  imports Platform
begin

text \<open>
  The calls of the SDK against the switch, each as one exchange of the platform: with ids in the range of
  their header fields every call succeeds, and what it returns and does is stated on the abstract view of
  the switch (\<open>unifiedbus/urma.py\<close> and \<open>unifiedbus/obmm.py\<close> with \<open>daemon/fabric.py\<close>).
\<close>

section \<open>What a successful call leaves in its context\<close>

definition next_request :: "urma_context \<Rightarrow> urma_context" where
  "next_request ctx = ctx\<lparr>u_device := after_call (u_device ctx)\<rparr>"

definition with_segment :: "int \<Rightarrow> int \<Rightarrow> string \<Rightarrow> urma_context \<Rightarrow> urma_context" where
  "with_segment sz token perm ctx = (let sid = u_next_seg ctx in
     ctx\<lparr>u_next_seg := sid + 1, u_device := after_call (u_device ctx),
        u_segments := dict_set sid (new_segment sid sz token perm (replicate (nat sz) 0)) (u_segments ctx)\<rparr>)"

definition with_jetty :: "int \<Rightarrow> int \<Rightarrow> int \<Rightarrow> urma_context \<Rightarrow> urma_context" where
  "with_jetty rn rid token ctx = (let lid = u_next_jetty ctx in
     ctx\<lparr>u_next_jetty := lid + 1, u_device := after_call (u_device ctx),
        u_jetties := dict_set lid (new_jetty lid rn rid token None) (u_jetties ctx)\<rparr>)"

lemma context_effects [simp]:
  "u_node (next_request ctx) = u_node ctx" "u_device (next_request ctx) = after_call (u_device ctx)"
  "u_next_seg (next_request ctx) = u_next_seg ctx" "u_next_jetty (next_request ctx) = u_next_jetty ctx"
  "u_segments (next_request ctx) = u_segments ctx" "u_jetties (next_request ctx) = u_jetties ctx"
  "u_node (with_segment sz token perm ctx) = u_node ctx" "u_device (with_segment sz token perm ctx) = after_call (u_device ctx)"
  "u_next_seg (with_segment sz token perm ctx) = u_next_seg ctx + 1" "u_next_jetty (with_segment sz token perm ctx) = u_next_jetty ctx"
  "u_segments (with_segment sz token perm ctx)
     = dict_set (u_next_seg ctx) (new_segment (u_next_seg ctx) sz token perm (replicate (nat sz) 0)) (u_segments ctx)"
  "u_jetties (with_segment sz token perm ctx) = u_jetties ctx"
  "u_node (with_jetty rn rid token ctx) = u_node ctx" "u_device (with_jetty rn rid token ctx) = after_call (u_device ctx)"
  "u_next_seg (with_jetty rn rid token ctx) = u_next_seg ctx" "u_next_jetty (with_jetty rn rid token ctx) = u_next_jetty ctx + 1"
  "u_segments (with_jetty rn rid token ctx) = u_segments ctx"
  "u_jetties (with_jetty rn rid token ctx) = dict_set (u_next_jetty ctx) (new_jetty (u_next_jetty ctx) rn rid token None) (u_jetties ctx)"
  "u_node (fill_segment sid lo len bs ctx) = u_node ctx" "u_device (fill_segment sid lo len bs ctx) = u_device ctx"
  "u_next_seg (fill_segment sid lo len bs ctx) = u_next_seg ctx" "u_next_jetty (fill_segment sid lo len bs ctx) = u_next_jetty ctx"
  "u_jetties (fill_segment sid lo len bs ctx) = u_jetties ctx"
  "u_segments (fill_segment sid lo len bs ctx)
     = dict_adjust sid (\<lambda>seg. seg\<lparr>u_buffer := py_slice_set (u_buffer seg) lo (lo + len) bs\<rparr>) (u_segments ctx)"
  by (simp_all add: next_request_def with_segment_def with_jetty_def fill_segment_def Let_def)

section \<open>Segments and jetties\<close>

lemmas answer_defs = switch_reply_def node_reply_def reply_packet_def ub_packet_def

lemma serialize_reg_seg:
  assumes "u16 (u_node ctx)" "u32 token" "u32 s" "0 \<le> sid" "sid < 10 ^ 20" "0 \<le> sz" "sz < 10 ^ 20" "length perm \<le> 100"
  shows "\<exists>f. serialize (reg_seg_packet ctx sid sz token perm s) = Inr f"
    "\<exists>a. serialize (segment_reply (reg_seg_packet ctx sid sz token perm s) sid) = Inr a"
proof -
  have n: "length (show_int sid) \<le> 20" "length (show_int sz) \<le> 20" using assms(4-7) by (intro length_show_int; simp)+
  then show "\<exists>f. serialize (reg_seg_packet ctx sid sz token perm s) = Inr f"
    using assms(1-3,8) length_quote_str [of perm]
    by (intro serialize_fits) (simp_all add: reg_seg_packet_def ub_packet_def u16_def u32_def quote_str_def escape_char_def)
  show "\<exists>a. serialize (segment_reply (reg_seg_packet ctx sid sz token perm s) sid) = Inr a"
    using assms(1,3) n
    by (intro serialize_fits) (simp_all add: segment_reply_def answer_defs reg_seg_packet_def u16_def u32_def quote_str_def escape_char_def)
qed

lemma register_segment_served:
  assumes "online cid cur (world pf)" "u_device ctx = device_at n ty s" "u16 (u_node ctx)" "u32 token" "u32 s"
    and "0 \<le> u_next_seg ctx" "u_next_seg ctx < 10 ^ 20" "0 \<le> sz" "sz < 10 ^ 20" "py_upper perm = Inr up" "length perm \<le> 100"
    and "sid = u_next_seg ctx" "seg = new_ub_segment sid (u_node ctx) sz token up (w_time (world pf) (w_calls (world pf)))"
  shows "\<exists>pf1. exchange cid (u_register_segment (Seg_Size sz) token perm) ctx pf
      = (pf1, with_segment sz token perm ctx, Inr sid)
    \<and> world pf1 = served cid cur [] (add_segment seg (w_switch (world pf))) (world pf)"
proof -
  let ?mk = "reg_seg_packet (ctx\<lparr>u_next_seg := sid + 1\<rparr>) sid sz token perm"
  let ?g = "\<lambda>dev r. case r of Inl e \<Rightarrow> ctx\<lparr>u_next_seg := sid + 1, u_device := dev\<rparr>
    | Inr resp \<Rightarrow> if opcode resp \<noteq> OP_RESP_OK then ctx\<lparr>u_next_seg := sid + 1, u_device := dev\<rparr>
        else ctx\<lparr>u_next_seg := sid + 1, u_device := dev,
                 u_segments := dict_set sid (new_segment sid sz token perm (replicate (nat sz) 0)) (u_segments ctx)\<rparr>"
  let ?h = "\<lambda>r. rbind r (\<lambda>resp. if opcode resp \<noteq> OP_RESP_OK then Inl (RuntimeError ''Failed to register segment with UB fabric'') else Inr sid)"
  have form: "u_register_segment (Seg_Size sz) token perm cs ctx
      = (case call_sync ?mk cs (device_at n ty s) of (dev1, bs, r) \<Rightarrow> (?g dev1 r, bs, ?h r))" for cs
    using assms(2,8,12) by (simp add: u_register_segment_def Let_def split: prod.split sum.split)
  obtain f a where fa: "serialize (?mk s) = Inr f" "serialize (segment_reply (?mk s) sid) = Inr a"
    using serialize_reg_seg [of "ctx\<lparr>u_next_seg := sid + 1\<rparr>" token s sid sz perm] assms by auto
  obtain fab1 where "process_packet (exchange_env cid pf) (?mk s) cur (daemon (p_server pf))
        = (fab1, [], Inr (Some (segment_reply (?mk s) sid), cur))" "view fab1 = add_segment seg (w_switch (world pf))"
    using served_register_segment [OF assms(10), of "exchange_env cid pf" "ctx\<lparr>u_next_seg := sid + 1\<rparr>" sid sz token s cur] assms(13) by auto
  moreover have "v_running (add_segment seg (w_switch (world pf)))" using assms(1) by (simp add: add_segment_def online_def)
  moreover have "wf_packet (segment_reply (?mk s) sid)" by (simp add: segment_reply_def switch_reply_def reply_packet_def wf_ub_packet FLAG_NONE_def)
  moreover have "opcode (segment_reply (?mk s) sid) = OP_RESP_OK" by (simp add: segment_reply_def answer_defs)
  ultimately show ?thesis
    using exchange_call [where op = "u_register_segment (Seg_Size sz) token perm" and g = ?g and h = ?h, OF form device_at_simps(1) _ _ _ fa(1) assms(1)] fa
    assms(2,12) by (simp add: with_segment_def next_request_def Let_def)
qed

lemma serialize_jetty:
  assumes "u16 (u_node ctx)" "u32 token" "u32 s" "0 \<le> lid" "lid < 10 ^ 20" "u16 rn" "0 \<le> rid" "rid < 10 ^ 20"
  shows "\<exists>f. serialize (jetty_packet ctx lid rn rid token s) = Inr f"
    "\<exists>a. serialize (jetty_reply (jetty_packet ctx lid rn rid token s) lid) = Inr a"
proof -
  have n: "length (show_int lid) \<le> 20" "length (show_int rid) \<le> 20" "length (show_int rn) \<le> 5"
    using assms(4-8) by (intro length_show_int; simp add: u16_def)+
  then show "\<exists>f. serialize (jetty_packet ctx lid rn rid token s) = Inr f"
    using assms(1-3)
    by (intro serialize_fits) (simp_all add: jetty_packet_def ub_packet_def u16_def u32_def quote_str_def escape_char_def)
  show "\<exists>a. serialize (jetty_reply (jetty_packet ctx lid rn rid token s) lid) = Inr a"
    using assms(1,3) n
    by (intro serialize_fits) (simp_all add: jetty_reply_def answer_defs jetty_packet_def u16_def u32_def quote_str_def escape_char_def)
qed

lemma create_jetty_served:
  assumes "online cid cur (world pf)" "u_device ctx = device_at n ty s" "u16 (u_node ctx)" "u32 token" "u32 s"
    and "0 \<le> u_next_jetty ctx" "u_next_jetty ctx < 10 ^ 20" "u16 rn" "0 \<le> rid" "rid < 10 ^ 20" "lid = u_next_jetty ctx"
  shows "\<exists>pf1. exchange cid (u_create_jetty rn rid token) ctx pf
      = (pf1, with_jetty rn rid token ctx, Inr lid)
    \<and> world pf1 = served cid cur [] (w_switch (world pf)) (world pf)"
proof -
  let ?ctx = "ctx\<lparr>u_next_jetty := lid + 1\<rparr>"
  let ?mk = "jetty_packet ?ctx lid rn rid token"
  let ?g = "\<lambda>dev r. case r of Inl e \<Rightarrow> ?ctx\<lparr>u_device := dev\<rparr>
    | Inr resp \<Rightarrow> if opcode resp \<noteq> OP_RESP_OK then ?ctx\<lparr>u_device := dev\<rparr>
        else ?ctx\<lparr>u_device := dev, u_jetties := dict_set lid (new_jetty lid rn rid token None) (u_jetties ctx)\<rparr>"
  let ?h = "\<lambda>r. rbind r (\<lambda>resp. if opcode resp \<noteq> OP_RESP_OK then Inl (RuntimeError ''Failed to create Jetty with UB fabric'') else Inr lid)"
  have form: "u_create_jetty rn rid token cs ctx
      = (case call_sync ?mk cs (device_at n ty s) of (dev1, bs, r) \<Rightarrow> (?g dev1 r, bs, ?h r))" for cs
    using assms(2,11) by (simp add: u_create_jetty_def Let_def split: prod.split sum.split)
  obtain f a where fa: "serialize (?mk s) = Inr f" "serialize (jetty_reply (?mk s) lid) = Inr a"
    using serialize_jetty [of ?ctx token s lid rn rid] assms by auto
  obtain fab1 where "process_packet (exchange_env cid pf) (?mk s) cur (daemon (p_server pf))
        = (fab1, [], Inr (Some (jetty_reply (?mk s) lid), cur))" "view fab1 = w_switch (world pf)"
    using served_create_jetty [of "exchange_env cid pf" ?ctx lid rn rid token s cur] by auto
  moreover have "v_running (w_switch (world pf))" using assms(1) by (simp add: online_def)
  moreover have "wf_packet (jetty_reply (?mk s) lid)" by (simp add: jetty_reply_def switch_reply_def reply_packet_def wf_ub_packet FLAG_NONE_def)
  moreover have "opcode (jetty_reply (?mk s) lid) = OP_RESP_OK" by (simp add: jetty_reply_def answer_defs)
  ultimately show ?thesis
    using exchange_call [where op = "u_create_jetty rn rid token" and g = ?g and h = ?h, OF form device_at_simps(1) _ _ _ fa(1) assms(1)] fa
    assms(2,11) by (simp add: with_jetty_def next_request_def Let_def)
qed

section \<open>Writing and reading\<close>

text \<open>Requests for a range, by their metadata, and their answers.\<close>

lemma serialize_access:
  assumes "opcode p \<in> {0..<256}" "u16 (src_node p)" "u16 (dst_node p)" "u32 (token_id p)" "u32 (seq_num p)" "length (payload p) < 2 ^ 32"
    and "metadata p = JObj ([(''segment_id'', JInt sid), (''offset'', JInt off)] @ (if has_len then [(''length'', JInt len)] else []))"
    and "0 \<le> sid" "sid < 10 ^ 20" "0 \<le> off" "off < 10 ^ 20" "0 \<le> len" "len < 10 ^ 20"
  shows "\<exists>f. serialize p = Inr f"
proof -
  have "length (show_int sid) \<le> 20" "length (show_int off) \<le> 20" "length (show_int len) \<le> 20"
    using assms(8-13) by (intro length_show_int; simp)+
  then show ?thesis using assms(1-7) by (intro serialize_fits) (simp_all add: quote_str_def escape_char_def)
qed

lemma serialize_completed:
  assumes "u16 (src_node p)" "u16 (dst_node p)" "u32 (seq_num p)" "link_ok v" "0 \<le> len" "len < 2 ^ 32"
  shows "length (payload p) < 2 ^ 32 \<Longrightarrow> \<exists>a. serialize (write_completed p (view_latency len v)) = Inr a"
    "length bs < 2 ^ 32 \<Longrightarrow> \<exists>a. serialize (read_completed p (view_latency len v) bs) = Inr a"
proof -
  have l: "length (float_repr (view_latency len v)) \<le> 61" using view_latency_bounds [OF assms(4-6)] by (intro length_float_repr) simp_all
  show "\<exists>a. serialize (write_completed p (view_latency len v)) = Inr a" if "length (payload p) < 2 ^ 32"
  proof -
    have "length (show_int (int (length (payload p)))) \<le> 20" using that by (intro length_show_int) simp_all
    then show ?thesis using assms(1-3) l
      by (intro serialize_fits) (simp_all add: write_completed_def write_reply_opcode_def answer_defs u16_def u32_def quote_str_def escape_char_def)
  qed
  show "\<exists>a. serialize (read_completed p (view_latency len v) bs) = Inr a" if "length bs < 2 ^ 32"
    using that assms(1-3) l
    by (intro serialize_fits) (simp_all add: read_completed_def ub_packet_def u16_def u32_def quote_str_def escape_char_def)
qed

lemma completed_view_wf:
  assumes "link_ok v" "0 \<le> len" "len < 2 ^ 32"
  shows "wf_packet (write_completed p (view_latency len v))" "wf_packet (read_completed p (view_latency len v) bs)"
  using view_latency_bounds(3) [OF assms]
  by (simp_all add: write_completed_def read_completed_def node_reply_def reply_packet_def wf_ub_packet FLAG_NONE_def)

text \<open>The access a plain request asks for is granted and lies in the target's memory.\<close>

definition accessible :: "world \<Rightarrow> int \<Rightarrow> int \<Rightarrow> int \<Rightarrow> int \<Rightarrow> bool \<Rightarrow> int \<Rightarrow> nat \<Rightarrow> bytes \<Rightarrow> bool" where
  "accessible w target sid off len wr token tcid m \<longleftrightarrow>
     view_grants (w_switch w) target sid off len wr token \<and> v_memory (w_switch w) target = Some m
     \<and> v_conn (w_switch w) target = Some tcid \<and> w_links w tcid \<noteq> None \<and> 0 \<le> off \<and> 0 \<le> len \<and> off + len \<le> int (length m) \<and> length m < 2 ^ 32
     \<and> u16 target \<and> 0 \<le> sid \<and> sid < 10 ^ 20 \<and> u32 token"

text \<open>A plain write and its answer, whatever else goes on at the connection.\<close>

lemma write_request_served:
  assumes "u32 (seq_num p)" "opcode p = OP_URMA_WRITE" "\<not> is_cip_encrypted p"
    and "metadata p = JObj [(''segment_id'', JInt sid), (''offset'', JInt off)]" "u16 (src_node p)"
    and "accessible (world pf) (dst_node p) sid off len True (token_id p) tcid m" "len = int (length (payload p))"
    and "v_running (w_switch (world pf))" "link_ok (w_switch (world pf))"
    and "r = write_completed p (view_latency len (w_switch (world pf)))" "v = store (dst_node p) off (payload p) (w_switch (world pf))"
  obtains f b fab1 where "serialize p = Inr f" "serialize r = Inr b" "wf_packet r"
    "process_packet (exchange_env cid pf) p cur (daemon (p_server pf)) = (fab1, [(tcid, f)], Inr (Some r, cur))" "view fab1 = v" "v_running v"
proof -
  note a = assms(6) [unfolded accessible_def]
  let ?v = "w_switch (world pf)" and ?lat = "view_latency len (w_switch (world pf))"
  have "int (length m) < 2 ^ 32" using a by simp
  then have len: "0 \<le> len" "len < 2 ^ 32" "off < 10 ^ 20" using a by simp_all
  have rng: "names_range p sid off" using assms(4) by (simp add: names_range_def int_index_def int_get_def meta_index_def meta_get_def)
  have pay: "length (payload p) < 2 ^ 32" using len(2) assms(7) by simp
  obtain f where f: "serialize p = Inr f"
    using serialize_access [of p sid off False 0] assms(1,2,4,5) a len pay by auto
  obtain b where b: "serialize r = Inr b"
    using serialize_completed(1) [of p ?v len] assms(1,5,9,10) a len pay by auto
  have bw: "v_bandwidth ?v \<noteq> 0" using assms(9) by (auto simp: link_ok_def)
  obtain fab1 where "process_packet (exchange_env cid pf) p cur (daemon (p_server pf)) = (fab1, [(tcid, f)], Inr (Some r, cur))" "view fab1 = v"
    using served_write [OF _ assms(3) rng assms(7), of "daemon (p_server pf)" m tcid "exchange_env cid pf" f cur] assms(2,10,11) a len bw f
    by auto
  moreover have "v_running v" using assms(8,11) by (simp add: store_def)
  moreover have "wf_packet r" unfolding assms(10) by (rule completed_view_wf(1) [OF assms(9) len(1,2)])
  ultimately show ?thesis using that f b by blast
qed

lemma write_call_served:
  assumes "\<And>cs. op cs ctx = (case call_sync mk cs dev of (dev1, bs, r) \<Rightarrow> (g dev1, bs, rbind r (\<lambda>resp.
      if opcode resp \<noteq> OP_RESP_OK then h resp else latency_field resp)))"
    and "dev = device_at n ty s" "p = mk s" "seq_num p = s" "u32 s" "wf_packet p" "opcode p = OP_URMA_WRITE" "\<not> is_cip_encrypted p"
    and "metadata p = JObj [(''segment_id'', JInt sid), (''offset'', JInt off)]" "u16 (src_node p)"
    and "accessible (world pf) (dst_node p) sid off len True (token_id p) tcid m" "len = int (length (payload p))"
    and "online cid cur (world pf)" "link_ok (w_switch (world pf))" "tcid \<noteq> cid"
  shows "\<exists>pf1 f. exchange cid op ctx pf = (pf1, g (device_at n ty (s + 1)), Inr (JFloat (view_latency len (w_switch (world pf)))))
    \<and> world pf1 = served cid cur [(tcid, f)] (store (dst_node p) off (payload p) (w_switch (world pf))) (world pf)"
proof -
  let ?v = "store (dst_node p) off (payload p) (w_switch (world pf))" and ?r = "write_completed p (view_latency len (w_switch (world pf)))"
  have run: "v_running (w_switch (world pf))" using assms(13) by (simp add: online_def)
  obtain f b fab1 where f: "serialize p = Inr f" "serialize ?r = Inr b" "wf_packet ?r"
      "process_packet (exchange_env cid pf) p cur (daemon (p_server pf)) = (fab1, [(tcid, f)], Inr (Some ?r, cur))" "view fab1 = ?v" "v_running ?v"
    using write_request_served [OF _ assms(7-12) run assms(14) refl refl, of cid cur] assms(4,5) by blast
  have "\<exists>pf1. exchange cid op ctx pf = (pf1, g (after_call dev), rbind (Inr ?r) (\<lambda>resp.
        if opcode resp \<noteq> OP_RESP_OK then h resp else latency_field resp))
      \<and> world pf1 = served cid cur [(tcid, f)] ?v (world pf)"
    using assms(2-5,15)
    by (intro exchange_call [where op = op and g = "\<lambda>d r. g d", OF assms(1) _ _ _ assms(6) f(1) assms(13) f(4-6) f(3,2)]) simp_all
  then show ?thesis using assms(2) completed_simps(1) [OF assms(7)] by (auto simp: completed_simps(6))
qed

lemma write_served:
  assumes "online cid cur (world pf)" "link_ok (w_switch (world pf))" "u_device ctx = device_at n ty s" "u16 (u_node ctx)" "u32 s"
    and "dict_get (u_jetties ctx) jid = Some j" "dict_get (u_segments ctx) lsid = Some seg"
    and "pay = local_bytes seg lo len" "len = int (length pay)"
    and "accessible (world pf) (j_remote_node j) sid off len True (j_token j) tcid m" "tcid \<noteq> cid"
  shows "\<exists>pf1 f. exchange cid (u_write jid lsid lo sid off len) ctx pf
      = (pf1, next_request ctx, Inr (JFloat (view_latency len (w_switch (world pf)))))
    \<and> world pf1 = served cid cur [(tcid, f)] (store (j_remote_node j) off pay (w_switch (world pf))) (world pf)"
proof -
  let ?p = "write_packet ctx j sid off pay s"
  have form: "u_write jid lsid lo sid off len cs ctx
      = (case call_sync (write_packet ctx j sid off pay) cs (device_at n ty s) of (dev1, bs, r) \<Rightarrow> (ctx\<lparr>u_device := dev1\<rparr>, bs,
          rbind r (\<lambda>resp. if opcode resp \<noteq> OP_RESP_OK then Inl (failure ''URMA Write failed: '' ''Unknown error'' resp) else latency_field resp)))"
    for cs using assms(3,6-8) by (simp add: u_write_def Let_def)
  have "metadata ?p = JObj [(''segment_id'', JInt sid), (''offset'', JInt off)]" by (simp add: write_packet_def ub_packet_def)
  from write_call_served [where op = "u_write jid lsid lo sid off len" and g = "\<lambda>d. ctx\<lparr>u_device := d\<rparr>", OF form refl refl _ assms(5) _ _ _ this]
  show ?thesis using assms(1-4,9-11) by (simp add: next_request_def)
qed

lemma pool_write_served:
  assumes "online cid cur (world pf)" "link_ok (w_switch (world pf))" "o_device cl = device_at n ty s" "u16 (o_node cl)" "u32 s"
    and "off + int (length data) \<le> ph_size h" "len = int (length data)"
    and "accessible (world pf) (ph_owner h) (ph_segment h) off len True (ph_token h) tcid m" "tcid \<noteq> cid"
  shows "\<exists>pf1 f. exchange cid (pool_write h off data) cl pf
      = (pf1, cl\<lparr>o_device := device_at n ty (s + 1)\<rparr>, Inr (JFloat (view_latency len (w_switch (world pf)))))
    \<and> world pf1 = served cid cur [(tcid, f)] (store (ph_owner h) off data (w_switch (world pf))) (world pf)"
proof -
  let ?p = "pool_write_packet cl h off data s"
  have form: "pool_write h off data cs cl
      = (case call_sync (pool_write_packet cl h off data) cs (device_at n ty s) of (dev1, bs, r) \<Rightarrow> (cl\<lparr>o_device := dev1\<rparr>, bs,
          rbind r (\<lambda>resp. if opcode resp \<noteq> OP_RESP_OK then Inl (failure ''OBMM Pool Write failed: '' ''Write failed'' resp) else latency_field resp)))"
    for cs using assms(3,6) by (simp add: pool_write_def Let_def)
  have "metadata ?p = JObj [(''segment_id'', JInt (ph_segment h)), (''offset'', JInt off)]" "src_node ?p = o_node cl"
    by (simp_all add: pool_write_packet_def ub_packet_def)
  from write_call_served [where op = "pool_write h off data" and g = "\<lambda>d. cl\<lparr>o_device := d\<rparr>", OF form refl refl _ assms(5) _ _ _ this(1)] this(2)
  show ?thesis using assms(1,2,4,7-9) by simp
qed

lemma read_call_served:
  assumes "\<And>cs. op cs ctx = (case call_sync mk cs dev of (dev1, bs, r) \<Rightarrow> (g dev1 r, bs, h r))"
    and "dev = device_at n ty s" "p = mk s" "seq_num p = s" "u32 s" "wf_packet p" "opcode p = OP_URMA_READ" "\<not> is_cip_encrypted p"
    and "metadata p = JObj [(''segment_id'', JInt sid), (''offset'', JInt off), (''length'', JInt len)]" "u16 (src_node p)" "payload p = []"
    and "accessible (world pf) (dst_node p) sid off len False (token_id p) tcid m"
    and "online cid cur (world pf)" "link_ok (w_switch (world pf))"
    and "r = read_completed p (view_latency len (w_switch (world pf))) (mem_read m off len)"
  shows "\<exists>pf1. exchange cid op ctx pf = (pf1, g (device_at n ty (s + 1)) (Inr r), h (Inr r))
    \<and> world pf1 = served cid cur [] (w_switch (world pf)) (world pf)"
proof -
  note a = assms(12) [unfolded accessible_def]
  let ?v = "w_switch (world pf)" and ?lat = "view_latency len (w_switch (world pf))"
  have "int (length m) < 2 ^ 32" using a by simp
  then have len: "0 \<le> len" "len < 2 ^ 32" "off < 10 ^ 20" using a by simp_all
  have rng: "names_range p sid off" "int_get ''length'' 0 p = Inr len"
    using assms(9) by (simp_all add: names_range_def int_index_def int_get_def meta_index_def meta_get_def)
  have "length (mem_read m off len) = nat len" using a unfolding mem_read_def by (intro length_py_slice) simp_all
  then have pay: "length (mem_read m off len) < 2 ^ 32" using len by simp
  obtain f where f: "serialize p = Inr f"
    using serialize_access [of p sid off True len] assms(4,5,7,9,10,11) a len by auto
  obtain b where b: "serialize r = Inr b"
    using serialize_completed(2) [of p ?v len "mem_read m off len"] assms(4,5,10,14,15) a len pay by auto
  have bw: "v_bandwidth ?v \<noteq> 0" using assms(14) by (auto simp: link_ok_def)
  obtain fab1 where fab1: "process_packet (exchange_env cid pf) p cur (daemon (p_server pf)) = (fab1, [], Inr (Some r, cur))" "view fab1 = ?v"
    using served_read [OF assms(7,8) rng, of "daemon (p_server pf)" m "exchange_env cid pf" cur] a len bw assms(15) by auto
  have run: "v_running ?v" using assms(13) by (simp add: online_def)
  have "wf_packet r" unfolding assms(15) by (rule completed_view_wf(2) [OF assms(14) len(1,2)])
  then have "\<exists>pf1. exchange cid op ctx pf = (pf1, g (after_call dev) (Inr r), h (Inr r)) \<and> world pf1 = served cid cur [] ?v (world pf)"
    using assms(2-6)
    by (intro exchange_call [where op = op and g = g and h = h, OF assms(1) _ _ _ assms(6) f assms(13) fab1 run _ b]) simp_all
  then show ?thesis using assms(2) by simp
qed

lemma read_served:
  assumes "online cid cur (world pf)" "link_ok (w_switch (world pf))" "u_device ctx = device_at n ty s" "u16 (u_node ctx)" "u32 s"
    and "dict_get (u_jetties ctx) jid = Some j" "dict_get (u_segments ctx) lsid = Some seg"
    and "accessible (world pf) (j_remote_node j) sid off len False (j_token j) tcid m"
  shows "\<exists>pf1. exchange cid (u_read jid lsid lo sid off len) ctx pf
      = (pf1, fill_segment lsid lo len (mem_read m off len) (next_request ctx),
         Inr (JFloat (view_latency len (w_switch (world pf)))))
    \<and> world pf1 = served cid cur [] (w_switch (world pf)) (world pf)"
proof -
  let ?p = "read_packet ctx j sid off len s"
  let ?g = "\<lambda>dev r. case r of Inl e \<Rightarrow> ctx\<lparr>u_device := dev\<rparr>
    | Inr resp \<Rightarrow> if opcode resp \<noteq> OP_URMA_READ_RESP then ctx\<lparr>u_device := dev\<rparr>
        else fill_segment lsid lo len (payload resp) (ctx\<lparr>u_device := dev\<rparr>)"
  let ?h = "\<lambda>r. rbind r (\<lambda>resp. if opcode resp \<noteq> OP_URMA_READ_RESP then Inl (failure ''URMA Read failed: '' ''Unknown error'' resp)
        else latency_field resp)"
  have form: "u_read jid lsid lo sid off len cs ctx
      = (case call_sync (read_packet ctx j sid off len) cs (device_at n ty s) of (dev1, bs, r) \<Rightarrow> (?g dev1 r, bs, ?h r))"
    for cs using assms(3,6,7) by (simp add: u_read_def Let_def split: prod.split sum.split)
  have "metadata ?p = JObj [(''segment_id'', JInt sid), (''offset'', JInt off), (''length'', JInt len)]" by (simp add: read_packet_def ub_packet_def)
  from read_call_served [where op = "u_read jid lsid lo sid off len" and g = ?g and h = ?h, OF form refl refl _ assms(5) _ _ _ this]
  show ?thesis using assms(1-4,8) completed_simps(2) [of ?p] by (simp add: completed_simps(5,7) next_request_def)
qed

lemma pool_read_served:
  assumes "online cid cur (world pf)" "link_ok (w_switch (world pf))" "o_device cl = device_at n ty s" "u16 (o_node cl)" "u32 s"
    and "off + len \<le> ph_size h" "accessible (world pf) (ph_owner h) (ph_segment h) off len False (ph_token h) tcid m"
  shows "\<exists>pf1. exchange cid (pool_read h off len) cl pf
      = (pf1, cl\<lparr>o_device := device_at n ty (s + 1)\<rparr>, Inr (mem_read m off len))
    \<and> world pf1 = served cid cur [] (w_switch (world pf)) (world pf)"
proof -
  let ?p = "pool_read_packet cl h off len s"
  let ?g = "\<lambda>dev (r :: packet result). cl\<lparr>o_device := dev\<rparr>"
  let ?h = "\<lambda>r. rbind r (\<lambda>resp. if opcode resp \<noteq> OP_URMA_READ_RESP then Inl (failure ''OBMM Pool Read failed: '' ''Read failed'' resp)
        else Inr (payload resp))"
  have form: "pool_read h off len cs cl
      = (case call_sync (pool_read_packet cl h off len) cs (device_at n ty s) of (dev1, bs, r) \<Rightarrow> (?g dev1 r, bs, ?h r))"
    for cs using assms(3,6) by (simp add: pool_read_def Let_def)
  have "metadata ?p = JObj [(''segment_id'', JInt (ph_segment h)), (''offset'', JInt off), (''length'', JInt len)]"
    "src_node ?p = o_node cl" "payload ?p = []" by (simp_all add: pool_read_packet_def ub_packet_def)
  from read_call_served [where op = "pool_read h off len" and g = ?g and h = ?h, OF form refl refl _ assms(5) _ _ _ this(1)] this(2,3)
  show ?thesis using assms(1,2,4,7) completed_simps(2) [of ?p] by (simp add: completed_simps(5))
qed

section \<open>Pools\<close>

lemma pool_reply_simps:
  "opcode (export_reply p pid sz) = OP_RESP_OK" "int_index ''pool_id'' (export_reply p pid sz) = Inr pid" "wf_packet (export_reply p pid sz)"
  by (simp add: export_reply_def answer_defs, simp add: export_reply_def answer_defs int_index_def meta_index_def,
      simp add: export_reply_def switch_reply_def reply_packet_def wf_ub_packet FLAG_NONE_def)

lemma serialize_export:
  assumes "u16 (o_node cl)" "u32 token" "u32 s" "0 \<le> sz" "sz < 10 ^ 20" "0 \<le> pid" "pid < 10 ^ 20" "length perm \<le> 100"
  shows "\<exists>f. serialize (export_packet cl sz token perm s) = Inr f"
    "\<exists>a. serialize (export_reply (export_packet cl sz token perm s) pid sz) = Inr a"
proof -
  have n: "length (show_int sz) \<le> 20" "length (show_int pid) \<le> 20" using assms(4-7) by (intro length_show_int; simp)+
  show "\<exists>f. serialize (export_packet cl sz token perm s) = Inr f"
    using assms(1-3,8) n length_quote_str [of perm]
    by (intro serialize_fits) (simp_all add: export_packet_def ub_packet_def u16_def u32_def quote_str_def escape_char_def)
  show "\<exists>a. serialize (export_reply (export_packet cl sz token perm s) pid sz) = Inr a"
    using assms(1,3) n
    by (intro serialize_fits) (simp_all add: export_reply_def answer_defs export_packet_def u16_def u32_def quote_str_def escape_char_def)
qed

lemma megabytes_small: "0 \<le> n \<Longrightarrow> n < 10 ^ 20 \<Longrightarrow> megabytes_finite n"
proof -
  assume n: "0 \<le> n" "n < 10 ^ 20"
  have "(2 :: int) ^ 1024 = 2 ^ 54 * 2 ^ 970" by (simp flip: power_add)
  then have "(2 :: int) ^ 970 \<le> 2 ^ 1024 - 2 ^ 970" by simp
  then have "(2 :: int) ^ 970 * 1 \<le> (2 ^ 1024 - 2 ^ 970) * 2 ^ 20" by (intro mult_mono) simp_all
  moreover have "(10 :: int) ^ 20 \<le> 2 ^ 970 * 1" by simp
  ultimately have "n < (2 ^ 1024 - 2 ^ 970) * 2 ^ 20" using n(2) by (meson less_le_trans order_trans)
  then show ?thesis unfolding megabytes_finite_def abs_of_nonneg [OF n(1)] .
qed

lemma export_memory_served:
  assumes "online cid cur (world pf)" "o_device cl = device_at n ty s" "u16 (o_node cl)" "u32 token" "u32 s" "0 \<le> sz" "sz < 10 ^ 20"
    and "py_upper perm = Inr up" "length perm \<le> 100" "pid = v_next_pool (w_switch (world pf))" "0 \<le> pid" "pid < 10 ^ 20"
    and "seg = new_ub_segment pid (o_node cl) sz token up (w_time (world pf) (w_calls (world pf)))"
  shows "\<exists>pf1. exchange cid (export_memory sz token perm) cl pf
      = (pf1, cl\<lparr>o_device := device_at n ty (s + 1), exported_pools := dict_set pid sz (exported_pools cl)\<rparr>, Inr pid)
    \<and> world pf1 = served cid cur [] (add_pool seg (w_switch (world pf))) (world pf)"
proof -
  let ?p = "export_packet cl sz token perm s"
  let ?g = "\<lambda>dev r. case r of Inl e \<Rightarrow> cl\<lparr>o_device := dev\<rparr>
    | Inr resp \<Rightarrow> if opcode resp \<noteq> OP_RESP_OK then cl\<lparr>o_device := dev\<rparr>
        else (case int_index ''pool_id'' resp of Inl e \<Rightarrow> cl\<lparr>o_device := dev\<rparr>
          | Inr pid \<Rightarrow> cl\<lparr>o_device := dev, exported_pools := dict_set pid sz (exported_pools cl)\<rparr>)"
  let ?h = "\<lambda>r. rbind r (\<lambda>resp. if opcode resp \<noteq> OP_RESP_OK then Inl (RuntimeError ''Failed to export memory pool'') else int_index ''pool_id'' resp)"
  have form: "export_memory sz token perm cs cl
      = (case call_sync (export_packet cl sz token perm) cs (device_at n ty s) of (dev1, bs, r) \<Rightarrow> (?g dev1 r, bs, ?h r))" for cs
    using assms(2) by (simp add: export_memory_def Let_def split: prod.split sum.split)
  obtain f a where fa: "serialize ?p = Inr f" "serialize (export_reply ?p pid sz) = Inr a"
    using serialize_export [OF assms(3-7,11,12,9)] by auto
  obtain fab1 where "process_packet (exchange_env cid pf) ?p cur (daemon (p_server pf))
      = (fab1, [], Inr (Some (export_reply ?p pid sz), cur))" "view fab1 = add_pool seg (w_switch (world pf))"
    using served_export [OF assms(8) megabytes_small [OF assms(6,7)], of "exchange_env cid pf" cl token s cur "daemon (p_server pf)"] assms(10,13)
    by auto
  moreover have "v_running (add_pool seg (w_switch (world pf)))" using assms(1) by (simp add: add_pool_def add_segment_def online_def)
  ultimately show ?thesis
    using exchange_call [where op = "export_memory sz token perm" and g = ?g and h = ?h, OF form device_at_simps(1) _ _ _ fa(1) assms(1)]
      fa pool_reply_simps
    by simp
qed

lemma serialize_import:
  assumes "u16 (o_node cl)" "u32 token" "u32 s" "0 \<le> pid" "pid < 10 ^ 20"
  shows "\<exists>f. serialize (import_packet cl pid token s) = Inr f"
    "\<exists>a. serialize (import_refusal (import_packet cl pid token s) pid) = Inr a"
    "u16 (seg_node seg) \<Longrightarrow> 0 \<le> segment_id seg \<Longrightarrow> segment_id seg < 10 ^ 20 \<Longrightarrow> 0 \<le> seg_size seg \<Longrightarrow> seg_size seg < 10 ^ 20 \<Longrightarrow>
       length (permissions seg) \<le> 200 \<Longrightarrow> \<exists>a. serialize (import_reply (import_packet cl pid token s) pid seg) = Inr a"
proof -
  have n: "length (show_int pid) \<le> 20" using assms(4,5) by (intro length_show_int) simp_all
  then show "\<exists>f. serialize (import_packet cl pid token s) = Inr f"
    using assms(1-3) by (intro serialize_fits) (simp_all add: import_packet_def ub_packet_def u16_def u32_def quote_str_def escape_char_def)
  have "length (show_hex pid) \<le> 20"
    using assms(4,5) length_show_base [of 16 pid 20] by (simp add: show_hex_def)
  then show "\<exists>a. serialize (import_refusal (import_packet cl pid token s) pid) = Inr a"
    using assms(1,3) length_quote_str [of "''Failed to import pool 0x'' @ show_hex pid @ '' (invalid pool ID or token mismatch)''"] length_quote_str [of "''error''"]
    by (intro serialize_fits) (simp_all add: import_refusal_def error_reply_def answer_defs import_packet_def u16_def u32_def)
  show "\<exists>a. serialize (import_reply (import_packet cl pid token s) pid seg) = Inr a"
    if "u16 (seg_node seg)" "0 \<le> segment_id seg" "segment_id seg < 10 ^ 20" "0 \<le> seg_size seg" "seg_size seg < 10 ^ 20" "length (permissions seg) \<le> 200"
  proof -
    have "length (show_int (seg_node seg)) \<le> 5" "length (show_int (segment_id seg)) \<le> 20" "length (show_int (seg_size seg)) \<le> 20"
      using that by (intro length_show_int; simp add: u16_def)+
    then show ?thesis
      using assms(1,3) n that(6) length_quote_str [of "permissions seg"]
      by (intro serialize_fits) (simp_all add: import_reply_def answer_defs import_packet_def u16_def u32_def quote_str_def escape_char_def)
  qed
qed

text \<open>An import the switch grants, and one it refuses.\<close>

lemma import_call_served:
  assumes "online cid cur (world pf)" "o_device cl = device_at n ty s" "u16 (o_node cl)" "u32 token" "u32 s" "0 \<le> pid" "pid < 10 ^ 20"
    and "r = (case view_import (w_switch (world pf)) pid token of None \<Rightarrow> import_refusal (import_packet cl pid token s) pid
      | Some seg \<Rightarrow> import_reply (import_packet cl pid token s) pid seg)" "serialize r = Inr a"
  shows "\<exists>pf1. exchange cid (import_memory pid token) cl pf = (pf1, cl\<lparr>o_device := device_at n ty (s + 1)\<rparr>,
      if opcode r \<noteq> OP_RESP_OK then Inl (failure (''Failed to import pool 0x'' @ show_hex pid @ '': '') ''Import failed'' r)
      else handle_of pid token r)
    \<and> world pf1 = served cid cur [] (w_switch (world pf)) (world pf)"
proof -
  let ?p = "import_packet cl pid token s"
  let ?g = "\<lambda>dev (r :: packet result). cl\<lparr>o_device := dev\<rparr>"
  let ?h = "\<lambda>r. rbind r (\<lambda>resp. if opcode resp \<noteq> OP_RESP_OK
      then Inl (failure (''Failed to import pool 0x'' @ show_hex pid @ '': '') ''Import failed'' resp) else handle_of pid token resp)"
  have form: "import_memory pid token cs cl
      = (case call_sync (import_packet cl pid token) cs (device_at n ty s) of (dev1, bs, r) \<Rightarrow> (?g dev1 r, bs, ?h r))" for cs
    using assms(2) by (simp add: import_memory_def)
  obtain f where f: "serialize ?p = Inr f" using serialize_import(1) [OF assms(3-7)] by blast
  obtain fab1 where fab1: "process_packet (exchange_env cid pf) ?p cur (daemon (p_server pf)) = (fab1, [], Inr (Some r, cur))"
      "view fab1 = w_switch (world pf)"
    using served_import [of "exchange_env cid pf" cl pid token s cur "daemon (p_server pf)"] assms(8) by auto
  have "v_running (w_switch (world pf))" using assms(1) by (simp add: online_def)
  moreover have "wf_packet r" using assms(8) import_replies_wf by (simp split: option.split)
  ultimately show ?thesis
    using exchange_call [where op = "import_memory pid token" and g = ?g and h = ?h, OF form device_at_simps(1) _ _ _ f assms(1) fab1 _ _ assms(9)]
    by simp
qed

lemma import_granted:
  assumes "online cid cur (world pf)" "o_device cl = device_at n ty s" "u16 (o_node cl)" "u32 token" "u32 s" "0 \<le> pid" "pid < 10 ^ 20"
    and "v_pool (w_switch (world pf)) pid = Some seg" "seg_token seg = 0 \<or> seg_token seg = token"
    and "u16 (seg_node seg)" "0 \<le> segment_id seg" "segment_id seg < 10 ^ 20" "0 \<le> seg_size seg" "seg_size seg < 10 ^ 20" "length (permissions seg) \<le> 200"
  shows "\<exists>pf1. exchange cid (import_memory pid token) cl pf = (pf1, cl\<lparr>o_device := device_at n ty (s + 1)\<rparr>, Inr (borrowed pid token seg))
    \<and> world pf1 = served cid cur [] (w_switch (world pf)) (world pf)"
proof -
  have "view_import (w_switch (world pf)) pid token = Some seg" using assms(8,9) by (auto simp: view_import_def)
  moreover obtain a where "serialize (import_reply (import_packet cl pid token s) pid seg) = Inr a"
    using serialize_import(3) [OF assms(3-7,10-15)] by blast
  ultimately show ?thesis using import_call_served [OF assms(1-7)] import_replies(3,5) by simp
qed

lemma import_refused:
  assumes "online cid cur (world pf)" "o_device cl = device_at n ty s" "u16 (o_node cl)" "u32 token" "u32 s" "0 \<le> pid" "pid < 10 ^ 20"
    and "view_import (w_switch (world pf)) pid token = None"
  shows "\<exists>pf1. exchange cid (import_memory pid token) cl pf = (pf1, cl\<lparr>o_device := device_at n ty (s + 1)\<rparr>,
      Inl (RuntimeError (''Failed to import pool 0x'' @ show_hex pid @ '': Failed to import pool 0x'' @ show_hex pid
        @ '' (invalid pool ID or token mismatch)'')))
    \<and> world pf1 = served cid cur [] (w_switch (world pf)) (world pf)"
proof -
  obtain a where "serialize (import_refusal (import_packet cl pid token s) pid) = Inr a"
    using serialize_import(2) [OF assms(3-7)] by blast
  moreover have "failure pre d (import_refusal (import_packet cl pid token s) pid)
      = RuntimeError (pre @ ''Failed to import pool 0x'' @ show_hex pid @ '' (invalid pool ID or token mismatch)'')" for pre d
    by (simp add: failure_def import_refusal_def error_reply_def answer_defs meta_get_def)
  ultimately show ?thesis using import_call_served [OF assms(1-7)] assms(8) import_replies(4) by simp
qed

end
