(* ===== verification/Example_Programs.thy ===== *)
theory Example_Programs
  imports Remote_Calls
begin

text \<open>
  Example 01 (\<open>examples/01_urma_p2p_transfer.py\<close>) as a program over the platform, with its nodes, token,
  size and data as parameters, and the proof that it runs to its end on a fresh switch: every call succeeds
  and the assertion on the data holds. What it prints is left out. The lemmas on stepping through a program
  serve the other examples too.
\<close>

section \<open>Programs\<close>

text \<open>\<open>bytes(seg.buffer[lo:lo + len])\<close> of a segment of the context.\<close>

definition segment_bytes :: "int \<Rightarrow> int \<Rightarrow> int \<Rightarrow> urma_context \<Rightarrow> bytes result" where
  "segment_bytes sid lo len ctx =
     (case dict_get (u_segments ctx) sid of None \<Rightarrow> Inl foreign_handle | Some seg \<Rightarrow> Inr (local_bytes seg lo len))"

text \<open>
  Example 01: node \<open>a\<close> writes a pattern from its segment to a segment of node \<open>b\<close> and reads it back into a
  third segment. The value is the two latencies and the data read.
\<close>

definition move_pattern ::
  "nat \<Rightarrow> nat \<Rightarrow> int \<Rightarrow> int \<Rightarrow> int \<Rightarrow> int \<Rightarrow> int \<Rightarrow> bytes \<Rightarrow> urma_context \<Rightarrow> platform \<Rightarrow> platform \<times> (json \<times> json \<times> bytes) result"
where
  "move_pattern ac bc jetty aseg bseg token sz pattern actx =
     (let len = int (length pattern);
          actx1 = fill_segment aseg 0 len pattern actx
      in
      run_call ac (u_write jetty aseg 0 bseg 0 len) actx1 (\<lambda>actx2 lat.
      run_call ac (u_register_segment (Seg_Size sz) token ''RW'') actx2 (\<lambda>actx3 rseg.
      run_call ac (u_read jetty rseg 0 bseg 0 len) actx3 (\<lambda>actx4 rlat pf.
        case segment_bytes rseg 0 len actx4 of
          Inl e \<Rightarrow> (pf, Inl e)
        | Inr data \<Rightarrow>
            if data \<noteq> pattern then (pf, Inl (AssertionError ''Data mismatch in RDMA transfer!''))
            else (hang_up bc (hang_up ac pf), Inr (lat, rlat, data))))))"

text \<open>Both nodes connect and register a segment.\<close>

definition two_segments ::
  "int \<Rightarrow> int \<Rightarrow> int \<Rightarrow> int \<Rightarrow> (nat \<Rightarrow> nat \<Rightarrow> urma_context \<Rightarrow> int \<Rightarrow> int \<Rightarrow> platform \<Rightarrow> platform \<times> 'a result) \<Rightarrow> platform \<Rightarrow> platform \<times> 'a result"
where
  "two_segments a b token sz k =
     run_connect a ''ASCEND_NPU'' (\<lambda>ac adev.
     run_connect b ''ASCEND_NPU'' (\<lambda>bc bdev.
     run_call ac (u_register_segment (Seg_Size sz) token ''RW'') (new_context a adev) (\<lambda>actx aseg.
     run_call bc (u_register_segment (Seg_Size sz) token ''RW'') (new_context b bdev) (\<lambda>bctx bseg.
       k ac bc actx aseg bseg))))"

definition p2p_transfer :: "int \<Rightarrow> int \<Rightarrow> int \<Rightarrow> int \<Rightarrow> bytes \<Rightarrow> platform \<Rightarrow> platform \<times> (json \<times> json \<times> bytes) result" where
  "p2p_transfer a b token sz pattern =
     two_segments a b token sz (\<lambda>ac bc actx1 aseg bseg.
     run_call ac (u_create_jetty b 1 token) actx1 (\<lambda>actx2 jetty.
       move_pattern ac bc jetty aseg bseg token sz pattern actx2))"

definition test_pattern :: bytes where
  "test_pattern = concat (replicate 32 (encode_utf8 ''UnifiedBus High-Performance AI Interconnect (Kunpeng <-> Ascend) ''))"

definition example_01 :: "platform \<Rightarrow> platform \<times> (json \<times> json \<times> bytes) result" where
  "example_01 = p2p_transfer 1 3 0xCAFE0001 (64 * 1024) test_pattern"

section \<open>Stepping through a program\<close>

lemma run_call_value: "exchange cid op ctx pf = (pf1, ctx1, Inr v) \<Longrightarrow> run_call cid op ctx k pf = k ctx1 v pf1"
  by (simp add: run_call_def)

lemma run_connect_value: "connect_device n ty pf = (pf1, cid, Inr dev) \<Longrightarrow> run_connect n ty k pf = k cid dev pf1"
  by (simp add: run_connect_def)

named_theorems view_effects

lemma view_effect_simps [view_effects]:
  "v_running (attach n cid v) = v_running v" "v_running (add_segment seg v) = v_running v" "v_running (store n off bs v) = v_running v"
  "v_running (add_pool seg v) = v_running v"
  "link_ok (attach n cid v) = link_ok v" "link_ok (add_segment seg v) = link_ok v" "link_ok (store n off bs v) = link_ok v"
  "link_ok (add_pool seg v) = link_ok v"
  "v_conn (attach n cid v) = (v_conn v)(n \<mapsto> cid)" "v_conn (add_segment seg v) = v_conn v" "v_conn (store n off bs v) = v_conn v"
  "v_conn (add_pool seg v) = v_conn v" "v_conn (detach n v) = (v_conn v)(n := None)"
  "v_memory (attach n cid v) = (v_memory v)(n \<mapsto> replicate LOCAL_MEMORY_SIZE 0)" "v_memory (add_segment seg v) = v_memory v"
  "v_memory (store n off bs v) = (v_memory v)(n := map_option (\<lambda>m. mem_write m off bs) (v_memory v n))" "v_memory (add_pool seg v) = v_memory v"
  "v_segment (attach n cid v) = v_segment v" "v_segment (store n off bs v) = v_segment v"
  "v_segment (add_segment seg v) = (v_segment v)(seg_node seg := (v_segment v (seg_node seg))(segment_id seg \<mapsto> seg))"
  "v_segment (add_pool seg v) = (v_segment v)(seg_node seg := (v_segment v (seg_node seg))(segment_id seg \<mapsto> seg))"
  "v_pool (attach n cid v) = v_pool v" "v_pool (store n off bs v) = v_pool v" "v_pool (add_pool seg v) = (v_pool v)(segment_id seg \<mapsto> seg)"
  "v_next_pool (attach n cid v) = v_next_pool v"
  "v_cip (attach n cid v) = v_cip v" "v_cip (add_segment seg v) = v_cip v" "v_cip (add_pool seg v) = v_cip v"
  "view_latency len (attach n cid v) = view_latency len v" "view_latency len (add_segment seg v) = view_latency len v"
  "view_latency len (store n off bs v) = view_latency len v" "view_latency len (add_pool seg v) = view_latency len v"
  by (simp_all add: attach_def add_segment_def store_def add_pool_def detach_def link_ok_def view_latency_def)

lemma fresh_world [simp]:
  "sockets_ok (world (new_platform bw hop clock))" "v_running (w_switch (world (new_platform bw hop clock)))"
  "w_sockets (world (new_platform bw hop clock)) = 0" "w_mail (world (new_platform bw hop clock)) = []"
  by (simp_all add: new_platform_world sockets_ok_def del: world_simps)

lemma py_upper_RW: "py_upper ''RW'' = Inr ''RW''"
  by (simp add: upper_char_def Let_def)

lemma grants_full:
  assumes "v_segment v n sid = Some (new_ub_segment sid n sz token ''RW'' tm)" "0 \<le> off" "off + len \<le> sz"
  shows "view_grants v n sid off len wr token"
  using assms by (simp add: view_grants_def contains_def check_permission_iff)

declare world_simps [simp del]

lemma fresh_view [simp]:
  "link_ok (w_switch (world (new_platform bw hop clock))) \<longleftrightarrow> fl bw = bw \<and> 1 \<le> bw \<and> bw < 10 ^ 15 \<and> 0 \<le> hop \<and> hop \<le> 2 ^ 30"
  "v_conn (w_switch (world (new_platform bw hop clock))) = Map.empty"
  "view_latency n (w_switch (world (new_platform bw hop clock))) = latency_of n (new_fabric bw hop)"
  "v_next_pool (w_switch (world (new_platform bw hop clock))) = 1"
  "v_cip (w_switch (world (new_platform bw hop clock))) = new_engine CIP_SUITE_AES_256_GCM 64"
  by (simp_all add: new_platform_world link_ok_def view_latency_def latency_of_def) (simp_all add: conn_of_def new_fabric_def new_switch_def fun_eq_iff)

lemma no_nodes: "v_conn (w_switch (world pf)) = Map.empty \<Longrightarrow> nodes (daemon (p_server pf)) = []"
proof (rule ccontr)
  assume c: "v_conn (w_switch (world pf)) = Map.empty" "nodes (daemon (p_server pf)) \<noteq> []"
  then obtain n x ns where "nodes (daemon (p_server pf)) = (n, x) # ns" by (metis list.exhaust surj_pair)
  then have "conn_of (daemon (p_server pf)) n \<noteq> None" by (simp add: conn_of_def)
  then show False using c(1) by (simp add: world_simps)
qed

lemma sockets_ok_connected: "sockets_ok w \<Longrightarrow> cid = w_sockets w \<Longrightarrow> sockets_ok ((served cid cur [] v w)\<lparr>w_sockets := cid + 1\<rparr>)"
  by (auto simp: sockets_ok_def)

lemma sockets_ok_served:
  "sockets_ok w \<Longrightarrow> w_links w cid \<noteq> None \<Longrightarrow> (\<forall>c\<in>fst ` set out. w_links w c \<noteq> None) \<Longrightarrow> sockets_ok (served cid cur out v w)"
  by (fastforce simp: sockets_ok_def)

lemma u_bounds_simps [simp]: "u16 0" "u32 1" "u32 2" "u32 3" "u32 4" "u32 5" "u32 6" "u32 7"
  by (simp_all add: u16_def u32_def)

lemma new_context_simps [simp]:
  "u_node (new_context n dev) = n" "u_device (new_context n dev) = dev" "u_next_seg (new_context n dev) = 1" "u_next_jetty (new_context n dev) = 1"
  "u_segments (new_context n dev) = []" "u_jetties (new_context n dev) = []"
  by (simp_all add: new_context_def)

lemma buffer_filled:
  "length bs \<le> length m \<Longrightarrow> py_slice (py_slice_set m 0 (int (length bs)) bs) 0 (int (length bs)) = bs"
  using py_slice_of_set [of 0 bs m] by simp

lemma memory_written:
  assumes "length bs \<le> length m"
  shows "mem_read (mem_write m 0 bs) 0 (int (length bs)) = bs" "length (mem_write m 0 bs) = length m"
  using assms py_slice_of_set [of 0 bs m] length_py_slice_set [of 0 bs m] by (simp_all add: mem_read_def mem_write_def)

lemma filled_bytes:
  assumes "dict_get (u_segments ctx) sid = Some seg" "length bs \<le> length (u_buffer seg)"
  shows "segment_bytes sid 0 (int (length bs)) (fill_segment sid 0 (int (length bs)) bs ctx) = Inr bs"
    "dict_get (u_segments (fill_segment sid 0 (int (length bs)) bs ctx)) sid
       = Some (seg\<lparr>u_buffer := py_slice_set (u_buffer seg) 0 (int (length bs)) bs\<rparr>)"
    "local_bytes (seg\<lparr>u_buffer := py_slice_set (u_buffer seg) 0 (int (length bs)) bs\<rparr>) 0 (int (length bs)) = bs"
  using assms buffer_filled [OF assms(2)] by (simp_all add: segment_bytes_def local_bytes_def)

text \<open>Once every attached node has hung up, no node is attached.\<close>

lemma all_hang_up:
  assumes "\<forall>(c, n)\<in>set cns. w_links (world pf) c = Some (handler (Some n)) \<and> v_conn (w_switch (world pf)) n \<noteq> None"
    and "distinct (map fst cns)" "distinct (map snd cns)" "\<And>n. n \<notin> snd ` set cns \<Longrightarrow> v_conn (w_switch (world pf)) n = None"
  shows "nodes (daemon (p_server (foldl (\<lambda>pf (c, n). hang_up c pf) pf cns))) = []"
  using assms
proof (induction cns arbitrary: pf)
  case Nil
  then have "v_conn (w_switch (world pf)) = Map.empty" by (simp add: fun_eq_iff)
  then show ?case using no_nodes by simp
next
  case (Cons cn cns)
  obtain c n where cn: "cn = (c, n)" by fastforce
  then have h: "world (hang_up c pf) = (world pf)\<lparr>w_switch := detach n (w_switch (world pf)), w_links := (w_links (world pf))(c := None)\<rparr>"
    using Cons.prems(1) by (intro hang_up_world) simp_all
  have "nodes (daemon (p_server (foldl (\<lambda>pf (c, n). hang_up c pf) (hang_up c pf) cns))) = []"
  proof (rule Cons.IH)
    show "\<forall>(d, m)\<in>set cns. w_links (world (hang_up c pf)) d = Some (handler (Some m)) \<and> v_conn (w_switch (world (hang_up c pf))) m \<noteq> None"
      using Cons.prems(1-3) cn by (force simp: h view_effects)
    show "v_conn (w_switch (world (hang_up c pf))) m = None" if "m \<notin> snd ` set cns" for m
      using Cons.prems(4) [of m] cn that by (simp add: h view_effects)
  qed (use Cons.prems(2,3) in simp_all)
  then show ?case using cn by simp
qed

text \<open>Both nodes attached over the first two connections, a segment on each, nothing protected received.\<close>

definition paired :: "int \<Rightarrow> int \<Rightarrow> int \<Rightarrow> int \<Rightarrow> world \<Rightarrow> bool" where
  "paired a b token sz w \<longleftrightarrow>
     online 0 (Some a) w \<and> w_links w 1 = Some (handler (Some b)) \<and> link_ok (w_switch w)
     \<and> (\<exists>tm. v_segment (w_switch w) b 1 = Some (new_ub_segment 1 b sz token ''RW'' tm))
     \<and> v_memory (w_switch w) b = Some (replicate LOCAL_MEMORY_SIZE 0) \<and> v_conn (w_switch w) = Map.empty(a \<mapsto> 0, b \<mapsto> 1)
     \<and> v_cip (w_switch w) = new_engine CIP_SUITE_AES_256_GCM 64"

abbreviation npu :: string where "npu \<equiv> ''ASCEND_NPU''"

lemma two_segments_set_up:
  assumes "link_ok (w_switch (world w))" "w = new_platform bw hop clock"
    and "u16 a" "u16 b" "a \<noteq> b" "u32 token" "0 \<le> sz" "sz < 10 ^ 20"
  shows "\<exists>pf. two_segments a b token sz k w = k 0 1 (with_segment sz token ''RW'' (new_context a (device_at a npu 2))) 1 1 pf
    \<and> paired a b token sz (world pf) \<and> (\<forall>n. view_latency n (w_switch (world pf)) = view_latency n (w_switch (world w)))"
proof -
  let ?seg = "\<lambda>sid n tm. new_ub_segment sid n sz token ''RW'' tm"
  have w: "sockets_ok (world w)" "v_running (w_switch (world w))" "w_sockets (world w) = 0" "w_mail (world w) = []"
    "v_conn (w_switch (world w)) = Map.empty" "v_cip (w_switch (world w)) = new_engine CIP_SUITE_AES_256_GCM 64" using assms(2) by simp_all
  obtain p1 where c1: "connect_device a npu w = (p1, 0, Inr (device_at a npu 2))"
      "world p1 = (served 0 (Some a) [] (attach a 0 (w_switch (world w))) (world w))\<lparr>w_sockets := 1\<rparr>"
    using connect_device_served [of w a npu 0] assms(1,3) w by auto
  obtain p2 where c2: "connect_device b npu p1 = (p2, 1, Inr (device_at b npu 2))"
      "world p2 = (served 1 (Some b) [] (attach b 1 (w_switch (world p1))) (world p1))\<lparr>w_sockets := 2\<rparr>"
    using connect_device_served [of p1 b npu 1] assms(1,4) w sockets_ok_connected [of "world w" 0] by (auto simp: c1(2) view_effects)
  note w2 = c1(2) c2(2)
  let ?k = "new_context a (device_at a npu 2)" and ?n = "new_context b (device_at b npu 2)"
  have o: "online 0 (Some a) (world p2)" "online 1 (Some b) (world p2)" using w by (simp_all add: w2 online_def view_effects)
  obtain p3 where c3: "exchange 0 (u_register_segment (Seg_Size sz) token ''RW'') ?k p2 = (p3, with_segment sz token ''RW'' ?k, Inr 1)"
      "world p3 = served 0 (Some a) [] (add_segment (?seg 1 a (w_time (world p2) (w_calls (world p2)))) (w_switch (world p2))) (world p2)"
    using register_segment_served [OF o(1), of ?k a npu 2 token sz "''RW''" "''RW''" 1] assms py_upper_RW by auto
  have o: "online 1 (Some b) (world p3)" using o by (simp add: c3 online_def view_effects)
  obtain p4 where c4: "exchange 1 (u_register_segment (Seg_Size sz) token ''RW'') ?n p3 = (p4, with_segment sz token ''RW'' ?n, Inr 1)"
      "world p4 = served 1 (Some b) [] (add_segment (?seg 1 b (w_time (world p3) (w_calls (world p3)))) (w_switch (world p3))) (world p3)"
    using register_segment_served [OF o, of ?n b npu 2 token sz "''RW''" "''RW''" 1] assms py_upper_RW by auto
  have "two_segments a b token sz k w = k 0 1 (with_segment sz token ''RW'' ?k) 1 1 p4"
    by (simp add: two_segments_def run_connect_value [OF c1(1)] run_connect_value [OF c2(1)] run_call_value [OF c3(1)] run_call_value [OF c4(1)]
        del: One_nat_def)
  moreover have "paired a b token sz (world p4)"
    using assms(1,5) w by (auto simp: paired_def w2 c3 c4 online_def view_effects)
  moreover have "\<forall>n. view_latency n (w_switch (world p4)) = view_latency n (w_switch (world w))"
    by (simp add: w2 c3 c4 view_effects)
  ultimately show ?thesis by blast
qed

text \<open>The state before the transfer: the jetty besides.\<close>

definition set_up :: "int \<Rightarrow> int \<Rightarrow> int \<Rightarrow> int \<Rightarrow> urma_context \<Rightarrow> world \<Rightarrow> bool" where
  "set_up a b token sz ctx w \<longleftrightarrow>
     paired a b token sz w
     \<and> u_node ctx = a \<and> u_device ctx = device_at a npu 4 \<and> u_next_seg ctx = 2
     \<and> dict_get (u_segments ctx) 1 = Some (new_segment 1 sz token ''RW'' (replicate (nat sz) 0))
     \<and> dict_get (u_jetties ctx) 1 = Some (new_jetty 1 b 1 token None)"

lemma transfer_set_up:
  assumes "link_ok (w_switch (world w))" "w = new_platform bw hop clock"
    and "u16 a" "u16 b" "a \<noteq> b" "u32 token" "0 \<le> sz" "sz < 10 ^ 20"
  shows "\<exists>pf ctx. p2p_transfer a b token sz pattern w = move_pattern 0 1 1 1 1 token sz pattern ctx pf
    \<and> set_up a b token sz ctx (world pf) \<and> (\<forall>n. view_latency n (w_switch (world pf)) = view_latency n (w_switch (world w)))"
proof -
  let ?k = "with_segment sz token ''RW'' (new_context a (device_at a npu 2))"
  let ?k1 = "with_jetty b 1 token ?k"
  obtain p4 where c4: "p2p_transfer a b token sz pattern w
        = run_call 0 (u_create_jetty b 1 token) ?k (\<lambda>ctx jetty. move_pattern 0 1 jetty 1 1 token sz pattern ctx) p4"
      "paired a b token sz (world p4)" "\<forall>n. view_latency n (w_switch (world p4)) = view_latency n (w_switch (world w))"
    using two_segments_set_up [OF assms, of "\<lambda>ac bc ctx aseg bseg. run_call ac (u_create_jetty b 1 token) ctx (\<lambda>ctx jetty. move_pattern ac bc jetty aseg bseg token sz pattern ctx)"]
    unfolding p2p_transfer_def by blast
  have o: "online 0 (Some a) (world p4)" using c4(2) by (simp add: paired_def)
  obtain p5 where c5: "exchange 0 (u_create_jetty b 1 token) ?k p4 = (p5, ?k1, Inr 1)" "world p5 = served 0 (Some a) [] (w_switch (world p4)) (world p4)"
    using create_jetty_served [OF o, of ?k a npu 3 token b 1 1] assms by auto
  have "p2p_transfer a b token sz pattern w = move_pattern 0 1 1 1 1 token sz pattern ?k1 p5"
    unfolding c4(1) by (rule run_call_value [OF c5(1)])
  moreover have "set_up a b token sz ?k1 (world p5)"
    using c4(2) by (auto simp: set_up_def paired_def c5 online_def)
  moreover have "\<forall>n. view_latency n (w_switch (world p5)) = view_latency n (w_switch (world w))" using c4(3) by (simp add: c5)
  ultimately show ?thesis by blast
qed

text \<open>
  Node \<open>a\<close> registers a second segment and reads into it what lies in the segment of node \<open>b\<close>; only the
  registration shows in the switch.
\<close>

lemma segment_read_back:
  assumes "online 0 (Some a) (world pf)" "link_ok (w_switch (world pf))" "w_links (world pf) 1 = Some (handler (Some b))"
    and "v_conn (w_switch (world pf)) = Map.empty(a \<mapsto> 0, b \<mapsto> 1)"
    and "v_segment (w_switch (world pf)) b 1 = Some (new_ub_segment 1 b sz token ''RW'' tm)"
    and "v_memory (w_switch (world pf)) b = Some m" "length m = LOCAL_MEMORY_SIZE" "mem_read m 0 len = data" "len = int (length data)"
    and "a \<noteq> b" "u16 a" "u16 b" "u32 token" "len \<le> sz" "sz < 10 ^ 20" "length data \<le> LOCAL_MEMORY_SIZE"
    and "u_device ctx = device_at a npu s" "u32 s" "u32 (s + 1)" "u_node ctx = a" "u_next_seg ctx = 2"
    and "dict_get (u_jetties ctx) 1 = Some j" "j_remote_node j = b" "j_token j = token"
    and "k1 = with_segment sz token ''RW'' ctx" "k2 = fill_segment 2 0 len data (next_request k1)"
  shows "\<exists>p1 p2 seg. exchange 0 (u_register_segment (Seg_Size sz) token ''RW'') ctx pf = (p1, k1, Inr 2)
    \<and> exchange 0 (u_read 1 2 0 1 0 len) k1 p1 = (p2, k2, Inr (JFloat (view_latency len (w_switch (world pf))))) \<and> segment_bytes 2 0 len k2 = Inr data
    \<and> seg_node seg = a \<and> world p2 = (let w1 = served 0 (Some a) [] (add_segment seg (w_switch (world pf))) (world pf) in served 0 (Some a) [] (w_switch w1) w1)"
proof -
  let ?seg = "new_ub_segment 2 a sz token ''RW'' (w_time (world pf) (w_calls (world pf)))"
  have sz: "0 \<le> sz" "length data \<le> nat sz" using assms(9,14) by linarith+
  have u: "u16 (u_node ctx)" "0 \<le> u_next_seg ctx" "u_next_seg ctx < 10 ^ 20" "2 = u_next_seg ctx" using assms(11,20,21) by simp_all
  obtain p1 where c1: "exchange 0 (u_register_segment (Seg_Size sz) token ''RW'') ctx pf = (p1, k1, Inr 2)" and
      w1: "world p1 = served 0 (Some a) [] (add_segment ?seg (w_switch (world pf))) (world pf)"
    using register_segment_served [OF assms(1,17) u(1) assms(13,18) u(2,3) sz(1) assms(15) py_upper_RW _ u(4) refl] unfolding assms(20,25) by auto
  have v1: "v_segment (w_switch (world p1)) b 1 = Some (new_ub_segment 1 b sz token ''RW'' tm)" "link_ok (w_switch (world p1))"
    using assms(2,5,10) by (simp_all add: w1 view_effects)
  have acc: "accessible (world p1) b 1 0 len False token 1 m"
    using grants_full [OF v1(1), of 0 len False] assms(3,4,6,7,9,10,12-14,16) by (simp add: accessible_def w1 view_effects LOCAL_MEMORY_SIZE_def)
  have k: "u_device k1 = device_at a npu (s + 1)" "dict_get (u_jetties k1) 1 = Some j" "u_node k1 = a"
    "dict_get (u_segments k1) 2 = Some (new_segment 2 sz token ''RW'' (replicate (nat sz) 0))"
    "length data \<le> length (u_buffer (new_segment 2 sz token ''RW'' (replicate (nat sz) 0)))"
    using assms(17,20-22) sz(2) unfolding assms(25) by simp_all
  have o: "online 0 (Some a) (world p1)" using assms(1) by (simp add: w1 online_def view_effects)
  obtain p2 where c2: "exchange 0 (u_read 1 2 0 1 0 len) k1 p1 = (p2, k2, Inr (JFloat (view_latency len (w_switch (world p1)))))" and
      w2: "world p2 = served 0 (Some a) [] (w_switch (world p1)) (world p1)"
    using read_served [OF o v1(2) k(1) _ assms(19) k(2,4), of 1 0 len 1 m 0] assms(8,11,23,24,26) acc k(3) by auto
  have "segment_bytes 2 0 len k2 = Inr data"
    using filled_bytes(1) [of "next_request k1" 2 _ data, OF _ k(5)] k(4) unfolding assms(9,26) by simp
  moreover have "view_latency len (w_switch (world p1)) = view_latency len (w_switch (world pf))" by (simp add: w1 view_effects)
  moreover have "seg_node ?seg = a" by simp
  ultimately show ?thesis using c1 c2 w2 unfolding w1 Let_def by metis
qed

lemma pattern_moved:
  assumes "set_up a b token sz ctx (world p5)" "a \<noteq> b" "u16 a" "u16 b" "u32 token" "int (length pattern) \<le> sz" "sz < 10 ^ 20"
    and "length pattern \<le> LOCAL_MEMORY_SIZE" "lat = view_latency (int (length pattern)) (w_switch (world p5))"
  shows "\<exists>pf. move_pattern 0 1 1 1 1 token sz pattern ctx p5 = (pf, Inr (JFloat lat, JFloat lat, pattern))
    \<and> nodes (daemon (p_server pf)) = []"
proof -
  let ?npu = "''ASCEND_NPU''" and ?len = "int (length pattern)" and ?ram = "replicate LOCAL_MEMORY_SIZE (0 :: byte)"
  let ?buf = "replicate (nat sz) (0 :: byte)"
  let ?seg = "\<lambda>sid n tm. new_ub_segment sid n sz token ''RW'' tm"
  have sz: "0 \<le> sz" "?len \<le> sz" "length pattern \<le> nat sz" using assms(6) by linarith+
  obtain tm where su: "online 0 (Some a) (world p5)" "w_links (world p5) 1 = Some (handler (Some b))" "link_ok (w_switch (world p5))"
      "v_segment (w_switch (world p5)) b 1 = Some (?seg 1 b tm)" "v_memory (w_switch (world p5)) b = Some ?ram"
      "v_conn (w_switch (world p5)) = Map.empty(a \<mapsto> 0, b \<mapsto> 1)"
      "u_node ctx = a" "u_device ctx = device_at a ?npu 4" "u_next_seg ctx = 2"
      "dict_get (u_segments ctx) 1 = Some (new_segment 1 sz token ''RW'' ?buf)" "dict_get (u_jetties ctx) 1 = Some (new_jetty 1 b 1 token None)"
    using assms(1) unfolding set_up_def paired_def by blast
  let ?k2 = "fill_segment 1 0 ?len pattern ctx"
  have s1: "length pattern \<le> length (u_buffer (new_segment 1 sz token ''RW'' ?buf))" using sz(3) by simp
  note f1 = filled_bytes [OF su(10) s1]
  have ram: "length ?ram < 2 ^ 32" "?len \<le> int (length ?ram)" using assms(8) by (simp_all add: LOCAL_MEMORY_SIZE_def)
  have acc: "accessible (world p5) b 1 0 ?len True token 1 ?ram"
    using grants_full [OF su(4), of 0 ?len True] assms(4,5) ram sz su by (simp add: accessible_def)
  have k2: "u_device ?k2 = device_at a ?npu 4" "dict_get (u_jetties ?k2) 1 = Some (new_jetty 1 b 1 token None)" "u_node ?k2 = a" "u_next_seg ?k2 = 2"
    using su(7-9,11) by simp_all
  obtain p6 f where c6: "exchange 0 (u_write 1 1 0 1 0 ?len) ?k2 p5 = (p6, next_request ?k2, Inr (JFloat lat))"
      "world p6 = served 0 (Some a) [(1, f)] (store b 0 pattern (w_switch (world p5))) (world p5)"
    using write_served [OF su(1,3) k2(1) _ _ k2(2) f1(2) f1(3) [symmetric] refl, of 1 0 1 ?ram] assms(3,9) acc k2(3) by auto
  let ?k3 = "next_request ?k2" and ?ram1 = "mem_write ?ram 0 pattern"
  let ?k4 = "with_segment sz token ''RW'' ?k3"
  have o: "online 0 (Some a) (world p6)" using su(1) by (simp add: c6 online_def view_effects)
  have v6: "link_ok (w_switch (world p6))" "w_links (world p6) 1 = Some (handler (Some b))" "v_conn (w_switch (world p6)) = Map.empty(a \<mapsto> 0, b \<mapsto> 1)"
    "v_segment (w_switch (world p6)) b 1 = Some (?seg 1 b tm)" "v_memory (w_switch (world p6)) b = Some ?ram1"
    "view_latency ?len (w_switch (world p6)) = lat" using su assms(9) by (simp_all add: c6 view_effects)
  have m: "mem_read ?ram1 0 ?len = pattern" "length ?ram1 = LOCAL_MEMORY_SIZE" using memory_written [of pattern ?ram] assms(8) by simp_all
  have k3: "u_device ?k3 = device_at a ?npu 5" "u_node ?k3 = a" "u_next_seg ?k3 = 2"
    "dict_get (u_jetties ?k3) 1 = Some (new_jetty 1 b 1 token None)" using k2 by simp_all
  obtain p7 p8 seg where c7: "exchange 0 (u_register_segment (Seg_Size sz) token ''RW'') ?k3 p6 = (p7, ?k4, Inr 2)"
      and c8: "exchange 0 (u_read 1 2 0 1 0 ?len) ?k4 p7 = (p8, fill_segment 2 0 ?len pattern (next_request ?k4), Inr (JFloat lat))"
      and d: "segment_bytes 2 0 ?len (fill_segment 2 0 ?len pattern (next_request ?k4)) = Inr pattern" and sn: "seg_node seg = a"
      and w8: "world p8 = (let w1 = served 0 (Some a) [] (add_segment seg (w_switch (world p6))) (world p6) in served 0 (Some a) [] (w_switch w1) w1)"
    using segment_read_back [OF o v6(1-5) m(2,1) refl assms(2-5) sz(2) assms(7,8) k3(1) _ _ k3(2-4) _ _ refl refl] v6(6) by auto
  have "move_pattern 0 1 1 1 1 token sz pattern ctx p5 = (hang_up 1 (hang_up 0 p8), Inr (JFloat lat, JFloat lat, pattern))"
    by (simp add: move_pattern_def run_call_value [OF c6(1)] run_call_value [OF c7] run_call_value [OF c8] d Let_def del: One_nat_def)
  moreover have "nodes (daemon (p_server (hang_up 1 (hang_up 0 p8)))) = []"
    using all_hang_up [of "[(0, a), (1, b)]" p8] assms(2) su by (simp add: c6 w8 Let_def view_effects online_def)
  ultimately show ?thesis by blast
qed

text \<open>
  C7. Example 01 succeeds on every fresh switch: whatever the two nodes, the token, the segment size and
  the pattern that fits in it and in a node's memory, and whatever the clock says, every call of the program
  succeeds over the wire, both transfers report the latency of the link, the bytes read back are the pattern,
  and after the two closes no node is attached.
\<close>

theorem transfer_verified:
  assumes "fl bw = bw" "1 \<le> bw" "bw < 10 ^ 15" "0 \<le> hop" "hop \<le> 2 ^ 30"
    and "u16 a" "u16 b" "a \<noteq> b" "u32 token" "int (length pattern) \<le> sz" "sz < 10 ^ 20" "length pattern \<le> LOCAL_MEMORY_SIZE"
    and "lat = latency_of (int (length pattern)) (new_fabric bw hop)"
  shows "\<exists>pf. p2p_transfer a b token sz pattern (new_platform bw hop clock) = (pf, Inr (JFloat lat, JFloat lat, pattern))
    \<and> nodes (daemon (p_server pf)) = []"
proof -
  let ?w = "new_platform bw hop clock"
  have sz: "0 \<le> sz" using assms(10) by linarith
  have "link_ok (w_switch (world ?w))" using assms(1-5) by simp
  from transfer_set_up [OF this refl assms(6-9) sz assms(11), of pattern] obtain pf ctx where
    s: "p2p_transfer a b token sz pattern ?w = move_pattern 0 1 1 1 1 token sz pattern ctx pf" "set_up a b token sz ctx (world pf)"
      "view_latency (int (length pattern)) (w_switch (world pf)) = lat"
    using assms(13) by auto
  then show ?thesis using pattern_moved [OF s(2) assms(8,6,7,9-12) s(3) [symmetric]] by simp
qed

theorem transfer_verified_witness:
  "\<exists>pf lat. example_01 (new_platform 800 15 (\<lambda>i. 0)) = (pf, Inr (JFloat lat, JFloat lat, test_pattern)) \<and> nodes (daemon (p_server pf)) = []"
proof -
  have "length test_pattern \<le> 32 * (2 * 66)"
    using length_encode_utf8 [of "''UnifiedBus High-Performance AI Interconnect (Kunpeng <-> Ascend) ''"]
    by (simp add: test_pattern_def length_concat sum_list_replicate del: length_encode_utf8)
  then have "length test_pattern \<le> 4224" by simp
  moreover have "fl 800 = 800" using fl_of_int [of 800] by simp
  ultimately show ?thesis
    using transfer_verified [of 800 15 1 3 "0xCAFE0001" test_pattern "64 * 1024" _ "\<lambda>i. 0", OF _ _ _ _ _ _ _ _ _ _ _ _ refl]
    by (auto simp: example_01_def u16_def u32_def LOCAL_MEMORY_SIZE_def)
qed

end
