(* ===== verification/Example_Pools.thy ===== *)
theory Example_Pools
  imports Example_Programs
begin

text \<open>
  Example 03 (\<open>examples/03_obmm_memory_pooling.py\<close>): a node lends memory, a second node borrows it and
  writes into it, a third one borrows it and reads what was written, and a fourth one with another token is
  refused. What the program prints is left out; nodes, tokens, sizes and data are parameters.
\<close>

section \<open>The program\<close>

text \<open>The second half: the second borrower reads, and the rogue import, whose exception is caught.\<close>

definition read_and_refuse ::
  "nat \<Rightarrow> nat \<Rightarrow> int \<Rightarrow> int \<Rightarrow> int \<Rightarrow> int \<Rightarrow> int \<Rightarrow> int \<Rightarrow> bytes \<Rightarrow> json \<Rightarrow> platform \<Rightarrow> platform \<times> (json \<times> bytes \<times> pool_handle result) result"
where
  "read_and_refuse oc ac b rogue pid token bad off data lat =
     run_connect b ''ASCEND_NPU'' (\<lambda>bc bdev.
     run_call bc (import_memory pid token) (new_obmm b bdev) (\<lambda>bcl1 bpool.
     run_call bc (pool_read bpool off (int (length data))) bcl1 (\<lambda>bcl2 back pf.
       if back \<noteq> data then (pf, Inl (AssertionError ''Data mismatch in shared memory pool!''))
       else
         run_connect rogue ''ASCEND_NPU'' (\<lambda>rc rdev pf1.
           case exchange rc (import_memory pid bad) (new_obmm rogue rdev) pf1 of
             (pf2, rcl, r) \<Rightarrow> (hang_up rc (hang_up bc (hang_up ac (hang_up oc pf2))), Inr (lat, back, r))) pf)))"

definition share_pool ::
  "int \<Rightarrow> int \<Rightarrow> int \<Rightarrow> int \<Rightarrow> int \<Rightarrow> int \<Rightarrow> int \<Rightarrow> int \<Rightarrow> bytes \<Rightarrow> platform \<Rightarrow> platform \<times> (json \<times> bytes \<times> pool_handle result) result"
where
  "share_pool owner a b rogue token bad sz off data =
     run_connect owner ''ASCEND_NPU'' (\<lambda>oc odev.
     run_call oc (export_memory sz token ''RW'') (new_obmm owner odev) (\<lambda>ocl1 pid.
     run_connect a ''ASCEND_NPU'' (\<lambda>ac adev.
     run_call ac (import_memory pid token) (new_obmm a adev) (\<lambda>acl1 apool.
     run_call ac (pool_write apool off data) acl1 (\<lambda>acl2 lat.
       read_and_refuse oc ac b rogue pid token bad off data lat)))))"

definition embedding_data :: bytes where
  "embedding_data = concat (replicate 50 (encode_utf8 ''[Embedding Weights Vector Part 0: Kunpeng to Remote HBM Pool]''))"

definition example_03 :: "platform \<Rightarrow> platform \<times> (json \<times> bytes \<times> pool_handle result) result" where
  "example_03 = share_pool 7 1 3 8 0xABCD1234 0xDEADBEEF (16 * 1024 * 1024 * 1024) 0x1000 embedding_data"

section \<open>The two halves\<close>

lemma new_obmm_simps [simp]: "o_node (new_obmm n dev) = n" "o_device (new_obmm n dev) = dev"
  by (simp_all add: new_obmm_def)

lemma connected_world:
  assumes "sockets_ok (world pf)" "v_running (w_switch (world pf))" "link_ok (w_switch (world pf))" "u16 n" "cid = w_sockets (world pf)"
  shows "\<exists>pf1. connect_device n ''ASCEND_NPU'' pf = (pf1, cid, Inr (device_at n ''ASCEND_NPU'' 2))
    \<and> world pf1 = (served cid (Some n) [] (attach n cid (w_switch (world pf))) (world pf))\<lparr>w_sockets := cid + 1\<rparr>
    \<and> sockets_ok (world pf1)"
  using connect_device_served [OF assms(1-4) _ assms(5), of "''ASCEND_NPU''"] sockets_ok_connected [OF assms(1,5)] by auto

lemma pool_accessible:
  assumes "v_segment (w_switch w) owner pid = Some (new_ub_segment pid owner sz token ''RW'' tm)" "v_memory (w_switch w) owner = Some m"
    and "v_conn (w_switch w) owner = Some tcid" "w_links w tcid \<noteq> None" "0 \<le> off" "0 \<le> len" "off + len \<le> sz" "off + len \<le> int (length m)"
    and "length m = LOCAL_MEMORY_SIZE" "u16 owner" "0 \<le> pid" "pid < 10 ^ 20" "u32 token"
  shows "accessible w owner pid off len wr token tcid m"
  using assms grants_full [OF assms(1,5,7), of wr] by (simp add: accessible_def LOCAL_MEMORY_SIZE_def)

text \<open>Between the halves: the pool with the data in the owner's memory, two nodes attached.\<close>

definition pool_filled :: "int \<Rightarrow> int \<Rightarrow> int \<Rightarrow> int \<Rightarrow> int \<Rightarrow> bytes \<Rightarrow> world \<Rightarrow> bool" where
  "pool_filled owner a token sz off data w \<longleftrightarrow>
     sockets_ok w \<and> v_running (w_switch w) \<and> link_ok (w_switch w) \<and> w_sockets w = 2
     \<and> w_links w 0 = Some (handler (Some owner)) \<and> w_links w 1 = Some (handler (Some a))
     \<and> v_conn (w_switch w) = Map.empty(owner \<mapsto> 0, a \<mapsto> 1)
     \<and> v_memory (w_switch w) owner = Some (mem_write (replicate LOCAL_MEMORY_SIZE 0) off data)
     \<and> (\<exists>tm. v_segment (w_switch w) owner 1 = Some (new_ub_segment 1 owner sz token ''RW'' tm)
            \<and> v_pool (w_switch w) 1 = Some (new_ub_segment 1 owner sz token ''RW'' tm))"

lemma pool_set_up:
  assumes "link_ok (w_switch (world w))" "w = new_platform bw hop clock" "u16 owner" "u16 a" "owner \<noteq> a" "u32 token" "0 \<le> sz" "sz < 10 ^ 20"
    and "0 \<le> off" "off + int (length data) \<le> sz" "off + int (length data) \<le> int LOCAL_MEMORY_SIZE"
    and "lat = view_latency (int (length data)) (w_switch (world w))"
  shows "\<exists>pf. share_pool owner a b rogue token bad sz off data w = read_and_refuse 0 1 b rogue 1 token bad off data (JFloat lat) pf
    \<and> pool_filled owner a token sz off data (world pf)"
proof -
  let ?npu = "''ASCEND_NPU''" and ?len = "int (length data)" and ?ram = "replicate LOCAL_MEMORY_SIZE (0 :: byte)"
  have w: "sockets_ok (world w)" "v_running (w_switch (world w))" "w_sockets (world w) = 0" "w_mail (world w) = []"
    "v_conn (w_switch (world w)) = Map.empty" "v_next_pool (w_switch (world w)) = 1" using assms(2) by simp_all
  obtain p1 where c1: "connect_device owner ?npu w = (p1, 0, Inr (device_at owner ?npu 2))" and
      w1: "world p1 = (served 0 (Some owner) [] (attach owner 0 (w_switch (world w))) (world w))\<lparr>w_sockets := 1\<rparr>" and s1: "sockets_ok (world p1)"
    using connected_world [of w owner 0] assms(1,3) w by auto
  have o: "online 0 (Some owner) (world p1)" using w by (simp add: w1 online_def view_effects)
  let ?o = "new_obmm owner (device_at owner ?npu 2)"
  obtain p2 ocl tm where c2: "exchange 0 (export_memory sz token ''RW'') ?o p1 = (p2, ocl, Inr 1)" and
      w2: "world p2 = served 0 (Some owner) [] (add_pool (new_ub_segment 1 owner sz token ''RW'' tm) (w_switch (world p1))) (world p1)"
    using export_memory_served [OF o, of ?o owner ?npu 2 token sz "''RW''" "''RW''" 1] assms(3,6-8) w py_upper_RW by (auto simp: w1 view_effects)
  have s2: "sockets_ok (world p2)" unfolding w2 using s1 o by (intro sockets_ok_served) (simp_all add: online_def)
  obtain p3 where c3: "connect_device a ?npu p2 = (p3, 1, Inr (device_at a ?npu 2))" and
      w3: "world p3 = (served 1 (Some a) [] (attach a 1 (w_switch (world p2))) (world p2))\<lparr>w_sockets := 2\<rparr>" and s3: "sockets_ok (world p3)"
    using connected_world [OF s2, of a 1] assms(1,4) w by (auto simp: w1 w2 view_effects numeral_2_eq_2)
  note ws = w1 w2 w3
  let ?seg = "new_ub_segment 1 owner sz token ''RW'' tm" and ?a = "new_obmm a (device_at a ?npu 2)"
  have o: "online 1 (Some a) (world p3)" "v_pool (w_switch (world p3)) 1 = Some ?seg" using w by (simp_all add: ws online_def view_effects)
  obtain p4 where c4: "exchange 1 (import_memory 1 token) ?a p3 = (p4, ?a\<lparr>o_device := device_at a ?npu 3\<rparr>, Inr (borrowed 1 token ?seg))" and
      w4: "world p4 = served 1 (Some a) [] (w_switch (world p3)) (world p3)"
    using import_granted [OF o(1), of ?a a ?npu 2 token 1 ?seg] o(2) assms(3,4,6-8) by auto
  let ?a1 = "?a\<lparr>o_device := device_at a ?npu 3\<rparr>"
  have acc: "accessible (world p4) owner 1 off ?len True token 0 ?ram"
    using assms(3,5,6,9-11) by (intro pool_accessible [where sz = sz and tm = tm]) (simp_all add: ws w4 view_effects)
  have o: "online 1 (Some a) (world p4)" "link_ok (w_switch (world p4))" using assms(1) o by (simp_all add: ws w4 online_def view_effects)
  obtain p5 f where c5: "exchange 1 (pool_write (borrowed 1 token ?seg) off data) ?a1 p4 = (p5, ?a1\<lparr>o_device := device_at a ?npu 4\<rparr>, Inr (JFloat lat))" and
      w5: "world p5 = served 1 (Some a) [(0, f)] (store owner off data (w_switch (world p4))) (world p4)"
    using pool_write_served [OF o, of ?a1 a ?npu 3 off data "borrowed 1 token ?seg" ?len 0 ?ram] acc assms(4,10,12)
    by (auto simp: ws w4 view_effects)
  have "sockets_ok (world p5)" unfolding w5 w4 using s3 by (intro sockets_ok_served) (simp_all add: ws)
  then have "pool_filled owner a token sz off data (world p5)"
    using assms(1,5) w by (auto simp: pool_filled_def w5 w4 ws view_effects)
  moreover have "share_pool owner a b rogue token bad sz off data w = read_and_refuse 0 1 b rogue 1 token bad off data (JFloat lat) p5"
    by (simp add: share_pool_def run_connect_value [OF c1] run_call_value [OF c2] run_connect_value [OF c3] run_call_value [OF c4]
        run_call_value [OF c5] del: One_nat_def)
  ultimately show ?thesis by blast
qed

lemma pool_shared:
  assumes "pool_filled owner a token sz off data (world pf)" "distinct [owner, a, b, rogue]" "u16 owner" "u16 b" "u16 rogue"
    and "u32 token" "u32 bad" "token \<noteq> 0" "bad \<noteq> token" "0 \<le> sz" "sz < 10 ^ 20" "0 \<le> off" "off + int (length data) \<le> sz"
    and "off + int (length data) \<le> int LOCAL_MEMORY_SIZE"
  shows "\<exists>pf'. read_and_refuse 0 1 b rogue 1 token bad off data lat pf = (pf', Inr (lat, data, Inl (RuntimeError
      ''Failed to import pool 0x1: Failed to import pool 0x1 (invalid pool ID or token mismatch)'')))
    \<and> nodes (daemon (p_server pf')) = []"
proof -
  let ?npu = "''ASCEND_NPU''" and ?len = "int (length data)" and ?ram = "mem_write (replicate LOCAL_MEMORY_SIZE (0 :: byte)) off data"
  obtain tm where w: "sockets_ok (world pf)" "v_running (w_switch (world pf))" "link_ok (w_switch (world pf))" "w_sockets (world pf) = 2"
      "w_links (world pf) 0 = Some (handler (Some owner))" "w_links (world pf) 1 = Some (handler (Some a))"
      "v_conn (w_switch (world pf)) = Map.empty(owner \<mapsto> 0, a \<mapsto> 1)" "v_memory (w_switch (world pf)) owner = Some ?ram"
      "v_segment (w_switch (world pf)) owner 1 = Some (new_ub_segment 1 owner sz token ''RW'' tm)"
      "v_pool (w_switch (world pf)) 1 = Some (new_ub_segment 1 owner sz token ''RW'' tm)"
    using assms(1) unfolding pool_filled_def by blast
  have fresh: "w_links (world pf) 2 = None" "2 \<notin> fst ` set (w_mail (world pf))" "w_links (world pf) 3 = None" "3 \<notin> fst ` set (w_mail (world pf))"
    using w(1,4) by (simp_all add: sockets_ok_def)
  have m: "length ?ram = LOCAL_MEMORY_SIZE" "mem_read ?ram off ?len = data"
    using assms(12,14) by (simp_all add: mem_write_def mem_read_def length_py_slice_set py_slice_of_set)
  let ?seg = "new_ub_segment 1 owner sz token ''RW'' tm" and ?b = "new_obmm b (device_at b ?npu 2)"
  obtain p1 where c1: "connect_device b ?npu pf = (p1, 2, Inr (device_at b ?npu 2))" and
      w1: "world p1 = (served 2 (Some b) [] (attach b 2 (w_switch (world pf))) (world pf))\<lparr>w_sockets := 3\<rparr>" and s1: "sockets_ok (world p1)"
    using connected_world [OF w(1-3) assms(4), of 2] w(4) by auto
  have o: "online 2 (Some b) (world p1)" "link_ok (w_switch (world p1))" "v_pool (w_switch (world p1)) 1 = Some ?seg"
    using w fresh by (simp_all add: w1 online_def view_effects)
  obtain p2 where c2: "exchange 2 (import_memory 1 token) ?b p1 = (p2, ?b\<lparr>o_device := device_at b ?npu 3\<rparr>, Inr (borrowed 1 token ?seg))" and
      w2: "world p2 = served 2 (Some b) [] (w_switch (world p1)) (world p1)"
    using import_granted [OF o(1), of ?b b ?npu 2 token 1 ?seg] o(3) assms(3,4,6,10,11) by auto
  let ?b1 = "?b\<lparr>o_device := device_at b ?npu 3\<rparr>"
  have acc: "accessible (world p2) owner 1 off ?len False token 0 ?ram"
    using assms(2,3,6,12-14) w m(1) by (intro pool_accessible [where sz = sz and tm = tm]) (simp_all add: w1 w2 view_effects)
  have o2: "online 2 (Some b) (world p2)" "link_ok (w_switch (world p2))" using o by (simp_all add: w2 online_def)
  obtain p3 where c3: "exchange 2 (pool_read (borrowed 1 token ?seg) off ?len) ?b1 p2 = (p3, ?b1\<lparr>o_device := device_at b ?npu 4\<rparr>, Inr data)" and
      w3: "world p3 = served 2 (Some b) [] (w_switch (world p2)) (world p2)"
    using pool_read_served [OF o2, of ?b1 b ?npu 3 off ?len "borrowed 1 token ?seg" 0 ?ram] acc assms(4,13) m(2) by auto
  have s3: "sockets_ok (world p3)" unfolding w3 w2 using s1 o(1) by (intro sockets_ok_served) (simp_all add: online_def)
  have v3: "v_running (w_switch (world p3))" "link_ok (w_switch (world p3))" "3 = w_sockets (world p3)"
    using w(2-4) by (simp_all add: w1 w2 w3 view_effects)
  obtain p4 where c4: "connect_device rogue ?npu p3 = (p4, 3, Inr (device_at rogue ?npu 2))" and
      w4: "world p4 = (served 3 (Some rogue) [] (attach rogue 3 (w_switch (world p3))) (world p3))\<lparr>w_sockets := 4\<rparr>"
    using connected_world [OF s3 v3(1,2) assms(5) v3(3)] by auto
  note ws = w1 w2 w3 w4
  let ?r = "new_obmm rogue (device_at rogue ?npu 2)"
  have o4: "online 3 (Some rogue) (world p4)" "view_import (w_switch (world p4)) 1 bad = None"
    using w fresh assms(8,9) by (simp_all add: ws online_def view_effects view_import_def)
  have h: "show_hex 1 = ''1''" by code_simp
  obtain p5 where c5: "exchange 3 (import_memory 1 bad) ?r p4 = (p5, ?r\<lparr>o_device := device_at rogue ?npu 3\<rparr>, Inl (RuntimeError
      ''Failed to import pool 0x1: Failed to import pool 0x1 (invalid pool ID or token mismatch)''))" and
      w5: "world p5 = served 3 (Some rogue) [] (w_switch (world p4)) (world p4)"
    using import_refused [OF o4(1), of ?r rogue ?npu 2 bad 1] o4(2) assms(5,7) by (auto simp: h)
  have "read_and_refuse 0 1 b rogue 1 token bad off data lat pf = (hang_up 3 (hang_up 2 (hang_up 1 (hang_up 0 p5))), Inr (lat, data, Inl (RuntimeError
      ''Failed to import pool 0x1: Failed to import pool 0x1 (invalid pool ID or token mismatch)'')))"
    by (simp add: read_and_refuse_def run_connect_value [OF c1] run_call_value [OF c2] run_call_value [OF c3] run_connect_value [OF c4] c5
        del: One_nat_def)
  moreover have "nodes (daemon (p_server (hang_up 3 (hang_up 2 (hang_up 1 (hang_up 0 p5)))))) = []"
    using all_hang_up [of "[(0, owner), (1, a), (2, b), (3, rogue)]" p5] assms(2) w(5-7) by (simp add: w5 ws view_effects)
  ultimately show ?thesis by blast
qed

section \<open>The program succeeds\<close>

text \<open>
  C8. Example 03 succeeds on every fresh switch with sensible link parameters: for any four different nodes,
  any size of the pool, any token of the owner that is not 0 (0 lets every token through) and any different
  token of the rogue node, and any offset and data that fit in the pool and in the owner's 64 MB memory, the
  second borrower reads what the first one wrote, the write reports the latency of the link, the import with
  the other token raises the switch's error, and after the four closes no node is attached.
\<close>

theorem pool_demo_verified:
  assumes "fl bw = bw" "1 \<le> bw" "bw < 10 ^ 15" "0 \<le> hop" "hop \<le> 2 ^ 30" "distinct [owner, a, b, rogue]"
    and "u16 owner" "u16 a" "u16 b" "u16 rogue" "u32 token" "u32 bad" "token \<noteq> 0" "bad \<noteq> token"
    and "0 \<le> sz" "sz < 10 ^ 20" "0 \<le> off" "off + int (length data) \<le> sz" "off + int (length data) \<le> int LOCAL_MEMORY_SIZE"
    and "lat = latency_of (int (length data)) (new_fabric bw hop)"
  shows "\<exists>pf. share_pool owner a b rogue token bad sz off data (new_platform bw hop clock) = (pf, Inr (JFloat lat, data, Inl (RuntimeError
      ''Failed to import pool 0x1: Failed to import pool 0x1 (invalid pool ID or token mismatch)'')))
    \<and> nodes (daemon (p_server pf)) = []"
proof -
  let ?w = "new_platform bw hop clock"
  have "link_ok (w_switch (world ?w))" "lat = view_latency (int (length data)) (w_switch (world ?w))" "owner \<noteq> a"
    using assms(1-6,20) by simp_all
  from pool_set_up [OF this(1) refl assms(7,8) this(3) assms(11,15-19) this(2), of b rogue bad] obtain pf where
    "share_pool owner a b rogue token bad sz off data ?w = read_and_refuse 0 1 b rogue 1 token bad off data (JFloat lat) pf"
    "pool_filled owner a token sz off data (world pf)"
    by blast
  then show ?thesis using pool_shared [OF _ assms(6,7,9-19)] by simp
qed

theorem pool_demo_verified_witness:
  "\<exists>pf lat. example_03 (new_platform 800 15 (\<lambda>i. 0)) = (pf, Inr (JFloat lat, embedding_data, Inl (RuntimeError
      ''Failed to import pool 0x1: Failed to import pool 0x1 (invalid pool ID or token mismatch)'')))
    \<and> nodes (daemon (p_server pf)) = []"
proof -
  have "length embedding_data \<le> 50 * (2 * 70)"
    using length_encode_utf8 [of "''[Embedding Weights Vector Part 0: Kunpeng to Remote HBM Pool]''"]
    by (simp add: embedding_data_def length_concat sum_list_replicate del: length_encode_utf8)
  then have "length embedding_data \<le> 7000" by simp
  moreover have "fl 800 = 800" using fl_of_int [of 800] by simp
  ultimately show ?thesis
    using pool_demo_verified [of 800 15 7 1 3 8 "0xABCD1234" "0xDEADBEEF" "16 * 1024 * 1024 * 1024" "0x1000" embedding_data _ "\<lambda>i. 0",
        OF _ _ _ _ _ _ _ _ _ _ _ _ _ _ _ _ _ _ _ refl]
    by (auto simp: example_03_def u16_def u32_def LOCAL_MEMORY_SIZE_def)
qed

end
