(* ===== verification/Schedules.thy ===== *)
theory Schedules
  imports Main
begin

text \<open>
  Programs of several threads, as step relations in which every step is the next call of some thread: the
  contract under which every schedule runs to the end of the program, whichever thread is chosen.
\<close>

text \<open>
  Every step from a good state counts and leads to a good state, and as long as calls are left somebody can
  make one.
\<close>

locale scheduled =
  fixes step :: "'s \<Rightarrow> 's \<Rightarrow> bool"
    and good :: "'s \<Rightarrow> bool"
    and made :: "'s \<Rightarrow> nat"
    and calls :: nat
  assumes step_counts: "good r \<Longrightarrow> step r r' \<Longrightarrow> good r' \<and> made r' = Suc (made r)"
    and made_le: "good r \<Longrightarrow> made r \<le> calls"
    and somebody_can: "good r \<Longrightarrow> made r < calls \<Longrightarrow> \<exists>r'. step r r'"
begin

lemma steps_counted:
  assumes "(step ^^ k) r r'" "good r" "made r = 0"
  shows "good r' \<and> made r' = k"
  using assms(1)
proof (induction k arbitrary: r')
  case (Suc k)
  then obtain r1 where "(step ^^ k) r r1" "step r1 r'" by (auto elim: relpowp_Suc_E)
  then show ?case using Suc.IH step_counts by metis
qed (use assms(2,3) in simp)

lemma schedules_of_length:
  assumes "good r" "made r = 0" "k \<le> calls"
  shows "\<exists>r'. (step ^^ k) r r'"
  using assms(3)
proof (induction k)
  case (Suc k)
  then obtain r1 where r1: "(step ^^ k) r r1" by auto
  then have "good r1" "made r1 = k" using steps_counted [OF r1 assms(1,2)] by simp_all
  then show ?case using somebody_can Suc.prems r1 by (metis Suc_le_lessD relpowp_Suc_I)
qed simp

text \<open>No schedule gets stuck early, none goes on after the last call, and there is one to the end.\<close>

lemma every_schedule_ends:
  assumes "good r0" "made r0 = 0"
  shows "\<exists>r. (step ^^ calls) r0 r"
    "(step ^^ k) r0 r \<Longrightarrow> k \<le> calls \<and> (k < calls \<longrightarrow> (\<exists>r'. step r r'))"
proof -
  show "\<exists>r. (step ^^ calls) r0 r" using schedules_of_length [OF assms order_refl] .
  show "k \<le> calls \<and> (k < calls \<longrightarrow> (\<exists>r'. step r r'))" if "(step ^^ k) r0 r"
    using steps_counted [OF that assms] made_le somebody_can by auto
qed

end

end
