(* ===== verification/Example_Dma.thy ===== *)
theory Example_Dma
  imports Cdma Example_Programs Schedules
begin

text \<open>
  Example 02 (\<open>examples/02_cdma_async_dma.py\<close>): a host submits DMA writes of the chunks of a buffer, every
  submission starts a thread, and the main program waits for all of them. Submissions happen in order, the
  threads run whenever they are scheduled: a relation between the states of the batch, one step per
  submission or thread. What the program prints is left out.
\<close>

section \<open>The program\<close>

text \<open>A thread's body as a call; its value is the task.\<close>

definition thread_call :: "packet \<Rightarrow> cdma_task \<Rightarrow> bytes list \<Rightarrow> cdma_engine \<Rightarrow> cdma_engine \<times> bytes \<times> cdma_task result" where
  "thread_call p task cs eng = (case async_exec p cs task eng of (eng1, bs, t) \<Rightarrow> (eng1, bs, Inr t))"

text \<open>The tasks submitted so far, each with its packet until its thread has run, and the data to be submitted.\<close>

record dma_run =
  r_engine :: cdma_engine
  r_platform :: platform
  r_left :: "bytes list"
  r_tasks :: "(cdma_task \<times> packet option) list"

inductive batch_step :: "nat \<Rightarrow> int \<Rightarrow> int \<Rightarrow> int \<Rightarrow> int \<Rightarrow> dma_run \<Rightarrow> dma_run \<Rightarrow> bool"
  for cid :: nat and dst seg token chunk :: int where
  Submit_Chunk: "r_left r = data # rest \<Longrightarrow>
     submit_dma_write dst seg (int (length (r_tasks r)) * chunk) data token (r_engine r) = (eng1, task, p) \<Longrightarrow>
     batch_step cid dst seg token chunk r (r\<lparr>r_engine := eng1, r_left := rest, r_tasks := r_tasks r @ [(task, Some p)]\<rparr>)"
| Run_Thread: "i < length (r_tasks r) \<Longrightarrow> r_tasks r ! i = (task, Some p) \<Longrightarrow>
     exchange cid (thread_call p task) (r_engine r) (r_platform r) = (pf1, eng1, Inr task1) \<Longrightarrow>
     batch_step cid dst seg token chunk r
       (r\<lparr>r_engine := eng1, r_platform := pf1, r_tasks := (r_tasks r)[i := (task1, None)]\<rparr>)"

inductive_cases batch_stepE: "batch_step cid dst seg token chunk r r'"

definition dma_setup :: "int \<Rightarrow> int \<Rightarrow> int \<Rightarrow> int \<Rightarrow> bytes list \<Rightarrow> platform \<Rightarrow> platform \<times> (nat \<times> nat \<times> int \<times> dma_run) result" where
  "dma_setup t h token sz datas =
     run_connect t ''ASCEND_NPU'' (\<lambda>tc tdev.
     run_call tc (u_register_segment (Seg_Size sz) token ''RW'') (new_context t tdev) (\<lambda>tctx seg.
     run_connect h ''ASCEND_NPU'' (\<lambda>hc hdev pf.
       (pf, Inr (tc, hc, seg, \<lparr>r_engine = new_dma h hdev, r_platform = pf, r_left = datas, r_tasks = []\<rparr>)))))"

text \<open>Waiting for the tasks in the order of their submission: their latencies.\<close>

fun await_tasks :: "int \<Rightarrow> (cdma_task \<times> packet option) list \<Rightarrow> json list result" where
  "await_tasks i [] = Inr []"
| "await_tasks i ((task, p) # ts) =
     (if task_wait task then rbind (await_tasks (i + 1) ts) (\<lambda>ls. Inr (t_elapsed task # ls))
      else Inl (AssertionError (''Task '' @ show_int i @ '' timed out!'')))"

definition dma_close :: "nat \<Rightarrow> nat \<Rightarrow> dma_run \<Rightarrow> platform" where
  "dma_close tc hc r = hang_up tc (hang_up hc (r_platform r))"

text \<open>The payload of the \<open>i\<close>-th chunk of the example, whose number is printed with two digits.\<close>

definition two_digits :: "nat \<Rightarrow> string" where
  "two_digits i = (if i < 10 then ''0'' @ show_int (int i) else show_int (int i))"

definition dma_chunk :: "nat \<Rightarrow> bytes" where
  "dma_chunk i = concat (replicate (32 * 1024 div 20) (encode_utf8 (''CDMA_BATCH_CHUNK_'' @ two_digits i @ ''_'')))"

definition example_02 :: "platform \<Rightarrow> platform \<times> (nat \<times> nat \<times> int \<times> dma_run) result" where
  "example_02 = dma_setup 4 1 0x5555 (1024 * 1024) (map dma_chunk [0..<8])"

section \<open>A thread against the switch\<close>

declare world_simps [simp del]

lemma dma_packet_node: "src_node (dma_packet eng dst seg off token data i s) = c_node eng"
  by (simp add: dma_packet_def ub_packet_def)

lemma serialize_dma:
  assumes "u16 (c_node eng)" "u16 dst" "u32 token" "u32 s" "length data < 2 ^ 32"
    and "0 \<le> seg" "seg < 10 ^ 20" "0 \<le> off" "off < 10 ^ 20" "0 \<le> i" "i < 10 ^ 20"
  shows "\<exists>f. serialize (dma_packet eng dst seg off token data i s) = Inr f"
    "link_ok v \<Longrightarrow> \<exists>a. serialize (write_completed (dma_packet eng dst seg off token data i s) (view_latency (int (length data)) v)) = Inr a"
proof -
  have "length (show_int seg) \<le> 20" "length (show_int off) \<le> 20" "length (show_int i) \<le> 20"
    using assms(6-11) by (intro length_show_int; simp)+
  then show "\<exists>f. serialize (dma_packet eng dst seg off token data i s) = Inr f"
    using assms(1-5) by (intro serialize_fits) (simp_all add: dma_packet_def ub_packet_def quote_str_def escape_char_def)
  show "\<exists>a. serialize (write_completed (dma_packet eng dst seg off token data i s) (view_latency (int (length data)) v)) = Inr a" if "link_ok v"
  proof -
    have n: "length (show_int (int (length data))) \<le> 20" using assms(5) by (intro length_show_int) simp_all
    have l: "length (float_repr (view_latency (int (length data)) v)) \<le> 61"
      using view_latency_bounds [OF that, of "int (length data)"] assms(5) by (intro length_float_repr) simp_all
    show ?thesis
      using assms(1-5) n l
      by (intro serialize_fits) (simp_all add: write_completed_def write_reply_opcode_def answer_defs dma_packet_def u16_def u32_def quote_str_def escape_char_def)
  qed
qed

lemma thread_served:
  assumes "online cid cur (world pf)" "link_ok (w_switch (world pf))" "c_device eng = device_at n ty t" "u16 (c_node eng0)" "u32 s" "0 \<le> i" "i < 10 ^ 20"
    and "p = dma_packet eng0 dst seg off token data i s" "len = int (length data)"
    and "accessible (world pf) dst seg off len True token tcid m" "tcid \<noteq> cid"
  shows "\<exists>pf1 f. exchange cid (thread_call p task) eng pf = (pf1, eng, Inr (mark_done (JFloat (view_latency len (w_switch (world pf)))) None task))
    \<and> world pf1 = served cid cur [(tcid, f)] (store dst off data (w_switch (world pf))) (world pf)"
proof -
  note a = assms(10) [unfolded accessible_def]
  let ?v = "w_switch (world pf)"
  let ?r = "write_completed p (view_latency len ?v)"
  let ?out = "\<lambda>r. rbind r (\<lambda>resp.
      if opcode resp = OP_CDMA_COMPLETE \<or> opcode resp = OP_RESP_OK then rbind (latency_field resp) (\<lambda>lat. Inr (lat, None))
      else rbind (meta_get ''error'' (JStr ''DMA Failed'') resp) (\<lambda>err. Inr (JFloat 0, Some (Reported err))))"
  let ?h = "\<lambda>r. Inr (case ?out r of Inl e \<Rightarrow> mark_done (JFloat 0) (Some (Raised e)) task | Inr (lat, err) \<Rightarrow> mark_done lat err task)"
  have form: "thread_call p task cs eng = (case send_sync p cs (device_at n ty t) of (dev1, bs, r) \<Rightarrow> (eng\<lparr>c_device := dev1\<rparr>, bs, ?h r))" for cs
    using assms(3) by (simp add: thread_call_def async_exec_def Let_def split: prod.split)
  have "int (length m) < 2 ^ 32" using a by simp
  then have len: "0 \<le> len" "len < 2 ^ 32" "off < 10 ^ 20" "length data < 2 ^ 32" using a assms(9) by simp_all
  obtain f b where fb: "serialize p = Inr f" "serialize ?r = Inr b"
    using serialize_dma(1) [of eng0 dst token s data seg off i]
      serialize_dma(2) [of eng0 dst token s data seg off i ?v, OF _ _ _ _ _ _ _ _ _ _ _ assms(2)] assms(4-9) a len by auto
  have p: "opcode p = OP_CDMA_SUBMIT" "\<not> is_cip_encrypted p" "names_range p seg off" "payload p = data" "dst_node p = dst" "token_id p = token"
    by (simp_all add: assms(8))
  have bw: "v_bandwidth ?v \<noteq> 0" using assms(2) by (auto simp: link_ok_def)
  obtain fab1 where fab1: "process_packet (exchange_env cid pf) p cur (daemon (p_server pf)) = (fab1, [(tcid, f)], Inr (Some ?r, cur))"
      "view fab1 = store dst off data ?v"
    using served_write [OF _ p(2,3), of len "daemon (p_server pf)" m tcid "exchange_env cid pf" f cur] p a len bw fb(1) assms(9)
    by (auto simp: world_simps)
  have run: "v_running (store dst off data ?v)" using assms(1) by (simp add: store_def online_def)
  have idle: "device_at n ty t = (device_at n ty t)\<lparr>pending_replies := dict_del (seq_num p) (pending_replies (device_at n ty t))\<rparr>"
    by (simp add: device_at_def new_device_def)
  have c: "cid \<notin> fst ` set [(tcid, f)]" using assms(11) by simp
  have wf: "wf_packet p" "wf_packet ?r" using completed_view_wf(1) [OF assms(2) len(1,2)] by (simp_all add: assms(8) dma_packet_wf)
  have "\<exists>pf1. exchange cid (thread_call p task) eng pf = (pf1, eng\<lparr>c_device := device_at n ty t\<rparr>, ?h (Inr ?r))
      \<and> world pf1 = served cid cur [(tcid, f)] (store dst off data ?v) (world pf)"
    by (rule exchange_send [where op = "thread_call p task" and g = "\<lambda>d r. eng\<lparr>c_device := d\<rparr>" and h = ?h,
          OF form device_at_simps(1) wf(1) fb(1) assms(1) fab1 run wf(2) fb(2) c idle])
  moreover have "eng\<lparr>c_device := device_at n ty t\<rparr> = eng" using assms(3) by (intro cdma_engine.equality) simp_all
  moreover have "?h (Inr ?r) = Inr (mark_done (JFloat (view_latency len ?v)) None task)"
    using dma_completed_facts(1) [OF p(1)] by (simp add: completed_simps(6))
  ultimately show ?thesis by auto
qed

section \<open>The invariant of a batch\<close>

text \<open>How far a task is: submitted counts one, finished two.\<close>

definition weight :: "cdma_task \<times> packet option \<Rightarrow> nat" where
  "weight x = (if snd x = None then 2 else 1)"

lemma weight_bounds: "sum_list (map weight ts) \<le> 2 * length ts"
  "sum_list (map weight ts) = 2 * length ts \<Longrightarrow> x \<in> set ts \<Longrightarrow> snd x = None"
proof -
  show le: "sum_list (map weight ts) \<le> 2 * length ts" for ts by (induction ts) (simp_all add: weight_def)
  show "snd x = None" if "sum_list (map weight ts) = 2 * length ts" "x \<in> set ts"
    using that
  proof (induction ts)
    case (Cons y ts)
    have w: "weight y \<le> 2" "weight y = 2 \<Longrightarrow> snd y = None" by (simp_all add: weight_def split: if_splits)
    have "weight y + sum_list (map weight ts) = 2 + 2 * length ts" using Cons.prems(1) by simp
    then have "weight y = 2" "sum_list (map weight ts) = 2 * length ts" using w(1) le [of ts] by linarith+
    then show ?case using Cons.prems(2) Cons.IH w(2) by auto
  qed simp
qed

text \<open>Node \<open>t\<close> lends the segment, node \<open>h\<close> submits; \<open>v0\<close> is the switch before the batch.\<close>

definition chunk_arrived :: "int \<Rightarrow> nat \<Rightarrow> bytes \<Rightarrow> bytes \<Rightarrow> bool" where
  "chunk_arrived chunk i data m \<longleftrightarrow> mem_read m (int i * chunk) (int (length data)) = data"

definition task_finished :: "switch_view \<Rightarrow> bytes \<Rightarrow> cdma_task \<Rightarrow> bool" where
  "task_finished v0 data task \<longleftrightarrow> task_wait task \<and> t_elapsed task = JFloat (view_latency (int (length data)) v0)
     \<and> list_all (\<lambda>d. d_error d = None) (t_descriptors task)"

definition task_ok :: "int \<Rightarrow> int \<Rightarrow> int \<Rightarrow> int \<Rightarrow> switch_view \<Rightarrow> bytes \<Rightarrow> nat \<Rightarrow> bytes \<Rightarrow> cdma_task \<times> packet option \<Rightarrow> bool" where
  "task_ok t h token chunk v0 m i data x \<longleftrightarrow>
     (case snd x of
        None \<Rightarrow> task_finished v0 data (fst x) \<and> chunk_arrived chunk i data m
      | Some p \<Rightarrow> \<exists>eng. c_node eng = h \<and> p = dma_packet eng t 1 (int i * chunk) token data (int i + 1) (int i + 2))"

definition batch_ok :: "int \<Rightarrow> int \<Rightarrow> int \<Rightarrow> int \<Rightarrow> int \<Rightarrow> switch_view \<Rightarrow> bytes list \<Rightarrow> dma_run \<Rightarrow> bool" where
  "batch_ok t h token sz chunk v0 datas r \<longleftrightarrow>
     (let w = world (r_platform r); k = length (r_tasks r) in
      k \<le> length datas \<and> r_left r = drop k datas \<and> c_device (r_engine r) = device_at h npu (int k + 2) \<and> c_node (r_engine r) = h
      \<and> c_next_desc (r_engine r) = int k + 1 \<and> online 1 (Some h) w \<and> w_links w 0 = Some (handler (Some t)) \<and> link_ok (w_switch w)
      \<and> v_conn (w_switch w) = Map.empty(t \<mapsto> 0, h \<mapsto> 1) \<and> (\<exists>tm. v_segment (w_switch w) t 1 = Some (new_ub_segment 1 t sz token ''RW'' tm))
      \<and> (\<forall>n. view_latency n (w_switch w) = view_latency n v0)
      \<and> (\<exists>m. v_memory (w_switch w) t = Some m \<and> length m = LOCAL_MEMORY_SIZE
           \<and> (\<forall>i<k. task_ok t h token chunk v0 m i (datas ! i) (r_tasks r ! i))))"

text \<open>What is asked of the batch.\<close>

definition batch_fits :: "int \<Rightarrow> int \<Rightarrow> bytes list \<Rightarrow> bool" where
  "batch_fits sz chunk datas \<longleftrightarrow> 0 < chunk \<and> int (length datas) * chunk \<le> sz \<and> int (length datas) * chunk \<le> int LOCAL_MEMORY_SIZE
     \<and> (\<forall>data\<in>set datas. int (length data) \<le> chunk)"

lemma batch_fits_chunk:
  assumes "batch_fits sz chunk datas" "i < length datas"
  shows "0 \<le> int i * chunk" "int i * chunk + int (length (datas ! i)) \<le> sz" "int i * chunk + int (length (datas ! i)) \<le> int LOCAL_MEMORY_SIZE"
    "int (length (datas ! i)) \<le> chunk" "i < LOCAL_MEMORY_SIZE"
proof -
  have f: "0 < chunk" "int (length datas) * chunk \<le> sz" "int (length datas) * chunk \<le> int LOCAL_MEMORY_SIZE" "int (length (datas ! i)) \<le> chunk"
    using assms by (auto simp: batch_fits_def)
  have "int i + 1 \<le> int (length datas)" using assms(2) by simp
  then have "(int i + 1) * chunk \<le> int (length datas) * chunk" using f(1) by (intro mult_right_mono) simp_all
  then have le: "int i * chunk + chunk \<le> int (length datas) * chunk" by (simp add: algebra_simps)
  show "0 \<le> int i * chunk" "int (length (datas ! i)) \<le> chunk" using f by simp_all
  show "int i * chunk + int (length (datas ! i)) \<le> sz" "int i * chunk + int (length (datas ! i)) \<le> int LOCAL_MEMORY_SIZE" using le f by linarith+
  have "int i * 1 \<le> int i * chunk" using f(1) by (intro mult_left_mono) simp_all
  then show "i < LOCAL_MEMORY_SIZE" using le f by linarith
qed

text \<open>A chunk stays where it is when another one arrives.\<close>

lemma chunk_stays:
  assumes "batch_fits sz chunk datas" "i < length datas" "j < length datas" "i \<noteq> j" "length m = LOCAL_MEMORY_SIZE"
  shows "chunk_arrived chunk j (datas ! j) (mem_write m (int i * chunk) (datas ! i)) = chunk_arrived chunk j (datas ! j) m"
proof -
  note fi = batch_fits_chunk [OF assms(1,2)] and fj = batch_fits_chunk [OF assms(1,3)]
  have "int j * chunk + int (length (datas ! j)) \<le> int i * chunk \<or> int i * chunk + int (length (datas ! i)) \<le> int j * chunk"
  proof (cases "i < j")
    case True
    then have "(int i + 1) * chunk \<le> int j * chunk" using fi(4) by (intro mult_right_mono) linarith+
    then show ?thesis using fi(4) by (simp add: algebra_simps)
  next
    case False
    then have "(int j + 1) * chunk \<le> int i * chunk" using assms(4) fj(4) by (intro mult_right_mono) linarith+
    then show ?thesis using fj(4) by (simp add: algebra_simps)
  qed
  then show ?thesis
    using fi fj assms(5) unfolding chunk_arrived_def mem_read_def mem_write_def
    by (subst py_slice_set_frame) simp_all
qed

lemma chunk_arrives:
  assumes "batch_fits sz chunk datas" "i < length datas" "length m = LOCAL_MEMORY_SIZE"
  shows "chunk_arrived chunk i (datas ! i) (mem_write m (int i * chunk) (datas ! i))" "length (mem_write m (int i * chunk) (datas ! i)) = LOCAL_MEMORY_SIZE"
  using batch_fits_chunk [OF assms(1,2)] assms(3)
  by (simp_all add: chunk_arrived_def mem_read_def mem_write_def py_slice_of_set length_py_slice_set)

section \<open>Steps\<close>

lemma submitted_ok:
  assumes "batch_ok t h token sz chunk v0 datas r" "r_left r = data # rest"
    and "submit_dma_write t 1 (int (length (r_tasks r)) * chunk) data token (r_engine r) = (eng1, task, p)"
  shows "batch_ok t h token sz chunk v0 datas (r\<lparr>r_engine := eng1, r_left := rest, r_tasks := r_tasks r @ [(task, Some p)]\<rparr>)"
proof -
  let ?k = "length (r_tasks r)"
  note b = assms(1) [unfolded batch_ok_def Let_def]
  have d: "drop ?k datas = data # rest" using b assms(2) by simp
  then have l: "?k < length datas" by (rule contrapos_pp) simp
  then have k: "?k < length datas" "data = datas ! ?k" "rest = drop (Suc ?k) datas" using Cons_nth_drop_Suc [OF l] d by simp_all
  have dev: "(device_at h npu (int ?k + 2))\<lparr>dev_seq := int ?k + 2 + 1\<rparr> = device_at h npu (int ?k + 3)" "dev_seq (device_at h npu (int ?k + 2)) = int ?k + 2"
    by (simp_all add: device_at_def)
  have e: "c_device eng1 = device_at h npu (int ?k + 3)" "c_node eng1 = h" "c_next_desc eng1 = int ?k + 2"
    "p = dma_packet (r_engine r) t 1 (int ?k * chunk) token (datas ! ?k) (int ?k + 1) (int ?k + 2)"
    using assms(3) b k(2) dev by (auto simp: submit_dma_write_def get_seq_def dma_packet_def Let_def)
  have "\<exists>eng. c_node eng = h \<and> p = dma_packet eng t 1 (int ?k * chunk) token (datas ! ?k) (int ?k + 1) (int ?k + 2)"
    using e(4) b by (intro exI [of _ "r_engine r"]) simp
  then have "task_ok t h token chunk v0 m ?k (datas ! ?k) (task, Some p)" for m by (simp add: task_ok_def)
  then have "task_ok t h token chunk v0 m i (datas ! i) ((r_tasks r @ [(task, Some p)]) ! i)"
    if "\<forall>i<?k. task_ok t h token chunk v0 m i (datas ! i) (r_tasks r ! i)" "i < Suc ?k" for m i
    using that by (cases "i = ?k") (simp_all add: nth_append)
  moreover obtain m where m: "v_memory (w_switch (world (r_platform r))) t = Some m" "length m = LOCAL_MEMORY_SIZE"
    "\<forall>i<?k. task_ok t h token chunk v0 m i (datas ! i) (r_tasks r ! i)" using b by blast
  ultimately have "\<forall>i<Suc ?k. task_ok t h token chunk v0 m i (datas ! i) ((r_tasks r @ [(task, Some p)]) ! i)" by blast
  moreover have n: "int (Suc ?k) + 1 = int ?k + 2" "int (Suc ?k) + 2 = int ?k + 3" by simp_all
  ultimately show ?thesis
    using b k(1,3) e(1-3) m(1,2) unfolding batch_ok_def Let_def
    by (simp only: n dma_run.simps length_append list.size add_0_right add_Suc_right Suc_leI simp_thms) (simp add: add.commute)
qed

lemma thread_ok:
  assumes "batch_ok t h token sz chunk v0 datas r" "batch_fits sz chunk datas" "t \<noteq> h" "u16 t" "u16 h" "u32 token"
    and "i < length (r_tasks r)" "r_tasks r ! i = (task, Some p)"
  shows "\<exists>pf1 task1. exchange 1 (thread_call p task) (r_engine r) (r_platform r) = (pf1, r_engine r, Inr task1)
    \<and> batch_ok t h token sz chunk v0 datas (r\<lparr>r_platform := pf1, r_tasks := (r_tasks r)[i := (task1, None)]\<rparr>)"
proof -
  let ?k = "length (r_tasks r)" and ?w = "world (r_platform r)" and ?data = "datas ! i"
  note b = assms(1) [unfolded batch_ok_def Let_def]
  have i: "i < length datas" using b assms(7) by simp
  note f = batch_fits_chunk [OF assms(2) i]
  obtain m tm where m: "v_memory (w_switch ?w) t = Some m" "length m = LOCAL_MEMORY_SIZE" "\<forall>j<?k. task_ok t h token chunk v0 m j (datas ! j) (r_tasks r ! j)"
    and seg: "v_segment (w_switch ?w) t 1 = Some (new_ub_segment 1 t sz token ''RW'' tm)" using b by blast
  have "task_ok t h token chunk v0 m i ?data (task, Some p)" using m(3) assms(7,8) by force
  then obtain eng where p: "c_node eng = h" "p = dma_packet eng t 1 (int i * chunk) token ?data (int i + 1) (int i + 2)"
    by (auto simp: task_ok_def)
  have acc: "accessible ?w t 1 (int i * chunk) (int (length ?data)) True token 0 m"
    using grants_full [OF seg, of "int i * chunk" "int (length ?data)" True] b f m(1,2) assms(3,4,6)
    by (simp add: accessible_def LOCAL_MEMORY_SIZE_def)
  have o: "online 1 (Some h) ?w" "link_ok (w_switch ?w)" "c_device (r_engine r) = device_at h npu (int ?k + 2)" using b by simp_all
  have u: "u16 (c_node eng)" "u32 (int i + 2)" "0 \<le> int i + 1" "int i + 1 < 10 ^ 20" using assms(5) p(1) f(5) by (simp_all add: u32_def LOCAL_MEMORY_SIZE_def)
  let ?task1 = "mark_done (JFloat (view_latency (int (length ?data)) (w_switch ?w))) None task"
  obtain pf1 fr where c: "exchange 1 (thread_call p task) (r_engine r) (r_platform r) = (pf1, r_engine r, Inr ?task1)" and
      w: "world pf1 = served 1 (Some h) [(0, fr)] (store t (int i * chunk) ?data (w_switch ?w)) ?w"
    using thread_served [OF o u p(2) refl acc, of task] by auto
  let ?m = "mem_write m (int i * chunk) ?data" and ?ts = "(r_tasks r)[i := (?task1, None)]"
  have "task_ok t h token chunk v0 ?m j (datas ! j) (?ts ! j)" if j: "j < ?k" for j
  proof (cases "j = i")
    case True
    have "task_finished v0 ?data ?task1" using b by (simp add: task_finished_def mark_done_def task_wait_def list_all_iff)
    then show ?thesis using True chunk_arrives(1) [OF assms(2) i m(2)] assms(7) by (simp add: task_ok_def)
  next
    case False
    have "task_ok t h token chunk v0 m j (datas ! j) (r_tasks r ! j)" using m(3) j by simp
    then show ?thesis using False chunk_stays [OF assms(2) i _ _ m(2), of j] b j by (simp add: task_ok_def split: option.splits)
  qed
  then have "\<exists>m. v_memory (w_switch (world pf1)) t = Some m \<and> length m = LOCAL_MEMORY_SIZE
      \<and> (\<forall>j<?k. task_ok t h token chunk v0 m j (datas ! j) (?ts ! j))"
    using m(1) chunk_arrives(2) [OF assms(2) i m(2)] by (simp add: w view_effects)
  then have "batch_ok t h token sz chunk v0 datas (r\<lparr>r_platform := pf1, r_tasks := ?ts\<rparr>)"
    using b assms(7) unfolding batch_ok_def Let_def by (auto simp: w view_effects online_def)
  then show ?thesis using c by blast
qed

lemma batch_step_ok:
  assumes "batch_step 1 t 1 token chunk r r'" "batch_ok t h token sz chunk v0 datas r"
    and "batch_fits sz chunk datas" "t \<noteq> h" "u16 t" "u16 h" "u32 token"
  shows "batch_ok t h token sz chunk v0 datas r' \<and> sum_list (map weight (r_tasks r')) = Suc (sum_list (map weight (r_tasks r)))"
  using assms(1)
proof (cases rule: batch_step.cases)
  case (Submit_Chunk data rest eng1 task p)
  then show ?thesis using submitted_ok [OF assms(2)] by (simp add: weight_def)
next
  case (Run_Thread i task p pf1 eng1 task1)
  obtain pf2 task2 where c: "exchange 1 (thread_call p task) (r_engine r) (r_platform r) = (pf2, r_engine r, Inr task2)"
    "batch_ok t h token sz chunk v0 datas (r\<lparr>r_platform := pf2, r_tasks := (r_tasks r)[i := (task2, None)]\<rparr>)"
    using thread_ok [OF assms(2-7) Run_Thread(2,3)] by blast
  have "r' = r\<lparr>r_platform := pf2, r_tasks := (r_tasks r)[i := (task2, None)]\<rparr>" using c(1) Run_Thread(1,4) by (simp add: dma_run.equality)
  moreover have "sum_list (map weight ((r_tasks r)[i := (task2, None)])) = Suc (sum_list (map weight (r_tasks r)))"
    using Run_Thread(2,3) elem_le_sum_list [of i "map weight (r_tasks r)"] by (simp add: map_update sum_list_update weight_def)
  ultimately show ?thesis using c(2) by simp
qed

text \<open>A batch that is not complete goes on.\<close>

lemma batch_goes_on:
  assumes "batch_ok t h token sz chunk v0 datas r" "batch_fits sz chunk datas" "t \<noteq> h" "u16 t" "u16 h" "u32 token"
    and "sum_list (map weight (r_tasks r)) < 2 * length datas"
  shows "\<exists>r'. batch_step 1 t 1 token chunk r r'"
proof (cases "r_left r")
  case (Cons data rest)
  obtain eng1 task p where "submit_dma_write t 1 (int (length (r_tasks r)) * chunk) data token (r_engine r) = (eng1, task, p)"
    using prod_cases3 by blast
  then show ?thesis using batch_step.Submit_Chunk [OF Cons] by blast
next
  case Nil
  then have "length (r_tasks r) = length datas" using assms(1) by (simp add: batch_ok_def Let_def)
  moreover have "sum_list (map weight ts) = 2 * length ts" if "\<forall>x\<in>set ts. snd x = None" for ts
    using that by (induction ts) (simp_all add: weight_def)
  ultimately have "\<exists>x\<in>set (r_tasks r). snd x \<noteq> None" using assms(7) by fastforce
  then obtain i task p where "i < length (r_tasks r)" "r_tasks r ! i = (task, Some p)" by (auto simp: in_set_conv_nth)
  then show ?thesis using thread_ok [OF assms(1-6)] batch_step.Run_Thread by metis
qed

section \<open>The whole program\<close>

text \<open>The batch as an instance of the contract.\<close>

definition batch_task :: "int \<Rightarrow> int \<Rightarrow> int \<Rightarrow> int \<Rightarrow> int \<Rightarrow> bytes list \<Rightarrow> bool" where
  "batch_task t h token sz chunk datas \<longleftrightarrow> batch_fits sz chunk datas \<and> t \<noteq> h \<and> u16 t \<and> u16 h \<and> u32 token"

definition threads_done :: "dma_run \<Rightarrow> nat" where
  "threads_done r = sum_list (map weight (r_tasks r))"

interpretation batch: scheduled "batch_step 1 t 1 token chunk"
  "\<lambda>r. batch_ok t h token sz chunk v0 datas r \<and> batch_task t h token sz chunk datas" threads_done "2 * length datas"
  for t h token sz chunk v0 datas
proof
  show "(batch_ok t h token sz chunk v0 datas r' \<and> batch_task t h token sz chunk datas) \<and> threads_done r' = Suc (threads_done r)"
    if "batch_ok t h token sz chunk v0 datas r \<and> batch_task t h token sz chunk datas" "batch_step 1 t 1 token chunk r r'" for r r'
    using that batch_step_ok [OF that(2)] unfolding batch_task_def threads_done_def by blast
  show "threads_done r \<le> 2 * length datas" if "batch_ok t h token sz chunk v0 datas r \<and> batch_task t h token sz chunk datas" for r
    using that weight_bounds(1) [of "r_tasks r"] by (simp add: batch_ok_def Let_def threads_done_def)
  show "\<exists>r'. batch_step 1 t 1 token chunk r r'"
    if "batch_ok t h token sz chunk v0 datas r \<and> batch_task t h token sz chunk datas" "threads_done r < 2 * length datas" for r
    using that batch_goes_on unfolding batch_task_def threads_done_def by blast
qed

lemma await_finished:
  assumes "length ts = length datas" "\<forall>i<length datas. task_finished v0 (datas ! i) (fst (ts ! i))"
  shows "await_tasks n ts = Inr (map (\<lambda>data. JFloat (view_latency (int (length data)) v0)) datas)"
  using assms
proof (induction ts datas arbitrary: n rule: list_induct2)
  case (Cons x xs y ys)
  have "task_finished v0 y (fst x)" "\<forall>i<length ys. task_finished v0 (ys ! i) (fst (xs ! i))"
    using Cons.prems by (force simp: nth_Cons)+
  then show ?case using Cons.IH by (cases x) (simp add: task_finished_def)
qed simp

lemma complete_batch:
  assumes "batch_ok t h token sz chunk v0 datas r" "sum_list (map weight (r_tasks r)) = 2 * length datas" "t \<noteq> h"
  shows "await_tasks 0 (r_tasks r) = Inr (map (\<lambda>data. JFloat (view_latency (int (length data)) v0)) datas)"
    "\<exists>m. v_memory (w_switch (world (r_platform r))) t = Some m \<and> (\<forall>i<length datas. chunk_arrived chunk i (datas ! i) m)"
    "nodes (daemon (p_server (dma_close 0 1 r))) = []"
proof -
  note b = assms(1) [unfolded batch_ok_def Let_def]
  have k: "length (r_tasks r) = length datas" using weight_bounds(1) [of "r_tasks r"] assms(2) b by linarith
  obtain m where m: "v_memory (w_switch (world (r_platform r))) t = Some m" "\<forall>i<length datas. task_ok t h token chunk v0 m i (datas ! i) (r_tasks r ! i)"
    using b k by auto
  have "snd (r_tasks r ! i) = None" if "i < length datas" for i
    using weight_bounds(2) [of "r_tasks r"] assms(2) k that by simp
  then have f: "\<forall>i<length datas. task_finished v0 (datas ! i) (fst (r_tasks r ! i)) \<and> chunk_arrived chunk i (datas ! i) m"
    using m(2) by (simp add: task_ok_def)
  then show "await_tasks 0 (r_tasks r) = Inr (map (\<lambda>data. JFloat (view_latency (int (length data)) v0)) datas)"
    using await_finished [OF k] by simp
  show "\<exists>m. v_memory (w_switch (world (r_platform r))) t = Some m \<and> (\<forall>i<length datas. chunk_arrived chunk i (datas ! i) m)"
    using m(1) f by blast
  show "nodes (daemon (p_server (dma_close 0 1 r))) = []"
    using all_hang_up [of "[(1, h), (0, t)]" "r_platform r"] b assms(3) by (simp add: dma_close_def online_def)
qed

lemma dma_set_up:
  assumes "w = new_platform bw hop clock" "link_ok (w_switch (world w))" "u16 t" "u16 h" "t \<noteq> h" "u32 token" "0 \<le> sz" "sz < 10 ^ 20"
  shows "\<exists>pf r. dma_setup t h token sz datas w = (pf, Inr (0, 1, 1, r)) \<and> r_tasks r = []
    \<and> batch_ok t h token sz chunk (w_switch (world w)) datas r"
proof -
  have w: "sockets_ok (world w)" "v_running (w_switch (world w))" "w_sockets (world w) = 0" "w_mail (world w) = []"
    "v_conn (w_switch (world w)) = Map.empty" using assms(1) by simp_all
  obtain p1 where c1: "connect_device t npu w = (p1, 0, Inr (device_at t npu 2))" and
      w1: "world p1 = (served 0 (Some t) [] (attach t 0 (w_switch (world w))) (world w))\<lparr>w_sockets := 1\<rparr>"
    using connect_device_served [of w t npu 0] assms(2,3) w by auto
  have s1: "sockets_ok (world p1)" using sockets_ok_connected [OF w(1), of 0 "Some t" "attach t 0 (w_switch (world w))"] w(3) by (simp add: w1)
  have o1: "online 0 (Some t) (world p1)" using w by (simp add: w1 online_def view_effects)
  let ?n = "new_context t (device_at t npu 2)"
  let ?seg = "new_ub_segment 1 t sz token ''RW'' (w_time (world p1) (w_calls (world p1)))"
  obtain p2 where c2: "exchange 0 (u_register_segment (Seg_Size sz) token ''RW'') ?n p1 = (p2, with_segment sz token ''RW'' ?n, Inr 1)" and
      w2: "world p2 = served 0 (Some t) [] (add_segment ?seg (w_switch (world p1))) (world p1)"
    using register_segment_served [OF o1, of ?n t npu 2 token sz "''RW''" "''RW''" 1] assms(3,6-8) py_upper_RW by auto
  have s2: "sockets_ok (world p2)" unfolding w2 using s1 o1 by (intro sockets_ok_served) (simp_all add: online_def)
  obtain p3 where c3: "connect_device h npu p2 = (p3, 1, Inr (device_at h npu 2))" and
      w3: "world p3 = (served 1 (Some h) [] (attach h 1 (w_switch (world p2))) (world p2))\<lparr>w_sockets := 2\<rparr>"
    using connect_device_served [of p2 h npu 1] assms(2,4) w s2 by (auto simp: w1 w2 view_effects)
  let ?r = "\<lparr>r_engine = new_dma h (device_at h npu 2), r_platform = p3, r_left = datas, r_tasks = []\<rparr>"
  have "dma_setup t h token sz datas w = (p3, Inr (0, 1, 1, ?r))"
    by (simp add: dma_setup_def run_connect_value [OF c1] run_call_value [OF c2] run_connect_value [OF c3] del: One_nat_def)
  moreover have "batch_ok t h token sz chunk (w_switch (world w)) datas ?r"
    using assms(2,5) w by (auto simp: batch_ok_def Let_def new_dma_def w1 w2 w3 online_def view_effects)
  ultimately show ?thesis by fastforce
qed

text \<open>
  C9. Example 02 ends well under every schedule. From a fresh switch the set-up succeeds; then, however the
  submissions and the threads of the tasks interleave, the batch never gets stuck before its last thread has
  run, it takes exactly two steps per chunk, and in the end every wait succeeds with the latency of its own
  transfer, every chunk lies in its place in the target's memory, and the two closes leave no node attached.
\<close>

theorem dma_batch_completes:
  assumes "fl bw = bw" "1 \<le> bw" "bw < 10 ^ 15" "0 \<le> hop" "hop \<le> 2 ^ 30" "u16 t" "u16 h" "t \<noteq> h" "u32 token" "sz < 10 ^ 20"
    and "batch_fits sz chunk datas"
  shows "\<exists>pf r0. dma_setup t h token sz datas (new_platform bw hop clock) = (pf, Inr (0, 1, 1, r0))
    \<and> (\<exists>r. (batch_step 1 t 1 token chunk ^^ (2 * length datas)) r0 r)
    \<and> (\<forall>k r. (batch_step 1 t 1 token chunk ^^ k) r0 r \<longrightarrow> k \<le> 2 * length datas
        \<and> (k < 2 * length datas \<longrightarrow> (\<exists>r'. batch_step 1 t 1 token chunk r r'))
        \<and> (k = 2 * length datas \<longrightarrow>
            await_tasks 0 (r_tasks r) = Inr (map (\<lambda>data. JFloat (latency_of (int (length data)) (new_fabric bw hop))) datas)
          \<and> (\<exists>m. mem_of (daemon (p_server (r_platform r))) t = Some m \<and> (\<forall>i<length datas. chunk_arrived chunk i (datas ! i) m))
          \<and> nodes (daemon (p_server (dma_close 0 1 r))) = []))"
proof -
  let ?w = "new_platform bw hop clock" and ?step = "batch_step 1 t 1 token chunk"
  have l: "link_ok (w_switch (world ?w))" using assms(1-5) by simp
  have mem: "v_memory (w_switch (world p)) = mem_of (daemon (p_server p))" for p by (simp add: world_simps(1))
  have "0 \<le> int (length datas) * chunk" using assms(11) by (intro mult_nonneg_nonneg) (simp_all add: batch_fits_def)
  moreover have "int (length datas) * chunk \<le> sz" using assms(11) by (simp add: batch_fits_def)
  ultimately have sz: "0 \<le> sz" by linarith
  obtain pf r0 where r0: "dma_setup t h token sz datas ?w = (pf, Inr (0, 1, 1, r0))" "r_tasks r0 = []"
      "batch_ok t h token sz chunk (w_switch (world ?w)) datas r0"
    using dma_set_up [OF refl l assms(6-9) sz assms(10)] by blast
  have start: "batch_ok t h token sz chunk (w_switch (world ?w)) datas r0 \<and> batch_task t h token sz chunk datas" "threads_done r0 = 0"
    using r0(2,3) assms(6-9,11) by (simp_all add: batch_task_def threads_done_def)
  have "await_tasks 0 (r_tasks r) = Inr (map (\<lambda>data. JFloat (latency_of (int (length data)) (new_fabric bw hop))) datas)
      \<and> (\<exists>m. mem_of (daemon (p_server (r_platform r))) t = Some m \<and> (\<forall>i<length datas. chunk_arrived chunk i (datas ! i) m))
      \<and> nodes (daemon (p_server (dma_close 0 1 r))) = []" if "(?step ^^ (2 * length datas)) r0 r" for r
    using batch.steps_counted [OF that start] complete_batch [OF _ _ assms(8), of token sz chunk "w_switch (world ?w)" datas r]
    by (simp add: mem threads_done_def)
  then show ?thesis using r0(1) batch.every_schedule_ends [OF start] by blast
qed

lemma length_dma_chunk: "i < 8 \<Longrightarrow> length (dma_chunk i) = 32760"
proof -
  assume "i < 8"
  then have "i \<in> {0, 1, 2, 3, 4, 5, 6, 7}" by auto
  moreover have "length (encode_utf8 (''CDMA_BATCH_CHUNK_'' @ two_digits i @ ''_'')) = 20" if "i \<in> {0, 1, 2, 3, 4, 5, 6, 7}" for i
    using that by (elim insertE) (simp_all, code_simp+)
  ultimately show ?thesis by (simp add: dma_chunk_def length_concat sum_list_replicate)
qed

theorem dma_batch_completes_witness:
  "\<exists>pf r0 r lats. example_02 (new_platform 800 15 (\<lambda>i. 0)) = (pf, Inr (0, 1, 1, r0)) \<and> (batch_step 1 4 1 0x5555 (32 * 1024) ^^ 16) r0 r
    \<and> await_tasks 0 (r_tasks r) = Inr lats \<and> length lats = 8 \<and> nodes (daemon (p_server (dma_close 0 1 r))) = []"
proof -
  have "fl 800 = 800" using fl_of_int [of 800] by simp
  moreover have "batch_fits (1024 * 1024) (32 * 1024) (map dma_chunk [0..<8])"
    by (auto simp: batch_fits_def length_dma_chunk LOCAL_MEMORY_SIZE_def)
  ultimately show ?thesis
    using dma_batch_completes [of 800 15 4 1 "0x5555" "1024 * 1024" "32 * 1024" "map dma_chunk [0..<8]" "\<lambda>i. 0"]
    by (fastforce simp: example_02_def u16_def u32_def)
qed

end
