(* ===== verification/Example_Ring.thy ===== *)
theory Example_Ring
  imports Hccl Example_Programs Schedules
begin

text \<open>
  Example 04 (\<open>examples/04_hccl_allreduce.py\<close>): one thread per rank, each of which joins the ring, reduces a
  tensor and closes, with a barrier between these parts. The threads are a step relation: a step is the next
  call of any rank that is not waiting. The number of ranks and the tensor are parameters; what the program
  prints is left out.
\<close>

section \<open>The ranks\<close>

text \<open>
  How far a rank is. The connection is the one its device opened. A rank in \<open>Ring_Ready\<close> has arrived at the
  barriers before the reduction (between which it only builds its tensor), one in \<open>Reduced\<close>, whose statistics
  are in \<open>results\<close>, at the barrier after it. An exception ends the thread: it arrives nowhere any more.
\<close>

datatype rank_state =
    Starting
  | Connected nat urma_context
  | Registered nat urma_context int
  | Ring_Ready nat hccl
  | Reduced nat hccl collective_stats
  | Done collective_stats
  | Raised py_error

fun stage :: "rank_state \<Rightarrow> nat" where
  "stage Starting = 0"
| "stage (Connected cid ctx) = 1"
| "stage (Registered cid ctx sid) = 2"
| "stage (Ring_Ready cid h) = 3"
| "stage (Reduced cid h st) = 4"
| "stage (Done st) = 5"
| "stage (Raised e) = 0"

definition all_arrived :: "nat \<Rightarrow> rank_state list \<Rightarrow> bool" where
  "all_arrived k rs = list_all (\<lambda>s. k \<le> stage s) rs"

text \<open>The outcome of a call: the thread goes on with its value or ends.\<close>

definition call_state :: "platform \<times> 'c \<times> 'a result \<Rightarrow> ('c \<Rightarrow> 'a \<Rightarrow> rank_state) \<Rightarrow> platform \<times> rank_state" where
  "call_state res k = (case res of (pf, ctx, Inl e) \<Rightarrow> (pf, Raised e) | (pf, ctx, Inr v) \<Rightarrow> (pf, k ctx v))"

text \<open>
  The next call of rank \<open>i\<close> of \<open>n\<close>, if there is one and it does not wait: the three requests of the
  constructor of \<open>HCCLContext\<close>, \<open>all_reduce\<close>, \<open>close\<close>.
\<close>

definition rank_move ::
  "'m numpy option \<Rightarrow> ('e, 'm) tensor \<Rightarrow> rank_state list \<Rightarrow> nat \<Rightarrow> platform \<Rightarrow> (platform \<times> rank_state) option"
where
  "rank_move np t rs i pf =
     (let n = int (length rs);
          rank = int i;
          nxt = (rank + 1) mod n
      in
      case rs ! i of
        Starting \<Rightarrow>
          (case connect_device (rank + 1) ''ASCEND_NPU'' pf of
             (pf1, cid, r) \<Rightarrow> Some (call_state (pf1, (), r) (\<lambda>_ dev. Connected cid (new_context (rank + 1) dev))))
      | Connected cid ctx \<Rightarrow>
          Some (call_state (exchange cid (u_register_segment (Seg_Size SCRATCH_SIZE) (4096 + rank) ''RW'') ctx pf) (Registered cid))
      | Registered cid ctx sid \<Rightarrow>
          Some (call_state (exchange cid (u_create_jetty (nxt + 1) 1 (4096 + nxt)) ctx pf)
            (\<lambda>ctx1 jid. Ring_Ready cid (ring_context rank n ctx1 sid jid)))
      | Ring_Ready cid h \<Rightarrow>
          if all_arrived 3 rs
          then Some (call_state (exchange cid (all_reduce np t SUM_op) h pf) (\<lambda>h1 (t1, st). Reduced cid h1 st))
          else None
      | Reduced cid h st \<Rightarrow> if all_arrived 4 rs then Some (hang_up cid pf, Done st) else None
      | Done st \<Rightarrow> None
      | Raised e \<Rightarrow> None)"

record ring_run =
  g_platform :: platform
  g_ranks :: "rank_state list"

inductive ring_step :: "'m numpy option \<Rightarrow> ('e, 'm) tensor \<Rightarrow> ring_run \<Rightarrow> ring_run \<Rightarrow> bool"
  for np :: "'m numpy option" and t :: "('e, 'm) tensor" where
  Rank_Moves: "i < length (g_ranks r) \<Longrightarrow> rank_move np t (g_ranks r) i (g_platform r) = Some (pf1, s1) \<Longrightarrow>
     ring_step np t r (r\<lparr>g_platform := pf1, g_ranks := (g_ranks r)[i := s1]\<rparr>)"

inductive_cases ring_stepE: "ring_step np t r r'"

definition ring_start :: "nat \<Rightarrow> platform \<Rightarrow> ring_run" where
  "ring_start n pf = \<lparr>g_platform = pf, g_ranks = replicate n Starting\<rparr>"

text \<open>After the threads have ended, \<open>results[r]\<close> of every rank.\<close>

fun rank_results :: "int \<Rightarrow> rank_state list \<Rightarrow> collective_stats list result" where
  "rank_results r [] = Inr []"
| "rank_results r (s # rs) =
     rbind (case s of Reduced cid h st \<Rightarrow> Inr st | Done st \<Rightarrow> Inr st | _ \<Rightarrow> Inl (KeyError (show_int r)))
       (\<lambda>st. rbind (rank_results (r + 1) rs) (\<lambda>sts. Inr (st # sts)))"

text \<open>\<open>[1.0] * num_elements\<close>.\<close>

definition ones :: "nat \<Rightarrow> (pyfloat, 'm) tensor" where
  "ones mb = T_List (replicate (mb * 1024 * 1024 div 4) 1)"

definition example_04 :: "platform \<Rightarrow> ring_run" where
  "example_04 = ring_start 4"

section \<open>Relayed writes while a rank waits\<close>

declare world_simps [simp del]

text \<open>Unread frames are writes that the switch relayed.\<close>

definition relayed :: "packet \<Rightarrow> bytes \<Rightarrow> bool" where
  "relayed q f \<longleftrightarrow> wf_packet q \<and> serialize q = Inr f \<and> opcode q = OP_URMA_WRITE \<and> int_get ''offset'' 0 q = Inr 0"

lemma relayed_not_answer: "relayed q f \<Longrightarrow> \<not> answers s q"
  by (simp add: relayed_def answers_def RESPONSE_OPCODES_def)

lemma relayed_received:
  "list_all2 relayed qs fs \<Longrightarrow> \<exists>m. rx_all qs dev = Inr (dev\<lparr>dev_memory := m\<rparr>)"
proof (induction arbitrary: dev rule: list_all2_induct)
  case Nil
  have "rx_all [] dev = Inr (dev\<lparr>dev_memory := dev_memory dev\<rparr>)" by simp
  then show ?case by blast
next
  case (Cons q qs f fs)
  have "\<exists>m. rx_packet q dev = Inr (dev\<lparr>dev_memory := m\<rparr>)"
  proof (cases "int (length (payload q)) \<le> int (length (dev_memory dev))")
    case True
    then show ?thesis using Cons(1) by (auto simp: relayed_def rx_packet_def RESPONSE_OPCODES_def Let_def)
  next
    case False
    then have "rx_packet q dev = Inr (dev\<lparr>dev_memory := dev_memory dev\<rparr>)"
      using Cons(1) by (simp add: relayed_def rx_packet_def RESPONSE_OPCODES_def Let_def)
    then show ?thesis by blast
  qed
  then obtain m where m: "rx_packet q dev = Inr (dev\<lparr>dev_memory := m\<rparr>)" by blast
  obtain m1 where "rx_all qs (dev\<lparr>dev_memory := m\<rparr>) = Inr (dev\<lparr>dev_memory := m, dev_memory := m1\<rparr>)" using Cons.IH by blast
  then show ?case using m by auto
qed

definition only_relayed :: "world \<Rightarrow> bool" where
  "only_relayed w \<longleftrightarrow> (\<forall>(c, f)\<in>set (w_mail w). \<exists>q. relayed q f)"

lemma unread_relayed:
  assumes "only_relayed w"
  shows "\<exists>qs. list_all2 relayed qs (unread cid w)"
proof -
  have "\<forall>f\<in>set (unread cid w). \<exists>q. relayed q f" using assms by (force simp: only_relayed_def unread_def)
  then obtain g where "\<forall>f\<in>set (unread cid w). relayed (g f) f" by metis
  then have "list_all2 relayed (map g (unread cid w)) (unread cid w)" by (simp add: list_all2_map1 list_all2_same)
  then show ?thesis by blast
qed

section \<open>A reduction against the switch\<close>

definition reduce_stats :: "int \<Rightarrow> pyfloat \<Rightarrow> pyfloat \<Rightarrow> collective_stats" where
  "reduce_stats nb us bw = \<lparr>st_name = ''AllReduce'', st_bytes = nb, st_latency = us, st_bandwidth = bw\<rparr>"

text \<open>The object of a rank that has joined: node \<open>a\<close> with its jetty to node \<open>b\<close>.\<close>

definition in_ring :: "int \<Rightarrow> int \<Rightarrow> int \<Rightarrow> int \<Rightarrow> hccl \<Rightarrow> bool" where
  "in_ring a b token n h \<longleftrightarrow> h_jetty h = 1 \<and> h_scratch h = 1 \<and> h_world h = n \<and> u_node (h_urma h) = a \<and> u_device (h_urma h) = device_at a npu 4
     \<and> dict_get (u_jetties (h_urma h)) 1 = Some (new_jetty 1 b 1 token None)
     \<and> (\<exists>tok. dict_get (u_segments (h_urma h)) 1 = Some (new_segment 1 SCRATCH_SIZE tok ''RW'' (replicate (nat SCRATCH_SIZE) 0)))"

lemma scratch_bytes:
  assumes "0 \<le> len" "len \<le> SCRATCH_SIZE"
  shows "local_bytes (new_segment 1 SCRATCH_SIZE tok ''RW'' (replicate (nat SCRATCH_SIZE) 0)) 0 len = replicate (nat len) 0"
  using assms py_slice_nonneg [of 0 len "replicate (nat SCRATCH_SIZE) (0 :: byte)"] by (simp add: local_bytes_def min_def nat_mono)

lemma all_reduce_form:
  assumes "in_ring a b token n h" "get_bytes_and_len np t = Inr (nb, l)" "chunk = min nb 65536" "0 \<le> nb"
    and "p = write_packet (h_urma h) (new_jetty 1 b 1 token None) 1 0 (replicate (nat chunk) 0) 4"
  shows "all_reduce np t oper cs h =
    (case send_sync p cs (device_at a npu 5) of (dev, bs, r) \<Rightarrow>
       (h\<lparr>h_urma := (h_urma h)\<lparr>u_device := dev\<rparr>\<rparr>, bs,
        rbind (rbind r (\<lambda>resp. if opcode resp \<noteq> OP_RESP_OK then Inl (failure ''URMA Write failed: '' ''Unknown error'' resp) else latency_field resp))
          (\<lambda>lat. rbind (reduce_latency lat n nb chunk) (\<lambda>us. rbind (collective_bandwidth nb us) (\<lambda>bw. Inr (t, reduce_stats nb us bw))))))"
proof -
  obtain tok where h: "h_jetty h = 1" "h_scratch h = 1" "h_world h = n" "u_device (h_urma h) = device_at a npu 4"
      "dict_get (u_jetties (h_urma h)) 1 = Some (new_jetty 1 b 1 token None)"
      "dict_get (u_segments (h_urma h)) 1 = Some (new_segment 1 SCRATCH_SIZE tok ''RW'' (replicate (nat SCRATCH_SIZE) 0))"
    using assms(1) unfolding in_ring_def by blast
  have b: "local_bytes (new_segment 1 SCRATCH_SIZE tok ''RW'' (replicate (nat SCRATCH_SIZE) 0)) 0 chunk = replicate (nat chunk) 0"
    using assms(3,4) by (intro scratch_bytes) (simp_all add: SCRATCH_SIZE_def)
  have d: "(device_at a npu 4)\<lparr>dev_seq := 5\<rparr> = device_at a npu 5" by (simp add: device_at_def)
  have "call_sync (write_packet (h_urma h) (new_jetty 1 b 1 token None) 1 0 (replicate (nat chunk) 0)) cs (device_at a npu 4)
      = send_sync p cs (device_at a npu 5)"
    by (simp add: call_sync_def get_seq_def d assms(5))
  then show ?thesis
    unfolding all_reduce_def ring_write_def u_write_def
    by (simp add: assms(2) h b assms(3) [symmetric] Let_def reduce_stats_def split: prod.split)
qed

lemma reduce_served:
  assumes "w_links (world pf) cid = Some (handler cur)" "v_running (w_switch (world pf))" "link_ok (w_switch (world pf))" "only_relayed (world pf)"
    and "in_ring a b token n h" "u16 a" "get_bytes_and_len np t = Inr (nb, l)" "0 < nb" "chunk = min nb 65536"
    and "accessible (world pf) b 1 0 chunk True token tcid m" "tcid \<noteq> cid"
    and "reduce_latency (JFloat (view_latency chunk (w_switch (world pf)))) n nb chunk = Inr us" "collective_bandwidth nb us = Inr bw"
  shows "\<exists>pf1 h1 q f. exchange cid (all_reduce np t oper) h pf = (pf1, h1, Inr (t, reduce_stats nb us bw)) \<and> relayed q f
    \<and> world pf1 = (served cid cur [(tcid, f)] (store b 0 (replicate (nat chunk) 0) (w_switch (world pf))) (world pf))
        \<lparr>w_mail := filter (\<lambda>m. fst m \<noteq> cid) (w_mail (world pf)) @ [(tcid, f)]\<rparr>"
proof -
  let ?p = "write_packet (h_urma h) (new_jetty 1 b 1 token None) 1 0 (replicate (nat chunk) 0) 4"
  let ?r = "write_completed ?p (view_latency chunk (w_switch (world pf)))"
  have c: "0 \<le> chunk" "chunk = int (length (payload ?p))" using assms(8,9) by simp_all
  have p: "u32 (seq_num ?p)" "opcode ?p = OP_URMA_WRITE" "\<not> is_cip_encrypted ?p" "metadata ?p = JObj [(''segment_id'', JInt 1), (''offset'', JInt 0)]"
      "u16 (src_node ?p)" "dst_node ?p = b" "token_id ?p = token" "payload ?p = replicate (nat chunk) 0" "seq_num ?p = 4" "wf_packet ?p"
    using assms(5,6) by (simp_all add: in_ring_def) (simp_all add: write_packet_def ub_packet_def)
  have acc: "accessible (world pf) (dst_node ?p) 1 0 chunk True (token_id ?p) tcid m" using assms(10) p by simp
  obtain f b1 fab1 where f: "serialize ?p = Inr f" "serialize ?r = Inr b1" "wf_packet ?r"
      "process_packet (exchange_env cid pf) ?p cur (daemon (p_server pf)) = (fab1, [(tcid, f)], Inr (Some ?r, cur))"
      "view fab1 = store b 0 (replicate (nat chunk) 0) (w_switch (world pf))" "v_running (store b 0 (replicate (nat chunk) 0) (w_switch (world pf)))"
    using write_request_served [OF p(1-5) acc c(2) assms(2,3) refl refl, of cid cur] unfolding p(6,8) by blast
  have "relayed ?p f" using p f(1) by (simp add: relayed_def int_get_def meta_get_def)
  moreover obtain qs where qs: "list_all2 relayed qs (unread cid (world pf))" using unread_relayed [OF assms(4)] by blast
  moreover have "list_all2 (\<lambda>q f. wf_packet q \<and> serialize q = Inr f) qs (unread cid (world pf))"
    using qs by (rule list_all2_mono) (simp add: relayed_def)
  moreover have "list_all (\<lambda>q. \<not> answers (seq_num ?p) q) qs"
    using qs relayed_not_answer by (auto simp: list_all2_conv_all_nth list_all_length)
  moreover obtain m1 where "rx_all qs ((device_at a npu 5)\<lparr>pending_replies := dict_set (seq_num ?p) None (pending_replies (device_at a npu 5))\<rparr>)
      = Inr ((device_at a npu 5)\<lparr>pending_replies := dict_set (seq_num ?p) None (pending_replies (device_at a npu 5)), dev_memory := m1\<rparr>)"
    using relayed_received [OF qs] by blast
  moreover have "opcode ?r = OP_RESP_OK" "latency_field ?r = Inr (JFloat (view_latency chunk (w_switch (world pf))))"
    using completed_simps(1) [OF p(2)] by (simp_all add: completed_simps(6))
  ultimately show ?thesis
    using exchange_send_after_mail [where op = "all_reduce np t oper", OF all_reduce_form [OF assms(5,7,9) less_imp_le [OF assms(8)] refl]
        device_at_simps(1) p(10) f(1) assms(1,2) f(4-6,3,2)] assms(11-13)
    by fastforce
qed

section \<open>The invariant of a run\<close>

definition attached :: "nat \<Rightarrow> nat \<Rightarrow> world \<Rightarrow> bool" where
  "attached i cid w \<longleftrightarrow> w_links w cid = Some (handler (Some (int i + 1))) \<and> v_conn (w_switch w) (int i + 1) = Some cid
     \<and> (\<exists>m. v_memory (w_switch w) (int i + 1) = Some m \<and> length m = LOCAL_MEMORY_SIZE)"

definition lent :: "nat \<Rightarrow> world \<Rightarrow> bool" where
  "lent i w \<longleftrightarrow> (\<exists>tm. v_segment (w_switch w) (int i + 1) 1
     = Some (new_ub_segment 1 (int i + 1) SCRATCH_SIZE (4096 + int i) ''RW'' tm))"

fun rank_ok :: "nat \<Rightarrow> collective_stats \<Rightarrow> nat \<Rightarrow> rank_state \<Rightarrow> world \<Rightarrow> bool" where
  "rank_ok n st i Starting w \<longleftrightarrow> v_conn (w_switch w) (int i + 1) = None"
| "rank_ok n st i (Connected cid ctx) w \<longleftrightarrow> attached i cid w \<and> ctx = new_context (int i + 1) (device_at (int i + 1) npu 2)"
| "rank_ok n st i (Registered cid ctx sid) w \<longleftrightarrow> attached i cid w \<and> lent i w \<and> sid = 1
     \<and> ctx = with_segment SCRATCH_SIZE (4096 + int i) ''RW'' (new_context (int i + 1) (device_at (int i + 1) npu 2))"
| "rank_ok n st i (Ring_Ready cid h) w \<longleftrightarrow> attached i cid w \<and> lent i w
     \<and> in_ring (int i + 1) ((int i + 1) mod int n + 1) (4096 + (int i + 1) mod int n) (int n) h"
| "rank_ok n st i (Reduced cid h st1) w \<longleftrightarrow> attached i cid w \<and> lent i w \<and> st1 = st"
| "rank_ok n st i (Done st1) w \<longleftrightarrow> v_conn (w_switch w) (int i + 1) = None \<and> st1 = st"
| "rank_ok n st i (Raised e) w \<longleftrightarrow> False"

text \<open>What a step of another rank leaves as it was.\<close>

definition undisturbed :: "nat \<Rightarrow> world \<Rightarrow> world \<Rightarrow> bool" where
  "undisturbed j w w1 \<longleftrightarrow> v_conn (w_switch w1) (int j + 1) = v_conn (w_switch w) (int j + 1)
     \<and> v_segment (w_switch w1) (int j + 1) = v_segment (w_switch w) (int j + 1)
     \<and> map_option length (v_memory (w_switch w1) (int j + 1)) = map_option length (v_memory (w_switch w) (int j + 1))
     \<and> (\<forall>c. w_links w c = Some (handler (Some (int j + 1))) \<longrightarrow> w_links w1 c = w_links w c)"

lemma rank_ok_undisturbed:
  assumes "rank_ok n st j s w" "undisturbed j w w1"
  shows "rank_ok n st j s w1"
proof -
  have a: "attached j cid w \<Longrightarrow> attached j cid w1" for cid using assms(2) by (auto simp: attached_def undisturbed_def)
  have "lent j w \<Longrightarrow> lent j w1" using assms(2) by (simp add: lent_def undisturbed_def)
  then show ?thesis using assms a by (cases s) (simp_all add: undisturbed_def)
qed

definition world_ok :: "nat \<Rightarrow> switch_view \<Rightarrow> world \<Rightarrow> bool" where
  "world_ok n v0 w \<longleftrightarrow> v_running (w_switch w) \<and> link_ok (w_switch w) \<and> only_relayed w
     \<and> (\<forall>k. view_latency k (w_switch w) = view_latency k v0) \<and> (\<forall>m. m \<notin> {1..int n} \<longrightarrow> v_conn (w_switch w) m = None)"

definition quiet :: "world \<Rightarrow> bool" where
  "quiet w \<longleftrightarrow> w_mail w = [] \<and> sockets_ok w"

text \<open>Until all have joined nothing is unread; who is past a barrier has everybody behind it.\<close>

definition phases_ok :: "rank_state list \<Rightarrow> world \<Rightarrow> bool" where
  "phases_ok rs w \<longleftrightarrow> (all_arrived 3 rs \<or> quiet w) \<and> (\<forall>s\<in>set rs. 4 \<le> stage s \<longrightarrow> all_arrived 3 rs) \<and> (\<forall>s\<in>set rs. 5 \<le> stage s \<longrightarrow> all_arrived 4 rs)"

definition ring_inv :: "nat \<Rightarrow> collective_stats \<Rightarrow> switch_view \<Rightarrow> ring_run \<Rightarrow> bool" where
  "ring_inv n st v0 r \<longleftrightarrow> length (g_ranks r) = n \<and> world_ok n v0 (world (g_platform r))
     \<and> (\<forall>i<n. rank_ok n st i (g_ranks r ! i) (world (g_platform r))) \<and> phases_ok (g_ranks r) (world (g_platform r))"

definition move_ok :: "nat \<Rightarrow> collective_stats \<Rightarrow> switch_view \<Rightarrow> ring_run \<Rightarrow> nat \<Rightarrow> platform \<times> rank_state \<Rightarrow> bool" where
  "move_ok n st v0 r i x \<longleftrightarrow> stage (snd x) = Suc (stage (g_ranks r ! i))
     \<and> ring_inv n st v0 (r\<lparr>g_platform := fst x, g_ranks := (g_ranks r)[i := snd x]\<rparr>)"

lemma all_arrived_update:
  assumes "all_arrived k rs" "i < length rs" "stage (rs ! i) \<le> stage s"
  shows "all_arrived k (rs[i := s])"
  using assms by (auto simp: all_arrived_def list_all_length nth_list_update intro: order_trans)

lemma phases_advance:
  assumes "phases_ok rs w" "i < length rs" "stage s = Suc (stage (rs ! i))" "stage s \<le> 3 \<Longrightarrow> quiet w1"
    and "stage s = 4 \<Longrightarrow> all_arrived 3 rs" "stage s = 5 \<Longrightarrow> all_arrived 4 rs"
  shows "phases_ok (rs[i := s]) w1"
proof -
  have up: "all_arrived k rs \<Longrightarrow> all_arrived k (rs[i := s])" for k using all_arrived_update assms(2,3) by simp
  have sub: "set (rs[i := s]) \<subseteq> insert s (set rs)" by (rule set_update_subset_insert)
  have mem: "rs ! i \<in> set rs" using assms(2) by simp
  have le: "stage s \<le> 5" by (cases s) simp_all
  have three: "all_arrived 3 rs" if "4 \<le> stage s"
  proof (cases "stage s = 4")
    case False
    then have "4 \<le> stage (rs ! i)" using that assms(3) by linarith
    then show ?thesis using assms(1) mem by (auto simp: phases_ok_def)
  qed (use assms(5) in simp)
  have "all_arrived 3 (rs[i := s]) \<or> quiet w1" using assms(4) three up by (cases "stage s \<le> 3") auto
  moreover have "all_arrived 3 (rs[i := s])" if "u \<in> set (rs[i := s])" "4 \<le> stage u" for u
    using that sub three up assms(1) by (auto simp: phases_ok_def)
  moreover have "all_arrived 4 (rs[i := s])" if "u \<in> set (rs[i := s])" "5 \<le> stage u" for u
    using that sub up assms(1,6) le by (auto simp: phases_ok_def)
  ultimately show ?thesis by (simp add: phases_ok_def)
qed

lemma move_okI:
  assumes "ring_inv n st v0 r" "i < n" "stage s = Suc (stage (g_ranks r ! i))" "world_ok n v0 (world pf1)" "rank_ok n st i s (world pf1)"
    and "\<And>j. j < n \<Longrightarrow> j \<noteq> i \<Longrightarrow> undisturbed j (world (g_platform r)) (world pf1)" "stage s \<le> 3 \<Longrightarrow> quiet (world pf1)"
    and "stage s = 4 \<Longrightarrow> all_arrived 3 (g_ranks r)" "stage s = 5 \<Longrightarrow> all_arrived 4 (g_ranks r)"
  shows "move_ok n st v0 r i (pf1, s)"
proof -
  have "rank_ok n st j ((g_ranks r)[i := s] ! j) (world pf1)" if "j < n" for j
    using that assms(1,2,5) rank_ok_undisturbed [OF _ assms(6)] by (cases "j = i") (simp_all add: ring_inv_def)
  moreover have "phases_ok ((g_ranks r)[i := s]) (world pf1)"
    using assms(1,2) by (intro phases_advance [OF _ _ assms(3,7-9)]) (auto simp: ring_inv_def)
  ultimately show ?thesis using assms(1,3,4) by (simp add: move_ok_def ring_inv_def)
qed

section \<open>The moves\<close>

lemma early_quiet:
  assumes "ring_inv n st v0 r" "i < n" "stage (g_ranks r ! i) < 3"
  shows "quiet (world (g_platform r))"
  using assms by (auto simp: ring_inv_def phases_ok_def all_arrived_def list_all_length)

lemma start_moves:
  assumes "ring_inv n st v0 r" "i < n" "g_ranks r ! i = Starting" "n < 2 ^ 16"
  shows "\<exists>x. rank_move np t (g_ranks r) i (g_platform r) = Some x \<and> move_ok n st v0 r i x"
proof -
  let ?w = "world (g_platform r)" and ?a = "int i + 1"
  have q: "w_mail ?w = []" "sockets_ok ?w" using early_quiet [OF assms(1,2)] assms(3) by (simp_all add: quiet_def)
  have w: "v_running (w_switch ?w)" "link_ok (w_switch ?w)" "world_ok n v0 ?w" using assms(1) by (simp_all add: ring_inv_def world_ok_def)
  have a: "u16 ?a" using assms(2,4) by (simp add: u16_def)
  obtain pf1 cid where c: "connect_device ?a npu (g_platform r) = (pf1, cid, Inr (device_at ?a npu 2))" "cid = w_sockets ?w"
      "world pf1 = (served cid (Some ?a) [] (attach ?a cid (w_switch ?w)) ?w)\<lparr>w_sockets := cid + 1\<rparr>"
    using connect_device_served [OF q(2) w(1,2) a _ refl, of npu] by auto
  let ?s = "Connected cid (new_context ?a (device_at ?a npu 2))"
  have m: "rank_move np t (g_ranks r) i (g_platform r) = Some (pf1, ?s)"
    using assms(3) c(1) by (simp add: rank_move_def call_state_def Let_def add.commute)
  have new: "w_links ?w cid = None" using q(2) c(2) by (simp add: sockets_ok_def)
  have "move_ok n st v0 r i (pf1, ?s)"
  proof (rule move_okI [OF assms(1,2)])
    show "world_ok n v0 (world pf1)" using w(3) assms(2) q(1) by (auto simp: world_ok_def c(3) view_effects only_relayed_def)
    show "rank_ok n st i ?s (world pf1)" by (simp add: attached_def c(3) view_effects)
    show "undisturbed j ?w (world pf1)" if "j < n" "j \<noteq> i" for j
      using that(2) new by (auto simp: undisturbed_def c(3) view_effects)
    show "quiet (world pf1)"
      unfolding c(3) quiet_def using q(1) sockets_ok_connected [OF q(2) c(2)] by simp
  qed (use assms(3) in simp_all)
  then show ?thesis using m by blast
qed

lemma attached_online:
  "attached i cid w \<Longrightarrow> world_ok n v0 w \<Longrightarrow> quiet w \<Longrightarrow> online cid (Some (int i + 1)) w"
  by (simp add: attached_def world_ok_def quiet_def online_def)

text \<open>A request of the constructor: nothing becomes unread, the connections stay.\<close>

lemma quiet_served:
  "quiet w \<Longrightarrow> w_links w cid \<noteq> None \<Longrightarrow> quiet (served cid cur [] v w)"
  using sockets_ok_served [of w cid "[]" cur v] by (simp add: quiet_def)

lemma request_moves:
  assumes "ring_inv n st v0 r" "i < n" "stage s = Suc (stage (g_ranks r ! i))" "stage s \<le> 3" "attached i cid (world (g_platform r))"
    and "world pf1 = served cid (Some (int i + 1)) [] v (world (g_platform r))"
    and "v = w_switch (world (g_platform r)) \<or> (\<exists>seg. v = add_segment seg (w_switch (world (g_platform r))) \<and> seg_node seg = int i + 1)"
    and "attached i cid (world pf1) \<Longrightarrow> rank_ok n st i s (world pf1)"
  shows "move_ok n st v0 r i (pf1, s)"
proof (rule move_okI [OF assms(1,2,3)])
  let ?w = "world (g_platform r)"
  have q: "quiet ?w" using early_quiet [OF assms(1,2)] assms(3,4) by simp
  have w: "world_ok n v0 ?w" using assms(1) by (simp add: ring_inv_def)
  show "world_ok n v0 (world pf1)" using w q assms(7) by (auto simp: world_ok_def quiet_def assms(6) view_effects only_relayed_def)
  have "attached i cid (world pf1)" using assms(5,7) by (auto simp: attached_def assms(6) view_effects)
  then show "rank_ok n st i s (world pf1)" by (rule assms(8))
  show "undisturbed j ?w (world pf1)" if "j < n" "j \<noteq> i" for j
    using that(2) assms(5,7) by (auto simp: undisturbed_def attached_def assms(6) view_effects handler_def)
  show "quiet (world pf1)" unfolding assms(6) using q assms(5) by (intro quiet_served) (simp_all add: attached_def)
qed (use assms(4) in simp_all)

lemma rank_bounds:
  assumes "i < n" "n < 2 ^ 16"
  shows "u16 (int i + 1)" "u32 (4096 + int i)" "u16 ((int i + 1) mod int n + 1)" "u32 (4096 + (int i + 1) mod int n)"
    "0 \<le> SCRATCH_SIZE" "SCRATCH_SIZE < 10 ^ 20"
proof -
  have "0 \<le> (int i + 1) mod int n" "(int i + 1) mod int n < int n" using assms(1) by simp_all
  then show "u16 ((int i + 1) mod int n + 1)" "u32 (4096 + (int i + 1) mod int n)" using assms(2) unfolding u16_def u32_def by auto
  show "u16 (int i + 1)" "u32 (4096 + int i)" using assms by (simp_all add: u16_def u32_def)
qed (simp_all add: SCRATCH_SIZE_def)

lemma registration_moves:
  assumes "ring_inv n st v0 r" "i < n" "g_ranks r ! i = Connected cid ctx" "n < 2 ^ 16"
  shows "\<exists>x. rank_move np t (g_ranks r) i (g_platform r) = Some x \<and> move_ok n st v0 r i x"
proof -
  let ?w = "world (g_platform r)" and ?a = "int i + 1"
  have "rank_ok n st i (Connected cid ctx) ?w" using assms(1-3) by (metis ring_inv_def)
  then have k: "attached i cid ?w" "ctx = new_context ?a (device_at ?a npu 2)" by simp_all
  have q: "quiet ?w" using early_quiet [OF assms(1,2)] assms(3) by simp
  have o: "online cid (Some ?a) ?w" using attached_online [OF k(1) _ q] assms(1) by (auto simp: ring_inv_def)
  note b = rank_bounds [OF assms(2,4)]
  let ?seg = "new_ub_segment 1 ?a SCRATCH_SIZE (4096 + int i) ''RW'' (w_time ?w (w_calls ?w))"
  obtain pf1 where c: "exchange cid (u_register_segment (Seg_Size SCRATCH_SIZE) (4096 + int i) ''RW'') ctx (g_platform r)
        = (pf1, with_segment SCRATCH_SIZE (4096 + int i) ''RW'' ctx, Inr 1)"
      and w1: "world pf1 = served cid (Some ?a) [] (add_segment ?seg (w_switch ?w)) ?w"
    using register_segment_served [OF o, of ctx ?a npu 2 "4096 + int i" SCRATCH_SIZE "''RW''" "''RW''" 1] b py_upper_RW by (auto simp: k(2))
  let ?s = "Registered cid (with_segment SCRATCH_SIZE (4096 + int i) ''RW'' ctx) 1"
  have "rank_move np t (g_ranks r) i (g_platform r) = Some (pf1, ?s)"
    using assms(3) c by (simp add: rank_move_def call_state_def Let_def)
  moreover have "move_ok n st v0 r i (pf1, ?s)"
  proof (rule request_moves [OF assms(1,2) _ _ k(1) w1])
    show "add_segment ?seg (w_switch ?w) = w_switch ?w \<or> (\<exists>seg. add_segment ?seg (w_switch ?w) = add_segment seg (w_switch ?w) \<and> seg_node seg = ?a)"
      by (intro disjI2 exI [of _ ?seg]) simp
    show "rank_ok n st i ?s (world pf1)" if "attached i cid (world pf1)"
      using that by (auto simp: k(2) lent_def w1 view_effects)
  qed (simp_all add: assms(3))
  ultimately show ?thesis by blast
qed

lemma jetty_moves:
  assumes "ring_inv n st v0 r" "i < n" "g_ranks r ! i = Registered cid ctx sid" "n < 2 ^ 16"
  shows "\<exists>x. rank_move np t (g_ranks r) i (g_platform r) = Some x \<and> move_ok n st v0 r i x"
proof -
  let ?w = "world (g_platform r)" and ?a = "int i + 1"
  let ?next = "?a mod int n"
  have "rank_ok n st i (Registered cid ctx sid) ?w" using assms(1-3) by (metis ring_inv_def)
  then have k: "attached i cid ?w" "lent i ?w" "sid = 1" "ctx = with_segment SCRATCH_SIZE (4096 + int i) ''RW'' (new_context ?a (device_at ?a npu 2))"
    by simp_all
  have q: "quiet ?w" using early_quiet [OF assms(1,2)] assms(3) by simp
  have o: "online cid (Some ?a) ?w" using attached_online [OF k(1) _ q] assms(1) by (auto simp: ring_inv_def)
  have n: "length (g_ranks r) = n" using assms(1) by (simp add: ring_inv_def)
  note b = rank_bounds [OF assms(2,4)]
  let ?ctx1 = "with_jetty (?next + 1) 1 (4096 + ?next) ctx"
  obtain pf1 where c: "exchange cid (u_create_jetty (?next + 1) 1 (4096 + ?next)) ctx (g_platform r) = (pf1, ?ctx1, Inr 1)"
      and w1: "world pf1 = served cid (Some ?a) [] (w_switch ?w) ?w"
    using create_jetty_served [OF o, of ctx ?a npu 3 "4096 + ?next" "?next + 1" 1 1] b by (auto simp: k(4))
  let ?s = "Ring_Ready cid (ring_context (int i) (int n) ?ctx1 1 1)"
  have "rank_move np t (g_ranks r) i (g_platform r) = Some (pf1, ?s)"
    using assms(3) c n k(3) by (simp add: rank_move_def call_state_def Let_def)
  moreover have "in_ring ?a (?next + 1) (4096 + ?next) (int n) (ring_context (int i) (int n) ?ctx1 1 1)"
    by (auto simp: in_ring_def ring_context_def Let_def k(4))
  then have "move_ok n st v0 r i (pf1, ?s)"
    using k(2) by (intro request_moves [OF assms(1,2) _ _ k(1) w1]) (simp_all add: assms(3) lent_def w1)
  ultimately show ?thesis by blast
qed

definition ring_task :: "nat \<Rightarrow> 'm numpy option \<Rightarrow> ('e, 'm) tensor \<Rightarrow> int \<Rightarrow> pyfloat \<Rightarrow> pyfloat \<Rightarrow> switch_view \<Rightarrow> bool" where
  "ring_task n np t nb us bw v0 \<longleftrightarrow> 2 \<le> n \<and> n < 2 ^ 16 \<and> (\<exists>l. get_bytes_and_len np t = Inr (nb, l)) \<and> 0 < nb
     \<and> reduce_latency (JFloat (view_latency (min nb 65536) v0)) (int n) nb (min nb 65536) = Inr us \<and> collective_bandwidth nb us = Inr bw"

lemma in_ring_rank: "rank_ok n st k s w \<Longrightarrow> 3 \<le> stage s \<Longrightarrow> stage s < 5 \<Longrightarrow> (\<exists>cid. attached k cid w) \<and> lent k w"
  by (cases s) auto

lemma next_rank_lends:
  assumes "ring_inv n st v0 r" "i < n" "stage (g_ranks r ! i) = 3" "all_arrived 3 (g_ranks r)" "k < n"
  shows "(\<exists>cid. attached k cid (world (g_platform r))) \<and> lent k (world (g_platform r))"
proof -
  have l: "length (g_ranks r) = n" "phases_ok (g_ranks r) (world (g_platform r))" "rank_ok n st k (g_ranks r ! k) (world (g_platform r))"
    using assms(1,5) by (simp_all add: ring_inv_def)
  then have mem: "g_ranks r ! i \<in> set (g_ranks r)" "g_ranks r ! k \<in> set (g_ranks r)" using assms(2,5) by simp_all
  have "\<not> all_arrived 4 (g_ranks r)"
  proof
    assume "all_arrived 4 (g_ranks r)"
    then have "4 \<le> stage (g_ranks r ! i)" using mem(1) by (simp add: all_arrived_def list_all_iff)
    then show False using assms(3) by simp
  qed
  then have "stage (g_ranks r ! k) < 5" using l(2) mem(2) unfolding phases_ok_def by (meson not_less)
  moreover have "3 \<le> stage (g_ranks r ! k)" using assms(4) mem(2) by (simp add: all_arrived_def list_all_iff)
  ultimately show ?thesis using in_ring_rank [OF l(3)] by blast
qed

lemma reduction_moves:
  assumes "ring_inv n (reduce_stats nb us bw) v0 r" "i < n" "g_ranks r ! i = Ring_Ready cid h" "all_arrived 3 (g_ranks r)"
    and "ring_task n np t nb us bw v0"
  shows "\<exists>x. rank_move np t (g_ranks r) i (g_platform r) = Some x \<and> move_ok n (reduce_stats nb us bw) v0 r i x"
proof -
  let ?w = "world (g_platform r)" and ?a = "int i + 1" and ?chunk = "min nb 65536" and ?st = "reduce_stats nb us bw"
  let ?k = "(i + 1) mod n"
  have t: "2 \<le> n" "n < 2 ^ 16" "0 < nb" "reduce_latency (JFloat (view_latency ?chunk v0)) (int n) nb ?chunk = Inr us" "collective_bandwidth nb us = Inr bw"
    using assms(5) by (simp_all add: ring_task_def)
  obtain l where l: "get_bytes_and_len np t = Inr (nb, l)" using assms(5) by (auto simp: ring_task_def)
  have k: "int ?k = ?a mod int n" "?k < n" "?k \<noteq> i" using t(1) assms(2) by (simp_all add: zmod_int add.commute) (simp_all add: mod_Suc)
  have w: "world_ok n v0 ?w" "rank_ok n ?st i (Ring_Ready cid h) ?w" using assms(1-3) by (auto simp: ring_inv_def dest: spec [of _ i])
  then have o: "w_links ?w cid = Some (handler (Some ?a))" "v_running (w_switch ?w)" "link_ok (w_switch ?w)" "only_relayed ?w"
      "in_ring ?a (int ?k + 1) (4096 + int ?k) (int n) h" "view_latency ?chunk (w_switch ?w) = view_latency ?chunk v0"
    using k(1) by (simp_all add: attached_def world_ok_def)
  note b = rank_bounds [OF assms(2) t(2), folded k(1)]
  obtain tcid where "attached ?k tcid ?w" and lt: "lent ?k ?w"
    using next_rank_lends [OF assms(1,2) _ assms(4) k(2)] assms(3) by auto
  then obtain m where m: "w_links ?w tcid = Some (handler (Some (int ?k + 1)))" "v_conn (w_switch ?w) (int ?k + 1) = Some tcid"
      "v_memory (w_switch ?w) (int ?k + 1) = Some m" "length m = LOCAL_MEMORY_SIZE" by (auto simp: attached_def)
  have d: "tcid \<noteq> cid" using m(1) o(1) k(3) by (auto simp: handler_def)
  obtain tm where "v_segment (w_switch ?w) (int ?k + 1) 1 = Some (new_ub_segment 1 (int ?k + 1) SCRATCH_SIZE (4096 + int ?k) ''RW'' tm)"
    using lt by (auto simp: lent_def)
  then have "view_grants (w_switch ?w) (int ?k + 1) 1 0 ?chunk True (4096 + int ?k)" by (rule grants_full) (simp_all add: SCRATCH_SIZE_def)
  then have acc: "accessible ?w (int ?k + 1) 1 0 ?chunk True (4096 + int ?k) tcid m"
    using m b t(3) by (simp add: accessible_def LOCAL_MEMORY_SIZE_def)
  obtain pf1 h1 q f where c: "exchange cid (all_reduce np t SUM_op) h (g_platform r) = (pf1, h1, Inr (t, ?st))" "relayed q f" and
      w1: "world pf1 = (served cid (Some ?a) [(tcid, f)] (store (int ?k + 1) 0 (replicate (nat ?chunk) 0) (w_switch ?w)) ?w)
        \<lparr>w_mail := filter (\<lambda>m. fst m \<noteq> cid) (w_mail ?w) @ [(tcid, f)]\<rparr>"
    using reduce_served [OF o(1-5) b(1) l t(3) refl acc d _ t(5), of SUM_op] t(4) o(6) by auto
  have mem: "length (mem_write m 0 (replicate (nat ?chunk) 0)) = length m"
    using m(4) by (intro memory_written(2)) (simp add: LOCAL_MEMORY_SIZE_def)
  let ?s = "Reduced cid h1 ?st"
  have "move_ok n ?st v0 r i (pf1, ?s)"
  proof (rule move_okI [OF assms(1,2)])
    show "world_ok n v0 (world pf1)"
      using w(1) c(2) by (auto simp: world_ok_def w1 view_effects only_relayed_def)
    show "rank_ok n ?st i ?s (world pf1)"
      using w(2) k(3) by (auto simp: attached_def lent_def w1 view_effects)
    show "undisturbed j ?w (world pf1)" if "j < n" "j \<noteq> i" for j
      using that(2) o(1) m mem by (auto simp: undisturbed_def w1 view_effects handler_def)
  qed (use assms(3,4) in simp_all)
  then show ?thesis using assms(3,4) c(1) by (simp add: rank_move_def call_state_def Let_def)
qed

lemma closing_moves:
  assumes "ring_inv n st v0 r" "i < n" "g_ranks r ! i = Reduced cid h st1" "all_arrived 4 (g_ranks r)"
  shows "\<exists>x. rank_move np t (g_ranks r) i (g_platform r) = Some x \<and> move_ok n st v0 r i x"
proof -
  let ?w = "world (g_platform r)" and ?a = "int i + 1"
  have w: "world_ok n v0 ?w" "rank_ok n st i (Reduced cid h st1) ?w" using assms(1-3) by (auto simp: ring_inv_def dest: spec [of _ i])
  have w1: "world (hang_up cid (g_platform r)) = ?w\<lparr>w_switch := detach ?a (w_switch ?w), w_links := (w_links ?w)(cid := None)\<rparr>"
    using w(2) by (intro hang_up_world) (simp_all add: attached_def)
  have "move_ok n st v0 r i (hang_up cid (g_platform r), Done st1)"
  proof (rule move_okI [OF assms(1,2)])
    show "world_ok n v0 (world (hang_up cid (g_platform r)))"
      using w(1) by (simp add: world_ok_def w1 detach_def link_ok_def view_latency_def only_relayed_def)
    show "rank_ok n st i (Done st1) (world (hang_up cid (g_platform r)))" using w(2) by (simp add: w1 view_effects)
    show "undisturbed j ?w (world (hang_up cid (g_platform r)))" if "j < n" "j \<noteq> i" for j
      using that(2) w(2) by (auto simp: undisturbed_def attached_def w1 detach_def handler_def)
  qed (use assms(3,4) in simp_all)
  then show ?thesis using assms(3,4) by (simp add: rank_move_def Let_def)
qed

section \<open>Whole runs\<close>

text \<open>Who can move: everybody but a rank at a barrier that somebody has not reached.\<close>

definition can_move :: "rank_state list \<Rightarrow> nat \<Rightarrow> bool" where
  "can_move rs i \<longleftrightarrow> stage (rs ! i) < 3 \<or> stage (rs ! i) = 3 \<and> all_arrived 3 rs \<or> stage (rs ! i) = 4 \<and> all_arrived 4 rs"

lemma rank_moves:
  assumes "ring_inv n (reduce_stats nb us bw) v0 r" "i < n" "ring_task n np t nb us bw v0"
  shows "if can_move (g_ranks r) i then \<exists>x. rank_move np t (g_ranks r) i (g_platform r) = Some x \<and> move_ok n (reduce_stats nb us bw) v0 r i x
    else rank_move np t (g_ranks r) i (g_platform r) = None"
proof -
  have n: "n < 2 ^ 16" using assms(3) by (simp add: ring_task_def)
  have ok: "rank_ok n (reduce_stats nb us bw) i (g_ranks r ! i) (world (g_platform r))" using assms(1,2) by (simp add: ring_inv_def)
  show ?thesis
  proof (cases "g_ranks r ! i")
    case Starting
    then show ?thesis using start_moves [OF assms(1,2) Starting n, of np t] Starting by (simp add: can_move_def)
  next
    case (Connected cid ctx)
    then show ?thesis using registration_moves [OF assms(1,2) Connected n, of np t] Connected by (simp add: can_move_def)
  next
    case (Registered cid ctx sid)
    then show ?thesis using jetty_moves [OF assms(1,2) Registered n, of np t] Registered by (simp add: can_move_def)
  next
    case (Ring_Ready cid h)
    then show ?thesis using reduction_moves [OF assms(1,2) Ring_Ready _ assms(3)] Ring_Ready by (simp add: can_move_def rank_move_def Let_def)
  next
    case (Reduced cid h st)
    then show ?thesis using closing_moves [OF assms(1,2) Reduced, of np t] Reduced by (simp add: can_move_def rank_move_def Let_def)
  next
    case (Done st)
    then show ?thesis by (simp add: can_move_def rank_move_def Let_def)
  next
    case (Raised e)
    then show ?thesis using ok by simp
  qed
qed

text \<open>How far the run is.\<close>

definition progress :: "ring_run \<Rightarrow> nat" where
  "progress r = sum_list (map stage (g_ranks r))"

lemma ring_step_ok:
  assumes "ring_step np t r r'" "ring_inv n (reduce_stats nb us bw) v0 r" "ring_task n np t nb us bw v0"
  shows "ring_inv n (reduce_stats nb us bw) v0 r' \<and> progress r' = Suc (progress r)"
  using assms(1)
proof (cases rule: ring_step.cases)
  case (Rank_Moves i pf1 s1)
  have i: "i < n" using Rank_Moves(2) assms(2) by (simp add: ring_inv_def)
  have "move_ok n (reduce_stats nb us bw) v0 r i (pf1, s1)"
    using rank_moves [OF assms(2) i assms(3)] Rank_Moves(3) by (auto split: if_splits)
  then have m: "stage s1 = Suc (stage (g_ranks r ! i))" "ring_inv n (reduce_stats nb us bw) v0 r'" using Rank_Moves(1) by (simp_all add: move_ok_def)
  have "progress r' = Suc (progress r)"
    using m(1) Rank_Moves(1,2) elem_le_sum_list [of i "map stage (g_ranks r)"] by (simp add: progress_def map_update sum_list_update)
  then show ?thesis using m(2) by simp
qed

lemma stage_le: "stage s \<le> 5"
  by (cases s) simp_all

lemma progress_le: "length (g_ranks r) = n \<Longrightarrow> progress r \<le> 5 * n"
  using sum_list_mono [of "g_ranks r" stage "\<lambda>s. 5"] stage_le by (simp add: progress_def sum_list_triv)

lemma all_done:
  assumes "progress r = 5 * length (g_ranks r)" "s \<in> set (g_ranks r)"
  shows "stage s = 5"
proof -
  have "\<forall>s\<in>set rs. stage s = 5" if "sum_list (map stage rs) = 5 * length rs" for rs
    using that
  proof (induction rs)
    case (Cons x rs)
    have "sum_list (map stage rs) \<le> 5 * length rs" using sum_list_mono [of rs stage "\<lambda>s. 5"] stage_le by (simp add: sum_list_triv)
    then show ?case using Cons stage_le [of x] by simp
  qed simp
  then show ?thesis using assms by (simp add: progress_def)
qed

lemma somebody_moves:
  assumes "\<exists>s\<in>set rs. stage s < 5"
  shows "\<exists>i<length rs. can_move rs i"
proof (cases "all_arrived 3 rs")
  case False
  then show ?thesis by (auto simp: all_arrived_def list_all_length can_move_def not_le)
next
  case three: True
  show ?thesis
  proof (cases "all_arrived 4 rs")
    case False
    then obtain i where "i < length rs" "stage (rs ! i) < 4" by (auto simp: all_arrived_def list_all_length not_le)
    moreover from this three have "3 \<le> stage (rs ! i)" by (simp add: all_arrived_def list_all_length)
    ultimately show ?thesis using three by (auto simp: can_move_def intro!: exI [of _ i])
  next
    case True
    obtain i where "i < length rs" "stage (rs ! i) < 5" using assms by (auto simp: in_set_conv_nth)
    moreover from this True have "4 \<le> stage (rs ! i)" by (simp add: all_arrived_def list_all_length)
    ultimately show ?thesis using True by (auto simp: can_move_def intro!: exI [of _ i])
  qed
qed

lemma ring_goes_on:
  assumes "ring_inv n (reduce_stats nb us bw) v0 r" "ring_task n np t nb us bw v0" "progress r < 5 * n"
  shows "\<exists>r'. ring_step np t r r'"
proof -
  have n: "length (g_ranks r) = n" using assms(1) by (simp add: ring_inv_def)
  have "\<exists>s\<in>set (g_ranks r). stage s < 5"
  proof (rule ccontr)
    assume "\<not> ?thesis"
    then have "sum_list (map (\<lambda>s. 5) (g_ranks r)) \<le> sum_list (map stage (g_ranks r))" by (intro sum_list_mono) (auto simp: not_less)
    then show False using assms(3) n by (simp add: progress_def sum_list_triv)
  qed
  then obtain i where i: "i < n" "can_move (g_ranks r) i" using somebody_moves n by blast
  then obtain pf1 s1 where "rank_move np t (g_ranks r) i (g_platform r) = Some (pf1, s1)" using rank_moves [OF assms(1) i(1) assms(2)] by auto
  then show ?thesis using ring_step.Rank_Moves i(1) n by blast
qed

text \<open>The run as an instance of the contract.\<close>

interpretation ring: scheduled "ring_step np t" "\<lambda>r. ring_inv n (reduce_stats nb us bw) v0 r \<and> ring_task n np t nb us bw v0" progress "5 * n"
  for np t n nb us bw v0
proof
  show "(ring_inv n (reduce_stats nb us bw) v0 r' \<and> ring_task n np t nb us bw v0) \<and> progress r' = Suc (progress r)"
    if "ring_inv n (reduce_stats nb us bw) v0 r \<and> ring_task n np t nb us bw v0" "ring_step np t r r'" for r r'
    using that ring_step_ok [OF that(2)] by blast
  show "progress r \<le> 5 * n" if "ring_inv n (reduce_stats nb us bw) v0 r \<and> ring_task n np t nb us bw v0" for r
    using that progress_le by (auto simp: ring_inv_def)
  show "\<exists>r'. ring_step np t r r'" if "ring_inv n (reduce_stats nb us bw) v0 r \<and> ring_task n np t nb us bw v0" "progress r < 5 * n" for r
    using that ring_goes_on by blast
qed

lemma ring_start_ok:
  assumes "w = new_platform bw hop clock" "link_ok (w_switch (world w))"
  shows "ring_inv n st (w_switch (world w)) (ring_start n w) \<and> progress (ring_start n w) = 0"
proof -
  have "all_arrived k (replicate n Starting) \<or> quiet (world w)" for k using assms(1) by (simp add: quiet_def)
  then show ?thesis
    using assms by (simp add: ring_inv_def ring_start_def world_ok_def only_relayed_def phases_ok_def progress_def sum_list_replicate)
qed

lemma ring_complete:
  assumes "ring_inv n st v0 r" "progress r = 5 * n"
  shows "rank_results 0 (g_ranks r) = Inr (replicate n st)" "nodes (daemon (p_server (g_platform r))) = []"
proof -
  have n: "length (g_ranks r) = n" using assms(1) by (simp add: ring_inv_def)
  have fin: "g_ranks r ! i = Done st \<and> v_conn (w_switch (world (g_platform r))) (int i + 1) = None" if "i < n" for i
  proof -
    have "stage (g_ranks r ! i) = 5" using all_done [of r] assms(2) n that by simp
    moreover have "rank_ok n st i (g_ranks r ! i) (world (g_platform r))" using assms(1) that by (simp add: ring_inv_def)
    ultimately show ?thesis by (cases "g_ranks r ! i") simp_all
  qed
  have "g_ranks r = replicate n (Done st)" using n fin by (intro nth_equalityI) simp_all
  moreover have "rank_results k (replicate n (Done st)) = Inr (replicate n st)" for k by (induction n arbitrary: k) simp_all
  ultimately show "rank_results 0 (g_ranks r) = Inr (replicate n st)" by simp
  have "v_conn (w_switch (world (g_platform r))) m = None" for m
  proof (cases "m \<in> {1..int n}")
    case True
    then have "nat (m - 1) < n" "int (nat (m - 1)) + 1 = m" by auto
    then show ?thesis using fin [of "nat (m - 1)"] by simp
  next
    case False
    then show ?thesis using assms(1) by (simp add: ring_inv_def world_ok_def)
  qed
  then show "nodes (daemon (p_server (g_platform r))) = []" by (intro no_nodes) (simp add: fun_eq_iff)
qed

lemma ring_times:
  assumes "0 < nb" "nb < 2 ^ 62" "n < 2 ^ 16"
  shows "\<exists>us bps. reduce_latency (JFloat lat) (int n) nb (min nb 65536) = Inr us \<and> collective_bandwidth nb us = Inr bps"
proof -
  have i: "\<exists>q. int_ratio nb c = Inr q" if "0 < c" for c
  proof -
    have "nb < (2 ^ 1024 - 2 ^ 970) * 1" using assms(2) by simp
    also have "\<dots> \<le> (2 ^ 1024 - 2 ^ 970) * \<bar>c\<bar>" using that by (intro mult_left_mono) simp_all
    finally show ?thesis using that assms(1) by (simp add: int_ratio_def)
  qed
  obtain q m where q: "int_ratio nb (min nb 65536) = Inr q" "int_ratio nb (100 * 1024 * 1024) = Inr m"
    using i [of "min nb 65536"] i [of "100 * 1024 * 1024"] assms(1) by auto
  have "\<bar>2 * (int n - 1)\<bar> < 2 ^ 17" using assms(3) by simp
  then have "\<exists>x. float_of_int (2 * (int n - 1)) = Inr x" by (simp add: float_of_int_def)
  then have "\<exists>us. reduce_latency (JFloat lat) (int n) nb (min nb 65536) = Inr us"
    using q by (auto simp: reduce_latency_def fdiv_def)
  then obtain us where us: "reduce_latency (JFloat lat) (int n) nb (min nb 65536) = Inr us" by blast
  have "5 \<le> us" using reduce_latency_floor [OF us] assms(1) by simp
  then have "0 < us" "fl (us / 1000000) \<noteq> 0" using fl_pos_pos [of "us / 1000000"] by simp_all
  then have "\<exists>bps. collective_bandwidth nb us = Inr bps" using i [of "1024 ^ 3"] by (auto simp: collective_bandwidth_def fdiv_def)
  then show ?thesis using us by blast
qed

text \<open>
  C10. Example 04 ends well under every schedule. On a fresh switch, for two or more ranks and any tensor with
  a size that is not zero: however the constructors, reductions and closes of the ranks interleave, the run
  never gets stuck before its end and takes exactly five calls per rank; although frames of a neighbour reach
  a rank before its own answer, no call raises; in the end every rank has the same result, computed from the
  latency of its write, and no node is attached.
\<close>

theorem ring_reduction_completes:
  assumes "fl bw = bw" "1 \<le> bw" "bw < 10 ^ 15" "0 \<le> hop" "hop \<le> 2 ^ 30"
    and "2 \<le> n" "n < 2 ^ 16" "get_bytes_and_len np t = Inr (nb, l)" "0 < nb" "nb < 2 ^ 62"
    and "lat = latency_of (min nb 65536) (new_fabric bw hop)" "r0 = ring_start n (new_platform bw hop clock)"
  shows "\<exists>us bps. reduce_latency (JFloat lat) (int n) nb (min nb 65536) = Inr us \<and> collective_bandwidth nb us = Inr bps
    \<and> (\<exists>r. (ring_step np t ^^ (5 * n)) r0 r)
    \<and> (\<forall>k r. (ring_step np t ^^ k) r0 r \<longrightarrow> k \<le> 5 * n
        \<and> (k < 5 * n \<longrightarrow> (\<exists>r'. ring_step np t r r'))
        \<and> (k = 5 * n \<longrightarrow> rank_results 0 (g_ranks r) = Inr (replicate n (reduce_stats nb us bps))
              \<and> nodes (daemon (p_server (g_platform r))) = []))"
proof -
  let ?w = "new_platform bw hop clock" and ?step = "ring_step np t"
  let ?v = "w_switch (world ?w)"
  have link: "link_ok ?v" using assms(1-5) by simp
  obtain us bps where t: "reduce_latency (JFloat lat) (int n) nb (min nb 65536) = Inr us" "collective_bandwidth nb us = Inr bps"
    using ring_times [OF assms(9,10,7)] by blast
  have task: "ring_task n np t nb us bps ?v" using assms(6-9,11) t by (auto simp: ring_task_def)
  have start: "ring_inv n (reduce_stats nb us bps) ?v r0 \<and> ring_task n np t nb us bps ?v" "progress r0 = 0"
    using ring_start_ok [OF refl link] task assms(12) by simp_all
  have "rank_results 0 (g_ranks r) = Inr (replicate n (reduce_stats nb us bps)) \<and> nodes (daemon (p_server (g_platform r))) = []"
    if "(?step ^^ (5 * n)) r0 r" for r using ring.steps_counted [OF that start] ring_complete by blast
  then show ?thesis using t ring.every_schedule_ends [OF start] by blast
qed

theorem ring_reduction_completes_witness:
  "\<exists>r st. (ring_step (None :: unit numpy option) (ones 16) ^^ 20) (example_04 (new_platform 800 15 (\<lambda>i. 0))) r
    \<and> rank_results 0 (g_ranks r) = Inr [st, st, st, st] \<and> st_bytes st = 16777216 \<and> nodes (daemon (p_server (g_platform r))) = []"
proof -
  have "fl 800 = 800" using fl_of_int [of 800] by simp
  moreover have "get_bytes_and_len (None :: unit numpy option) (ones 16) = Inr (16777216, 4194304)" by (simp add: ones_def)
  ultimately obtain us bps r where "(ring_step (None :: unit numpy option) (ones 16) ^^ 20) (ring_start 4 (new_platform 800 15 (\<lambda>i. 0))) r"
      "rank_results 0 (g_ranks r) = Inr (replicate 4 (reduce_stats 16777216 us bps))" "nodes (daemon (p_server (g_platform r))) = []"
    using ring_reduction_completes [of 800 15 4 "None :: unit numpy option" "ones 16" 16777216 4194304 _ _ "\<lambda>i. 0", OF _ _ _ _ _ _ _ _ _ _ refl refl]
    by fastforce
  moreover have "replicate 4 x = [x, x, x, x]" for x :: collective_stats by (simp add: numeral_eq_Suc)
  ultimately show ?thesis
    by (intro exI [of _ r] exI [of _ "reduce_stats 16777216 us bps"]) (simp add: example_04_def reduce_stats_def)
qed

end
