(* ===== verification/Secure_Calls.thy ===== *)
theory Secure_Calls
  imports Remote_Calls
begin

text \<open>
  Protected writes against the switch (\<open>unifiedbus/cip.py\<close> with \<open>daemon/cip.py\<close> and \<open>daemon/fabric.py\<close>), as
  exchanges of the platform: the encrypted write of a secure jetty, and packets built and sent by hand.
\<close>

section \<open>The engine of the switch\<close>

text \<open>The numbers \<open>S\<close> have passed the window of an engine with the suite and window of the daemon.\<close>

definition cip_ready :: "cip_engine \<Rightarrow> (int \<times> int) set \<Rightarrow> bool" where
  "cip_ready eng S \<longleftrightarrow> cipher_suite eng = CIP_SUITE_AES_256_GCM \<and> anti_replay_window_size eng = 64 \<and> window_rel eng S"

lemma cip_ready_new: "cip_ready (new_engine CIP_SUITE_AES_256_GCM 64) {}"
  using window_rel_new by (simp add: cip_ready_def new_engine_def)

lemma suite_active: "cipher_suite eng = CIP_SUITE_AES_256_GCM \<Longrightarrow> cipher_suite eng \<noteq> CIP_SUITE_NONE"
  by (simp add: CIP_SUITE_AES_256_GCM_def CIP_SUITE_NONE_def)

lemma fields_u32: "u32 token \<Longrightarrow> u32 s \<Longrightarrow> cip_fields_ok CIP_SUITE_AES_256_GCM token s"
  by (simp add: cip_fields_ok_def u32_def CIP_SUITE_AES_256_GCM_def)

lemma protected_encrypts:
  assumes "cipher_suite eng = CIP_SUITE_AES_256_GCM" "u32 token" "u32 s" "pay \<noteq> []" "length pay \<le> 2 ^ 32"
  shows "\<exists>eng1 ct. encrypt_and_tag eng pay token s = (eng1, Inr (ct, tag_of CIP_SUITE_AES_256_GCM token s ct))
    \<and> cipher_suite eng1 = CIP_SUITE_AES_256_GCM \<and> length ct = length pay"
proof -
  obtain ks where ks: "keystream (key_of token) (nonce_of token s) (length pay) = Inr ks"
    using keystream_total [of "length pay"] assms(5) by auto
  show ?thesis
    using encrypt_active [OF suite_active [OF assms(1)] assms(4) fields_u32 [OF assms(2,3), folded assms(1)] ks]
      keystream_length [OF ks] assms(1) by (simp add: length_xor_bytes)
qed

lemma decrypt_keeps_ready:
  assumes "cip_ready eng S" "\<not> abstract_refuses 64 S s src" "ct \<noteq> []"
  shows "cip_ready (fst (decrypt_and_verify eng ct tag token s src)) (insert (src, s) S)"
  using assms decrypt_moves_window [OF suite_active assms(3), of eng S s src tag token] by (simp add: cip_ready_def)

lemma protected_decrypts:
  assumes "cip_ready rcv S" "\<not> abstract_refuses 64 S s src" "cipher_suite eng = CIP_SUITE_AES_256_GCM"
    and "encrypt_and_tag eng pay token s = (eng1, Inr (ct, tag))" "u32 token" "u32 s" "pay \<noteq> []" "length pay \<le> 2 ^ 32"
  shows "\<exists>rcv1. decrypt_and_verify rcv ct tag token s src = (rcv1, Inr (True, pay, ''OK'')) \<and> cip_ready rcv1 (insert (src, s) S)"
proof -
  have "snd (decrypt_and_verify rcv ct tag token s src) = Inr (True, pay, ''OK'')"
    using encrypted_decrypts [OF _ _ _ , of eng token s pay rcv S src] fields_u32 [OF assms(5,6)] assms(1-4,8)
    by (auto simp: cip_ready_def)
  moreover have "length ct = length pay" using encrypt_lengths assms(4) by blast
  then have "ct \<noteq> []" using assms(7) by auto
  ultimately show ?thesis using decrypt_keeps_ready [OF assms(1,2), of ct tag token] by (metis prod.collapse)
qed

text \<open>A packet made by hand gets through exactly if its tag is right.\<close>

lemma forged_decides:
  assumes "cip_ready rcv S" "\<not> abstract_refuses 64 S s src" "u32 token" "u32 s" "ct \<noteq> []" "length ct \<le> 2 ^ 32"
  shows "\<exists>rcv1 valid plain msg. decrypt_and_verify rcv ct tag token s src = (rcv1, Inr (valid, plain, msg))
    \<and> (valid \<longleftrightarrow> tag = tag_of CIP_SUITE_AES_256_GCM token s ct) \<and> (\<not> valid \<longrightarrow> msg = tamper_message)
    \<and> cip_ready rcv1 (insert (src, s) S)"
proof -
  have "if tag = tag_of CIP_SUITE_AES_256_GCM token s ct
      then \<exists>p. snd (decrypt_and_verify rcv ct tag token s src) = Inr (True, p, ''OK'') \<and> length p = length ct
      else snd (decrypt_and_verify rcv ct tag token s src) = Inr (False, [], tamper_message)"
    using acceptance_is_tag_equality [OF suite_active assms(5), of rcv token s S src tag] fields_u32 [OF assms(3,4)] assms(1,2,6)
    by (simp add: cip_ready_def)
  moreover obtain rcv1 r where "decrypt_and_verify rcv ct tag token s src = (rcv1, r)" by fastforce
  ultimately show ?thesis using decrypt_keeps_ready [OF assms(1,2,5), of tag token] by (auto split: if_splits)
qed

text \<open>A number within the window that has passed is answered as a duplicate, whatever the packet holds.\<close>

lemma duplicate_refused:
  assumes "cip_ready rcv S" "(src, s) \<in> S" "\<And>q. (src, q) \<in> S \<Longrightarrow> q - s < 64" "ct \<noteq> []"
  shows "\<exists>rcv1. decrypt_and_verify rcv ct tag token s src = (rcv1, Inr (False, [], duplicate_message s)) \<and> cip_ready rcv1 S"
proof -
  have w: "anti_replay_window_size rcv = 64" "window_rel rcv S" "cipher_suite rcv \<noteq> CIP_SUITE_NONE"
    using assms(1) suite_active [of rcv] by (simp_all add: cip_ready_def)
  obtain h b where hb: "dict_get (highest_seq_seen rcv) src = Some h" "dict_get (replay_bitmap rcv) src = Some b" "(src, h) \<in> S" "s \<le> h"
      "\<And>d. 0 \<le> d \<Longrightarrow> d < 64 \<Longrightarrow> bit b (nat d) \<longleftrightarrow> (src, h - d) \<in> S"
    using w(1,2) assms(2) by (fastforce simp: window_rel_def window_entry_def split: option.splits)
  have d: "0 \<le> h - s" "h - s < 64" using hb(4) assms(3) [OF hb(3)] by simp_all
  then have "bit b (nat (h - s))" using hb(5) [of "h - s"] assms(2) by simp
  then have "replay_check rcv s src = (rcv\<lparr>total_replay_rejections := total_replay_rejections rcv + 1\<rparr>, Inr (Some (duplicate_message s)))"
    using hb(1,2) d w(1) by (simp add: replay_check_def Let_def bit_iff_and_push_bit_not_eq_0)
  then show ?thesis using assms(1,4) w(3) by (simp add: decrypt_and_verify_def cip_ready_def)
qed

section \<open>Packets on the wire\<close>

text \<open>\<open>ctx.device.send_sync(pkt)\<close>.\<close>

definition raw_send :: "packet \<Rightarrow> bytes list \<Rightarrow> urma_context \<Rightarrow> urma_context \<times> bytes \<times> packet result" where
  "raw_send p cs ctx = (case send_sync p cs (u_device ctx) of (dev, bs, r) \<Rightarrow> (ctx\<lparr>u_device := dev\<rparr>, bs, r))"

lemma idle_device: "dev = device_at n ty s \<Longrightarrow> dev\<lparr>pending_replies := dict_del q (pending_replies dev)\<rparr> = dev"
  by (simp add: device_at_def new_device_def)

text \<open>A protected write the engine lets through is stored and relayed.\<close>

lemma protected_write_served:
  assumes "\<And>cs. op cs ctx = (case send_sync p cs dev of (dev1, bs, r) \<Rightarrow> (g dev1 r, bs, h r))"
    and "dev = device_at n ty t" "seq_num p = s" "u32 s" "wf_packet p" "opcode p = OP_URMA_WRITE" "is_cip_encrypted p"
    and "metadata p = JObj [(''segment_id'', JInt sid), (''offset'', JInt off)]" "u16 (src_node p)"
    and "accessible (world pf) (dst_node p) sid off len True (token_id p) tcid m" "len = int (length (payload p))"
    and "decrypt_and_verify (v_cip (w_switch (world pf))) (payload p) (auth_tag p) (token_id p) s (src_node p) = (eng, Inr (True, plain, msg))"
    and "online cid cur (world pf)" "link_ok (w_switch (world pf))" "tcid \<noteq> cid"
    and "r = write_completed p (view_latency len (w_switch (world pf)))"
  shows "\<exists>pf1 f. exchange cid op ctx pf = (pf1, g dev (Inr r), h (Inr r))
    \<and> world pf1 = served cid cur [(tcid, f)] (store (dst_node p) off plain ((w_switch (world pf))\<lparr>v_cip := eng\<rparr>)) (world pf)"
proof -
  note a = assms(10) [unfolded accessible_def]
  let ?v = "w_switch (world pf)"
  have "int (length m) < 2 ^ 32" using a by simp
  then have len: "0 \<le> len" "len < 2 ^ 32" "off < 10 ^ 20" using a by simp_all
  have rng: "names_range p sid off" using assms(8) by (simp add: names_range_def int_index_def int_get_def meta_index_def meta_get_def)
  have pay: "length (payload p) < 2 ^ 32" using len(2) assms(11) by simp
  obtain f where f: "serialize p = Inr f"
    using serialize_access [of p sid off False 0] assms(3,4,6,8,9) a len pay by auto
  obtain b where b: "serialize r = Inr b"
    using serialize_completed(1) [of p ?v len] assms(3,4,9,14,16) a len pay by auto
  have bw: "v_bandwidth ?v \<noteq> 0" using assms(14) by (auto simp: link_ok_def)
  obtain fab1 where fab1: "process_packet (exchange_env cid pf) p cur (daemon (p_server pf)) = (fab1, [(tcid, f)], Inr (Some r, cur))"
      "view fab1 = store (dst_node p) off plain (?v\<lparr>v_cip := eng\<rparr>)"
    using served_protected_write [OF assms(6,7) rng assms(11), of "daemon (p_server pf)" eng plain msg m tcid "exchange_env cid pf" f cur]
      assms(3,12,16) a len bw f by auto
  have run: "v_running (store (dst_node p) off plain (?v\<lparr>v_cip := eng\<rparr>))" using assms(13) by (simp add: store_def online_def)
  have "wf_packet r" unfolding assms(16) by (rule completed_view_wf(1) [OF assms(14) len(1,2)])
  then show ?thesis
    using exchange_send [where op = op and g = g and h = h, OF assms(1) _ assms(5) f assms(13) fab1 run _ b _ idle_device [OF assms(2), symmetric]] assms(2,15) by auto
qed

text \<open>A packet the engine refuses is answered with the engine's message.\<close>

lemma serialize_refusal:
  assumes "u16 (src_node p)" "u32 (seq_num p)" "length (quote_str msg) \<le> 1000"
  shows "\<exists>a. serialize (error_reply p msg) = Inr a"
  using assms by (intro serialize_fits) (simp_all add: error_reply_def answer_defs u16_def u32_def quote_str_def [of "''error''"] escape_char_def)

lemma refusal_facts: "wf_packet (error_reply p msg)" "opcode (error_reply p msg) = OP_RESP_ERR"
  "meta_get ''error'' d (error_reply p msg) = Inr (JStr msg)"
  by (simp_all add: error_reply_def switch_reply_def reply_packet_def wf_ub_packet FLAG_NONE_def) (simp_all add: ub_packet_def meta_get_def)

lemma protected_write_refused:
  assumes "\<And>cs. op cs ctx = (case send_sync p cs dev of (dev1, bs, r) \<Rightarrow> (g dev1 r, bs, h r))"
    and "dev = device_at n ty t" "seq_num p = s" "u32 s" "wf_packet p" "opcode p = OP_URMA_WRITE" "is_cip_encrypted p"
    and "metadata p = JObj [(''segment_id'', JInt sid), (''offset'', JInt off)]" "u16 (src_node p)" "u16 (dst_node p)" "u32 (token_id p)"
    and "0 \<le> sid" "sid < 10 ^ 20" "0 \<le> off" "off < 10 ^ 20" "length (payload p) < 2 ^ 32"
    and "decrypt_and_verify (v_cip (w_switch (world pf))) (payload p) (auth_tag p) (token_id p) s (src_node p) = (eng, Inr (False, plain, msg))"
    and "online cid cur (world pf)" "length (quote_str msg) \<le> 1000" "r = error_reply p msg"
  shows "\<exists>pf1. exchange cid op ctx pf = (pf1, g dev (Inr r), h (Inr r))
    \<and> world pf1 = served cid cur [] ((w_switch (world pf))\<lparr>v_cip := eng\<rparr>) (world pf)"
proof -
  let ?v = "w_switch (world pf)"
  obtain f where f: "serialize p = Inr f"
    using serialize_access [of p sid off False 0] assms(3,4,6,8-16) by auto
  obtain b where b: "serialize r = Inr b" using serialize_refusal [of p msg] assms(3,4,9,19,20) by auto
  obtain fab1 where fab1: "process_packet (exchange_env cid pf) p cur (daemon (p_server pf)) = (fab1, [], Inr (Some r, cur))"
      "view fab1 = ?v\<lparr>v_cip := eng\<rparr>"
    using served_refusal [OF assms(7), of "daemon (p_server pf)" eng plain msg "exchange_env cid pf" cur] assms(3,17,20) by auto
  have run: "v_running (?v\<lparr>v_cip := eng\<rparr>)" using assms(18) by (simp add: online_def)
  show ?thesis
    using exchange_send [where op = op and g = g and h = h, OF assms(1) _ assms(5) f assms(18) fab1 run _ b _ idle_device [OF assms(2), symmetric]] assms(2,20) refusal_facts(1)
    by auto
qed

section \<open>The encrypted write of a secure jetty\<close>

lemma write_encrypted_served:
  assumes "online cid cur (world pf)" "link_ok (w_switch (world pf))" "u_device ctx = device_at n ty s" "u16 (u_node ctx)" "u32 s"
    and "dict_get (u_jetties ctx) jid = Some j" "dict_get (u_segments ctx) lsid = Some seg" "j_cip j = Some eng"
    and "cipher_suite eng = CIP_SUITE_AES_256_GCM" "pay = local_bytes seg lo len" "len = int (length pay)" "pay \<noteq> []"
    and "cip_ready (v_cip (w_switch (world pf))) S" "\<not> abstract_refuses 64 S s (u_node ctx)"
    and "accessible (world pf) (j_remote_node j) sid off len True (j_token j) tcid m" "tcid \<noteq> cid"
  shows "\<exists>pf1 f eng1 rcv. exchange cid (write_encrypted jid lsid lo sid off len) ctx pf
      = (pf1, (next_request ctx)\<lparr>u_jetties := dict_set jid (j\<lparr>j_cip := Some eng1\<rparr>) (u_jetties ctx)\<rparr>,
         Inr (JFloat (view_latency len (w_switch (world pf)))))
    \<and> cipher_suite eng1 = CIP_SUITE_AES_256_GCM \<and> cip_ready rcv (insert (u_node ctx, s) S)
    \<and> world pf1 = served cid cur [(tcid, f)] (store (j_remote_node j) off pay ((w_switch (world pf))\<lparr>v_cip := rcv\<rparr>)) (world pf)"
proof -
  note a = assms(15) [unfolded accessible_def]
  have "int (length pay) < 2 ^ 32" using a assms(11) by simp
  then have l: "length pay \<le> 2 ^ 32" by simp
  have tok: "u32 (j_token j)" using a by simp
  obtain eng1 ct where e: "encrypt_and_tag eng pay (j_token j) s = (eng1, Inr (ct, tag_of CIP_SUITE_AES_256_GCM (j_token j) s ct))"
      "cipher_suite eng1 = CIP_SUITE_AES_256_GCM" "length ct = length pay"
    using protected_encrypts [OF assms(9) tok assms(5,12) l] by blast
  let ?tag = "tag_of CIP_SUITE_AES_256_GCM (j_token j) s ct"
  let ?p = "protected_packet ctx j sid off ct ?tag s"
  obtain rcv where d: "decrypt_and_verify (v_cip (w_switch (world pf))) ct ?tag (j_token j) s (u_node ctx) = (rcv, Inr (True, pay, ''OK''))"
      "cip_ready rcv (insert (u_node ctx, s) S)"
    using protected_decrypts [OF assms(13,14,9) e(1) tok assms(5,12) l] by blast
  let ?ctx = "ctx\<lparr>u_jetties := dict_set jid (j\<lparr>j_cip := Some eng1\<rparr>) (u_jetties ctx)\<rparr>"
  let ?h = "\<lambda>r. rbind r (\<lambda>resp. if opcode resp \<noteq> OP_RESP_OK then Inl (failure ''CIP Secure Write rejected: '' ''CIP Write failed'' resp)
      else latency_field resp)"
  have dev: "(u_device ctx)\<lparr>dev_seq := dev_seq (u_device ctx) + 1\<rparr> = device_at n ty (s + 1)" "dev_seq (u_device ctx) = s"
    using assms(3) by (simp_all add: device_at_def)
  have form: "write_encrypted jid lsid lo sid off len cs ctx
      = (case send_sync ?p cs (device_at n ty (s + 1)) of (dev1, bs, r) \<Rightarrow> (?ctx\<lparr>u_device := dev1\<rparr>, bs, ?h r))" for cs
    using assms(6-8) e(1) dev by (simp add: write_encrypted_def get_seq_def assms(10) [symmetric] Let_def split: prod.split)
  have t: "length ?tag = 16" by (simp add: tag_of_def)
  have meta: "metadata ?p = JObj [(''segment_id'', JInt sid), (''offset'', JInt off)]" by (simp add: protected_packet_def ub_packet_def)
  let ?ctx1 = "(next_request ctx)\<lparr>u_jetties := dict_set jid (j\<lparr>j_cip := Some eng1\<rparr>) (u_jetties ctx)\<rparr>"
  let ?lat = "view_latency len (w_switch (world pf))"
  have x: "\<exists>pf1 f. exchange cid (write_encrypted jid lsid lo sid off len) ctx pf
      = (pf1, ?ctx\<lparr>u_device := device_at n ty (s + 1)\<rparr>, ?h (Inr (write_completed ?p ?lat)))
    \<and> world pf1 = served cid cur [(tcid, f)] (store (dst_node ?p) off pay ((w_switch (world pf))\<lparr>v_cip := rcv\<rparr>)) (world pf)"
    using assms(1,2,4,5,11,15,16) d(1) e(3) t
    by (intro protected_write_served [where op = "write_encrypted jid lsid lo sid off len" and g = "\<lambda>d r. ?ctx\<lparr>u_device := d\<rparr>" and h = ?h
          and s = s and sid = sid and m = m, OF form refl _ _ protected_wf _ _ meta]) simp_all
  have c: "?ctx\<lparr>u_device := device_at n ty (s + 1)\<rparr> = ?ctx1" using assms(3) by (simp add: next_request_def)
  have h: "?h (Inr (write_completed ?p ?lat)) = Inr (JFloat ?lat)" using completed_simps(1) [of ?p] by (simp add: completed_simps(6))
  have "\<exists>pf1 f. exchange cid (write_encrypted jid lsid lo sid off len) ctx pf = (pf1, ?ctx1, Inr (JFloat ?lat))
    \<and> world pf1 = served cid cur [(tcid, f)] (store (j_remote_node j) off pay ((w_switch (world pf))\<lparr>v_cip := rcv\<rparr>)) (world pf)"
    using x unfolding c h protected_packet_simps .
  then show ?thesis using e(2) d(2) by blast
qed

end
