(* ===== verification/Example_Security.thy ===== *)
theory Example_Security
  imports Secure_Calls Example_Programs
begin

text \<open>
  Example 06 (\<open>examples/06_cip_encrypted_memory.py\<close>): an encrypted transfer, a packet with one byte of its
  ciphertext flipped, and the same packet once more. What the program prints is left out, except the
  messages of the two attacks; nodes, token, size and data are parameters.
\<close>

section \<open>The program\<close>

text \<open>\<open>corrupted_ciphertext[5] ^= 0xFF\<close> on a copy.\<close>

definition flip_byte :: "nat \<Rightarrow> bytes \<Rightarrow> bytes result" where
  "flip_byte i bs = (if i < length bs then Inr (bs[i := bs ! i XOR 0xFF]) else Inl IndexError)"

definition tampered_packet :: "int \<Rightarrow> int \<Rightarrow> int \<Rightarrow> int \<Rightarrow> bytes \<Rightarrow> bytes \<Rightarrow> packet" where
  "tampered_packet a b token sid tag ct =
     ub_packet OP_URMA_WRITE a b token 0 FLAG_CIP_ENCRYPTED 99 tag (JObj [(''segment_id'', JInt sid), (''offset'', JInt 0)]) ct"

text \<open>What an attack prints: the error of the answer, or nothing when the packet was accepted.\<close>

definition blocked :: "packet \<Rightarrow> json option result" where
  "blocked resp = (if opcode resp = OP_RESP_ERR then rbind (meta_get ''error'' JNull resp) (\<lambda>e. Inr (Some e)) else Inr None)"

text \<open>The two attacks, which use the engine of the secure jetty.\<close>

definition attacks ::
  "nat \<Rightarrow> nat \<Rightarrow> int \<Rightarrow> int \<Rightarrow> int \<Rightarrow> int \<Rightarrow> int \<Rightarrow> bytes \<Rightarrow> urma_context \<Rightarrow> platform \<Rightarrow> platform \<times> (json option \<times> json option) result"
where
  "attacks ac bc a b token jetty bseg weights ctx pf =
     (case Option.bind (dict_get (u_jetties ctx) jetty) j_cip of
        None \<Rightarrow> (pf, Inl AttributeError)
      | Some eng \<Rightarrow>
          (case rbind (snd (encrypt_and_tag eng weights token 99)) (\<lambda>(ct, tag). rbind (flip_byte 5 ct) (\<lambda>bad. Inr (tag, bad))) of
             Inl e \<Rightarrow> (pf, Inl e)
           | Inr (tag, bad) \<Rightarrow>
               let p = tampered_packet a b token bseg tag bad in
               run_call ac (raw_send p) ctx (\<lambda>ctx1 resp pf1.
                 case blocked resp of
                   Inl e \<Rightarrow> (pf1, Inl e)
                 | Inr msg1 \<Rightarrow>
                     run_call ac (raw_send p) ctx1 (\<lambda>ctx2 resp2 pf2.
                       case blocked resp2 of
                         Inl e \<Rightarrow> (pf2, Inl e)
                       | Inr msg2 \<Rightarrow> (hang_up bc (hang_up ac pf2), Inr (msg1, msg2))) pf1) pf))"

text \<open>The encrypted transfer and the check that the plaintext can be read back, then the attacks.\<close>

definition secure_session ::
  "int \<Rightarrow> int \<Rightarrow> int \<Rightarrow> int \<Rightarrow> bytes \<Rightarrow> nat \<Rightarrow> nat \<Rightarrow> urma_context \<Rightarrow> int \<Rightarrow> int \<Rightarrow> platform
   \<Rightarrow> platform \<times> (json \<times> json option \<times> json option) result"
where
  "secure_session a b token sz weights ac bc actx1 aseg bseg =
     (let len = int (length weights);
          (actx2, jetty) = create_secure_jetty b 1 token actx1;
          actx3 = fill_segment aseg 0 len weights actx2
      in
      run_call ac (write_encrypted jetty aseg 0 bseg 0 len) actx3 (\<lambda>actx4 lat.
      run_call ac (u_register_segment (Seg_Size sz) token ''RW'') actx4 (\<lambda>actx5 rseg.
      run_call ac (u_read jetty rseg 0 bseg 0 len) actx5 (\<lambda>actx6 rlat pf.
        case segment_bytes rseg 0 len actx6 of
          Inl e \<Rightarrow> (pf, Inl e)
        | Inr data \<Rightarrow>
            if data \<noteq> weights then (pf, Inl (AssertionError []))
            else (case attacks ac bc a b token jetty bseg weights actx6 pf of (pf1, r) \<Rightarrow> (pf1, rbind r (\<lambda>(m1, m2). Inr (lat, m1, m2))))))))"

definition secure_transfer ::
  "int \<Rightarrow> int \<Rightarrow> int \<Rightarrow> int \<Rightarrow> bytes \<Rightarrow> platform \<Rightarrow> platform \<times> (json \<times> json option \<times> json option) result"
where
  "secure_transfer a b token sz weights = two_segments a b token sz (secure_session a b token sz weights)"

definition sensitive_weights :: bytes where
  "sensitive_weights = concat (replicate 10 (encode_utf8 ''[TOP-SECRET LLM TENSOR WEIGHTS: PARTITION 001 - AES-256-GCM PROTECTED]''))"

definition example_06 :: "platform \<Rightarrow> platform \<times> (json \<times> json option \<times> json option) result" where
  "example_06 = secure_transfer 1 3 0x55AA1234 (64 * 1024) sensitive_weights"

section \<open>The attacks\<close>

declare world_simps [simp del]

text \<open>The forged tag: the tag of the ciphertext against the tag of its corrupted copy.\<close>

definition tag_collides :: "int \<Rightarrow> int \<Rightarrow> bytes \<Rightarrow> bytes \<Rightarrow> bool" where
  "tag_collides token s ct bad \<longleftrightarrow> tag_of CIP_SUITE_AES_256_GCM token s bad = tag_of CIP_SUITE_AES_256_GCM token s ct"

lemma tampered_simps:
  "opcode (tampered_packet a b token sid tag ct) = OP_URMA_WRITE" "src_node (tampered_packet a b token sid tag ct) = a"
  "dst_node (tampered_packet a b token sid tag ct) = b" "token_id (tampered_packet a b token sid tag ct) = token"
  "seq_num (tampered_packet a b token sid tag ct) = 99" "payload (tampered_packet a b token sid tag ct) = ct"
  "is_cip_encrypted (tampered_packet a b token sid tag ct)" "wf_packet (tampered_packet a b token sid tag ct)"
  "metadata (tampered_packet a b token sid tag ct) = JObj [(''segment_id'', JInt sid), (''offset'', JInt 0)]"
  "length tag = 16 \<Longrightarrow> auth_tag (tampered_packet a b token sid tag ct) = tag"
  by (simp_all add: tampered_packet_def wf_ub_packet FLAG_CIP_ENCRYPTED_def) (simp_all add: ub_packet_def is_cip_encrypted_def FLAG_CIP_ENCRYPTED_def)

lemma raw_send_form: "u_device ctx = dev \<Longrightarrow> raw_send p cs ctx = (case send_sync p cs dev of (dev1, bs, r) \<Rightarrow> (ctx\<lparr>u_device := dev1\<rparr>, bs, r))"
  by (simp add: raw_send_def)

lemma same_device: "u_device ctx = dev \<Longrightarrow> ctx\<lparr>u_device := dev\<rparr> = ctx"
  by (intro urma_context.equality) simp_all

lemma blocked_simps: "blocked (error_reply p msg) = Inr (Some (JStr msg))"
  "opcode p = OP_URMA_WRITE \<Longrightarrow> blocked (write_completed p lat) = Inr None"
  using completed_simps(1) [of p lat] by (simp_all add: blocked_def refusal_facts)

text \<open>The first attack: refused by the tag, or, with a colliding tag, taken for a genuine write.\<close>

lemma tampered_served:
  assumes "online 0 (Some a) (world pf)" "link_ok (w_switch (world pf))" "u_device ctx = device_at n ty t" "u16 a" "u16 b" "u32 token"
    and "cip_ready (v_cip (w_switch (world pf))) S" "\<not> abstract_refuses 64 S 99 a" "bad \<noteq> []"
    and "accessible (world pf) b 1 0 (int (length bad)) True token 1 m" "tag = tag_of CIP_SUITE_AES_256_GCM token 99 ct"
  shows "\<exists>pf1 resp rcv. exchange 0 (raw_send (tampered_packet a b token 1 tag bad)) ctx pf = (pf1, ctx, Inr resp)
    \<and> blocked resp = Inr (if tag_collides token 99 ct bad then None else Some (JStr tamper_message))
    \<and> cip_ready rcv (insert (a, 99) S)
    \<and> (\<exists>out plain. world pf1 = served 0 (Some a) out
          ((if tag_collides token 99 ct bad then store b 0 plain else id) ((w_switch (world pf))\<lparr>v_cip := rcv\<rparr>)) (world pf)
        \<and> fst ` set out \<subseteq> {1})"
proof -
  note acc = assms(10) [unfolded accessible_def]
  let ?p = "tampered_packet a b token 1 tag bad"
  have "length m < 2 ^ 32" "length bad \<le> length m" using acc by simp_all
  then have l: "length bad < 2 ^ 32" by (rule order.strict_trans1 [rotated])
  have t: "length tag = 16" unfolding assms(11) by (simp add: tag_of_def)
  have u: "u32 99" by (simp add: u32_def)
  have ok: "length (quote_str tamper_message) \<le> 1000" using length_quote_str [of tamper_message] by (simp add: tamper_message_def)
  obtain rcv valid plain msg where d: "decrypt_and_verify (v_cip (w_switch (world pf))) bad tag token 99 a = (rcv, Inr (valid, plain, msg))"
      "valid \<longleftrightarrow> tag_collides token 99 ct bad" "\<not> valid \<Longrightarrow> msg = tamper_message" "cip_ready rcv (insert (a, 99) S)"
    using forged_decides [OF assms(7,8,6) u assms(9) less_imp_le [OF l], of tag] assms(11) unfolding tag_collides_def by metis
  have g: "ctx\<lparr>u_device := device_at n ty t\<rparr> = ctx" by (rule same_device [OF assms(3)])
  show ?thesis
  proof (cases valid)
    case True
    have "\<exists>pf1 f. exchange 0 (raw_send ?p) ctx pf = (pf1, ctx\<lparr>u_device := device_at n ty t\<rparr>,
          Inr (write_completed ?p (view_latency (int (length bad)) (w_switch (world pf)))))
        \<and> world pf1 = served 0 (Some a) [(1, f)] (store (dst_node ?p) 0 plain ((w_switch (world pf))\<lparr>v_cip := rcv\<rparr>)) (world pf)"
      using assms(1,2,4,5,10) d(1) True u t
      by (intro protected_write_served [where op = "raw_send ?p" and g = "\<lambda>d r. ctx\<lparr>u_device := d\<rparr>" and h = "\<lambda>r. r" and p = ?p and s = 99
            and sid = 1 and off = 0 and m = m and msg = msg, OF raw_send_form [OF assms(3)] refl]) (simp_all add: tampered_simps)
    then obtain pf1 f where "exchange 0 (raw_send ?p) ctx pf = (pf1, ctx, Inr (write_completed ?p (view_latency (int (length bad)) (w_switch (world pf)))))"
      "world pf1 = served 0 (Some a) [(1, f)] (store b 0 plain ((w_switch (world pf))\<lparr>v_cip := rcv\<rparr>)) (world pf)"
      unfolding g tampered_simps by blast
    then show ?thesis
      using d(2,4) True blocked_simps(2) [OF tampered_simps(1)]
      by (intro exI [of _ pf1] exI [of _ rcv] exI conjI [rotated] exI [of _ "[(1, f)]"] exI [of _ plain]) simp_all
  next
    case False
    have "\<exists>pf1. exchange 0 (raw_send ?p) ctx pf = (pf1, ctx\<lparr>u_device := device_at n ty t\<rparr>, Inr (error_reply ?p tamper_message))
        \<and> world pf1 = served 0 (Some a) [] ((w_switch (world pf))\<lparr>v_cip := rcv\<rparr>) (world pf)"
      using assms(1,4,5,6) d(1,3) False u t l ok
      by (intro protected_write_refused [where op = "raw_send ?p" and g = "\<lambda>d r. ctx\<lparr>u_device := d\<rparr>" and h = "\<lambda>r. r" and p = ?p and s = 99
            and sid = 1 and off = 0 and plain = plain, OF raw_send_form [OF assms(3)] refl]) (simp_all add: tampered_simps)
    then show ?thesis
      unfolding g using d(2,4) False blocked_simps(1) by fastforce
  qed
qed

text \<open>The second one: the number has passed the window already.\<close>

lemma replay_served:
  assumes "online 0 (Some a) (world pf)" "u_device ctx = device_at n ty t" "u16 a" "u16 b" "u32 token"
    and "cip_ready (v_cip (w_switch (world pf))) S" "(a, 99) \<in> S" "\<And>q. (a, q) \<in> S \<Longrightarrow> q \<le> 99" "bad \<noteq> []" "length bad < 2 ^ 32" "length tag = 16"
  shows "\<exists>pf1 resp rcv. exchange 0 (raw_send (tampered_packet a b token 1 tag bad)) ctx pf = (pf1, ctx, Inr resp)
    \<and> blocked resp = Inr (Some (JStr (duplicate_message 99)))
    \<and> world pf1 = served 0 (Some a) [] ((w_switch (world pf))\<lparr>v_cip := rcv\<rparr>) (world pf)"
proof -
  let ?p = "tampered_packet a b token 1 tag bad"
  obtain rcv where d: "decrypt_and_verify (v_cip (w_switch (world pf))) bad tag token 99 a = (rcv, Inr (False, [], duplicate_message 99))"
    using duplicate_refused [OF assms(6,7) _ assms(9)] assms(8) by force
  have "length (show_int 99) \<le> 2" by (rule length_show_int) simp_all
  then have ok: "length (quote_str (duplicate_message 99)) \<le> 1000" using length_quote_str [of "duplicate_message 99"] by (simp add: duplicate_message_def)
  have "\<exists>pf1. exchange 0 (raw_send ?p) ctx pf = (pf1, ctx\<lparr>u_device := device_at n ty t\<rparr>, Inr (error_reply ?p (duplicate_message 99)))
      \<and> world pf1 = served 0 (Some a) [] ((w_switch (world pf))\<lparr>v_cip := rcv\<rparr>) (world pf)"
    using assms(1,3,4,5,10,11) d ok
    by (intro protected_write_refused [where op = "raw_send ?p" and g = "\<lambda>d r. ctx\<lparr>u_device := d\<rparr>" and h = "\<lambda>r. r" and p = ?p and s = 99
          and sid = 1 and off = 0 and plain = "[]", OF raw_send_form [OF assms(2)] refl]) (simp_all add: tampered_simps u32_def)
  then show ?thesis using same_device [OF assms(2)] blocked_simps(1) by metis
qed

lemma flipped_differs: "x XOR 0xFF \<noteq> (x :: byte)"
proof
  assume "x XOR 0xFF = x"
  then have "x XOR (x XOR 0xFF) = 0" by simp
  moreover have "x XOR (x XOR 0xFF) = 0xFF" by (simp only: xor.assoc [symmetric] xor_self_eq xor.left_neutral)
  ultimately show False by simp
qed

lemma attacks_answered:
  assumes "online 0 (Some a) (world pf)" "link_ok (w_switch (world pf))" "w_links (world pf) 1 = Some (handler (Some b))"
    and "v_conn (w_switch (world pf)) = Map.empty(a \<mapsto> 0, b \<mapsto> 1)" "a \<noteq> b" "u16 a" "u16 b" "u32 token"
    and "u_device ctx = device_at n ty t" "dict_get (u_jetties ctx) 1 = Some j" "j_cip j = Some eng" "cipher_suite eng = CIP_SUITE_AES_256_GCM"
    and "cip_ready (v_cip (w_switch (world pf))) S" "\<And>q. (a, q) \<in> S \<Longrightarrow> q < 99" "5 < length weights"
    and "accessible (world pf) b 1 0 (int (length weights)) True token 1 m"
  shows "\<exists>pf1 ct tag bad. snd (encrypt_and_tag eng weights token 99) = Inr (ct, tag) \<and> flip_byte 5 ct = Inr bad \<and> bad \<noteq> ct
    \<and> attacks 0 1 a b token 1 1 weights ctx pf
      = (pf1, Inr (if tag = tag_of CIP_SUITE_AES_256_GCM token 99 bad then None else Some (JStr tamper_message), Some (JStr (duplicate_message 99))))
    \<and> nodes (daemon (p_server pf1)) = []"
proof -
  note acc = assms(16) [unfolded accessible_def]
  have "length weights \<le> length m" "length m < 2 ^ 32" using acc by simp_all
  then have l: "length weights < 2 ^ 32" by (rule order.strict_trans1)
  have u: "u32 99" "weights \<noteq> []" using assms(15) by (auto simp: u32_def)
  obtain eng1 ct where e: "encrypt_and_tag eng weights token 99 = (eng1, Inr (ct, tag_of CIP_SUITE_AES_256_GCM token 99 ct))" "length ct = length weights"
    using protected_encrypts [OF assms(12,8) u less_imp_le [OF l]] by blast
  let ?tag = "tag_of CIP_SUITE_AES_256_GCM token 99 ct" and ?bad = "ct[5 := ct ! 5 XOR 0xFF]"
  have bad: "flip_byte 5 ct = Inr ?bad" "length ?bad = length weights" using e(2) assms(15) by (simp_all add: flip_byte_def)
  have "ct ! 5 XOR 0xFF \<noteq> ct ! 5" by (rule flipped_differs)
  then have ne: "?bad \<noteq> ct" using e(2) assms(15) by (metis nth_list_update_eq)
  have nil: "?bad \<noteq> []" using bad(2) assms(15) by auto
  have S: "\<not> abstract_refuses 64 S 99 a" using assms(14) by (force simp: abstract_refuses_def)
  let ?p = "tampered_packet a b token 1 ?tag ?bad"
  let ?msg = "if tag_collides token 99 ct ?bad then None else Some (JStr tamper_message)"
  obtain p1 resp rcv out plain where c1: "exchange 0 (raw_send ?p) ctx pf = (p1, ctx, Inr resp)" "blocked resp = Inr ?msg"
      "cip_ready rcv (insert (a, 99) S)" and
      w1: "world p1 = served 0 (Some a) out ((if tag_collides token 99 ct ?bad then store b 0 plain else id) ((w_switch (world pf))\<lparr>v_cip := rcv\<rparr>)) (world pf)"
      and out: "fst ` set out \<subseteq> {1}"
    using tampered_served [OF assms(1,2,9,6,7,8,13) S nil, of m ?tag ct] assms(16) bad(2) by auto
  have o1: "online 0 (Some a) (world p1)" using assms(1) out by (auto simp: w1 online_def view_effects)
  have r1: "cip_ready (v_cip (w_switch (world p1))) (insert (a, 99) S)" using c1(3) by (simp add: w1)
  obtain p2 resp2 rcv2 where c2: "exchange 0 (raw_send ?p) ctx p1 = (p2, ctx, Inr resp2)" "blocked resp2 = Inr (Some (JStr (duplicate_message 99)))"
      and w2: "world p2 = served 0 (Some a) [] ((w_switch (world p1))\<lparr>v_cip := rcv2\<rparr>) (world p1)"
    using replay_served [OF o1 assms(9,6,7,8) r1 _ _ nil, of ?tag] assms(14) l bad(2) by (force simp: tag_of_def)
  have "attacks 0 1 a b token 1 1 weights ctx pf = (hang_up 1 (hang_up 0 p2), Inr (?msg, Some (JStr (duplicate_message 99))))"
    using assms(10,11) e(1) bad(1) c1(2) c2(2) by (simp add: attacks_def Let_def run_call_value [OF c1(1)] run_call_value [OF c2(1)])
  moreover have "nodes (daemon (p_server (hang_up 1 (hang_up 0 p2)))) = []"
    using all_hang_up [of "[(0, a), (1, b)]" p2] assms(3-5) by (simp add: w1 w2 view_effects)
  moreover have "?msg = (if ?tag = tag_of CIP_SUITE_AES_256_GCM token 99 ?bad then None else Some (JStr tamper_message))"
    by (simp add: tag_collides_def eq_commute)
  ultimately show ?thesis using e(1) bad(1) ne by auto
qed

section \<open>The whole program\<close>

lemma encrypt_same_suite:
  "cipher_suite eng = cipher_suite eng' \<Longrightarrow> snd (encrypt_and_tag eng pay token s) = snd (encrypt_and_tag eng' pay token s)"
  by (simp add: encrypt_and_tag_def split: sum.split)

lemma secure_jetty_context:
  assumes "create_secure_jetty rn rid token ctx = (ctx1, jid)"
  shows "jid = u_next_jetty ctx" "u_node ctx1 = u_node ctx" "u_device ctx1 = u_device ctx" "u_segments ctx1 = u_segments ctx" "u_next_seg ctx1 = u_next_seg ctx"
    "dict_get (u_jetties ctx1) jid = Some (new_jetty jid rn rid token (Some (new_engine CIP_SUITE_AES_256_GCM 64)))"
  using assms by (auto simp: create_secure_jetty_def Let_def)

lemma weights_written:
  assumes "paired a b token sz (world pf)" "a \<noteq> b" "u16 a" "u16 b" "u32 token" "int (length weights) \<le> sz" "sz < 10 ^ 20"
    and "length weights \<le> LOCAL_MEMORY_SIZE" "5 < length weights" "lat = view_latency (int (length weights)) (w_switch (world pf))"
    and "k = with_segment sz token ''RW'' (new_context a (device_at a npu 2))"
    and "ram = mem_write (replicate LOCAL_MEMORY_SIZE 0) 0 weights"
  obtains k1 p1 ctx eng j tm where "create_secure_jetty b 1 token k = (k1, 1)"
    "exchange 0 (write_encrypted 1 1 0 1 0 (int (length weights))) (fill_segment 1 0 (int (length weights)) weights k1) pf = (p1, ctx, Inr (JFloat lat))"
    "u_device ctx = device_at a npu 4" "u_node ctx = a" "u_next_seg ctx = 2" "dict_get (u_jetties ctx) 1 = Some j"
    "j_remote_node j = b" "j_token j = token" "j_cip j = Some eng" "cipher_suite eng = CIP_SUITE_AES_256_GCM"
    "online 0 (Some a) (world p1)" "link_ok (w_switch (world p1))" "w_links (world p1) 1 = Some (handler (Some b))"
    "v_conn (w_switch (world p1)) = Map.empty(a \<mapsto> 0, b \<mapsto> 1)"
    "v_segment (w_switch (world p1)) b 1 = Some (new_ub_segment 1 b sz token ''RW'' tm)" "v_memory (w_switch (world p1)) b = Some ram"
    "cip_ready (v_cip (w_switch (world p1))) {(a, 3)}"
proof -
  let ?len = "int (length weights)" and ?ram = "replicate LOCAL_MEMORY_SIZE (0 :: byte)" and ?buf = "replicate (nat sz) (0 :: byte)"
  let ?seg = "\<lambda>sid n tm. new_ub_segment sid n sz token ''RW'' tm"
  have sz: "0 \<le> sz" "?len \<le> sz" "length weights \<le> nat sz" using assms(6) by linarith+
  obtain tm where su: "online 0 (Some a) (world pf)" "w_links (world pf) 1 = Some (handler (Some b))" "link_ok (w_switch (world pf))"
      "v_segment (w_switch (world pf)) b 1 = Some (?seg 1 b tm)" "v_memory (w_switch (world pf)) b = Some ?ram"
      "v_conn (w_switch (world pf)) = Map.empty(a \<mapsto> 0, b \<mapsto> 1)" "v_cip (w_switch (world pf)) = new_engine CIP_SUITE_AES_256_GCM 64"
    using assms(1) unfolding paired_def by blast
  obtain k1 jid where k1: "create_secure_jetty b 1 token k = (k1, jid)" by fastforce
  have k: "jid = 1" "u_node k1 = a" "u_device k1 = device_at a npu 3" "u_next_seg k1 = 2"
    "dict_get (u_segments k1) 1 = Some (new_segment 1 sz token ''RW'' ?buf)"
    "dict_get (u_jetties k1) 1 = Some (new_jetty 1 b 1 token (Some (new_engine CIP_SUITE_AES_256_GCM 64)))"
    using secure_jetty_context [OF k1] unfolding assms(11) by simp_all
  have s1: "length weights \<le> length (u_buffer (new_segment 1 sz token ''RW'' ?buf))" using sz(3) by simp
  note f1 = filled_bytes [OF k(5) s1]
  let ?k2 = "fill_segment 1 0 ?len weights k1"
  have ram: "length ?ram < 2 ^ 32" "?len \<le> int (length ?ram)" using assms(8) by (simp_all add: LOCAL_MEMORY_SIZE_def)
  have acc: "accessible (world pf) b 1 0 ?len True token 1 ?ram"
    using grants_full [OF su(4), of 0 ?len True] assms(4,5) ram sz su by (simp add: accessible_def)
  have k2: "u_device ?k2 = device_at a npu 3" "dict_get (u_jetties ?k2) 1 = Some (new_jetty 1 b 1 token (Some (new_engine CIP_SUITE_AES_256_GCM 64)))"
    "u_node ?k2 = a" "u_next_seg ?k2 = 2" using k by simp_all
  have e: "cipher_suite (new_engine CIP_SUITE_AES_256_GCM 64) = CIP_SUITE_AES_256_GCM" by (simp add: new_engine_def)
  have w0: "weights \<noteq> []" "\<not> abstract_refuses 64 {} 3 a" using assms(9) by (auto simp: abstract_refuses_def)
  obtain p1 f eng rcv where c1: "exchange 0 (write_encrypted 1 1 0 1 0 ?len) ?k2 pf
        = (p1, (next_request ?k2)\<lparr>u_jetties := dict_set 1 ((new_jetty 1 b 1 token (Some (new_engine CIP_SUITE_AES_256_GCM 64)))\<lparr>j_cip := Some eng\<rparr>)
            (u_jetties ?k2)\<rparr>, Inr (JFloat lat))" "cipher_suite eng = CIP_SUITE_AES_256_GCM" "cip_ready rcv {(a, 3)}"
      and w1: "world p1 = served 0 (Some a) [(1, f)] (store b 0 weights ((w_switch (world pf))\<lparr>v_cip := rcv\<rparr>)) (world pf)"
    using write_encrypted_served [OF su(1,3) k2(1) _ _ k2(2) f1(2) _ e f1(3) [symmetric] refl w0(1) _ , of "{}" 1 0 1 ?ram]
      assms(3,10) acc k2(3) w0(2) su(7) cip_ready_new by auto
  let ?j = "(new_jetty 1 b 1 token (Some (new_engine CIP_SUITE_AES_256_GCM 64)))\<lparr>j_cip := Some eng\<rparr>"
  let ?k3 = "(next_request ?k2)\<lparr>u_jetties := dict_set 1 ?j (u_jetties ?k2)\<rparr>"
  have k3: "u_device ?k3 = device_at a npu 4" "u_node ?k3 = a" "u_next_seg ?k3 = 2" "dict_get (u_jetties ?k3) 1 = Some ?j" using k2 by simp_all
  have "online 0 (Some a) (world p1)" "link_ok (w_switch (world p1))" "w_links (world p1) 1 = Some (handler (Some b))"
    "v_conn (w_switch (world p1)) = Map.empty(a \<mapsto> 0, b \<mapsto> 1)" "v_segment (w_switch (world p1)) b 1 = Some (?seg 1 b tm)"
    "v_memory (w_switch (world p1)) b = Some ram" "cip_ready (v_cip (w_switch (world p1))) {(a, 3)}"
    using su c1(3) assms(12) by (simp_all add: w1 online_def view_effects) (simp add: link_ok_def)
  moreover have "j_remote_node ?j = b" "j_token ?j = token" "j_cip ?j = Some eng" by simp_all
  ultimately show ?thesis using that [OF k1 [unfolded k(1)] c1(1) k3 _ _ _ c1(2)] by blast
qed

lemma secured:
  assumes "paired a b token sz (world pf)" "a \<noteq> b" "u16 a" "u16 b" "u32 token" "int (length weights) \<le> sz" "sz < 10 ^ 20"
    and "length weights \<le> LOCAL_MEMORY_SIZE" "5 < length weights" "lat = view_latency (int (length weights)) (w_switch (world pf))"
    and "k = with_segment sz token ''RW'' (new_context a (device_at a npu 2))"
  shows "\<exists>pf1 ctx eng. cipher_suite eng = CIP_SUITE_AES_256_GCM
    \<and> secure_session a b token sz weights 0 1 k 1 1 pf
      = (case attacks 0 1 a b token 1 1 weights ctx pf1 of (pf2, r) \<Rightarrow> (pf2, rbind r (\<lambda>(m1, m2). Inr (JFloat lat, m1, m2))))
    \<and> u_device ctx = device_at a npu 6
    \<and> (\<exists>j. dict_get (u_jetties ctx) 1 = Some j \<and> j_cip j = Some eng)
    \<and> online 0 (Some a) (world pf1) \<and> link_ok (w_switch (world pf1)) \<and> w_links (world pf1) 1 = Some (handler (Some b))
    \<and> v_conn (w_switch (world pf1)) = Map.empty(a \<mapsto> 0, b \<mapsto> 1) \<and> cip_ready (v_cip (w_switch (world pf1))) {(a, 3)}
    \<and> (\<exists>m. accessible (world pf1) b 1 0 (int (length weights)) True token 1 m)"
proof -
  let ?len = "int (length weights)" and ?ram1 = "mem_write (replicate LOCAL_MEMORY_SIZE (0 :: byte)) 0 weights"
  obtain k1 p1 ctx eng j tm where w: "create_secure_jetty b 1 token k = (k1, 1)"
      "exchange 0 (write_encrypted 1 1 0 1 0 ?len) (fill_segment 1 0 ?len weights k1) pf = (p1, ctx, Inr (JFloat lat))"
      "u_device ctx = device_at a npu 4" "u_node ctx = a" "u_next_seg ctx = 2" "dict_get (u_jetties ctx) 1 = Some j"
      "j_remote_node j = b" "j_token j = token" "j_cip j = Some eng" "cipher_suite eng = CIP_SUITE_AES_256_GCM"
      "online 0 (Some a) (world p1)" "link_ok (w_switch (world p1))" "w_links (world p1) 1 = Some (handler (Some b))"
      "v_conn (w_switch (world p1)) = Map.empty(a \<mapsto> 0, b \<mapsto> 1)"
      "v_segment (w_switch (world p1)) b 1 = Some (new_ub_segment 1 b sz token ''RW'' tm)" "v_memory (w_switch (world p1)) b = Some ?ram1"
      "cip_ready (v_cip (w_switch (world p1))) {(a, 3)}"
    by (rule weights_written [OF assms refl])
  let ?k4 = "with_segment sz token ''RW'' ctx"
  let ?k5 = "fill_segment 2 0 ?len weights (next_request ?k4)"
  have m: "mem_read ?ram1 0 ?len = weights" "length ?ram1 = LOCAL_MEMORY_SIZE"
    using memory_written [of weights "replicate LOCAL_MEMORY_SIZE 0"] assms(8) by simp_all
  obtain p2 p3 seg rlat where c2: "exchange 0 (u_register_segment (Seg_Size sz) token ''RW'') ctx p1 = (p2, ?k4, Inr 2)"
      and c3: "exchange 0 (u_read 1 2 0 1 0 ?len) ?k4 p2 = (p3, ?k5, Inr rlat)" and d: "segment_bytes 2 0 ?len ?k5 = Inr weights" and sn: "seg_node seg = a"
      and w3: "world p3 = (let w2 = served 0 (Some a) [] (add_segment seg (w_switch (world p1))) (world p1) in served 0 (Some a) [] (w_switch w2) w2)"
    using segment_read_back [OF w(11-16) m(2,1) refl assms(2-8) w(3) _ _ w(4-8) refl refl] by auto
  have k4: "u_device ?k4 = device_at a npu 5" "dict_get (u_jetties ?k4) 1 = Some j" using w(3,6) by simp_all
  have seg3: "v_segment (w_switch (world p3)) b 1 = Some (new_ub_segment 1 b sz token ''RW'' tm)" using w(15) assms(2) sn by (simp add: w3 Let_def view_effects)
  have acc3: "accessible (world p3) b 1 0 ?len True token 1 ?ram1"
    using grants_full [OF seg3, of 0 ?len True] w(12-14,16) m(2) assms(2,4-6,8) by (simp add: accessible_def w3 Let_def view_effects LOCAL_MEMORY_SIZE_def)
  have "secure_session a b token sz weights 0 1 k 1 1 pf
      = (case attacks 0 1 a b token 1 1 weights ?k5 p3 of (pf2, r) \<Rightarrow> (pf2, rbind r (\<lambda>(m1, m2). Inr (JFloat lat, m1, m2))))"
    unfolding secure_session_def Let_def w(1) prod.case run_call_value [OF w(2)] run_call_value [OF c2] run_call_value [OF c3] d by simp
  moreover have "u_device ?k5 = device_at a npu 6" "dict_get (u_jetties ?k5) 1 = Some j" using k4 by simp_all
  moreover have "online 0 (Some a) (world p3)" "link_ok (w_switch (world p3))" "w_links (world p3) 1 = Some (handler (Some b))"
    "v_conn (w_switch (world p3)) = Map.empty(a \<mapsto> 0, b \<mapsto> 1)" "cip_ready (v_cip (w_switch (world p3))) {(a, 3)}"
    "accessible (world p3) b 1 0 ?len True token 1 ?ram1"
    using w(11-14,17) acc3 by (simp_all add: w3 Let_def online_def view_effects)
  ultimately show ?thesis using w(9,10) by blast
qed

text \<open>
  C11. Example 06 on every fresh switch, for all nodes, tokens, sizes and data that fit: the encrypted write
  reports the latency of the link, the plaintext is read back, the packet with the flipped byte is answered
  with the tampering error unless the truncated HMAC of the corrupted ciphertext happens to be the old tag,
  and its repetition is refused as a duplicate in either case, so although the first copy failed, its number
  is spent. After the two closes no node is attached.
\<close>

theorem secure_demo_verified:
  assumes "fl bw = bw" "1 \<le> bw" "bw < 10 ^ 15" "0 \<le> hop" "hop \<le> 2 ^ 30" "u16 a" "u16 b" "a \<noteq> b" "u32 token"
    and "5 < length weights" "int (length weights) \<le> sz" "sz < 10 ^ 20" "length weights \<le> LOCAL_MEMORY_SIZE"
    and "lat = latency_of (int (length weights)) (new_fabric bw hop)"
  shows "\<exists>pf ct tag bad. snd (encrypt_and_tag (new_engine CIP_SUITE_AES_256_GCM 64) weights token 99) = Inr (ct, tag)
    \<and> flip_byte 5 ct = Inr bad \<and> bad \<noteq> ct
    \<and> secure_transfer a b token sz weights (new_platform bw hop clock)
      = (pf, Inr (JFloat lat, if tag = tag_of CIP_SUITE_AES_256_GCM token 99 bad then None else Some (JStr tamper_message),
                  Some (JStr (duplicate_message 99))))
    \<and> nodes (daemon (p_server pf)) = []"
proof -
  let ?w = "new_platform bw hop clock" and ?len = "int (length weights)"
  let ?k = "with_segment sz token ''RW'' (new_context a (device_at a npu 2))"
  have "link_ok (w_switch (world ?w))" "0 \<le> sz" using assms(1-5,11) by simp_all
  from two_segments_set_up [OF this(1) refl assms(6-9) this(2) assms(12), of "secure_session a b token sz weights"] obtain pf where
    s: "secure_transfer a b token sz weights ?w = secure_session a b token sz weights 0 1 ?k 1 1 pf"
      "paired a b token sz (world pf)" "lat = view_latency ?len (w_switch (world pf))"
    using assms(14) unfolding secure_transfer_def by auto
  obtain pf1 ctx eng j m where r: "cipher_suite eng = CIP_SUITE_AES_256_GCM"
      "secure_transfer a b token sz weights ?w = (case attacks 0 1 a b token 1 1 weights ctx pf1 of (pf2, r) \<Rightarrow> (pf2, rbind r (\<lambda>(m1, m2). Inr (JFloat lat, m1, m2))))"
      "u_device ctx = device_at a npu 6" "dict_get (u_jetties ctx) 1 = Some j" "j_cip j = Some eng"
      "online 0 (Some a) (world pf1)" "link_ok (w_switch (world pf1))" "w_links (world pf1) 1 = Some (handler (Some b))"
      "v_conn (w_switch (world pf1)) = Map.empty(a \<mapsto> 0, b \<mapsto> 1)" "cip_ready (v_cip (w_switch (world pf1))) {(a, 3)}"
      "accessible (world pf1) b 1 0 ?len True token 1 m"
    using secured [OF s(2) assms(8,6,7,9,11-13,10) s(3) refl] unfolding s(1) by blast
  have c: "snd (encrypt_and_tag eng weights token 99) = snd (encrypt_and_tag (new_engine CIP_SUITE_AES_256_GCM 64) weights token 99)"
    using r(1) by (intro encrypt_same_suite) (simp add: new_engine_def)
  show ?thesis
    using attacks_answered [OF r(6-9) assms(8,6,7,9) r(3-5,1,10) _ assms(10) r(11)] unfolding r(2) c by fastforce
qed

theorem secure_demo_verified_witness:
  "\<exists>pf lat msg. example_06 (new_platform 800 15 (\<lambda>i. 0)) = (pf, Inr (JFloat lat, msg, Some (JStr (duplicate_message 99))))
    \<and> msg \<in> {None, Some (JStr tamper_message)} \<and> nodes (daemon (p_server pf)) = []"
proof -
  let ?text = "''[TOP-SECRET LLM TENSOR WEIGHTS: PARTITION 001 - AES-256-GCM PROTECTED]''"
  have "length (encode_utf8 ?text) = 70" by code_simp
  then have "length sensitive_weights = 700" by (simp add: sensitive_weights_def length_concat sum_list_replicate)
  moreover have "fl 800 = 800" using fl_of_int [of 800] by simp
  ultimately show ?thesis
    using secure_demo_verified [of 800 15 1 3 "0x55AA1234" sensitive_weights "64 * 1024" _ "\<lambda>i. 0", OF _ _ _ _ _ _ _ _ _ _ _ _ _ refl]
    by (fastforce simp: example_06_def u16_def u32_def LOCAL_MEMORY_SIZE_def)
qed

end
