(* ===== verification/Example_Trace.thy ===== *)
theory Example_Trace
  imports Example_Programs
begin

text \<open>
  Example 05 (\<open>examples/05_benchlib_synthetic_trace.py\<close>): a ring of nodes with a segment and a jetty each,
  and a loop over the layers of a model in which the first node writes twice to the second and adds up
  simulated time. Nodes, token, sizes and the number of layers are parameters; what the program prints is
  left out.
\<close>

section \<open>Programs over lists\<close>

text \<open>A list comprehension whose elements are calls.\<close>

fun run_map :: "('a \<Rightarrow> platform \<Rightarrow> platform \<times> 'b result) \<Rightarrow> 'a list \<Rightarrow> platform \<Rightarrow> platform \<times> 'b list result" where
  "run_map f [] pf = (pf, Inr [])"
| "run_map f (x # xs) pf =
     (case f x pf of
        (pf1, Inl e) \<Rightarrow> (pf1, Inl e)
      | (pf1, Inr y) \<Rightarrow> (case run_map f xs pf1 of (pf2, r) \<Rightarrow> (pf2, rbind r (\<lambda>ys. Inr (y # ys)))))"

lemma run_map_runs:
  assumes "P 0 (world pf)" "length ys = length xs"
    and "\<And>i pf. i < length xs \<Longrightarrow> P i (world pf) \<Longrightarrow> \<exists>pf1. f (xs ! i) pf = (pf1, Inr (ys ! i)) \<and> P (Suc i) (world pf1)"
  shows "\<exists>pf1. run_map f xs pf = (pf1, Inr ys) \<and> P (length xs) (world pf1)"
  using assms
proof (induction xs arbitrary: ys pf P)
  case (Cons x xs)
  then obtain y ys1 where ys: "ys = y # ys1" "length ys1 = length xs" by (cases ys) auto
  obtain pf1 where pf1: "f x pf = (pf1, Inr y)" "P 1 (world pf1)" using Cons.prems(3) [of 0 pf] Cons.prems(1) ys by auto
  have "\<exists>pf2. run_map f xs pf1 = (pf2, Inr ys1) \<and> P (Suc (length xs)) (world pf2)"
    using Cons.IH [of "\<lambda>i. P (Suc i)" pf1 ys1] Cons.prems(3) [of "Suc _"] pf1(2) ys by simp
  then show ?case using pf1(1) ys by auto
qed simp

section \<open>The program\<close>

text \<open>The context of a node with its connection, then its segment, then its jetty.\<close>

definition connect_member :: "int \<Rightarrow> platform \<Rightarrow> platform \<times> (nat \<times> urma_context) result" where
  "connect_member n = run_connect n ''ASCEND_NPU'' (\<lambda>c dev pf. (pf, Inr (c, new_context n dev)))"

definition register_member :: "int \<Rightarrow> int \<Rightarrow> nat \<times> urma_context \<Rightarrow> platform \<Rightarrow> platform \<times> (nat \<times> urma_context \<times> int) result" where
  "register_member token sz m =
     (case m of (c, ctx) \<Rightarrow> run_call c (u_register_segment (Seg_Size sz) token ''RW'') ctx (\<lambda>ctx1 sid pf. (pf, Inr (c, ctx1, sid))))"

definition connect_next ::
  "int \<Rightarrow> (nat \<times> urma_context \<times> int) \<times> int \<Rightarrow> platform \<Rightarrow> platform \<times> (nat \<times> urma_context \<times> int \<times> int) result"
where
  "connect_next token m =
     (case m of ((c, ctx, sid), next_node) \<Rightarrow>
        run_call c (u_create_jetty next_node 1 token) ctx (\<lambda>ctx1 jid pf. (pf, Inr (c, ctx1, sid, jid))))"

definition trace_ring :: "int list \<Rightarrow> int \<Rightarrow> int \<Rightarrow> platform \<Rightarrow> platform \<times> (nat \<times> urma_context \<times> int \<times> int) list result" where
  "trace_ring ns token sz pf =
     (case run_map connect_member ns pf of
        (pf1, Inl e) \<Rightarrow> (pf1, Inl e)
      | (pf1, Inr ms) \<Rightarrow>
          (case run_map (register_member token sz) ms pf1 of
             (pf2, Inl e) \<Rightarrow> (pf2, Inl e)
           | (pf2, Inr regs) \<Rightarrow> run_map (connect_next token) (zip regs (rotate1 ns)) pf2))"

text \<open>\<open>(lat * 3) / 1000.0 + 8.5\<close>.\<close>

definition comm_us :: "json \<Rightarrow> pyfloat result" where
  "comm_us lat =
     rbind (case lat of
              JFloat x \<Rightarrow> Inr (fmul x 3)
            | JInt i \<Rightarrow> float_of_int (i * 3)
            | JBool b \<Rightarrow> Inr (if b then 3 else 0)
            | _ \<Rightarrow> Inl TypeError)
       (\<lambda>x. rbind (fdiv x 1000) (\<lambda>y. Inr (fadd y (17 / 2))))"

definition layer_time :: "pyfloat \<Rightarrow> pyfloat \<Rightarrow> pyfloat" where
  "layer_time comm1 comm2 = fadd (fadd (fmul 450 (5 / 2)) comm1) comm2"

text \<open>The loop over the layers: the simulated time and the bytes reported at the end.\<close>

fun run_layers ::
  "nat \<Rightarrow> nat \<Rightarrow> int \<Rightarrow> int \<Rightarrow> int \<Rightarrow> bytes \<Rightarrow> urma_context \<Rightarrow> pyfloat \<Rightarrow> int \<Rightarrow> platform \<Rightarrow> platform \<times> (pyfloat \<times> int) result"
where
  "run_layers 0 c jid s0 s1 pay ctx tm sent pf = (pf, Inr (tm, sent))"
| "run_layers (Suc k) c jid s0 s1 pay ctx tm sent pf =
     (let len = int (length pay) in
      run_call c (u_write jid s0 0 s1 0 len) (fill_segment s0 0 len pay ctx) (\<lambda>ctx1 lat pf1.
        case comm_us lat of
          Inl e \<Rightarrow> (pf1, Inl e)
        | Inr comm1 \<Rightarrow>
            run_call c (u_write jid s0 0 s1 0 len) ctx1 (\<lambda>ctx2 lat2 pf2.
              case comm_us lat2 of
                Inl e \<Rightarrow> (pf2, Inl e)
              | Inr comm2 \<Rightarrow>
                  run_layers k c jid s0 s1 pay ctx2 (fadd tm (layer_time comm1 comm2)) (sent + len * 4) pf2) pf1) pf)"

text \<open>The example has four nodes; with fewer than two there is no \<open>segs[1]\<close>.\<close>

definition synthetic_trace :: "int list \<Rightarrow> int \<Rightarrow> int \<Rightarrow> nat \<Rightarrow> bytes \<Rightarrow> platform \<Rightarrow> platform \<times> (pyfloat \<times> int) result" where
  "synthetic_trace ns token sz layers pay pf =
     (case trace_ring ns token sz pf of
        (pf1, Inl e) \<Rightarrow> (pf1, Inl e)
      | (pf1, Inr ms) \<Rightarrow>
          (case ms of
             (c0, ctx0, s0, jid) # (c1, ctx1, s1, jid1) # _ \<Rightarrow>
               (case run_layers layers c0 jid s0 s1 pay ctx0 0 0 pf1 of
                  (pf2, Inl e) \<Rightarrow> (pf2, Inl e)
                | (pf2, Inr r) \<Rightarrow> (foldl (\<lambda>pf m. hang_up (fst m) pf) pf2 ms, Inr r))
           | _ \<Rightarrow> (pf1, Inl IndexError)))"

definition example_05 :: "nat \<Rightarrow> platform \<Rightarrow> platform \<times> (pyfloat \<times> int) result" where
  "example_05 layers = synthetic_trace [3, 4, 5, 6] 0x9999 (4 * 1024 * 1024) layers (replicate (128 * 1024) 88)"

section \<open>The ring\<close>

text \<open>The nodes \<open>ns\<close> are attached over the first connections, in this order, and nothing is unread.\<close>

definition joined :: "switch_view \<Rightarrow> int list \<Rightarrow> world \<Rightarrow> bool" where
  "joined v0 ns w \<longleftrightarrow>
     sockets_ok w \<and> v_running (w_switch w) \<and> link_ok (w_switch w) \<and> w_sockets w = length ns \<and> w_mail w = []
     \<and> (\<forall>n. view_latency n (w_switch w) = view_latency n v0)
     \<and> (\<forall>i<length ns. w_links w i = Some (handler (Some (ns ! i))) \<and> v_conn (w_switch w) (ns ! i) = Some i
          \<and> v_memory (w_switch w) (ns ! i) = Some (replicate LOCAL_MEMORY_SIZE 0))
     \<and> (\<forall>n. n \<notin> set ns \<longrightarrow> v_conn (w_switch w) n = None)"

lemma joined_online: "joined v0 ns w \<Longrightarrow> i < length ns \<Longrightarrow> online i (Some (ns ! i)) w"
  by (simp add: joined_def online_def)

lemma member_connected:
  assumes "joined v0 ns (world pf)" "n \<notin> set ns" "u16 n"
  shows "\<exists>pf1. connect_member n pf = (pf1, Inr (length ns, new_context n (device_at n npu 2))) \<and> joined v0 (ns @ [n]) (world pf1)"
proof -
  note j = assms(1) [unfolded joined_def]
  obtain pf1 where c: "connect_device n npu pf = (pf1, length ns, Inr (device_at n npu 2))" and
      w: "world pf1 = (served (length ns) (Some n) [] (attach n (length ns) (w_switch (world pf))) (world pf))\<lparr>w_sockets := length ns + 1\<rparr>"
    using connect_device_served [of pf n npu "length ns"] j assms(3) by auto
  have "sockets_ok (world pf1)" unfolding w using j by (intro sockets_ok_connected) simp_all
  moreover have "w_links (world pf1) i = Some (handler (Some ((ns @ [n]) ! i))) \<and> v_conn (w_switch (world pf1)) ((ns @ [n]) ! i) = Some i
      \<and> v_memory (w_switch (world pf1)) ((ns @ [n]) ! i) = Some (replicate LOCAL_MEMORY_SIZE 0)" if i: "i < length (ns @ [n])" for i
  proof (cases "i = length ns")
    case False
    then have "i < length ns" using i by simp
    moreover from this have "ns ! i \<noteq> n" using assms(2) nth_mem by blast
    ultimately show ?thesis using j by (simp add: w view_effects nth_append)
  qed (simp add: w view_effects)
  ultimately have "joined v0 (ns @ [n]) (world pf1)"
    using j unfolding joined_def by (simp add: w view_effects)
  then show ?thesis using c by (simp add: connect_member_def run_connect_value)
qed

lemma ring_connected:
  assumes "joined v0 [] (world pf)" "distinct ns" "\<forall>n\<in>set ns. u16 n"
  shows "\<exists>pf1. run_map connect_member ns pf = (pf1, Inr (map (\<lambda>i. (i, new_context (ns ! i) (device_at (ns ! i) npu 2))) [0..<length ns]))
    \<and> joined v0 ns (world pf1)"
proof -
  let ?ys = "map (\<lambda>i. (i, new_context (ns ! i) (device_at (ns ! i) npu 2))) [0..<length ns]"
  have "\<exists>pf1. run_map connect_member ns pf = (pf1, Inr ?ys) \<and> joined v0 (take (length ns) ns) (world pf1)"
  proof (rule run_map_runs [where P = "\<lambda>i. joined v0 (take i ns)"])
    fix i p assume i: "i < length ns" "joined v0 (take i ns) (world p)"
    have "ns ! i \<notin> set (take i ns)" using assms(2) i(1) by (metis distinct_take id_take_nth_drop not_distinct_conv_prefix)
    then show "\<exists>pf1. connect_member (ns ! i) p = (pf1, Inr (?ys ! i)) \<and> joined v0 (take (Suc i) ns) (world pf1)"
      using member_connected [OF i(2)] assms(3) i(1) by (simp add: take_Suc_conv_app_nth min_absorb2 less_imp_le)
  qed (use assms(1) in simp_all)
  then show ?thesis by simp
qed

lemma joined_served:
  assumes "joined v0 ns w" "i < length ns" "v = w_switch w \<or> v = add_segment seg (w_switch w)"
  shows "joined v0 ns (served i (Some (ns ! i)) [] v w)"
proof -
  have "sockets_ok (served i (Some (ns ! i)) [] v w)" using assms(1,2) by (intro sockets_ok_served) (simp_all add: joined_def)
  then show ?thesis using assms by (auto simp: joined_def view_effects)
qed

definition segments_upto :: "int list \<Rightarrow> int \<Rightarrow> int \<Rightarrow> nat \<Rightarrow> world \<Rightarrow> bool" where
  "segments_upto ns token sz k w \<longleftrightarrow> (\<forall>i<k. \<exists>t. v_segment (w_switch w) (ns ! i) 1 = Some (new_ub_segment 1 (ns ! i) sz token ''RW'' t))"

lemma ring_registered:
  assumes "joined v0 ns (world pf)" "distinct ns" "\<forall>n\<in>set ns. u16 n" "u32 token" "0 \<le> sz" "sz < 10 ^ 20"
    and "k = (\<lambda>i. new_context (ns ! i) (device_at (ns ! i) npu 2))"
  shows "\<exists>pf1. run_map (register_member token sz) (map (\<lambda>i. (i, k i)) [0..<length ns]) pf
      = (pf1, Inr (map (\<lambda>i. (i, with_segment sz token ''RW'' (k i), 1)) [0..<length ns]))
    \<and> joined v0 ns (world pf1) \<and> segments_upto ns token sz (length ns) (world pf1)"
proof -
  let ?xs = "map (\<lambda>i. (i, k i)) [0..<length ns]" and ?ys = "map (\<lambda>i. (i, with_segment sz token ''RW'' (k i), 1 :: int)) [0..<length ns]"
  have "\<exists>pf1. run_map (register_member token sz) ?xs pf = (pf1, Inr ?ys)
      \<and> joined v0 ns (world pf1) \<and> segments_upto ns token sz (length ?xs) (world pf1)"
  proof (rule run_map_runs [where P = "\<lambda>i w. joined v0 ns w \<and> segments_upto ns token sz i w"])
    fix i p assume i: "i < length ?xs" "joined v0 ns (world p) \<and> segments_upto ns token sz i (world p)"
    then have l: "i < length ns" by simp
    let ?seg = "new_ub_segment 1 (ns ! i) sz token ''RW'' (w_time (world p) (w_calls (world p)))"
    obtain p1 where c: "exchange i (u_register_segment (Seg_Size sz) token ''RW'') (k i) p = (p1, with_segment sz token ''RW'' (k i), Inr 1)" and
        w: "world p1 = served i (Some (ns ! i)) [] (add_segment ?seg (w_switch (world p))) (world p)"
      using register_segment_served [OF joined_online [OF conjunct1 [OF i(2)] l], of "k i" "ns ! i" npu 2 token sz "''RW''" "''RW''" 1]
        assms(3-7) l py_upper_RW by auto
    have "joined v0 ns (world p1)" unfolding w using joined_served [OF conjunct1 [OF i(2)] l] by blast
    moreover have "segments_upto ns token sz (Suc i) (world p1)"
      using i(2) assms(2) l nth_eq_iff_index_eq [of ns] by (auto simp: segments_upto_def less_Suc_eq w view_effects)
    ultimately show "\<exists>pf1. register_member token sz (?xs ! i) p = (pf1, Inr (?ys ! i)) \<and> joined v0 ns (world pf1) \<and> segments_upto ns token sz (Suc i) (world pf1)"
      using c l by (simp add: register_member_def run_call_value)
  qed (use assms(1) in \<open>simp_all add: segments_upto_def\<close>)
  then show ?thesis by simp
qed

lemma ring_closed:
  assumes "joined v0 ns (world pf)" "segments_upto ns token sz m (world pf)" "\<forall>n\<in>set ns. u16 n" "u32 token"
    and "k = (\<lambda>i. with_segment sz token ''RW'' (new_context (ns ! i) (device_at (ns ! i) npu 2)))"
  shows "\<exists>pf1. run_map (connect_next token) (zip (map (\<lambda>i. (i, k i, 1)) [0..<length ns]) (rotate1 ns)) pf
      = (pf1, Inr (map (\<lambda>i. (i, with_jetty (rotate1 ns ! i) 1 token (k i), 1, 1)) [0..<length ns]))
    \<and> joined v0 ns (world pf1) \<and> segments_upto ns token sz m (world pf1)"
proof -
  let ?xs = "zip (map (\<lambda>i. (i, k i, 1 :: int)) [0..<length ns]) (rotate1 ns)"
  let ?ys = "map (\<lambda>i. (i, with_jetty (rotate1 ns ! i) 1 token (k i), 1 :: int, 1 :: int)) [0..<length ns]"
  show ?thesis
  proof (rule run_map_runs [where P = "\<lambda>i w. joined v0 ns w \<and> segments_upto ns token sz m w" and xs = ?xs])
    fix i p assume i: "i < length ?xs" "joined v0 ns (world p) \<and> segments_upto ns token sz m (world p)"
    then have l: "i < length ns" by simp
    have nx: "u16 (rotate1 ns ! i)" using assms(3) l by (metis length_rotate1 nth_mem set_rotate1)
    obtain p1 where c: "exchange i (u_create_jetty (rotate1 ns ! i) 1 token) (k i) p = (p1, with_jetty (rotate1 ns ! i) 1 token (k i), Inr 1)" and
        w: "world p1 = served i (Some (ns ! i)) [] (w_switch (world p)) (world p)"
      using create_jetty_served [OF joined_online [OF conjunct1 [OF i(2)] l], of "k i" "ns ! i" npu 3 token "rotate1 ns ! i" 1 1] nx
        assms(3-5) l by auto
    have "joined v0 ns (world p1)" unfolding w using joined_served [OF conjunct1 [OF i(2)] l] by blast
    moreover have "segments_upto ns token sz m (world p1)" using i(2) by (simp add: segments_upto_def w)
    ultimately show "\<exists>pf1. connect_next token (?xs ! i) p = (pf1, Inr (?ys ! i)) \<and> joined v0 ns (world pf1) \<and> segments_upto ns token sz m (world pf1)"
      using c l by (simp add: connect_next_def run_call_value)
  qed (use assms(1,2) in simp_all)
qed

section \<open>The loop\<close>

text \<open>The ring while the first node writes to the second.\<close>

definition ring_ok :: "switch_view \<Rightarrow> int list \<Rightarrow> int \<Rightarrow> int \<Rightarrow> world \<Rightarrow> bool" where
  "ring_ok v0 ns token sz w \<longleftrightarrow>
     v_running (w_switch w) \<and> link_ok (w_switch w) \<and> 0 \<notin> fst ` set (w_mail w)
     \<and> (\<forall>n. view_latency n (w_switch w) = view_latency n v0)
     \<and> (\<forall>i<length ns. w_links w i = Some (handler (Some (ns ! i))) \<and> v_conn (w_switch w) (ns ! i) = Some i)
     \<and> (\<forall>n. n \<notin> set ns \<longrightarrow> v_conn (w_switch w) n = None)
     \<and> (\<exists>t. v_segment (w_switch w) (ns ! 1) 1 = Some (new_ub_segment 1 (ns ! 1) sz token ''RW'' t))
     \<and> (\<exists>m. v_memory (w_switch w) (ns ! 1) = Some m \<and> length m = LOCAL_MEMORY_SIZE)"

definition writer_ok :: "int list \<Rightarrow> int \<Rightarrow> int \<Rightarrow> nat \<Rightarrow> urma_context \<Rightarrow> bool" where
  "writer_ok ns token s len ctx \<longleftrightarrow> u_node ctx = ns ! 0 \<and> u_device ctx = device_at (ns ! 0) npu s
     \<and> dict_get (u_jetties ctx) 1 = Some (new_jetty 1 (ns ! 1) 1 token None)
     \<and> (\<exists>seg. dict_get (u_segments ctx) 1 = Some seg \<and> len \<le> length (u_buffer seg))"

text \<open>One write of the first node.\<close>

lemma ring_write:
  assumes "ring_ok v0 ns token sz (world pf)" "writer_ok ns token s n ctx" "dict_get (u_segments ctx) 1 = Some seg"
    and "pay = local_bytes seg 0 len" "len = int (length pay)" "2 \<le> length ns" "distinct ns" "\<forall>n\<in>set ns. u16 n" "u32 token" "u32 s"
    and "len \<le> sz" "length pay \<le> LOCAL_MEMORY_SIZE"
  shows "\<exists>pf1. exchange 0 (u_write 1 1 0 1 0 len) ctx pf = (pf1, next_request ctx, Inr (JFloat (view_latency len v0)))
    \<and> ring_ok v0 ns token sz (world pf1)"
proof -
  note r = assms(1) [unfolded ring_ok_def]
  have b: "0 < length ns" "1 < length ns" using assms(6) by linarith+
  then have b: "0 < length ns" "1 < length ns" "ns ! 0 \<noteq> ns ! 1" "u16 (ns ! 0)" "u16 (ns ! 1)"
    using nth_eq_iff_index_eq [OF assms(7), of 0 1] bspec [OF assms(8) nth_mem [of 0]] bspec [OF assms(8) nth_mem [of 1]]
    by (simp_all del: One_nat_def)
  obtain t m where tm: "v_segment (w_switch (world pf)) (ns ! 1) 1 = Some (new_ub_segment 1 (ns ! 1) sz token ''RW'' t)"
    "v_memory (w_switch (world pf)) (ns ! 1) = Some m" "length m = LOCAL_MEMORY_SIZE" using r by blast
  have acc: "accessible (world pf) (ns ! 1) 1 0 len True token 1 m"
    using grants_full [OF tm(1), of 0 len True] tm r b assms(5,9,11,12) by (simp add: accessible_def LOCAL_MEMORY_SIZE_def)
  have o: "online 0 (Some (ns ! 0)) (world pf)" "link_ok (w_switch (world pf))" using r b(1) by (simp_all add: online_def)
  have k: "u_node ctx = ns ! 0" "u_device ctx = device_at (ns ! 0) npu s" "dict_get (u_jetties ctx) 1 = Some (new_jetty 1 (ns ! 1) 1 token None)"
    using assms(2) by (simp_all add: writer_ok_def)
  obtain pf1 f where c: "exchange 0 (u_write 1 1 0 1 0 len) ctx pf = (pf1, next_request ctx, Inr (JFloat (view_latency len (w_switch (world pf)))))" and
      w: "world pf1 = served 0 (Some (ns ! 0)) [(1, f)] (store (ns ! 1) 0 pay (w_switch (world pf))) (world pf)"
    using write_served [OF o k(2) _ assms(10) k(3) assms(3-5), of 1 0 1 m] acc b(4) k(1) by auto
  have "length (mem_write m 0 pay) = LOCAL_MEMORY_SIZE" using memory_written(2) [of pay m] tm(3) assms(12) by simp
  then have "ring_ok v0 ns token sz (world pf1)"
    using r tm by (auto simp: ring_ok_def w view_effects)
  then show ?thesis using c r by simp
qed

text \<open>A pass through the loop adds the same time.\<close>

definition comm_time :: "pyfloat \<Rightarrow> pyfloat" where
  "comm_time lat = fadd (fl (fmul lat 3 / 1000)) (17 / 2)"

lemma comm_us_float: "comm_us (JFloat lat) = Inr (comm_time lat)"
  by (simp add: comm_us_def comm_time_def fdiv_def)

lemma layers_run:
  assumes "ring_ok v0 ns token sz (world pf)" "writer_ok ns token s (length pay) ctx" "2 \<le> length ns" "distinct ns" "\<forall>n\<in>set ns. u16 n"
    and "u32 token" "0 \<le> s" "s + 2 * int k < 2 ^ 32" "int (length pay) \<le> sz" "length pay \<le> LOCAL_MEMORY_SIZE"
    and "c = comm_time (view_latency (int (length pay)) v0)"
  shows "\<exists>pf1. run_layers k 0 1 1 1 pay ctx tm sent pf
      = (pf1, Inr (((\<lambda>t. fadd t (layer_time c c)) ^^ k) tm, sent + int k * (int (length pay) * 4))) \<and> ring_ok v0 ns token sz (world pf1)"
  using assms(1,2,7,8)
proof (induction k arbitrary: pf s ctx tm sent)
  case 0
  then show ?case by simp
next
  case (Suc k)
  let ?len = "int (length pay)"
  obtain seg where seg: "dict_get (u_segments ctx) 1 = Some seg" "length pay \<le> length (u_buffer seg)" using Suc.prems(2) by (auto simp: writer_ok_def)
  let ?k1 = "fill_segment 1 0 ?len pay ctx" and ?seg1 = "seg\<lparr>u_buffer := py_slice_set (u_buffer seg) 0 ?len pay\<rparr>"
  note f = filled_bytes(2,3) [OF seg]
  have l: "length (u_buffer ?seg1) = length (u_buffer seg)" using length_py_slice_set [of 0 pay "u_buffer seg"] seg(2) by simp
  have "length pay \<le> length (u_buffer ?seg1)" using l seg(2) by linarith
  then have k1: "writer_ok ns token s (length pay) ?k1"
    unfolding writer_ok_def using Suc.prems(2) [unfolded writer_ok_def] f(1) by (intro conjI exI [of _ ?seg1]) simp_all
  have s: "u32 s" "u32 (s + 1)" using Suc.prems(3,4) by (simp_all add: u32_def)
  obtain p1 where c1: "exchange 0 (u_write 1 1 0 1 0 ?len) ?k1 pf = (p1, next_request ?k1, Inr (JFloat (view_latency ?len v0)))" "ring_ok v0 ns token sz (world p1)"
    using ring_write [OF Suc.prems(1) k1 f(1) f(2) [symmetric] refl assms(3-6) s(1) assms(9,10)] by blast
  have k2: "writer_ok ns token (s + 1) (length pay) (next_request ?k1)" using k1 by (simp add: writer_ok_def)
  have f2: "dict_get (u_segments (next_request ?k1)) 1 = Some ?seg1" using f(1) by simp
  obtain p2 where c2: "exchange 0 (u_write 1 1 0 1 0 ?len) (next_request ?k1) p1 = (p2, next_request (next_request ?k1), Inr (JFloat (view_latency ?len v0)))"
      "ring_ok v0 ns token sz (world p2)"
    using ring_write [OF c1(2) k2 f2 f(2) [symmetric] refl assms(3-6) s(2) assms(9,10)] by blast
  have k3: "writer_ok ns token (s + 2) (length pay) (next_request (next_request ?k1))" using k2 by (simp add: writer_ok_def add.commute)
  obtain p3 where c3: "run_layers k 0 1 1 1 pay (next_request (next_request ?k1)) (fadd tm (layer_time c c)) (sent + ?len * 4) p2
      = (p3, Inr (((\<lambda>t. fadd t (layer_time c c)) ^^ k) (fadd tm (layer_time c c)), sent + ?len * 4 + int k * (?len * 4)))" "ring_ok v0 ns token sz (world p3)"
    using Suc.IH [OF c2(2) k3] Suc.prems(3,4) by auto
  have "run_layers (Suc k) 0 1 1 1 pay ctx tm sent pf
      = (p3, Inr (((\<lambda>t. fadd t (layer_time c c)) ^^ k) (fadd tm (layer_time c c)), sent + ?len * 4 + int k * (?len * 4)))"
    using c3(1) by (simp add: run_call_value [OF c1(1)] run_call_value [OF c2(1)] comm_us_float assms(11) Let_def)
  moreover have "((\<lambda>t. fadd t (layer_time c c)) ^^ k) (fadd tm (layer_time c c)) = ((\<lambda>t. fadd t (layer_time c c)) ^^ Suc k) tm"
    using funpow_swap1 [of "\<lambda>t. fadd t (layer_time c c)" k tm] by simp
  ultimately show ?case using c3(2) by (simp del: run_layers.simps funpow.simps add: algebra_simps)
qed

section \<open>The program runs to its end\<close>

lemma joined_fresh:
  assumes "w = new_platform bw hop clock" "link_ok (w_switch (world w))"
  shows "joined (w_switch (world w)) [] (world w)"
  using assms by (simp add: joined_def)

lemma ring_set_up:
  assumes "joined v0 [] (world pf)" "distinct ns" "\<forall>n\<in>set ns. u16 n" "u32 token" "0 \<le> sz" "sz < 10 ^ 20" "m = length ns"
    and "k = (\<lambda>i. with_jetty (rotate1 ns ! i) 1 token (with_segment sz token ''RW'' (new_context (ns ! i) (device_at (ns ! i) npu 2))))"
  shows "\<exists>pf1. trace_ring ns token sz pf = (pf1, Inr (map (\<lambda>i. (i, k i, 1, 1)) [0..<m]))
    \<and> joined v0 ns (world pf1) \<and> segments_upto ns token sz m (world pf1)"
proof -
  let ?k = "\<lambda>i. new_context (ns ! i) (device_at (ns ! i) npu 2)"
  obtain p1 where p1: "run_map connect_member ns pf = (p1, Inr (map (\<lambda>i. (i, ?k i)) [0..<length ns]))" "joined v0 ns (world p1)"
    using ring_connected [OF assms(1-3)] by blast
  obtain p2 where p2: "run_map (register_member token sz) (map (\<lambda>i. (i, ?k i)) [0..<length ns]) p1
        = (p2, Inr (map (\<lambda>i. (i, with_segment sz token ''RW'' (?k i), 1)) [0..<length ns]))"
      "joined v0 ns (world p2)" "segments_upto ns token sz (length ns) (world p2)"
    using ring_registered [OF p1(2) assms(2-6) refl] by blast
  obtain p3 where p3: "run_map (connect_next token) (zip (map (\<lambda>i. (i, with_segment sz token ''RW'' (?k i), 1)) [0..<length ns]) (rotate1 ns)) p2
        = (p3, Inr (map (\<lambda>i. (i, k i, 1, 1)) [0..<length ns]))"
      "joined v0 ns (world p3)" "segments_upto ns token sz (length ns) (world p3)"
    using ring_closed [OF p2(2,3) assms(3,4) refl] assms(8) by blast
  show ?thesis using p3 assms(7) by (simp add: trace_ring_def p1(1) p2(1))
qed

lemma ring_hung_up:
  assumes "ring_ok v0 ns token sz (world pf)" "distinct ns"
  shows "nodes (daemon (p_server (foldl (\<lambda>pf m. hang_up (fst m) pf) pf (map (\<lambda>i. (i, f i)) [0..<length ns])))) = []"
proof -
  let ?cns = "map (\<lambda>i. (i, ns ! i)) [0..<length ns]"
  have s0: "map snd ?cns = ns" by (simp add: comp_def map_nth)
  then have s: "snd ` set ?cns = set ns" by (metis set_map)
  have "nodes (daemon (p_server (foldl (\<lambda>pf (c, n). hang_up c pf) pf ?cns))) = []"
  proof (rule all_hang_up)
    show "distinct (map snd ?cns)" unfolding s0 by (rule assms(2))
    show "v_conn (w_switch (world pf)) n = None" if "n \<notin> snd ` set ?cns" for n
      using assms(1) that unfolding s by (simp add: ring_ok_def)
  qed (use assms(1) in \<open>auto simp: ring_ok_def comp_def\<close>)
  moreover have "foldl (\<lambda>pf (c, n). hang_up c pf) pf ?cns = foldl (\<lambda>pf m. hang_up (fst m) pf) pf (map (\<lambda>i. (i, f i)) [0..<length ns])"
    by (simp add: foldl_map)
  ultimately show ?thesis by simp
qed

text \<open>
  C12. Example 05 succeeds on every fresh switch: whatever the distinct nodes (two or more), the token, the
  segment size, the payload that fits and the number of layers (up to the numbers of a packet), all the
  connections, registrations and writes succeed over the wire, every layer adds the same simulated time,
  computed from the latency of the link, and after the closes no node is attached. The traffic reported is
  four times the payload per layer, of which the program writes two.
\<close>

theorem trace_completes:
  assumes "fl bw = bw" "1 \<le> bw" "bw < 10 ^ 15" "0 \<le> hop" "hop \<le> 2 ^ 30"
    and "distinct ns" "2 \<le> length ns" "\<forall>n\<in>set ns. u16 n" "u32 token" "sz < 10 ^ 20"
    and "int (length pay) \<le> sz" "length pay \<le> LOCAL_MEMORY_SIZE" "4 + 2 * int layers < 2 ^ 32"
    and "c = comm_time (latency_of (int (length pay)) (new_fabric bw hop))"
  shows "\<exists>pf. synthetic_trace ns token sz layers pay (new_platform bw hop clock)
      = (pf, Inr (((\<lambda>t. fadd t (layer_time c c)) ^^ layers) 0, int layers * (int (length pay) * 4)))
    \<and> nodes (daemon (p_server pf)) = []"
proof -
  let ?w = "new_platform bw hop clock"
  let ?v = "w_switch (world ?w)"
  let ?k = "\<lambda>i. with_jetty (rotate1 ns ! i) 1 token (with_segment sz token ''RW'' (new_context (ns ! i) (device_at (ns ! i) npu 2)))"
  let ?ms = "map (\<lambda>i. (i, ?k i, 1 :: int, 1 :: int)) [0..<length ns]"
  obtain l where l: "length ns = Suc (Suc l)" using assms(7) by (metis add_2_eq_Suc le_Suc_ex)
  have sz: "0 \<le> sz" "length pay \<le> nat sz" using assms(11) by linarith+
  have "link_ok ?v" using assms(1-5) by simp
  then have "joined ?v [] (world ?w)" by (rule joined_fresh [OF refl])
  from ring_set_up [OF this assms(6,8,9) sz(1) assms(10) refl refl] obtain p1 where
    p1: "trace_ring ns token sz ?w = (p1, Inr ?ms)" "joined ?v ns (world p1)" "segments_upto ns token sz (length ns) (world p1)" by blast
  have r: "ring_ok ?v ns token sz (world p1)"
    using p1(2,3) l by (auto simp: ring_ok_def joined_def segments_upto_def)
  have nx: "rotate1 ns ! 0 = ns ! 1" using nth_rotate1 [of 0 ns] l by simp
  have k: "writer_ok ns token 4 (length pay) (?k 0)" using sz(2) by (simp add: writer_ok_def nx)
  have ms: "?ms = (0, ?k 0, 1, 1) # (1, ?k 1, 1, 1) # map (\<lambda>i. (i, ?k i, 1, 1)) [2..<length ns]"
    by (simp add: l upt_conv_Cons numeral_2_eq_2 del: upt_Suc)
  have c: "c = comm_time (view_latency (int (length pay)) ?v)" using assms(14) by simp
  obtain p2 where p2: "run_layers layers 0 1 1 1 pay (?k 0) 0 0 p1
      = (p2, Inr (((\<lambda>t. fadd t (layer_time c c)) ^^ layers) 0, 0 + int layers * (int (length pay) * 4)))" "ring_ok ?v ns token sz (world p2)"
    using layers_run [OF r k assms(7,6,8,9) _ assms(13,11,12) c, of 0 0] by auto
  have "synthetic_trace ns token sz layers pay ?w = (foldl (\<lambda>pf m. hang_up (fst m) pf) p2 ?ms,
      Inr (((\<lambda>t. fadd t (layer_time c c)) ^^ layers) 0, int layers * (int (length pay) * 4)))"
    unfolding synthetic_trace_def p1(1) ms by (simp add: p2(1) del: foldl_Cons)
  then show ?thesis using ring_hung_up [OF p2(2) assms(6)] by simp
qed

theorem trace_completes_witness:
  "\<exists>pf tm. example_05 8 (new_platform 800 15 (\<lambda>i. 0)) = (pf, Inr (tm, 4194304)) \<and> nodes (daemon (p_server pf)) = []"
proof -
  have "fl 800 = 800" using fl_of_int [of 800] by simp
  then show ?thesis
    using trace_completes [of 800 15 "[3, 4, 5, 6]" "0x9999" "4 * 1024 * 1024" "replicate (128 * 1024) 88" 8 _ "\<lambda>i. 0", OF _ _ _ _ _ _ _ _ _ _ _ _ _ refl]
    by (auto simp: example_05_def u16_def u32_def LOCAL_MEMORY_SIZE_def)
qed

end
