(* ===== verification/Spec2Isabelle.thy ===== *)
theory Spec2Isabelle
  imports Services Hccl Config_Roundtrip Monitoring Launch Example_Pools Example_Dma Example_Ring Example_Security Example_Trace
begin

text \<open>
  The UnifiedBus virtual platform: a switch daemon in Python (\<open>src/unifiedbus-simulator/daemon\<close>) that
  connects virtual nodes over a Unix socket, and the guest SDK
  (\<open>src/unifiedbus-simulator/guest_sdk/python/unifiedbus\<close>) that programs on the nodes use. A node connects,
  registers itself, its memory segments and its endpoints (jetties) with packets, and then writes, reads
  and modifies the memory of other nodes by packets that the switch checks, applies to its own copy of the
  target's memory, relays to the target, and answers. This development is a shallow embedding of both
  sides: every method is a HOL function on explicit state, errors are values, and the theorems below say
  what the functions guarantee, alone and composed.

  Parts and theories, in the order of their dependencies.

  \<^item> \<open>UB_Prelude\<close>: Python exceptions (\<open>py_error\<close>) and the result type \<open>py_error + 'a\<close> with its bind
    \<open>rbind\<close>; bytes as \<open>8 word\<close>; slices and slice assignment with Python's treatment of bounds; dictionaries
    as association lists in insertion order. \<open>Py_Text\<close>, \<open>Py_Float\<close>, \<open>Py_Str\<close>: \<open>str\<close> of numbers, binary64
    arithmetic, the string methods of the configuration readers. \<open>Json\<close>: the encoder and decoder of
    \<open>json\<close>; \<open>Float_Roundtrip\<close>, \<open>Json_Roundtrip\<close>, \<open>Str_Roundtrip\<close>: what is printed reads back.
    \<open>Wire_Bytes\<close>: big-endian integers, UTF-8, CRC-32. \<open>Sha256\<close>: SHA-256 and HMAC. \<open>Allocator\<close>: the locale
    of id counters that never hand out an id twice, interpreted for pool ids, sequence numbers, segment,
    jetty and descriptor ids.
  \<^item> \<open>daemon/port.py\<close>: \<open>Opcodes\<close> (constants), \<open>Port\<close> (\<open>UBPacket\<close> is \<open>packet\<close>, its constructor \<open>ub_packet\<close>;
    \<open>serialize\<close>, \<open>deserialize_from_buffer\<close>): round trip and rejection of corrupted frames. \<open>Framing\<close>: the
    reassembly loops of both ends (\<open>read_frames\<close>, \<open>feed_chunks\<close>).
  \<^item> \<open>daemon/cip.py\<close>: \<open>Cip\<close> (\<open>cip_engine\<close>, \<open>encrypt_and_tag\<close>, \<open>decrypt_and_verify\<close>): round trip, replay
    window against the abstract set of accepted sequence numbers, no packet accepted twice.
  \<^item> \<open>daemon/router.py\<close>: \<open>Router\<close> (\<open>ub_segment\<close>, \<open>ub_jetty\<close>, \<open>ub_switch\<close> and one definition per method):
    well-formedness of the table, exactness of the access check, pools.
  \<^item> \<open>daemon/fabric.py\<close>: \<open>Memory\<close> (the memory of a node), \<open>Fabric_State\<close> (\<open>UBNodeConnection\<close> is \<open>ub_conn\<close>,
    \<open>UBFabricSwitch\<close> is \<open>fabric\<close>), \<open>Fabric_Handlers\<close> (one definition per branch of \<open>_process_packet\<close>),
    \<open>Fabric\<close> (\<open>process_packet\<close>; \<open>_handle_client\<close> as \<open>client_loop\<close>, \<open>client_chunk\<close>, \<open>close_client\<close>; the whole
    daemon as the step relation \<open>server_step\<close>), \<open>Fabric_Inv\<close> (the invariant of reachable states),
    \<open>Fabric_Access\<close> and \<open>Fabric_Protocol\<close> (what each handler does to memory, table, counters and answers),
    \<open>Fabric_Props\<close> (the properties of the daemon).
  \<^item> \<open>unifiedbus/device.py\<close>: \<open>Device\<close> (\<open>ub_device\<close>, \<open>rx_loop\<close>, \<open>send_sync\<close>, \<open>connect_and_register\<close>,
    \<open>close_device\<close>); \<open>Fabric_Guest\<close>: switch and device together.
  \<^item> \<open>unifiedbus/urma.py\<close>, \<open>unifiedbus/cip.py\<close>: \<open>Urma\<close>, \<open>Urma_Props\<close>. \<open>obmm.py\<close>: \<open>Obmm\<close>. \<open>cdma.py\<close>: \<open>Cdma\<close>.
    \<open>ums.py\<close>, \<open>urpc.py\<close>, \<open>coherence.py\<close>, \<open>sentry.py\<close>: \<open>Services\<close>. \<open>hccl.py\<close>: \<open>Hccl\<close>. \<open>ubctl.py\<close> and the
    request handler of \<open>visualizer/dashboard.py\<close>: \<open>Monitoring\<close>.
  \<^item> \<open>qemu/launcher.py\<close> and \<open>qemu_environment/qemu_multi_vm_runner.py\<close> (of the silicon repository):
    \<open>Cluster_Config\<close> (the two configuration readers, command lines, the book-keeping of virtual machines),
    \<open>Config_Props\<close>, \<open>Config_Roundtrip\<close>; \<open>Launch\<close> (both \<open>main\<close> programs with the processes they start and stop,
    the operating system being a parameter).
  \<^item> Everything together: \<open>Switch_View\<close> (the abstract switch: which nodes, memories, segments and pools exist;
    every request of the SDK is a step on it), \<open>Wire_Sizes\<close> (what the SDK writes fits the frame), \<open>Platform\<close>
    (daemon, connections and unread answers; a call is an exchange of bytes with the daemon), \<open>Remote_Calls\<close>
    (each call of the SDK against the abstract switch), \<open>Secure_Calls\<close> (the same for protected writes and
    for packets an attacker sends).
  \<^item> \<open>Schedules\<close>: the locale of programs of several threads whose every schedule runs to the end, interpreted
    for the tasks of example 02 and the ranks of example 04.
  \<^item> The programs under \<open>examples/\<close>, on the platform: \<open>Example_Programs\<close> (01), \<open>Example_Dma\<close> (02, whose threads
    are a step relation), \<open>Example_Pools\<close> (03), \<open>Example_Ring\<close> (04, whose ranks are), \<open>Example_Trace\<close> (05),
    \<open>Example_Security\<close> (06).

  What the properties show. The codec, the CIP engine and the stream reassembly are correct as round
  trips. The daemon keeps its invariant on every reachable state; a chunk of bytes is the sequence of its
  packets; every answer carries the request's number and the requester's node; a write changes exactly its
  range of exactly its target and a read returns it; atomics are exact; rejected and refused requests change
  nothing but counters and the replay window. The client libraries are proved against the switch's own answers: a call that the switch serves
  returns what the switch decided. The guest's memory refines the switch's copy for the operations that are
  relayed and applied. On the platform, whole programs succeed: from a fresh switch, for all nodes, tokens,
  sizes and data within the bounds of the wire, over serialized bytes in both directions; the threads of
  example 02 and the ranks of example 04 do so in every order. Configuration files read back, and the switch
  that is launched has the configured parameters. The launcher starts the daemon and the workload only, and
  stops what it started whenever it exits; the runner stops what it started, interrupted or not, with the
  exceptions its theorem names. Findings (places where the code, its comments and its examples disagree) are
  stated as theorems where they concern behaviour, and listed in the manifest.

  Modelling decisions.

  \<^item> Python's integers are \<^typ>\<open>int\<close>; fixed widths appear where the code packs or masks them. Text is Latin-1.
    Metadata fields must have the JSON type the SDK sends, anything else is the error \<open>Unmodelled\<close>, never a
    made-up behaviour. Floats are finite, rounded to 53 bits, with unbounded exponent; negative zero,
    infinities and NaN are \<open>Unmodelled\<close> where they can be written down.
  \<^item> The JSON decoder has fuel twice the length of the text plus two, which is proved to be enough; Python's
    limits on nesting and on 4300 digits are left out. Payloads of the CIP round trip are shorter than
    \<open>2\<^sup>37\<close> bytes (the four-byte block counter).
  \<^item> A packet is handled atomically: \<open>drain\<close> does not suspend below the buffer limit of asyncio, and locks make
    the methods of the table and of the device atomic. One clock reading serves a packet. \<open>lost\<close> of the
    environment tells which connections fail when written to.
  \<^item> A blocking call of the SDK takes the chunks that arrive until its deadline as an argument; running out of
    them is the timeout. Handles to segments and jetties are their ids in the context that made them.
  \<^item> The receive thread, the threads of DMA tasks and the main program interact through these calls only;
    \<open>sock_open\<close> stands for the state of the socket. On the platform a call is one exchange: what it sends is
    served and the answer read before another call begins. Calls of different threads come in any order.
  \<^item> The launcher's wait for the socket is a partial function: without a clock that advances it has no value.
    With one that advances by the time the loop sleeps it ends within a hundred looks.
  \<^item> The interrupt of the runner comes between its steps (a machine is started, it is filed, the demonstrator is
    started, it ends); that of the launcher in one of its two endless waits. Before a handler is installed
    nothing has been started. Interrupts of a shutdown are not modelled.

  Not modelled. Logging and printing (except the lines of \<open>ubctl\<close>), socket set-up, the creation of files,
  argument parsing (so a negative number in exponent form, which \<open>argparse\<close> takes for an option, reads as a
  number), the printed command lines of the launcher's mode \<open>qemu\<close> and the HTTP server, because they are input and output around the modelled functions;
  the test programs, which drive the modelled calls; NumPy and PyYAML, which are
  parameters; the browser page, the shell script and the C code of the repository (kernel driver, silicon
  model, C libraries and demonstrators), which are separate programs in other languages.
\<close>

end
